(* ===== verification/Prelude.thy ===== *)
theory Prelude
  imports Complex_Main "HOL-Library.Multiset" "HOL-Library.Sublist"
begin

text \<open>
  Shared vocabulary of the development: exceptions as values of a sum type with the
  sequencing operation \<open>ebind\<close>, Python's timezone-aware and naive datetimes, association
  lists with the insertion order of a Python dict, and the generic lemmas on lists and
  sorting that the component theories use. The collections declared here are filled by
  the components: \<open>err_simps\<close> unfolds the error plumbing, \<open>err_elims\<close> inverts a
  successful call.
\<close>

named_theorems err_simps \<open>equations of the error-passing operations\<close>
named_theorems err_elims \<open>inversion of successful error-passing calls\<close>

section \<open>Exceptions as values\<close>

text \<open>
  A Python call that may raise is a value of \<open>'e + 'a\<close>: \<open>Inl e\<close> is the raised
  exception, \<open>Inr x\<close> the returned value. \<open>ebind m f\<close> is \<open>f\<close> applied to the result
  of \<open>m\<close>, or \<open>m\<close>'s exception.
\<close>

definition ebind :: "'e + 'a \<Rightarrow> ('a \<Rightarrow> 'e + 'b) \<Rightarrow> 'e + 'b" where
  "ebind m f = (case m of Inl e \<Rightarrow> Inl e | Inr x \<Rightarrow> f x)"

definition require :: "bool \<Rightarrow> 'e \<Rightarrow> 'e + unit" where
  "require b e = (if b then Inr () else Inl e)"

definition map_err :: "('e \<Rightarrow> 'f) \<Rightarrow> 'e + 'a \<Rightarrow> 'f + 'a" where
  "map_err g m = (case m of Inl e \<Rightarrow> Inl (g e) | Inr x \<Rightarrow> Inr x)"

fun emap :: "('a \<Rightarrow> 'e + 'b) \<Rightarrow> 'a list \<Rightarrow> 'e + 'b list" where
  "emap f [] = Inr []"
| "emap f (x # xs) = ebind (f x) (\<lambda>y. ebind (emap f xs) (\<lambda>ys. Inr (y # ys)))"

fun efold :: "('a \<Rightarrow> 's \<Rightarrow> 'e + 's) \<Rightarrow> 'a list \<Rightarrow> 's \<Rightarrow> 'e + 's" where
  "efold f [] s = Inr s"
| "efold f (x # xs) s = ebind (f x s) (\<lambda>s'. efold f xs s')"

definition is_ok :: "'e + 'a \<Rightarrow> bool" where
  "is_ok m = (case m of Inl _ \<Rightarrow> False | Inr _ \<Rightarrow> True)"

lemma ebind_simps [simp]:
  "ebind (Inl e) f = Inl e"
  "ebind (Inr x) f = f x"
  by (simp_all add: ebind_def)

text \<open>Evaluation goes through a call before it enters the continuation.\<close>

lemma ebind_weak_cong: "m = m' \<Longrightarrow> ebind m f = ebind m' f"
  by simp

lemma ebind_eq_Inr [err_simps]:
  "ebind m f = Inr y \<longleftrightarrow> (\<exists>x. m = Inr x \<and> f x = Inr y)"
  by (cases m) simp_all

lemma ebind_eq_Inl [err_simps]:
  "ebind m f = Inl e \<longleftrightarrow> m = Inl e \<or> (\<exists>x. m = Inr x \<and> f x = Inl e)"
  by (cases m) simp_all

lemma ebind_InrE [err_elims]:
  assumes "ebind m f = Inr y"
  obtains x where "m = Inr x" "f x = Inr y"
  using assms by (cases m) simp_all

lemma require_eq_Inr [simp]: "require b e = Inr u \<longleftrightarrow> b"
  by (simp add: require_def)

lemma require_eq_Inl [simp]: "require b e = Inl e' \<longleftrightarrow> \<not> b \<and> e' = e"
  by (auto simp: require_def)

lemma require_True [simp]: "require True e = Inr ()"
  by (simp add: require_def)

lemma require_False [simp]: "require False e = Inl e"
  by (simp add: require_def)

lemma map_err_simps [simp]:
  "map_err g (Inl e) = Inl (g e)"
  "map_err g (Inr x) = Inr x"
  by (simp_all add: map_err_def)

lemma map_err_eq_Inr [simp]: "map_err g m = Inr x \<longleftrightarrow> m = Inr x"
  by (cases m) simp_all

lemma is_ok_simps [simp]: "is_ok (Inl e) = False" "is_ok (Inr x) = True"
  by (simp_all add: is_ok_def)

lemma is_ok_iff: "is_ok m \<longleftrightarrow> (\<exists>x. m = Inr x)"
  by (cases m) simp_all

text \<open>An invariant of every successful step is an invariant of the whole loop.\<close>

lemma efold_invariant:
  assumes "efold f xs s = Inr t" "P s"
    and "\<And>x s s'. x \<in> set xs \<Longrightarrow> P s \<Longrightarrow> f x s = Inr s' \<Longrightarrow> P s'"
  shows "P t"
  using assms
proof (induction xs arbitrary: s)
  case Nil
  then show ?case by simp
next
  case (Cons x xs)
  from Cons.prems(1) obtain s' where s': "f x s = Inr s'" "efold f xs s' = Inr t"
    by (auto simp: err_simps)
  have "P s'" by (rule Cons.prems(3) [OF _ Cons.prems(2) s'(1)]) simp
  with s'(2) Cons.prems(3) show ?case by (intro Cons.IH [of s']) auto
qed

lemma efold_append:
  "efold f (xs @ ys) s = ebind (efold f xs s) (efold f ys)"
proof (induction xs arbitrary: s)
  case Nil
  then show ?case by simp
next
  case (Cons x xs)
  then show ?case by (cases "f x s") simp_all
qed

lemma emap_length: "emap f xs = Inr ys \<Longrightarrow> length ys = length xs"
  by (induction xs arbitrary: ys) (auto simp: err_simps)

lemma emap_nth:
  "emap f xs = Inr ys \<Longrightarrow> i < length xs \<Longrightarrow> f (xs ! i) = Inr (ys ! i)"
  by (induction xs arbitrary: ys i) (auto simp: err_simps nth_Cons split: nat.splits)

subsection \<open>Postconditions\<close>

text \<open>
  \<open>epost m P\<close>: if the call returns, its value satisfies \<open>P\<close>. The rules in \<open>epost_rules\<close>
  walk through a definition call by call, so that a proof about a long operation names only
  the facts about the operations it calls.
\<close>

definition epost :: "'e + 'a \<Rightarrow> ('a \<Rightarrow> bool) \<Rightarrow> bool" where
  "epost m P \<longleftrightarrow> (\<forall>x. m = Inr x \<longrightarrow> P x)"

named_theorems epost_rules \<open>introduction rules of postconditions\<close>

lemma epostD: "epost m P \<Longrightarrow> m = Inr x \<Longrightarrow> P x"
  by (simp add: epost_def)

lemma epostI: "(\<And>x. m = Inr x \<Longrightarrow> P x) \<Longrightarrow> epost m P"
  by (simp add: epost_def)

lemma epost_Inl [epost_rules]: "epost (Inl e) P"
  by (simp add: epost_def)

lemma epost_Inr [epost_rules]: "P x \<Longrightarrow> epost (Inr x) P"
  by (simp add: epost_def)

lemma epost_ebind [epost_rules]: "(\<And>x. m = Inr x \<Longrightarrow> epost (f x) P) \<Longrightarrow> epost (ebind m f) P"
  by (cases m) (simp_all add: epost_def)

lemma epost_if [epost_rules]:
  "(b \<Longrightarrow> epost m P) \<Longrightarrow> (\<not> b \<Longrightarrow> epost n P) \<Longrightarrow> epost (if b then m else n) P"
  by simp

lemma epost_case_prod [epost_rules]:
  "(\<And>a b. x = (a, b) \<Longrightarrow> epost (f a b) P) \<Longrightarrow> epost (case x of (a, b) \<Rightarrow> f a b) P"
  by (cases x) simp

lemma epost_case_option [epost_rules]:
  "(x = None \<Longrightarrow> epost m P) \<Longrightarrow> (\<And>v. x = Some v \<Longrightarrow> epost (f v) P)
     \<Longrightarrow> epost (case x of None \<Rightarrow> m | Some v \<Rightarrow> f v) P"
  by (cases x) simp_all

lemma epost_case_list [epost_rules]:
  "(xs = [] \<Longrightarrow> epost m P) \<Longrightarrow> (\<And>y ys. xs = y # ys \<Longrightarrow> epost (f y ys) P)
     \<Longrightarrow> epost (case xs of [] \<Rightarrow> m | y # ys \<Rightarrow> f y ys) P"
  by (cases xs) simp_all

lemma epost_let [epost_rules]: "(\<And>v. v = x \<Longrightarrow> epost (f v) P) \<Longrightarrow> epost (let v = x in f v) P"
  by simp

lemma epost_mono: "epost m Q \<Longrightarrow> (\<And>x. Q x \<Longrightarrow> P x) \<Longrightarrow> epost m P"
  by (simp add: epost_def)

subsection \<open>Exceptions that keep the state\<close>

text \<open>
  An operation of an object that may change the object and then raise: the result or the
  exception, together with the state it leaves behind.
\<close>

type_synonym ('s, 'e, 'a) action = "'s \<Rightarrow> ('e + 'a) \<times> 's"

definition areturn :: "'a \<Rightarrow> ('s, 'e, 'a) action" where
  "areturn x s = (Inr x, s)"

definition araise :: "'e \<Rightarrow> ('s, 'e, 'a) action" where
  "araise e s = (Inl e, s)"

definition abind :: "('s, 'e, 'a) action \<Rightarrow> ('a \<Rightarrow> ('s, 'e, 'b) action) \<Rightarrow> ('s, 'e, 'b) action" where
  "abind m f s = (case m s of (Inl e, s') \<Rightarrow> (Inl e, s') | (Inr x, s') \<Rightarrow> f x s')"

definition arequire :: "bool \<Rightarrow> 'e \<Rightarrow> ('s, 'e, unit) action" where
  "arequire b e = (if b then areturn () else araise e)"

definition aget :: "('s \<Rightarrow> 'a) \<Rightarrow> ('s, 'e, 'a) action" where
  "aget f s = (Inr (f s), s)"

definition aupdate :: "('s \<Rightarrow> 's) \<Rightarrow> ('s, 'e, unit) action" where
  "aupdate g s = (Inr (), g s)"

definition alift :: "'e + 'a \<Rightarrow> ('s, 'e, 'a) action" where
  "alift r s = (r, s)"

lemma action_simps [simp]:
  "areturn x s = (Inr x, s)" "araise e s = (Inl e, s)" "aget f s = (Inr (f s), s)"
  "aupdate g s = (Inr (), g s)" "alift r s = (r, s)"
  by (simp_all add: areturn_def araise_def aget_def aupdate_def alift_def)

lemma abind_apply:
  "abind m f s = (case fst (m s) of Inl e \<Rightarrow> (Inl e, snd (m s)) | Inr x \<Rightarrow> f x (snd (m s)))"
  by (simp add: abind_def split: prod.splits sum.splits)

lemma arequire_apply: "arequire b e s = (if b then Inr () else Inl e, s)"
  by (simp add: arequire_def)

lemmas action_eval = abind_apply arequire_apply

section \<open>Datetimes\<close>

text \<open>
  A Python datetime is either naive or timezone-aware; an aware one is its instant, in
  microseconds. \<open>utc_or\<close> is the \<open>_utc\<close> helper every module repeats: naive values
  raise, aware ones are converted to UTC, that is, to their instant.
\<close>

type_synonym instant = int
type_synonym duration = int

datatype py_datetime = Naive int | Aware instant

fun utc_or :: "'e \<Rightarrow> py_datetime \<Rightarrow> 'e + instant" where
  "utc_or e (Naive _) = Inl e"
| "utc_or e (Aware t) = Inr t"

lemma utc_or_eq_Inr [simp]: "utc_or e d = Inr t \<longleftrightarrow> d = Aware t"
  by (cases d) auto

definition microseconds_per_day :: int where
  "microseconds_per_day = 86400000000"

section \<open>Dictionaries with insertion order\<close>

text \<open>
  A Python dict keeps the order of first insertion, which the code observes when it
  iterates. Lookup is the library's \<open>map_of\<close>; \<open>dict_put\<close> overwrites in place or
  appends.
\<close>

fun dict_put :: "'k \<Rightarrow> 'v \<Rightarrow> ('k \<times> 'v) list \<Rightarrow> ('k \<times> 'v) list" where
  "dict_put k v [] = [(k, v)]"
| "dict_put k v ((k', v') # kvs) =
     (if k' = k then (k, v) # kvs else (k', v') # dict_put k v kvs)"

lemma map_of_dict_put [simp]: "map_of (dict_put k v d) = (map_of d)(k \<mapsto> v)"
  by (induction d) auto

lemma fst_image_dict_put [simp]: "fst ` set (dict_put k v d) = insert k (fst ` set d)"
proof (induction d)
  case (Cons p d)
  then show ?case by (cases p) (auto simp: insert_commute)
qed simp

lemma distinct_dict_put [simp]:
  "distinct (map fst d) \<Longrightarrow> distinct (map fst (dict_put k v d))"
  by (induction d) auto

lemma dict_put_new: "k \<notin> fst ` set d \<Longrightarrow> dict_put k v d = d @ [(k, v)]"
  by (induction d) auto

lemma map_fst_dict_put_old [simp]:
  "k \<in> fst ` set d \<Longrightarrow> map fst (dict_put k v d) = map fst d"
proof (induction d)
  case (Cons p d)
  then show ?case by (cases p) (cases "fst p = k"; simp)
qed simp

lemma dict_put_twice [simp]: "dict_put k v (dict_put k w d) = dict_put k v d"
  by (induction d) auto

lemma dict_put_split:
  "dict_put k v (xs @ (k, w) # ys) = xs @ (k, v) # ys" if "k \<notin> fst ` set xs"
  using that by (induction xs) auto

lemma map_of_Some_split:
  assumes "map_of d k = Some v"
  obtains xs ys where "d = xs @ (k, v) # ys" "k \<notin> fst ` set xs"
  using assms
proof (induction d arbitrary: thesis)
  case Nil
  then show ?case by simp
next
  case (Cons p d)
  obtain k' v' where p: "p = (k', v')" by (cases p)
  show ?case
  proof (cases "k' = k")
    case True
    with Cons.prems p show ?thesis by (intro Cons.prems(1) [of "[]" d]) auto
  next
    case False
    with Cons.prems p have "map_of d k = Some v" by simp
    then obtain xs ys where "d = xs @ (k, v) # ys" "k \<notin> fst ` set xs"
      using Cons.IH by blast
    with False p show ?thesis by (intro Cons.prems(1) [of "p # xs" ys]) auto
  qed
qed

section \<open>Sorting\<close>

lemma sort_key_perm_unique:
  fixes f :: "'a \<Rightarrow> 'k::linorder"
  assumes "mset xs = mset ys" "distinct (map f xs)"
  shows "sort_key f xs = sort_key f ys"
proof -
  have d: "distinct (map f ys)"
    using assms(2) mset_map [of f xs] mset_map [of f ys] assms(1)
    by (simp add: mset_eq_imp_distinct_iff [of "map f xs" "map f ys"])
  have inj: "inj_on f (set xs)"
    using assms(2) by (simp add: distinct_map)
  have s: "set xs = set ys"
    using assms(1) by (rule mset_eq_setD)
  have "map f (sort_key f xs) = map f (sort_key f ys)"
  proof (rule sorted_distinct_set_unique)
    show "sorted (map f (sort_key f xs))" "sorted (map f (sort_key f ys))"
      by (rule sorted_sort_key)+
    show "distinct (map f (sort_key f xs))" "distinct (map f (sort_key f ys))"
      using assms(2) d by (simp_all add: distinct_map)
    show "set (map f (sort_key f xs)) = set (map f (sort_key f ys))"
      using s by simp
  qed
  then show ?thesis
    using inj s by (intro map_inj_on [of f]) simp_all
qed

lemma sorted_takeWhile_filter:
  fixes f :: "'a \<Rightarrow> 'k::linorder"
  assumes "sorted (map f xs)"
  shows "takeWhile (\<lambda>x. f x \<le> t) xs = filter (\<lambda>x. f x \<le> t) xs"
  using assms
proof (induction xs)
  case Nil
  then show ?case by simp
next
  case (Cons x xs)
  show ?case
  proof (cases "f x \<le> t")
    case True
    with Cons show ?thesis by simp
  next
    case False
    with Cons.prems have "\<forall>y\<in>set xs. \<not> f y \<le> t" by auto
    with False show ?thesis by (simp add: filter_empty_conv)
  qed
qed


section \<open>Unique indexes\<close>

text \<open>
  Several components index a list of records by a key and refuse a duplicate while they
  build the dictionary. The contract: a built index finds exactly the indexed records.
  The policy catalog (by quarter and by version) and the official-session schedule (by
  trading date) provide it.
\<close>

locale unique_index =
  fixes key :: "'a \<Rightarrow> 'k"
    and build :: "'a list \<Rightarrow> 'e + 'i"
    and find :: "'i \<Rightarrow> 'k \<Rightarrow> 'a option"
  assumes build_find: "build xs = Inr i \<Longrightarrow> find i k = Some x \<longleftrightarrow> x \<in> set xs \<and> key x = k"
begin

lemma find_member: "build xs = Inr i \<Longrightarrow> x \<in> set xs \<Longrightarrow> find i (key x) = Some x"
  by (simp add: build_find)

lemma find_none:
  assumes "build xs = Inr i"
  shows "find i k = None \<longleftrightarrow> k \<notin> key ` set xs"
proof
  assume "find i k = None"
  then show "k \<notin> key ` set xs" using find_member [OF assms] by auto
next
  assume "k \<notin> key ` set xs"
  moreover have False if "find i k = Some x" "k \<notin> key ` set xs" for x
    using that build_find [OF assms, of k x] by blast
  ultimately show "find i k = None" by (cases "find i k") blast+
qed

lemma keys_injective:
  assumes "build xs = Inr i" "x \<in> set xs" "y \<in> set xs" "key x = key y"
  shows "x = y"
proof -
  have "Some x = find i (key x)" by (rule find_member [OF assms(1,2), symmetric])
  also have "find i (key x) = Some y" unfolding assms(4) by (rule find_member [OF assms(1,3)])
  finally show ?thesis by (rule option.inject [THEN iffD1])
qed

end

section \<open>Clocks that never run backwards\<close>

text \<open>
  The market-event clock and the execution clock both refuse to move backwards. The
  contract: a successful advance lands exactly on its target, which is not before the
  previous instant.
\<close>

locale monotone_clock =
  fixes now :: "'s \<Rightarrow> instant option"
    and advance :: "instant \<Rightarrow> 's \<Rightarrow> 'e + 's"
  assumes advance_now: "advance t s = Inr s' \<Longrightarrow> now s' = Some t"
    and advance_forward: "advance t s = Inr s' \<Longrightarrow> now s = Some n \<Longrightarrow> n \<le> t"
begin

lemma run_sorted:
  assumes "efold advance ts s = Inr s'" "now s = Some n"
  shows "sorted (n # ts) \<and> now s' = Some (last (n # ts))"
  using assms
proof (induction ts arbitrary: s n)
  case Nil
  then show ?case by simp
next
  case (Cons t ts)
  from Cons.prems(1) obtain s1 where s1: "advance t s = Inr s1" "efold advance ts s1 = Inr s'"
    by (auto simp: err_simps)
  have "now s1 = Some t" by (rule advance_now [OF s1(1)])
  with Cons.IH [OF s1(2)] have "sorted (t # ts) \<and> now s' = Some (last (t # ts))" by blast
  moreover have "n \<le> t" by (rule advance_forward [OF s1(1) Cons.prems(2)])
  ultimately show ?case by auto
qed

end

end
