(* ===== verification/Py_Decimal.thy ===== *)
theory Py_Decimal
  imports Prelude
begin

text \<open>
  Python's \<open>decimal.Decimal\<close>, as far as the engine uses it: a finite decimal is a sign, a
  coefficient and an exponent; the arithmetic operations take the precision of the
  context and round the exact result half-even to that many significant digits. The
  definitions follow the arithmetic of the standard library's pure-Python \<open>_pydecimal\<close>
  (\<open>__add__\<close>, \<open>__mul__\<close>, \<open>__truediv__\<close>, \<open>quantize\<close>, \<open>to_integral_value\<close>,
  \<open>_fix\<close>), including the sign of zero and the exponent of the result. NaN and
  infinities have no value of this type (the engine rejects them where a value enters),
  and the exponent limits Emin and Emax (a million digits) are not modelled.

  \<open>dval\<close> gives the rational value. The lemmas say when an operation is exact and bound
  the error when it is not.
\<close>

named_theorems dec_simps \<open>evaluation of decimal operations at the level of values\<close>

section \<open>Decimals, digits and comparison\<close>

datatype decimal = Dec (dneg: bool) (dcoef: nat) (dexp: int)

datatype dec_error = DivisionByZero | DivisionUndefined | InvalidOperation

definition dsigned :: "decimal \<Rightarrow> int" where
  "dsigned d = (if dneg d then - int (dcoef d) else int (dcoef d))"

definition dval :: "decimal \<Rightarrow> rat" where
  "dval d = of_int (dsigned d) * 10 powi dexp d"

definition dec_of_int :: "int \<Rightarrow> decimal" where
  "dec_of_int n = Dec (n < 0) (nat \<bar>n\<bar>) 0"

abbreviation dzero :: decimal where
  "dzero \<equiv> Dec False 0 0"

abbreviation done1 :: decimal where
  "done1 \<equiv> Dec False 1 0"

text \<open>\<open>len(str(n))\<close>: the number of decimal digits, one for zero.\<close>

fun ndigits :: "nat \<Rightarrow> nat" where
  "ndigits n = (if n < 10 then 1 else Suc (ndigits (n div 10)))"

declare ndigits.simps [simp del]

text \<open>The signed coefficient at an exponent at most \<open>dexp d\<close>.\<close>

definition dscale :: "decimal \<Rightarrow> int \<Rightarrow> int" where
  "dscale d e = dsigned d * 10 ^ nat (dexp d - e)"

definition dle :: "decimal \<Rightarrow> decimal \<Rightarrow> bool" where
  "dle a b = (let e = min (dexp a) (dexp b) in dscale a e \<le> dscale b e)"

definition dless :: "decimal \<Rightarrow> decimal \<Rightarrow> bool" where
  "dless a b = (let e = min (dexp a) (dexp b) in dscale a e < dscale b e)"

definition deq :: "decimal \<Rightarrow> decimal \<Rightarrow> bool" where
  "deq a b = (let e = min (dexp a) (dexp b) in dscale a e = dscale b e)"

text \<open>The builtin \<open>min\<close> and \<open>max\<close> keep the first of two equal values.\<close>

definition dmin :: "decimal \<Rightarrow> decimal \<Rightarrow> decimal" where
  "dmin a b = (if dless b a then b else a)"

definition dmax :: "decimal \<Rightarrow> decimal \<Rightarrow> decimal" where
  "dmax a b = (if dless a b then b else a)"

section \<open>Rounding and arithmetic\<close>

definition div_half_even :: "nat \<Rightarrow> nat \<Rightarrow> nat" where
  "div_half_even n m =
     (let q = n div m; r = n mod m
      in if 2 * r < m then q else if m < 2 * r then q + 1 else if even q then q else q + 1)"

text \<open>\<open>_fix\<close>: round a coefficient with too many digits to the precision of the context.\<close>

definition dfix :: "nat \<Rightarrow> decimal \<Rightarrow> decimal" where
  "dfix p d =
     (if ndigits (dcoef d) \<le> p then d
      else let k = ndigits (dcoef d) - p; c = div_half_even (dcoef d) (10 ^ k)
           in if ndigits c \<le> p then Dec (dneg d) c (dexp d + int k)
              else Dec (dneg d) (c div 10) (dexp d + int k + 1))"

definition dadd :: "nat \<Rightarrow> decimal \<Rightarrow> decimal \<Rightarrow> decimal" where
  "dadd p a b =
     (let e = min (dexp a) (dexp b); s = dscale a e + dscale b e
      in dfix p (Dec (if s = 0 then dneg a \<and> dneg b else s < 0) (nat \<bar>s\<bar>) e))"

definition copy_negate :: "decimal \<Rightarrow> decimal" where
  "copy_negate d = Dec (\<not> dneg d) (dcoef d) (dexp d)"

definition copy_abs :: "decimal \<Rightarrow> decimal" where
  "copy_abs d = Dec False (dcoef d) (dexp d)"

definition dsub :: "nat \<Rightarrow> decimal \<Rightarrow> decimal \<Rightarrow> decimal" where
  "dsub p a b = dadd p a (copy_negate b)"

text \<open>Unary minus: zero becomes positive, and the context rounds.\<close>

definition dminus :: "nat \<Rightarrow> decimal \<Rightarrow> decimal" where
  "dminus p d = dfix p (if dcoef d = 0 then copy_abs d else copy_negate d)"

definition dmul :: "nat \<Rightarrow> decimal \<Rightarrow> decimal \<Rightarrow> decimal" where
  "dmul p a b = dfix p (Dec (dneg a \<noteq> dneg b) (dcoef a * dcoef b) (dexp a + dexp b))"

text \<open>
  An exact quotient is brought back towards its ideal exponent by dropping trailing
  zeros, at most \<open>k\<close> of them.
\<close>

fun strip_zeros :: "nat \<Rightarrow> nat \<Rightarrow> int \<Rightarrow> nat \<times> int" where
  "strip_zeros 0 c e = (c, e)"
| "strip_zeros (Suc k) c e = (if c mod 10 = 0 then strip_zeros k (c div 10) (e + 1) else (c, e))"

definition ddiv :: "nat \<Rightarrow> decimal \<Rightarrow> decimal \<Rightarrow> dec_error + decimal" where
  "ddiv p a b =
     (let s = (dneg a \<noteq> dneg b); ideal = dexp a - dexp b
      in if dcoef b = 0 then Inl (if dcoef a = 0 then DivisionUndefined else DivisionByZero)
         else if dcoef a = 0 then Inr (dfix p (Dec s 0 ideal))
         else let shift = int (ndigits (dcoef b)) - int (ndigits (dcoef a)) + int p + 1;
                  num = dcoef a * 10 ^ nat shift;
                  den = dcoef b * 10 ^ nat (- shift);
                  c = num div den;
                  e = ideal - shift
              in if num mod den \<noteq> 0 then Inr (dfix p (Dec s (if c mod 5 = 0 then c + 1 else c) e))
                 else (let (c', e') = strip_zeros (nat (ideal - e)) c e
                       in Inr (dfix p (Dec s c' e'))))"

text \<open>\<open>quantize\<close>: rescale to an exponent; too many digits is \<open>InvalidOperation\<close>.\<close>

definition rescale_coef :: "nat \<Rightarrow> int \<Rightarrow> int \<Rightarrow> nat" where
  "rescale_coef c from to =
     (if to \<le> from then c * 10 ^ nat (from - to) else div_half_even c (10 ^ nat (to - from)))"

definition dquantize :: "nat \<Rightarrow> decimal \<Rightarrow> int \<Rightarrow> dec_error + decimal" where
  "dquantize p d e =
     (let c = rescale_coef (dcoef d) (dexp d) e
      in if ndigits c \<le> p then Inr (Dec (dneg d) c e) else Inl InvalidOperation)"

text \<open>\<open>to_integral_value(rounding=ROUND_FLOOR)\<close>, which ignores the precision.\<close>

definition to_integral_floor :: "decimal \<Rightarrow> decimal" where
  "to_integral_floor d =
     (if 0 \<le> dexp d then d
      else let m = 10 ^ nat (- dexp d); q = dcoef d div m; r = dcoef d mod m
           in Dec (dneg d) (if dneg d \<and> r \<noteq> 0 then q + 1 else q) 0)"

text \<open>\<open>sum(values, Decimal("0"))\<close>: a left fold, every addition rounded by the context.\<close>

definition dsum :: "nat \<Rightarrow> decimal list \<Rightarrow> decimal" where
  "dsum p ds = fold (\<lambda>d acc. dadd p acc d) ds dzero"

text \<open>The precision of the default context, in which unqualified arithmetic runs.\<close>

definition default_prec :: nat where
  "default_prec = 28"

section \<open>Digits\<close>

lemma ndigits_pos [simp]: "0 < ndigits n"
  by (subst ndigits.simps) simp

lemma ndigits_le_iff: "ndigits n \<le> Suc k \<longleftrightarrow> n < 10 ^ Suc k"
proof (induction n arbitrary: k rule: ndigits.induct)
  case (1 n)
  show ?case
  proof (cases "n < 10")
    case True
    have "(10::nat) \<le> 10 ^ Suc k" by (rule self_le_power) simp_all
    then have "n < 10 ^ Suc k" by (rule less_le_trans [OF True])
    with True show ?thesis by (subst ndigits.simps) simp
  next
    case False
    have step: "ndigits n = Suc (ndigits (n div 10))"
      using False by (subst ndigits.simps) simp
    show ?thesis
    proof (cases k)
      case 0
      then show ?thesis using False step by simp
    next
      case (Suc j)
      have "ndigits n \<le> Suc k \<longleftrightarrow> ndigits (n div 10) \<le> Suc j" using step Suc by simp
      also have "\<dots> \<longleftrightarrow> n div 10 < 10 ^ Suc j" using "1" False by blast
      also have "\<dots> \<longleftrightarrow> n < 10 ^ Suc k" using Suc by (auto simp: div_less_iff_less_mult)
      finally show ?thesis .
    qed
  qed
qed

lemma ndigits_le: "0 < p \<Longrightarrow> ndigits n \<le> p \<longleftrightarrow> n < 10 ^ p"
  by (cases p) (simp_all add: ndigits_le_iff)

lemma ndigits_lower: "0 < n \<Longrightarrow> 10 ^ (ndigits n - 1) \<le> n"
proof (cases "ndigits n - 1")
  case 0
  assume "0 < n"
  with 0 show ?thesis by simp
next
  case (Suc j)
  then have "\<not> ndigits n \<le> Suc j" by simp
  then have "\<not> n < 10 ^ Suc j" by (simp add: ndigits_le_iff)
  with Suc show ?thesis by simp
qed

lemma ndigits_upper: "n < 10 ^ ndigits n"
  using ndigits_le [of "ndigits n" n] by simp

lemma ndigits_small: "n < 10 ^ p \<Longrightarrow> 0 < p \<Longrightarrow> ndigits n \<le> p"
  by (simp add: ndigits_le)


section \<open>Values\<close>

lemma powi10_pos [simp]: "(0::rat) < 10 powi e"
  by (simp add: zero_less_power_int)

lemma powi10_add: "(10::rat) powi (a + b) = 10 powi a * 10 powi b"
  by (simp add: power_int_add)

lemma powi10_nat: "0 \<le> k \<Longrightarrow> (10::rat) powi k = 10 ^ nat k"
  by (simp add: power_int_def)

lemma dsigned_abs: "\<bar>dsigned d\<bar> = int (dcoef d)"
  by (simp add: dsigned_def)

lemma dval_abs: "\<bar>dval d\<bar> = of_nat (dcoef d) * 10 powi dexp d"
proof -
  have "\<bar>dval d\<bar> = of_int \<bar>dsigned d\<bar> * 10 powi dexp d"
    unfolding dval_def abs_mult by simp
  then show ?thesis by (simp add: dsigned_abs)
qed

lemma dval_dscale:
  assumes "e \<le> dexp d"
  shows "dval d = of_int (dscale d e) * 10 powi e"
proof -
  have "(10::rat) powi dexp d = 10 ^ nat (dexp d - e) * 10 powi e"
    using assms by (simp flip: powi10_nat powi10_add)
  then show ?thesis by (simp add: dval_def dscale_def)
qed

lemma dle_iff: "dle a b \<longleftrightarrow> dval a \<le> dval b"
proof -
  let ?e = "min (dexp a) (dexp b)"
  have "dval a \<le> dval b \<longleftrightarrow> of_int (dscale a ?e) \<le> (of_int (dscale b ?e) :: rat)"
    by (simp add: dval_dscale [of ?e a] dval_dscale [of ?e b])
  then show ?thesis by (simp add: dle_def Let_def)
qed

lemma dless_iff: "dless a b \<longleftrightarrow> dval a < dval b"
proof -
  let ?e = "min (dexp a) (dexp b)"
  have "dval a < dval b \<longleftrightarrow> of_int (dscale a ?e) < (of_int (dscale b ?e) :: rat)"
    by (simp add: dval_dscale [of ?e a] dval_dscale [of ?e b])
  then show ?thesis by (simp add: dless_def Let_def)
qed

lemma deq_iff: "deq a b \<longleftrightarrow> dval a = dval b"
  using dle_iff [of a b] dle_iff [of b a]
  by (auto simp: deq_def dle_def Let_def min.commute)

lemmas dcompare [dec_simps] = dle_iff dless_iff deq_iff

lemma dval_dmin [dec_simps]: "dval (dmin a b) = min (dval a) (dval b)"
  by (simp add: dmin_def dless_iff)

lemma dval_dmax [dec_simps]: "dval (dmax a b) = max (dval a) (dval b)"
  by (simp add: dmax_def dless_iff)

lemma dval_zero_iff: "dval d = 0 \<longleftrightarrow> dcoef d = 0"
  by (simp add: dval_def dsigned_def less_imp_neq)

lemma dval_Dec_zero [simp]: "dval (Dec s 0 e) = 0"
  by (simp add: dval_zero_iff)

lemma dval_done1 [simp]: "dval done1 = 1"
  by (simp add: dval_def dsigned_def)

lemma dval_nonneg: "\<not> dneg d \<Longrightarrow> 0 \<le> dval d"
  by (simp add: dval_def dsigned_def less_imp_le)

lemma dval_nonpos: "dneg d \<Longrightarrow> dval d \<le> 0"
  by (simp add: dval_def dsigned_def less_imp_le)

lemma dval_dec_of_int [simp]: "dval (dec_of_int n) = of_int n"
  by (simp add: dval_def dec_of_int_def dsigned_def)

lemma dval_copy_negate [simp]: "dval (copy_negate d) = - dval d"
  by (simp add: dval_def dsigned_def copy_negate_def)

lemma dval_copy_abs [simp]: "dval (copy_abs d) = \<bar>dval d\<bar>"
  by (simp add: dval_abs) (simp add: dval_def dsigned_def copy_abs_def)

lemma copy_fields [simp]:
  "dexp (copy_negate d) = dexp d" "dcoef (copy_negate d) = dcoef d"
  "dexp (copy_abs d) = dexp d" "dcoef (copy_abs d) = dcoef d"
  by (simp_all add: copy_negate_def copy_abs_def)

lemma dneg_of_dval: "dval d < 0 \<Longrightarrow> dneg d"
  using dval_nonneg [of d] by force

lemma coef_bound_of_dval:
  assumes "\<bar>dval d\<bar> < 10 ^ k * 10 powi dexp d"
  shows "dcoef d < 10 ^ k"
proof -
  have "(of_nat (dcoef d) :: rat) < 10 ^ k" using assms by (simp add: dval_abs)
  then have "(of_nat (dcoef d) :: rat) < of_nat (10 ^ k)" by simp
  then show ?thesis by (simp only: of_nat_less_iff)
qed

section \<open>Half-even division\<close>

lemma div_half_even_error:
  assumes "0 < m"
  shows "2 * \<bar>int n - int m * int (div_half_even n m)\<bar> \<le> int m"
proof -
  have n: "int n = int m * int (n div m) + int (n mod m)"
    by (metis mult_div_mod_eq of_nat_add of_nat_mult)
  have "n mod m < m" using assms by simp
  have "2 * \<bar>int n - int m * int (n div m)\<bar> \<le> int m" if "2 * (n mod m) \<le> m"
  proof -
    have "2 * int (n mod m) \<le> int m" using that by linarith
    with n show ?thesis by simp
  qed
  moreover have "2 * \<bar>int n - int m * int (n div m + 1)\<bar> \<le> int m" if "m \<le> 2 * (n mod m)"
  proof -
    have "int m \<le> 2 * int (n mod m)" "int (n mod m) < int m"
      using that \<open>n mod m < m\<close> by linarith+
    moreover have "int n - int m * int (n div m + 1) = int (n mod m) - int m"
      using n by (simp add: algebra_simps)
    moreover have "2 * \<bar>x - y\<bar> \<le> y" if "y \<le> 2 * x" "x < y" for x y :: int
      using that by (simp add: abs_if)
    ultimately show ?thesis by (simp only:)
  qed
  ultimately show ?thesis
    unfolding div_half_even_def Let_def by simp
qed

lemma div_half_even_exact: "0 < m \<Longrightarrow> div_half_even (m * q) m = q"
  by (simp add: div_half_even_def)

lemma div_half_even_one [simp]: "div_half_even n 1 = n"
  by (simp add: div_half_even_def)

lemma div_half_even_le: "div_half_even n m \<le> n div m + 1"
  by (simp add: div_half_even_def Let_def)

lemma div_half_even_ge: "n div m \<le> div_half_even n m"
  by (simp add: div_half_even_def Let_def)

lemma div_half_even_mono:
  assumes "0 < m" "a \<le> b"
  shows "div_half_even a m \<le> div_half_even b m"
proof (cases "a div m = b div m")
  case True
  have "a mod m \<le> b mod m"
    using assms True by (metis add_le_cancel_left mult_div_mod_eq)
  with True show ?thesis by (auto simp: div_half_even_def Let_def)
next
  case False
  with assms(2) have "a div m + 1 \<le> b div m"
    using div_le_mono [of a b m] by linarith
  with div_half_even_le [of a m] div_half_even_ge [of b m] show ?thesis by linarith
qed

text \<open>The error of a half-even division, at the level of values.\<close>

lemma div_half_even_rat:
  "\<bar>(of_nat n :: rat) / of_nat m - of_nat (div_half_even n m)\<bar> \<le> 1 / 2" if "0 < m"
proof -
  have "(of_int (2 * \<bar>int n - int m * int (div_half_even n m)\<bar>) :: rat) \<le> of_int (int m)"
    using div_half_even_error [OF that] by (simp only: of_int_le_iff)
  then have *: "2 * \<bar>(of_nat n :: rat) - of_nat m * of_nat (div_half_even n m)\<bar> \<le> of_nat m"
    by simp
  have "(of_nat n :: rat) / of_nat m - of_nat (div_half_even n m)
      = (of_nat n - of_nat m * of_nat (div_half_even n m)) / of_nat m"
    using that by (simp add: field_simps)
  then have "\<bar>(of_nat n :: rat) / of_nat m - of_nat (div_half_even n m)\<bar>
      = \<bar>of_nat n - of_nat m * of_nat (div_half_even n m)\<bar> / of_nat m"
    by (simp add: abs_divide)
  with * that show ?thesis by (simp add: field_simps)
qed

section \<open>Exactness of the operations\<close>

lemma dfix_exact [simp]: "ndigits (dcoef d) \<le> p \<Longrightarrow> dfix p d = d"
  by (simp add: dfix_def)

lemma dfix_small: "dcoef d < 10 ^ p \<Longrightarrow> 0 < p \<Longrightarrow> dfix p d = d"
  by (simp add: ndigits_le)

text \<open>The sum before rounding.\<close>

definition dadd_exact :: "decimal \<Rightarrow> decimal \<Rightarrow> decimal" where
  "dadd_exact a b =
     (let e = min (dexp a) (dexp b); s = dscale a e + dscale b e
      in Dec (if s = 0 then dneg a \<and> dneg b else s < 0) (nat \<bar>s\<bar>) e)"

lemma dadd_dfix: "dadd p a b = dfix p (dadd_exact a b)"
  by (simp add: dadd_def dadd_exact_def Let_def)

lemma dval_dadd_exact: "dval (dadd_exact a b) = dval a + dval b"
proof -
  let ?e = "min (dexp a) (dexp b)"
  let ?s = "dscale a ?e + dscale b ?e"
  have "dval (dadd_exact a b) = of_int ?s * 10 powi ?e"
    by (auto simp: dadd_exact_def Let_def dval_def dsigned_def)
  also have "\<dots> = dval a + dval b"
    by (simp add: dval_dscale [of ?e a] dval_dscale [of ?e b] algebra_simps)
  finally show ?thesis .
qed

lemma dexp_dadd_exact [simp]: "dexp (dadd_exact a b) = min (dexp a) (dexp b)"
  by (simp add: dadd_exact_def Let_def)

lemma dadd_is_exact:
  assumes "0 < p" "\<bar>dval a + dval b\<bar> < 10 ^ p * 10 powi min (dexp a) (dexp b)"
  shows "dadd p a b = dadd_exact a b"
  using assms coef_bound_of_dval [of "dadd_exact a b" p]
  by (simp add: dadd_dfix dfix_small dval_dadd_exact)

lemma dmul_is_exact:
  assumes "0 < p" "dcoef a * dcoef b < 10 ^ p"
  shows "dval (dmul p a b) = dval a * dval b" "dexp (dmul p a b) = dexp a + dexp b"
    "dcoef (dmul p a b) = dcoef a * dcoef b"
  using assms
  by (simp_all add: dmul_def dfix_small dval_def dsigned_def powi10_add)

text \<open>
  Values with at most eight fractional digits: the engine's money and quantities. Sums
  of such values below \<open>10 ^ 20\<close> are exact in the default context.
\<close>

definition fine :: "decimal \<Rightarrow> bool" where
  "fine d \<longleftrightarrow> - 8 \<le> dexp d"

lemma fine_scale_bound:
  assumes "- 8 \<le> e"
  shows "(10::rat) ^ 20 \<le> 10 ^ default_prec * 10 powi e"
proof -
  have "(10::rat) powi (- 8) \<le> 10 powi e"
    by (rule power_int_increasing) (use assms in simp_all)
  then have "10 ^ default_prec * 10 powi (- 8) \<le> (10::rat) ^ default_prec * 10 powi e"
    by simp
  then show ?thesis by (simp add: default_prec_def power_int_minus)
qed

lemma dadd_fine:
  assumes "fine a" "fine b" "\<bar>dval a + dval b\<bar> < 10 ^ 20"
  shows "dval (dadd default_prec a b) = dval a + dval b"
    "dexp (dadd default_prec a b) = min (dexp a) (dexp b)"
    "fine (dadd default_prec a b)"
proof -
  have "- 8 \<le> min (dexp a) (dexp b)" using assms(1,2) by (simp add: fine_def)
  from fine_scale_bound [OF this]
  have "\<bar>dval a + dval b\<bar> < 10 ^ default_prec * 10 powi min (dexp a) (dexp b)"
    using assms(3) by linarith
  then have eq: "dadd default_prec a b = dadd_exact a b"
    by (intro dadd_is_exact) (simp_all add: default_prec_def)
  show "dval (dadd default_prec a b) = dval a + dval b"
    "dexp (dadd default_prec a b) = min (dexp a) (dexp b)"
    "fine (dadd default_prec a b)"
    using assms(1,2) by (simp_all add: eq dval_dadd_exact fine_def)
qed

lemma dsub_fine:
  assumes "fine a" "fine b" "\<bar>dval a - dval b\<bar> < 10 ^ 20"
  shows "dval (dsub default_prec a b) = dval a - dval b"
    "dexp (dsub default_prec a b) = min (dexp a) (dexp b)"
    "fine (dsub default_prec a b)"
  using dadd_fine [of a "copy_negate b"] assms
  by (simp_all add: dsub_def fine_def)

lemma dminus_small:
  assumes "dcoef d < 10 ^ p" "0 < p"
  shows "dval (dminus p d) = - dval d" "dexp (dminus p d) = dexp d" "dcoef (dminus p d) = dcoef d"
proof -
  have "dminus p d = (if dcoef d = 0 then copy_abs d else copy_negate d)"
    using assms by (simp add: dminus_def dfix_small)
  then show "dval (dminus p d) = - dval d" "dexp (dminus p d) = dexp d"
    "dcoef (dminus p d) = dcoef d"
    using dval_zero_iff [of d] by auto
qed


section \<open>Rounding error of the context\<close>

lemma dval_scaled_Dec: "dval (Dec s c e) = (if s then - 1 else 1) * of_nat c * 10 powi e"
  by (simp add: dval_def dsigned_def)

lemma rescale_coef_error:
  "\<bar>(of_nat (rescale_coef c from to) :: rat) * 10 powi to - of_nat c * 10 powi from\<bar>
     \<le> 10 powi to / 2"
proof (cases "to \<le> from")
  case True
  then have "(10::rat) powi from = 10 ^ nat (from - to) * 10 powi to"
    by (simp flip: powi10_nat powi10_add)
  with True show ?thesis by (simp add: rescale_coef_def less_imp_le)
next
  case False
  define m where "m = nat (to - from)"
  have pw: "(10::rat) powi to = 10 ^ m * 10 powi from"
    using False by (simp add: m_def flip: powi10_nat powi10_add)
  let ?r = "(of_nat c :: rat) / of_nat (10 ^ m) - of_nat (div_half_even c (10 ^ m))"
  have "(of_nat (rescale_coef c from to) :: rat) * 10 powi to - of_nat c * 10 powi from
      = - ?r * (10 ^ m * 10 powi from)"
    using False by (simp add: rescale_coef_def pw field_simps flip: m_def)
  then have "\<bar>(of_nat (rescale_coef c from to) :: rat) * 10 powi to - of_nat c * 10 powi from\<bar>
      = \<bar>?r\<bar> * (10 ^ m * 10 powi from)"
    by (simp add: abs_mult)
  also have "\<dots> \<le> 1 / 2 * (10 ^ m * 10 powi from)"
    using div_half_even_rat [of "10 ^ m" c] by (intro mult_right_mono) (simp_all add: less_imp_le)
  finally show ?thesis by (simp add: pw)
qed

text \<open>Rounding to the precision rescales the coefficient, up to a carry.\<close>

lemma dfix_rescaled:
  assumes p: "0 < p" and big: "\<not> ndigits (dcoef d) \<le> p"
  defines "e \<equiv> dexp d + int (ndigits (dcoef d) - p)"
  shows "dval (dfix p d) = dval (Dec (dneg d) (rescale_coef (dcoef d) (dexp d) e) e)"
proof -
  define k where "k = ndigits (dcoef d) - p"
  define c where "c = div_half_even (dcoef d) (10 ^ k)"
  have k: "ndigits (dcoef d) = p + k" "0 < k" using big by (simp_all add: k_def)
  have e: "e = dexp d + int k" by (simp add: e_def k_def del: of_nat_diff)
  have c': "rescale_coef (dcoef d) (dexp d) e = c"
    using k(2) by (simp add: rescale_coef_def e c_def)
  have "c \<le> dcoef d div 10 ^ k + 1" unfolding c_def by (rule div_half_even_le)
  moreover have "dcoef d div 10 ^ k < 10 ^ p"
    using ndigits_upper [of "dcoef d"] k
    by (simp add: less_mult_imp_div_less power_add)
  ultimately have c_le: "c \<le> 10 ^ p" by simp
  show ?thesis
  proof (cases "ndigits c \<le> p")
    case True
    with big have "dfix p d = Dec (dneg d) c (dexp d + int k)"
      by (simp add: dfix_def Let_def c_def k_def)
    then show ?thesis by (simp add: c' flip: e)
  next
    case False
    with p c_le have "c = 10 ^ p" by (simp add: ndigits_le)
    then have "c = 10 * (c div 10)" using p by (cases p) simp_all
    then have "(of_nat c :: rat) = 10 * of_nat (c div 10)" by (metis of_nat_mult of_nat_numeral)
    moreover have "dfix p d = Dec (dneg d) (c div 10) (dexp d + int k + 1)"
      using big False by (simp add: dfix_def Let_def c_def k_def)
    ultimately show ?thesis by (simp add: dval_scaled_Dec powi10_add c' flip: e)
  qed
qed

lemma dfix_error:
  assumes "0 < p"
  shows "\<bar>dval (dfix p d) - dval d\<bar> \<le> \<bar>dval d\<bar> * 10 powi (1 - int p) / 2"
proof (cases "ndigits (dcoef d) \<le> p")
  case True
  then show ?thesis by simp
next
  case False
  define n where "n = ndigits (dcoef d)"
  define e where "e = dexp d + int (n - p)"
  have n: "p < n" using False by (simp add: n_def)
  have pos: "0 < dcoef d" using False assms by (intro gr0I) (simp add: ndigits.simps)
  have "\<bar>dval (dfix p d) - dval d\<bar>
      = \<bar>of_nat (rescale_coef (dcoef d) (dexp d) e) * 10 powi e - of_nat (dcoef d) * 10 powi dexp d\<bar>"
    unfolding dfix_rescaled [OF assms False] n_def [symmetric] e_def [symmetric]
    by (simp add: dval_def dsigned_def abs_minus_commute)
  also have "\<dots> \<le> 10 powi e / 2" by (rule rescale_coef_error)
  also have "(10::rat) powi e = 10 ^ (n - 1) * 10 powi dexp d * 10 powi (1 - int p)"
  proof -
    have "e = int (n - 1) + dexp d + (1 - int p)" using n by (simp add: e_def)
    then show ?thesis by (simp add: powi10_add del: of_nat_diff)
  qed
  also have "\<dots> / 2 \<le> of_nat (dcoef d) * 10 powi dexp d * 10 powi (1 - int p) / 2"
  proof -
    have "(of_nat (10 ^ (n - 1)) :: rat) \<le> of_nat (dcoef d)"
      using ndigits_lower [OF pos] by (simp only: of_nat_le_iff n_def)
    then show ?thesis by (intro divide_right_mono mult_right_mono) (simp_all add: less_imp_le)
  qed
  finally show ?thesis by (simp add: dval_abs)
qed

section \<open>Quantization\<close>

lemma dquantize_Inr:
  assumes "dquantize p d e = Inr q"
  shows "dexp q = e" "dneg q = dneg d" "ndigits (dcoef q) \<le> p"
    "\<bar>dval q - dval d\<bar> \<le> 10 powi e / 2"
proof -
  have q: "q = Dec (dneg d) (rescale_coef (dcoef d) (dexp d) e) e"
    "ndigits (rescale_coef (dcoef d) (dexp d) e) \<le> p"
    using assms by (simp_all add: dquantize_def Let_def split: if_splits)
  then show "dexp q = e" "dneg q = dneg d" "ndigits (dcoef q) \<le> p" by simp_all
  have "\<bar>dval q - dval d\<bar> =
      \<bar>of_nat (rescale_coef (dcoef d) (dexp d) e) * 10 powi e - of_nat (dcoef d) * 10 powi dexp d\<bar>"
    unfolding q(1) by (simp add: dval_def dsigned_def abs_minus_commute)
  then show "\<bar>dval q - dval d\<bar> \<le> 10 powi e / 2"
    using rescale_coef_error [of "dcoef d" "dexp d" e] by simp
qed

text \<open>A value that is already a multiple of the quantum is kept.\<close>

lemma rescale_coef_exact:
  assumes "of_nat c * 10 powi from = of_int k * (10 powi to :: rat)"
  shows "rescale_coef c from to = nat k" "0 \<le> k"
proof -
  have "(0::rat) \<le> of_nat c * 10 powi from" by (simp add: less_imp_le)
  with assms have "(0::rat) \<le> of_int k * 10 powi to" by simp
  then show k: "0 \<le> k" using powi10_pos [of to] by (simp add: zero_le_mult_iff)
  have "\<bar>(of_nat (rescale_coef c from to) :: rat) * 10 powi to - of_int k * 10 powi to\<bar>
      \<le> 10 powi to / 2"
    using rescale_coef_error [of c "from" to] assms by simp
  then have "\<bar>(of_nat (rescale_coef c from to) :: rat) - of_int k\<bar> * 10 powi to \<le> 10 powi to / 2"
    by (simp add: abs_mult flip: left_diff_distrib)
  then have "\<bar>(of_nat (rescale_coef c from to) :: rat) - of_int k\<bar> \<le> 1 / 2"
    using powi10_pos [of to] by (simp add: field_simps)
  then have "of_int \<bar>int (rescale_coef c from to) - k\<bar> < (1::rat)" by simp
  then have "int (rescale_coef c from to) = k" by simp
  then show "rescale_coef c from to = nat k" by linarith
qed

lemma dquantize_exact:
  assumes "dval d = of_int k * 10 powi e" "\<bar>k\<bar> < 10 ^ p" "0 < p"
  shows "\<exists>q. dquantize p d e = Inr q \<and> dval q = dval d \<and> dexp q = e \<and> dcoef q = nat \<bar>k\<bar>"
proof -
  have "of_nat (dcoef d) * 10 powi dexp d = of_int \<bar>k\<bar> * (10 powi e :: rat)"
    using arg_cong [OF assms(1), of abs] by (simp add: dval_abs abs_mult)
  from rescale_coef_exact(1) [OF this]
  have c: "rescale_coef (dcoef d) (dexp d) e = nat \<bar>k\<bar>" .
  have "nat \<bar>k\<bar> < 10 ^ p" using assms(2) by (simp add: nat_less_iff)
  then have "ndigits (nat \<bar>k\<bar>) \<le> p" using assms(3) by (simp add: ndigits_le)
  moreover have "dval (Dec (dneg d) (nat \<bar>k\<bar>) e) = dval d"
  proof (cases "k = 0")
    case True
    with assms(1) show ?thesis by simp
  next
    case False
    have "dneg d \<longleftrightarrow> k < 0"
    proof
      assume "dneg d"
      then have "dval d \<le> 0" by (rule dval_nonpos)
      with assms(1) False show "k < 0"
        using powi10_pos [of e] by (simp add: mult_le_0_iff)
    next
      assume "k < 0"
      with assms(1) have "dval d < 0" by (simp add: mult_less_0_iff)
      then show "dneg d" by (rule dneg_of_dval)
    qed
    with assms(1) show ?thesis by (simp add: dval_scaled_Dec)
  qed
  ultimately show ?thesis
    using c by (simp add: dquantize_def)
qed


lemma dquantize_same_exp:
  assumes "dexp d = e" "ndigits (dcoef d) \<le> p"
  shows "dquantize p d e = Inr d"
  using assms by (cases d) (simp add: dquantize_def rescale_coef_def)

text \<open>Rounding is monotone: a value below a representable bound rounds to at most it.\<close>

lemma round_le_representable:
  assumes q: "dquantize p d e = Inr q" and le: "dval d \<le> of_int k * 10 powi e"
  shows "dval q \<le> of_int k * 10 powi e"
proof -
  define j where "j = dsigned q"
  have q': "dval q = of_int j * 10 powi e"
    using dquantize_Inr(1) [OF q] by (simp add: dval_def j_def)
  have "dval q - dval d \<le> 10 powi e / 2" using dquantize_Inr(4) [OF q] by linarith
  with le have "of_int j * 10 powi e \<le> (of_int k + 1 / 2) * (10 powi e :: rat)"
    unfolding q' by (simp add: distrib_right)
  then have "(of_int j :: rat) \<le> of_int k + 1 / 2" by simp
  then have "(of_int j :: rat) < of_int (k + 1)" by simp
  then have "j \<le> k" by (simp only: of_int_less_iff)
  then show ?thesis unfolding q' by (simp add: less_imp_le)
qed

lemma round_ge_representable:
  assumes q: "dquantize p d e = Inr q" and le: "of_int k * 10 powi e \<le> dval d"
  shows "of_int k * 10 powi e \<le> dval q"
proof -
  define j where "j = dsigned q"
  have q': "dval q = of_int j * 10 powi e"
    using dquantize_Inr(1) [OF q] by (simp add: dval_def j_def)
  have "dval d - dval q \<le> 10 powi e / 2" using dquantize_Inr(4) [OF q] by linarith
  with le have "(of_int k - 1 / 2) * 10 powi e \<le> of_int j * (10 powi e :: rat)"
    unfolding q' by (simp add: left_diff_distrib)
  then have "(of_int k - 1 / 2 :: rat) \<le> of_int j" by simp
  then have "(of_int (k - 1) :: rat) < of_int j" by simp
  then have "k \<le> j" by (simp only: of_int_less_iff)
  then show ?thesis unfolding q' by (simp add: less_imp_le)
qed

section \<open>Division\<close>

lemma ddiv_Inl: "ddiv p a b = Inl e \<Longrightarrow> dcoef b = 0"
  by (auto simp: ddiv_def Let_def split: if_splits prod.splits)

lemma ddiv_total: "dcoef b \<noteq> 0 \<Longrightarrow> \<exists>q. ddiv p a b = Inr q"
  using ddiv_Inl [of p a b] by (cases "ddiv p a b") auto

lemma strip_zeros_value:
  "strip_zeros k c e = (c', e') \<Longrightarrow> of_nat c' * 10 powi e' = (of_nat c * 10 powi e :: rat)"
proof (induction k arbitrary: c e)
  case 0
  then show ?case by simp
next
  case (Suc k)
  show ?case
  proof (cases "c mod 10 = 0")
    case True
    with Suc have "of_nat c' * 10 powi e' = (of_nat (c div 10) * 10 powi (e + 1) :: rat)" by simp
    moreover have "(of_nat c :: rat) = of_nat (10 * (c div 10))" using True by auto
    ultimately show ?thesis by (simp add: powi10_add)
  next
    case False
    with Suc show ?thesis by simp
  qed
qed

lemma strip_zeros_all: "strip_zeros k (c * 10 ^ k) e = (c, e + int k)"
proof (induction k arbitrary: e)
  case 0
  then show ?case by simp
next
  case (Suc k)
  then show ?case by (simp add: mult.assoc [symmetric] mult.left_commute [of _ 10])
qed

text \<open>Dividing by a power of ten is exact when the dividend fits the precision.\<close>

lemma ddiv_power_of_ten:
  assumes "ndigits (dcoef a) \<le> p" "dcoef a \<noteq> 0"
  shows "ddiv p a (Dec False 1 e) = Inr (Dec (dneg a) (dcoef a) (dexp a - e))"
proof -
  define n where "n = ndigits (dcoef a)"
  define s where "s = p + 2 - n"
  have n1: "ndigits 1 = 1" by (subst ndigits.simps) simp
  have shift: "int (ndigits 1) - int (ndigits (dcoef a)) + int p + 1 = int s"
    unfolding n1 using assms(1) by (simp add: s_def n_def)
  show ?thesis
    unfolding ddiv_def Let_def decimal.sel shift
    using assms strip_zeros_all [of s "dcoef a" "dexp a - e - int s"] by simp
qed

lemma quotient_digits:
  assumes "0 < ca" "0 < cb" "shift = int (ndigits cb) - int (ndigits ca) + int p + 1"
  shows "10 ^ p * (cb * 10 ^ nat (- shift)) \<le> ca * 10 ^ nat shift"
proof -
  have "10 ^ p * (cb * 10 ^ nat (- shift)) \<le> 10 ^ p * (10 ^ ndigits cb * 10 ^ nat (- shift))"
    using ndigits_upper [of cb] by simp
  also have "\<dots> = 10 ^ (ndigits ca - 1) * 10 ^ nat shift"
  proof -
    have "p + (ndigits cb + nat (- shift)) = ndigits ca - 1 + nat shift"
      using assms(3) ndigits_pos [of ca] by linarith
    then show ?thesis by (simp flip: power_add)
  qed
  also have "\<dots> \<le> ca * 10 ^ nat shift"
    using ndigits_lower [OF assms(1)] by simp
  finally show ?thesis .
qed


text \<open>
  The integer quotient, with its last digit nudged off a multiple of five when the
  division is inexact, is within one unit of the true quotient.
\<close>

definition sticky_div :: "nat \<Rightarrow> nat \<Rightarrow> nat" where
  "sticky_div num den =
     (let c = num div den in if num mod den \<noteq> 0 \<and> c mod 5 = 0 then c + 1 else c)"

lemma sticky_div_error:
  assumes "0 < den"
  shows "\<bar>(of_nat (sticky_div num den) :: rat) - of_nat num / of_nat den\<bar> \<le> 1"
proof -
  have "num = den * (num div den) + num mod den" by simp
  then have "(of_nat num :: rat) = of_nat den * of_nat (num div den) + of_nat (num mod den)"
    by (metis of_nat_add of_nat_mult)
  then have eq: "(of_nat num :: rat) / of_nat den
      = of_nat (num div den) + of_nat (num mod den) / of_nat den"
    using assms by (simp add: field_simps)
  have "0 \<le> (of_nat (num mod den) :: rat) / of_nat den"
    "(of_nat (num mod den) :: rat) / of_nat den \<le> 1"
    using assms mod_less_divisor [OF assms, of num] by (simp_all add: field_simps)
  then show ?thesis
    unfolding eq by (simp add: sticky_div_def Let_def)
qed

text \<open>The quotient as a scaled integer division, before the context rounds it.\<close>

lemma ddiv_unrounded:
  fixes a b p
  defines "shift \<equiv> int (ndigits (dcoef b)) - int (ndigits (dcoef a)) + int p + 1"
  defines "num \<equiv> dcoef a * 10 ^ nat shift" and "den \<equiv> dcoef b * 10 ^ nat (- shift)"
    and "e \<equiv> dexp a - dexp b - shift"
  assumes q: "ddiv p a b = Inr q" and pos: "0 < dval a" "0 < dval b"
  shows "\<exists>v. q = dfix p v \<and> dval v = of_nat (sticky_div num den) * 10 powi e"
    and "dval a / dval b = of_nat num / of_nat den * 10 powi e"
proof -
  have c: "dcoef a \<noteq> 0" "dcoef b \<noteq> 0" using pos by (metis dval_zero_iff less_irrefl)+
  have sg: "\<not> dneg a" "\<not> dneg b"
    using pos dval_nonpos [of a] dval_nonpos [of b] by linarith+
  show "\<exists>v. q = dfix p v \<and> dval v = of_nat (sticky_div num den) * 10 powi e"
  proof (cases "num mod den = 0")
    case True
    obtain c' e' where st: "strip_zeros (nat (dexp a - dexp b - e)) (num div den) e = (c', e')"
      by fastforce
    have "q = dfix p (Dec False c' e')"
      using q c sg True st unfolding ddiv_def Let_def shift_def [symmetric] num_def [symmetric]
        den_def [symmetric] e_def [symmetric] by simp
    moreover have "dval (Dec False c' e') = of_nat (sticky_div num den) * 10 powi e"
      using strip_zeros_value [OF st] True by (simp add: dval_scaled_Dec sticky_div_def)
    ultimately show ?thesis by blast
  next
    case False
    have "q = dfix p (Dec False (sticky_div num den) e)"
      using q c sg False unfolding ddiv_def Let_def shift_def [symmetric] num_def [symmetric]
        den_def [symmetric] e_def [symmetric] sticky_div_def by (simp split: if_splits)
    then show ?thesis by (intro exI [of _ "Dec False (sticky_div num den) e"]) (simp add: dval_scaled_Dec)
  qed
  have "(10::rat) powi shift = 10 ^ nat shift / 10 ^ nat (- shift)"
    by (cases "0 \<le> shift") (simp_all add: power_int_def field_simps)
  then have "(of_nat num :: rat) / of_nat den = of_nat (dcoef a) / of_nat (dcoef b) * 10 powi shift"
    by (simp add: num_def den_def)
  moreover have "(10::rat) powi shift * 10 powi e = 10 powi dexp a / 10 powi dexp b"
    by (simp add: e_def power_int_diff)
  ultimately show "dval a / dval b = of_nat num / of_nat den * 10 powi e"
    using sg by (simp add: dval_def dsigned_def mult.assoc)
qed

text \<open>
  The quotient of two positive values has a relative error of at most one unit in the
  last of the \<open>p\<close> digits.
\<close>

lemma ddiv_error:
  assumes q: "ddiv p a b = Inr q" and pos: "0 < dval a" "0 < dval b" and p: "2 \<le> p"
  shows "\<bar>dval q - dval a / dval b\<bar> \<le> dval a / dval b * 10 powi (1 - int p)"
proof -
  have c: "0 < dcoef a" "0 < dcoef b" using pos by (metis dval_zero_iff gr0I less_irrefl)+
  define shift where "shift = int (ndigits (dcoef b)) - int (ndigits (dcoef a)) + int p + 1"
  define num where "num = dcoef a * 10 ^ nat shift"
  define den where "den = dcoef b * 10 ^ nat (- shift)"
  define e where "e = dexp a - dexp b - shift"
  define t where "t = dval a / dval b"
  note defs = shift_def num_def den_def e_def
  obtain v where qv: "q = dfix p v" and vv: "dval v = of_nat (sticky_div num den) * 10 powi e"
    using ddiv_unrounded(1) [OF q pos] unfolding defs by blast
  have t: "t = of_nat num / of_nat den * 10 powi e"
    using ddiv_unrounded(2) [OF q pos] unfolding defs t_def by blast
  have den: "0 < den" using c by (simp add: den_def)
  have "10 ^ p * den \<le> num"
    using quotient_digits [OF c shift_def] by (simp add: num_def den_def)
  then have "(of_nat (10 ^ p * den) :: rat) \<le> of_nat num" by (simp only: of_nat_le_iff)
  then have "(10::rat) ^ p \<le> of_nat num / of_nat den" using den by (simp add: field_simps)
  then have "10 ^ p * 10 powi e \<le> t"
    unfolding t by (rule mult_right_mono) (simp add: less_imp_le)
  then have unit: "10 powi e \<le> t * 10 powi (- int p)" by (simp add: power_int_minus field_simps)
  have "\<bar>dval v - t\<bar> = \<bar>of_nat (sticky_div num den) - of_nat num / of_nat den\<bar> * 10 powi e"
    unfolding vv t left_diff_distrib [symmetric] by (simp add: abs_mult)
  also have "\<dots> \<le> 1 * 10 powi e"
    using sticky_div_error [OF den] by (intro mult_right_mono) (simp_all add: less_imp_le)
  finally have v: "\<bar>dval v - t\<bar> \<le> t * 10 powi (- int p)" using unit by linarith
  define u where "u = (10::rat) powi (- int p)"
  have pw: "(10::rat) powi (1 - int p) = 10 * u"
    by (simp add: u_def powi10_add [of 1 "- int p", simplified])
  have u: "0 < u" "u \<le> 10 powi (- 2)"
    unfolding u_def by (simp, rule power_int_increasing) (use p in simp_all)
  have "0 \<le> t" using pos by (simp add: t_def)
  then have "\<bar>dval v\<bar> \<le> t + t * u" using v by (simp add: u_def)
  then have "\<bar>dval v\<bar> * (5 * u) \<le> (t + t * u) * (5 * u)" using u by simp
  moreover have "\<bar>dval q - dval v\<bar> \<le> \<bar>dval v\<bar> * (5 * u)"
    using dfix_error [of p v] p by (simp add: qv pw mult_ac)
  ultimately have "\<bar>dval q - t\<bar> \<le> (t + t * u) * (5 * u) + t * u"
    using v [folded u_def] by linarith
  also have "\<dots> = t * u * (6 + 5 * u)" by (simp add: algebra_simps)
  also have "\<dots> \<le> t * u * 10"
    using u \<open>0 \<le> t\<close> by (intro mult_left_mono) (simp_all add: power_int_minus)
  finally show ?thesis by (simp add: t_def pw mult_ac)
qed

section \<open>Floor and sums\<close>

lemma to_integral_floor_nonneg:
  assumes "\<not> dneg d"
  shows "dval (to_integral_floor d) = of_int \<lfloor>dval d\<rfloor>" "\<not> dneg (to_integral_floor d)"
    "0 \<le> dexp (to_integral_floor d)"
proof -
  show "dval (to_integral_floor d) = of_int \<lfloor>dval d\<rfloor>"
  proof (cases "0 \<le> dexp d")
    case True
    then have "dval d = of_int (dsigned d * 10 ^ nat (dexp d))"
      by (simp add: dval_def powi10_nat)
    then have "\<lfloor>dval d\<rfloor> = dsigned d * 10 ^ nat (dexp d)" by (simp only: floor_of_int)
    with True show ?thesis by (simp add: to_integral_floor_def dval_def powi10_nat)
  next
    case False
    have "dval d = of_nat (dcoef d) / of_nat (10 ^ nat (- dexp d))"
      using assms False by (simp add: dval_def dsigned_def power_int_def field_simps)
    then have "\<lfloor>dval d\<rfloor> = int (dcoef d div 10 ^ nat (- dexp d))"
      by (simp only: floor_divide_of_nat_eq)
    with False assms show ?thesis
      by (simp add: to_integral_floor_def Let_def dval_def dsigned_def)
  qed
  show "\<not> dneg (to_integral_floor d)" "0 \<le> dexp (to_integral_floor d)"
    using assms by (simp_all add: to_integral_floor_def Let_def)
qed

lemma dsum_append: "dsum p (ds @ [d]) = dadd p (dsum p ds) d"
  by (simp add: dsum_def)

lemma dsum_Nil [simp]: "dsum p [] = dzero"
  by (simp add: dsum_def)

text \<open>Sums of money-like values are exact, in any order, while they stay in range.\<close>

lemma dsum_fine:
  assumes "\<forall>d\<in>set ds. fine d" "(\<Sum>d\<leftarrow>ds. \<bar>dval d\<bar>) < 10 ^ 20"
  shows "dval (dsum default_prec ds) = (\<Sum>d\<leftarrow>ds. dval d)" "fine (dsum default_prec ds)"
proof -
  have "dval (dsum default_prec ds) = (\<Sum>d\<leftarrow>ds. dval d) \<and> fine (dsum default_prec ds)"
    using assms
  proof (induction ds rule: rev_induct)
    case Nil
    then show ?case by (simp add: fine_def)
  next
    case (snoc d ds)
    have abs: "\<bar>\<Sum>d\<leftarrow>ds. dval d\<bar> \<le> (\<Sum>d\<leftarrow>ds. \<bar>dval d\<bar>)"
      by (induction ds) auto
    have "(\<Sum>d\<leftarrow>ds. \<bar>dval d\<bar>) < 10 ^ 20" using snoc.prems(2) by simp
    with snoc have IH: "dval (dsum default_prec ds) = (\<Sum>d\<leftarrow>ds. dval d)"
      "fine (dsum default_prec ds)" by simp_all
    have "\<bar>dval (dsum default_prec ds) + dval d\<bar> < 10 ^ 20"
      using abs snoc.prems(2) by (simp add: IH(1))
    with dadd_fine [OF IH(2) _ this] snoc.prems(1) IH(1) show ?case
      by (simp add: dsum_append)
  qed
  then show "dval (dsum default_prec ds) = (\<Sum>d\<leftarrow>ds. dval d)" "fine (dsum default_prec ds)"
    by simp_all
qed

section \<open>Evaluation\<close>

lemma strip_zeros_numeral:
  "strip_zeros (numeral k) c e =
     (if c mod 10 = 0 then strip_zeros (pred_numeral k) (c div 10) (e + 1) else (c, e))"
  by (simp only: numeral_eq_Suc strip_zeros.simps)

text \<open>Counting digits is slow on literals; a comparison with a power of ten is not.\<close>

lemma dfix_eval:
  "dfix p d = (if 0 < p \<and> dcoef d < 10 ^ p then d
     else if ndigits (dcoef d) \<le> p then d
     else let k = ndigits (dcoef d) - p; c = div_half_even (dcoef d) (10 ^ k)
          in if ndigits c \<le> p then Dec (dneg d) c (dexp d + int k)
             else Dec (dneg d) (c div 10) (dexp d + int k + 1))"
  by (simp add: dfix_small) (simp add: dfix_def)

lemma dquantize_eval:
  "dquantize p d e =
     (let c = rescale_coef (dcoef d) (dexp d) e
      in if 0 < p \<and> c < 10 ^ p then Inr (Dec (dneg d) c e)
         else if ndigits c \<le> p then Inr (Dec (dneg d) c e) else Inl InvalidOperation)"
  by (auto simp: dquantize_def Let_def ndigits_le)

lemma ndigits_eqI:
  assumes "10 ^ k \<le> n" "n < 10 ^ Suc k"
  shows "ndigits n = Suc k"
proof (rule antisym)
  show "ndigits n \<le> Suc k" using assms(2) by (simp add: ndigits_le_iff)
  show "Suc k \<le> ndigits n"
  proof (rule ccontr)
    assume "\<not> Suc k \<le> ndigits n"
    then have "ndigits n \<le> k" by simp
    moreover have "0 < k" using \<open>ndigits n \<le> k\<close> ndigits_pos [of n] by linarith
    ultimately show False using ndigits_le [of k n] assms(1) by simp
  qed
qed

lemma ddiv_by_remainder:
  assumes "dcoef a \<noteq> 0" "shift = int (ndigits (dcoef b)) - int (ndigits (dcoef a)) + int p + 1"
    "0 \<le> shift" "dcoef a * 10 ^ nat shift = q * dcoef b + r" "0 < r" "r < dcoef b"
  shows "ddiv p a b = Inr (dfix p (Dec (dneg a \<noteq> dneg b) (if q mod 5 = 0 then q + 1 else q)
           (dexp a - dexp b - shift)))"
proof -
  have "nat (- shift) = 0" using assms(3) by simp
  moreover have "(q * dcoef b + r) div dcoef b = q" "(q * dcoef b + r) mod dcoef b = r" "dcoef b \<noteq> 0"
    using assms(5,6) by simp_all
  ultimately show ?thesis
    using assms(1,4,5) unfolding ddiv_def Let_def assms(2) [symmetric] by simp
qed

text \<open>The equations that evaluate decimal arithmetic on literals.\<close>

lemmas dec_eval = dmul_def dadd_def dsub_def ddiv_def dfix_eval dscale_def dsigned_def
  dle_def dless_def deq_def dmin_def dmax_def div_half_even_def copy_negate_def copy_abs_def
  dquantize_eval rescale_coef_def to_integral_floor_def dsum_def default_prec_def
  dminus_def dec_of_int_def ndigits.simps strip_zeros_numeral

end
