(* ===== verification/Py_Text.thy ===== *)
theory Py_Text
  imports Prelude
begin

text \<open>
  The text conversions of the standard library that the engine observes: decimal and
  zero-padded integers, and \<open>uuid.UUID\<close> parsing with its canonical rendering
  (\<open>str(uuid.UUID(value))\<close>), which every identifier passes through.
\<close>

section \<open>Decimal integers\<close>

definition digit_char :: "nat \<Rightarrow> char" where
  "digit_char n = char_of (48 + n)"

fun nat_str :: "nat \<Rightarrow> string" where
  "nat_str n = (if n < 10 then [digit_char n] else nat_str (n div 10) @ [digit_char (n mod 10)])"

declare nat_str.simps [simp del]

text \<open>The last \<open>k\<close> digits, zero-padded.\<close>

fun fixed_str :: "nat \<Rightarrow> nat \<Rightarrow> string" where
  "fixed_str 0 n = []"
| "fixed_str (Suc k) n = fixed_str k (n div 10) @ [digit_char (n mod 10)]"

definition char_digit :: "char \<Rightarrow> nat" where
  "char_digit c = of_char c - 48"

definition str_nat :: "string \<Rightarrow> nat" where
  "str_nat s = foldl (\<lambda>n c. 10 * n + char_digit c) 0 s"

lemma char_digit_digit_char [simp]: "n < 10 \<Longrightarrow> char_digit (digit_char n) = n"
  by (simp add: char_digit_def digit_char_def)

lemma str_nat_snoc [simp]: "str_nat (s @ [c]) = 10 * str_nat s + char_digit c"
  by (simp add: str_nat_def)

lemma str_nat_Nil [simp]: "str_nat [] = 0"
  by (simp add: str_nat_def)

lemma str_nat_nat_str [simp]: "str_nat (nat_str n) = n"
proof (induction n rule: nat_str.induct)
  case (1 n)
  show ?case
  proof (cases "n < 10")
    case True
    then have "nat_str n = [] @ [digit_char n]" by (subst nat_str.simps) simp
    with True show ?thesis by (simp del: append_Nil)
  next
    case False
    with "1" show ?thesis by (subst nat_str.simps) simp
  qed
qed

lemma str_nat_fixed_str [simp]: "str_nat (fixed_str k n) = n mod 10 ^ k"
proof (induction k arbitrary: n)
  case 0
  then show ?case by simp
next
  case (Suc k)
  have "n mod (10 * 10 ^ k) = 10 * (n div 10 mod 10 ^ k) + n mod 10"
    by (simp add: mod_mult2_eq)
  with Suc show ?case by simp
qed

lemma length_fixed_str [simp]: "length (fixed_str k n) = k"
  by (induction k arbitrary: n) simp_all

lemma nat_str_inject [simp]: "nat_str m = nat_str n \<longleftrightarrow> m = n"
  by (metis str_nat_nat_str)

section \<open>UUID text\<close>

text \<open>
  \<open>uuid.UUID(hex)\<close>: the prefixes \<open>urn:\<close> and \<open>uuid:\<close> are dropped, surrounding braces are
  stripped, hyphens are removed, 32 characters must remain and be a base-16 integer in
  range; \<open>int(text, 16)\<close> itself accepts surrounding blanks, a sign, a \<open>0x\<close> prefix and
  single underscores between digits.
\<close>

fun drop_prefix :: "string \<Rightarrow> string \<Rightarrow> string option" where
  "drop_prefix [] s = Some s"
| "drop_prefix (c # p) (d # s) = (if c = d then drop_prefix p s else None)"
| "drop_prefix (c # p) [] = None"

lemma drop_prefix_length: "drop_prefix p s = Some t \<Longrightarrow> length s = length p + length t"
  by (induction p s rule: drop_prefix.induct) (auto split: if_splits)

text \<open>\<open>s.replace(p, "")\<close> for a non-empty \<open>p\<close>.\<close>

function remove_all :: "string \<Rightarrow> string \<Rightarrow> string" where
  "remove_all p [] = []"
| "remove_all p (c # s) =
     (case (if p = [] then None else drop_prefix p (c # s)) of
        Some t \<Rightarrow> remove_all p t
      | None \<Rightarrow> c # remove_all p s)"
  by pat_completeness auto
termination
  by (relation "measure (\<lambda>(p, s). length s)")
    (auto split: if_splits dest!: drop_prefix_length)

definition strip_chars :: "char list \<Rightarrow> string \<Rightarrow> string" where
  "strip_chars cs s =
     rev (dropWhile (\<lambda>c. c \<in> set cs) (rev (dropWhile (\<lambda>c. c \<in> set cs) s)))"

definition hex_value :: "char \<Rightarrow> nat option" where
  "hex_value c =
     (let n = (of_char c :: nat)
      in if 48 \<le> n \<and> n \<le> 57 then Some (n - 48)
         else if 97 \<le> n \<and> n \<le> 102 then Some (n - 87)
         else if 65 \<le> n \<and> n \<le> 70 then Some (n - 55) else None)"

text \<open>Digits with single underscores between them; the flag says a digit precedes.\<close>

fun hex_digits :: "bool \<Rightarrow> nat \<Rightarrow> string \<Rightarrow> nat option" where
  "hex_digits prev acc [] = (if prev then Some acc else None)"
| "hex_digits prev acc (c # s) =
     (if c = CHR ''_'' then (if prev then hex_digits False acc s else None)
      else case hex_value c of None \<Rightarrow> None | Some v \<Rightarrow> hex_digits True (16 * acc + v) s)"

definition py_whitespace :: "char list" where
  "py_whitespace = map char_of [9 :: nat, 10, 11, 12, 13, 28, 29, 30, 31, 32, 133, 160]"

text \<open>\<open>not value.strip()\<close>: nothing but whitespace.\<close>

definition blank :: "string \<Rightarrow> bool" where
  "blank s = (\<forall>c\<in>set s. c \<in> set py_whitespace)"

lemma char_eq_char_of: "n < 256 \<Longrightarrow> c = char_of (n :: nat) \<longleftrightarrow> of_char c = n"
  by (metis char_of_char mod_less of_char_of)

lemma whitespace_code:
  "c \<in> set py_whitespace \<longleftrightarrow>
     (of_char c :: nat) \<in> {9, 10, 11, 12, 13, 28, 29, 30, 31, 32, 133, 160}"
  by (simp add: py_whitespace_def char_eq_char_of)

definition unprefix_0x :: "string \<Rightarrow> string" where
  "unprefix_0x s =
     (case s of
        a # x # t \<Rightarrow>
          if a = CHR ''0'' \<and> (x = CHR ''x'' \<or> x = CHR ''X'')
          then (case t of u # t' \<Rightarrow> if u = CHR ''_'' then t' else t | [] \<Rightarrow> t) else s
      | _ \<Rightarrow> s)"

definition py_int16 :: "string \<Rightarrow> int option" where
  "py_int16 s =
     (case strip_chars py_whitespace s of
        [] \<Rightarrow> None
      | c # t \<Rightarrow>
          if c = CHR ''-'' then map_option (\<lambda>n. - int n) (hex_digits False 0 (unprefix_0x t))
          else if c = CHR ''+'' then map_option int (hex_digits False 0 (unprefix_0x t))
          else map_option int (hex_digits False 0 (unprefix_0x (c # t))))"

text \<open>\<open>str.strip\<close>, \<open>str.lower\<close> on Latin-1 text and \<open>int(text)\<close>.\<close>

definition py_strip :: "string \<Rightarrow> string" where
  "py_strip s = strip_chars py_whitespace s"

definition lower_char :: "char \<Rightarrow> char" where
  "lower_char c =
     (let n = (of_char c :: nat)
      in if (65 \<le> n \<and> n \<le> 90) \<or> (192 \<le> n \<and> n \<le> 222 \<and> n \<noteq> 215) then char_of (n + 32) else c)"

definition py_lower :: "string \<Rightarrow> string" where
  "py_lower s = map lower_char s"

fun dec_digits :: "bool \<Rightarrow> nat \<Rightarrow> string \<Rightarrow> nat option" where
  "dec_digits prev acc [] = (if prev then Some acc else None)"
| "dec_digits prev acc (c # s) =
     (if c = CHR ''_'' then (if prev then dec_digits False acc s else None)
      else if c \<in> set ''0123456789'' then dec_digits True (10 * acc + char_digit c) s else None)"

definition py_int :: "string \<Rightarrow> int option" where
  "py_int s =
     (case py_strip s of
        [] \<Rightarrow> None
      | c # t \<Rightarrow>
          if c = CHR ''-'' then map_option (\<lambda>n. - int n) (dec_digits False 0 t)
          else if c = CHR ''+'' then map_option int (dec_digits False 0 t)
          else map_option int (dec_digits False 0 (c # t)))"

definition hex_char :: "nat \<Rightarrow> char" where
  "hex_char n = (if n < 10 then char_of (48 + n) else char_of (87 + n))"

fun hex_str :: "nat \<Rightarrow> nat \<Rightarrow> string" where
  "hex_str 0 n = []"
| "hex_str (Suc k) n = hex_str k (n div 16) @ [hex_char (n mod 16)]"

definition uuid_text :: "nat \<Rightarrow> string" where
  "uuid_text n =
     (let h = hex_str 32 n
      in take 8 h @ ''-'' @ take 4 (drop 8 h) @ ''-'' @ take 4 (drop 12 h) @ ''-''
         @ take 4 (drop 16 h) @ ''-'' @ drop 20 h)"

definition uuid_parse :: "string \<Rightarrow> string option" where
  "uuid_parse s =
     (let h = remove_all ''-'' (strip_chars ''{}'' (remove_all ''uuid:'' (remove_all ''urn:'' s)))
      in if length h \<noteq> 32 then None
         else case py_int16 h of
                None \<Rightarrow> None
              | Some n \<Rightarrow> if 0 \<le> n \<and> n < 2 ^ 128 then Some (uuid_text (nat n)) else None)"


subsection \<open>Canonical text is a fixed point\<close>

lemma hex_value_hex_char [simp]: "n < 16 \<Longrightarrow> hex_value (hex_char n) = Some n"
  by (auto simp: hex_value_def hex_char_def Let_def)

definition is_hex :: "char \<Rightarrow> bool" where
  "is_hex c \<longleftrightarrow> hex_value c \<noteq> None"

lemma is_hex_hex_str: "c \<in> set (hex_str k n) \<Longrightarrow> is_hex c"
  by (induction k arbitrary: n) (auto simp: is_hex_def)

lemma not_is_hex:
  "\<not> is_hex CHR ''u''" "\<not> is_hex CHR ''-''" "\<not> is_hex CHR ''+''" "\<not> is_hex CHR ''_''"
  "\<not> is_hex CHR ''x''" "\<not> is_hex CHR ''X''" "\<not> is_hex CHR ''{''" "\<not> is_hex CHR ''}''"
  "c \<in> set py_whitespace \<Longrightarrow> \<not> is_hex c"
  by (auto simp: is_hex_def hex_value_def Let_def py_whitespace_def)

lemma length_hex_str [simp]: "length (hex_str k n) = k"
  by (induction k arbitrary: n) simp_all

lemma remove_all_absent: "c \<notin> set s \<Longrightarrow> remove_all (c # p) s = s"
  by (induction s) auto

lemma remove_all_single: "remove_all [c] s = filter (\<lambda>d. d \<noteq> c) s"
  by (induction s) auto

lemma dropWhile_absent: "\<forall>c\<in>set s. \<not> P c \<Longrightarrow> dropWhile P s = s"
  by (cases s) simp_all

lemma strip_chars_absent: "\<forall>c\<in>set s. c \<notin> set cs \<Longrightarrow> strip_chars cs s = s"
  by (simp add: strip_chars_def dropWhile_absent)

lemma hex_digits_all_hex:
  assumes "\<forall>c\<in>set s. is_hex c" "prev \<or> s \<noteq> []"
  shows "hex_digits prev acc s = Some (foldl (\<lambda>n c. 16 * n + the (hex_value c)) acc s)"
  using assms
proof (induction s arbitrary: prev acc)
  case Nil
  then show ?case by simp
next
  case (Cons c s)
  then show ?case using not_is_hex(4) by (auto simp: is_hex_def)
qed

lemma foldl_hex_str:
  "foldl (\<lambda>n c. 16 * n + the (hex_value c)) acc (hex_str k n) = acc * 16 ^ k + n mod 16 ^ k"
proof (induction k arbitrary: n)
  case 0
  then show ?case by simp
next
  case (Suc k)
  have "n mod (16 * 16 ^ k) = 16 * (n div 16 mod 16 ^ k) + n mod 16" by (simp add: mod_mult2_eq)
  with Suc show ?case by (simp add: algebra_simps)
qed

lemma unprefix_0x_hex: "\<forall>c\<in>set s. is_hex c \<Longrightarrow> unprefix_0x s = s"
  using not_is_hex(5,6) by (auto simp: unprefix_0x_def split: list.splits)

lemma py_int16_hex_str:
  assumes "0 < k"
  shows "py_int16 (hex_str k n) = Some (int (n mod 16 ^ k))"
proof -
  let ?s = "hex_str k n"
  have ne: "?s \<noteq> []" using assms by (metis length_hex_str length_greater_0_conv)
  have hex: "\<forall>c\<in>set ?s. is_hex c" using is_hex_hex_str by blast
  have "strip_chars py_whitespace ?s = ?s"
    using hex not_is_hex(9) by (intro strip_chars_absent) blast
  moreover have "hex_digits False 0 (unprefix_0x ?s) = Some (n mod 16 ^ k)"
    unfolding unprefix_0x_hex [OF hex]
    using hex_digits_all_hex [OF hex, of False 0] foldl_hex_str [of 0 k n] ne by simp
  moreover obtain c t where "?s = c # t" using ne by (cases ?s) simp_all
  ultimately show ?thesis
    using hex not_is_hex(2,3) by (auto simp: py_int16_def)
qed

lemma uuid_text_chars:
  "c \<in> set (uuid_text n) \<Longrightarrow> is_hex c \<or> c = CHR ''-''"
  by (auto simp: uuid_text_def Let_def dest!: in_set_takeD in_set_dropD is_hex_hex_str)

lemma uuid_text_unhyphenated: "filter (\<lambda>d. d \<noteq> CHR ''-'') (uuid_text n) = hex_str 32 n"
proof -
  let ?h = "hex_str 32 n"
  have keep: "filter (\<lambda>d. d \<noteq> CHR ''-'') t = t" if "set t \<subseteq> set ?h" for t
    using that is_hex_hex_str [of _ 32 n] not_is_hex(2) by (intro filter_True) blast
  have sub: "set (take i (drop j ?h)) \<subseteq> set ?h" "set (take i ?h) \<subseteq> set ?h"
    "set (drop j ?h) \<subseteq> set ?h" for i j
    by (meson order_trans set_drop_subset set_take_subset)+
  have join: "take i (drop j ?h) @ drop (i + j) ?h = drop j ?h" for i j
    by (metis append_take_drop_id drop_drop)
  have "take 8 ?h @ take 4 (drop 8 ?h) @ take 4 (drop 12 ?h) @ take 4 (drop 16 ?h) @ drop 20 ?h = ?h"
    using join [of 4 16] join [of 4 12] join [of 4 8] append_take_drop_id [of 8 ?h] by simp
  then show ?thesis
    unfolding uuid_text_def Let_def by (simp add: keep sub)
qed

lemma uuid_parse_uuid_text:
  assumes "n < 2 ^ 128"
  shows "uuid_parse (uuid_text n) = Some (uuid_text n)"
proof -
  have u: "CHR ''u'' \<notin> set (uuid_text n)" "\<forall>c\<in>set (uuid_text n). c \<notin> set ''{}''"
    using uuid_text_chars [of _ n] not_is_hex(1,7,8) by fastforce+
  have "n mod 16 ^ 32 = n" using assms by simp
  then have n: "py_int16 (hex_str 32 n) = Some (int n)"
    using py_int16_hex_str [of 32 n] by simp
  have "int n < 2 ^ 128" using assms by simp
  moreover have "remove_all ''-'' (strip_chars ''{}'' (remove_all ''uuid:''
      (remove_all ''urn:'' (uuid_text n)))) = hex_str 32 n"
    using u by (simp add: remove_all_absent strip_chars_absent remove_all_single
        uuid_text_unhyphenated)
  ultimately show ?thesis
    by (simp add: uuid_parse_def n)
qed

text \<open>Normalising an identifier twice is normalising it once.\<close>

lemma uuid_parse_idem: "uuid_parse s = Some u \<Longrightarrow> uuid_parse u = Some u"
proof -
  assume "uuid_parse s = Some u"
  then obtain n :: int where "u = uuid_text (nat n)" "0 \<le> n" "n < 2 ^ 128"
    by (auto simp: uuid_parse_def Let_def split: if_splits option.splits)
  then show ?thesis by (simp add: uuid_parse_uuid_text nat_less_iff)
qed

lemma uuid_text_inject:
  assumes "m < 2 ^ 128" "n < 2 ^ 128"
  shows "uuid_text m = uuid_text n \<longleftrightarrow> m = n"
proof
  assume "uuid_text m = uuid_text n"
  then have "hex_str 32 m = hex_str 32 n"
    using uuid_text_unhyphenated [of m] uuid_text_unhyphenated [of n] by simp
  then have "int (m mod 16 ^ 32) = int (n mod 16 ^ 32)"
    using py_int16_hex_str [of 32 m] py_int16_hex_str [of 32 n] by simp
  then show "m = n" using assms by simp
qed simp

section \<open>Joining and splitting\<close>

text \<open>\<open>sep.join(xs)\<close> and \<open>s.split(c)\<close> for a one-character separator.\<close>

fun join_text :: "string \<Rightarrow> string list \<Rightarrow> string" where
  "join_text sep [] = []"
| "join_text sep [x] = x"
| "join_text sep (x # y # xs) = x @ sep @ join_text sep (y # xs)"

fun split_char :: "char \<Rightarrow> string \<Rightarrow> string list" where
  "split_char c [] = [[]]"
| "split_char c (d # s) = (if d = c then [] # split_char c s else
     (case split_char c s of [] \<Rightarrow> [[d]] | t # ts \<Rightarrow> (d # t) # ts))"

lemma split_char_join:
  assumes "xs \<noteq> []" "\<forall>x\<in>set xs. c \<notin> set x"
  shows "split_char c (join_text [c] xs) = xs"
proof -
  have one: "split_char c x = [x]" if "c \<notin> set x" for x
    using that by (induction x) auto
  have glue: "split_char c (x @ c # y) = x # split_char c y" if "c \<notin> set x" for x y
    using that by (induction x) auto
  from assms show ?thesis
    by (induction "[c]" xs rule: join_text.induct) (auto simp: one glue)
qed

section \<open>\<open>repr\<close> of a text\<close>

text \<open>
  Single quotes unless the text has a single quote and no double quote; backslash, the quote in use and
  the control characters are escaped. Bytes above 127 belong to printable characters here.
\<close>

definition repr_char :: "char \<Rightarrow> char \<Rightarrow> string" where
  "repr_char q c =
     (let n = (of_char c :: nat) in
      if c = q \<or> n = 92 then [CHR 0x5C, c]
      else if n = 10 then [CHR 0x5C, CHR ''n'']
      else if n = 13 then [CHR 0x5C, CHR ''r'']
      else if n = 9 then [CHR 0x5C, CHR ''t'']
      else if n < 32 \<or> n = 127 then CHR 0x5C # CHR ''x'' # hex_str 2 n
      else [c])"

definition repr_str :: "string \<Rightarrow> string" where
  "repr_str s =
     (let q = (if CHR 0x27 \<in> set s \<and> CHR 0x22 \<notin> set s then CHR 0x22 else CHR 0x27)
      in q # concat (map (repr_char q) s) @ [q])"

definition int_literal_message :: "string \<Rightarrow> string" where
  "int_literal_message raw = ''invalid literal for int() with base 10: '' @ repr_str raw"

end
