(* ===== verification/Money.thy ===== *)
theory Money
  imports Py_Decimal Py_Text
begin

text \<open>
  \<open>money.py\<close>, the single quantization point (rule set \<open>precision:1.0.0\<close>): coercion of a
  Python value, quantization to \<open>numeric(24,8)\<close> half-even, application of an unquantized
  rate, and the canonical text form. The reference is \<open>rhe\<close>, half-even rounding of a
  rational to an integer: an amount is the integer number of \<open>1E-8\<close> units it is worth.
\<close>

section \<open>Definitions\<close>

text \<open>
  What a caller may pass where the code says \<open>Decimal | int\<close>: booleans, other types and
  non-finite decimals included, since \<open>_coerce\<close> tells them apart.
\<close>

datatype pynum = PyBool bool | PyInt int | PyDec decimal | PySpecial | PyOther

datatype money_error = NotDecimalOrInt | NotFinite | DoesNotFit | NotQuantized

definition MONEY_SCALE :: int where
  "MONEY_SCALE = 8"

definition MONEY_QUANTUM :: decimal where
  "MONEY_QUANTUM = Dec False 1 (- 8)"

definition QUANTITY_QUANTUM :: decimal where
  "QUANTITY_QUANTUM = MONEY_QUANTUM"

definition NUMERIC_24_8_MAX :: decimal where
  "NUMERIC_24_8_MAX = Dec False 999999999999999999999999 (- 8)"

definition NUMERIC_24_8_MIN :: decimal where
  "NUMERIC_24_8_MIN = copy_negate NUMERIC_24_8_MAX"

definition FEE_RATE :: decimal where
  "FEE_RATE = Dec False 2 (- 3)"

definition SLIPPAGE_RATE :: decimal where
  "SLIPPAGE_RATE = Dec False 5 (- 4)"

definition working_precision :: nat where
  "working_precision = 60"

fun coerce :: "pynum \<Rightarrow> money_error + decimal" where
  "coerce (PyBool _) = Inl NotDecimalOrInt"
| "coerce PyOther = Inl NotDecimalOrInt"
| "coerce (PyInt n) = Inr (dec_of_int n)"
| "coerce PySpecial = Inl NotFinite"
| "coerce (PyDec d) = Inr d"

definition quantize_to :: "decimal \<Rightarrow> decimal \<Rightarrow> money_error + decimal" where
  "quantize_to v quantum =
     (case dquantize working_precision v (dexp quantum) of
        Inl _ \<Rightarrow> Inl DoesNotFit
      | Inr q \<Rightarrow>
          if dless q NUMERIC_24_8_MIN \<or> dless NUMERIC_24_8_MAX q then Inl DoesNotFit
          else if deq q dzero then Inr (copy_abs q) else Inr q)"

definition quantize_money :: "pynum \<Rightarrow> money_error + decimal" where
  "quantize_money v = ebind (coerce v) (\<lambda>d. quantize_to d MONEY_QUANTUM)"

definition quantize_quantity :: "pynum \<Rightarrow> bool \<Rightarrow> money_error + decimal" where
  "quantize_quantity v fractional_eligible =
     (let quantum = if fractional_eligible then QUANTITY_QUANTUM else done1
      in ebind (coerce v) (\<lambda>d. quantize_to d quantum))"

definition apply_rate :: "pynum \<Rightarrow> pynum \<Rightarrow> money_error + decimal" where
  "apply_rate base rate =
     ebind (coerce base) (\<lambda>b. ebind (coerce rate) (\<lambda>r.
       quantize_to (dmul working_precision b r) MONEY_QUANTUM))"

fun is_quantized_money :: "pynum \<Rightarrow> bool" where
  "is_quantized_money (PyDec d) = (dexp d = - MONEY_SCALE)"
| "is_quantized_money _ = False"

definition assert_quantized_money :: "pynum \<Rightarrow> money_error + decimal" where
  "assert_quantized_money v =
     (if is_quantized_money v then (case v of PyDec d \<Rightarrow> Inr d | _ \<Rightarrow> Inl NotQuantized)
      else Inl NotQuantized)"

text \<open>\<open>f"{value:f}"\<close> of a decimal at exponent \<open>-8\<close>: sign, integer part, eight digits.\<close>

definition fixed_point_text :: "decimal \<Rightarrow> string" where
  "fixed_point_text d =
     (if dneg d then ''-'' else '''') @ nat_str (dcoef d div 10 ^ 8) @ ''.'' @
     fixed_str 8 (dcoef d mod 10 ^ 8)"

definition format_money :: "decimal \<Rightarrow> money_error + string" where
  "format_money d = ebind (assert_quantized_money (PyDec d)) (\<lambda>v. Inr (fixed_point_text v))"

section \<open>Reference rounding\<close>

definition rhe :: "rat \<Rightarrow> int" where
  "rhe x =
     (let f = \<lfloor>x\<rfloor>; r = x - of_int f
      in if r < 1 / 2 then f else if 1 / 2 < r then f + 1 else if even f then f else f + 1)"

definition money_of_units :: "int \<Rightarrow> decimal" where
  "money_of_units u = Dec (u < 0) (nat \<bar>u\<bar>) (- 8)"

definition units :: "decimal \<Rightarrow> int" where
  "units d = dsigned d"

definition is_money :: "decimal \<Rightarrow> bool" where
  "is_money d \<longleftrightarrow> dexp d = - 8 \<and> dcoef d < 10 ^ 24 \<and> (dneg d \<longrightarrow> dcoef d \<noteq> 0)"

lemma rhe_of_int [simp]: "rhe (of_int n) = n"
  by (simp add: rhe_def)

lemma rhe_error: "\<bar>of_int (rhe x) - x\<bar> \<le> 1 / 2"
proof -
  define r where "r = x - of_int \<lfloor>x\<rfloor>"
  have r: "0 \<le> r" "r < 1" unfolding r_def by linarith+
  have x: "x = of_int \<lfloor>x\<rfloor> + r" by (simp add: r_def)
  consider "r < 1 / 2" | "1 / 2 < r" | "r = 1 / 2" by linarith
  then show ?thesis
  proof cases
    case 1
    then have "rhe x = \<lfloor>x\<rfloor>" by (simp add: rhe_def r_def)
    with 1 r x show ?thesis by linarith
  next
    case 2
    then have "rhe x = \<lfloor>x\<rfloor> + 1" by (simp add: rhe_def r_def)
    with 2 r x show ?thesis by (simp add: abs_if)
  next
    case 3
    have "rhe x = \<lfloor>x\<rfloor> \<or> rhe x = \<lfloor>x\<rfloor> + 1" unfolding rhe_def Let_def by metis
    with 3 x show ?thesis by (auto simp: abs_if)
  qed
qed

lemma rhe_minus: "rhe (- x) = - rhe x"
proof (cases "x = of_int \<lfloor>x\<rfloor>")
  case True
  then have "rhe (- x) = rhe (of_int (- \<lfloor>x\<rfloor>))" "rhe x = rhe (of_int \<lfloor>x\<rfloor>)" by simp_all
  then show ?thesis by (simp only: rhe_of_int)
next
  case False
  define r where "r = x - of_int \<lfloor>x\<rfloor>"
  have r: "0 < r" "r < 1" using False unfolding r_def by linarith+
  have fl: "\<lfloor>- x\<rfloor> = - \<lfloor>x\<rfloor> - 1" using r unfolding r_def by linarith
  have "- x - of_int \<lfloor>- x\<rfloor> = 1 - r" by (simp add: fl r_def)
  then have m: "rhe (- x) = (if 1 - r < 1 / 2 then \<lfloor>- x\<rfloor> else if 1 / 2 < 1 - r then \<lfloor>- x\<rfloor> + 1
      else if even \<lfloor>- x\<rfloor> then \<lfloor>- x\<rfloor> else \<lfloor>- x\<rfloor> + 1)" by (simp only: rhe_def Let_def)
  have x: "rhe x = (if r < 1 / 2 then \<lfloor>x\<rfloor> else if 1 / 2 < r then \<lfloor>x\<rfloor> + 1
      else if even \<lfloor>x\<rfloor> then \<lfloor>x\<rfloor> else \<lfloor>x\<rfloor> + 1)" by (simp only: rhe_def Let_def r_def)
  show ?thesis unfolding m x fl by auto
qed

lemma rhe_div_half_even:
  assumes "0 < m"
  shows "rhe (of_nat n / of_nat m) = int (div_half_even n m)"
proof -
  have fl: "\<lfloor>(of_nat n :: rat) / of_nat m\<rfloor> = int (n div m)" by (rule floor_divide_of_nat_eq)
  have "(of_nat n :: rat) = of_nat m * of_nat (n div m) + of_nat (n mod m)"
    by (metis mult_div_mod_eq of_nat_add of_nat_mult)
  then have r: "(of_nat n :: rat) / of_nat m - of_int (int (n div m)) = of_nat (n mod m) / of_nat m"
    using assms by (simp add: field_simps)
  have lt: "(of_nat (n mod m) :: rat) / of_nat m < 1 / 2 \<longleftrightarrow> 2 * (n mod m) < m"
    "1 / 2 < (of_nat (n mod m) :: rat) / of_nat m \<longleftrightarrow> m < 2 * (n mod m)"
  proof -
    have "(of_nat (n mod m) :: rat) / of_nat m < 1 / 2
        \<longleftrightarrow> (of_nat (2 * (n mod m)) :: rat) < of_nat m"
      using assms by (simp add: divide_less_eq mult.commute)
    then show "(of_nat (n mod m) :: rat) / of_nat m < 1 / 2 \<longleftrightarrow> 2 * (n mod m) < m"
      by (simp only: of_nat_less_iff)
    have "1 / 2 < (of_nat (n mod m) :: rat) / of_nat m
        \<longleftrightarrow> (of_nat m :: rat) < of_nat (2 * (n mod m))"
      using assms by (simp add: less_divide_eq mult.commute)
    then show "1 / 2 < (of_nat (n mod m) :: rat) / of_nat m \<longleftrightarrow> m < 2 * (n mod m)"
      by (simp only: of_nat_less_iff)
  qed
  show ?thesis
    unfolding rhe_def Let_def fl r lt div_half_even_def by simp
qed


section \<open>Quantization is half-even rounding to units\<close>

lemma powi_minus8: "(10::rat) powi (- 8) = 1 / 10 ^ 8"
  by (simp add: power_int_minus)

lemma dval_money: "dexp d = - 8 \<Longrightarrow> dval d = of_int (units d) / 10 ^ 8"
  by (simp add: dval_def units_def powi_minus8)

lemma units_money_of_units [simp]: "units (money_of_units u) = u"
  by (simp add: units_def money_of_units_def dsigned_def)

lemma dval_money_of_units [simp]: "dval (money_of_units u) = of_int u / 10 ^ 8"
  by (subst dval_money) (simp_all add: money_of_units_def [of u] units_def dsigned_def)

lemma is_money_of_units: "is_money (money_of_units u) \<longleftrightarrow> \<bar>u\<bar> < 10 ^ 24"
  by (auto simp: is_money_def money_of_units_def nat_less_iff)

lemma money_of_units_units: "is_money d \<Longrightarrow> money_of_units (units d) = d"
  by (cases d) (auto simp: is_money_def money_of_units_def units_def dsigned_def)

lemma is_money_units_bound: "is_money d \<Longrightarrow> \<bar>units d\<bar> < 10 ^ 24"
  by (simp add: is_money_def units_def dsigned_abs)

lemma is_money_fine: "is_money d \<Longrightarrow> fine d"
  by (simp add: is_money_def fine_def)

lemma is_money_dval_bound: "is_money d \<Longrightarrow> \<bar>dval d\<bar> < 10 ^ 16"
  by (simp add: is_money_def dval_abs powi_minus8)

text \<open>Rescaling a coefficient is \<open>rhe\<close> of the value in quanta.\<close>

lemma rescale_coef_rhe:
  "int (rescale_coef c from to) = rhe (of_nat c * 10 powi from / 10 powi to)"
proof (cases "to \<le> from")
  case True
  then have "(10::rat) powi from = 10 ^ nat (from - to) * 10 powi to"
    by (simp flip: powi10_nat powi10_add)
  then have "(of_nat c * 10 powi from / 10 powi to :: rat) = of_int (int (c * 10 ^ nat (from - to)))"
    by simp
  with True show ?thesis by (simp only: rhe_of_int rescale_coef_def if_True)
next
  case False
  define m where "m = nat (to - from)"
  have "(10::rat) powi to = of_nat (10 ^ m) * 10 powi from"
    using False by (simp add: m_def flip: powi10_nat powi10_add)
  then have "(of_nat c * 10 powi from / 10 powi to :: rat) = of_nat c / of_nat (10 ^ m)" by simp
  then have "rhe (of_nat c * 10 powi from / 10 powi to) = int (div_half_even c (10 ^ m))"
    using rhe_div_half_even [of "10 ^ m" c] by simp
  with False show ?thesis by (simp add: rescale_coef_def m_def)
qed

lemma rhe_quanta:
  "rhe (dval d / 10 powi e)
     = (if dneg d then - int (rescale_coef (dcoef d) (dexp d) e)
        else int (rescale_coef (dcoef d) (dexp d) e))"
proof (cases "dneg d")
  case True
  then have "dval d / 10 powi e = - (of_nat (dcoef d) * 10 powi dexp d / 10 powi e)"
    by (simp add: dval_def dsigned_def)
  with True show ?thesis by (simp only: rhe_minus rescale_coef_rhe if_True)
next
  case False
  then have "dval d / 10 powi e = of_nat (dcoef d) * 10 powi dexp d / 10 powi e"
    by (simp add: dval_def dsigned_def)
  with False show ?thesis by (simp only: rescale_coef_rhe if_False)
qed

lemma quantize_to_money:
  "quantize_to d MONEY_QUANTUM =
     (let u = rhe (dval d * 10 ^ 8)
      in if \<bar>u\<bar> < 10 ^ 24 then Inr (money_of_units u) else Inl DoesNotFit)"
proof -
  define c where "c = rescale_coef (dcoef d) (dexp d) (- 8)"
  have u: "rhe (dval d * 10 ^ 8) = (if dneg d then - int c else int c)"
    using rhe_quanta [of d "- 8"] by (simp add: powi_minus8 c_def)
  have rng: "dless (Dec s c (- 8)) NUMERIC_24_8_MIN \<or> dless NUMERIC_24_8_MAX (Dec s c (- 8))
      \<longleftrightarrow> \<not> c < 10 ^ 24" for s
    by (auto simp: dless_def Let_def dscale_def dsigned_def NUMERIC_24_8_MIN_def
        NUMERIC_24_8_MAX_def copy_negate_def)
  have zero: "deq (Dec s c (- 8)) dzero \<longleftrightarrow> c = 0" for s
    by (auto simp: deq_def dscale_def dsigned_def)
  have dig: "c < 10 ^ 24 \<Longrightarrow> ndigits c \<le> working_precision"
    by (simp add: ndigits_le working_precision_def)
  show ?thesis
    unfolding quantize_to_def dquantize_def Let_def MONEY_QUANTUM_def u
    using rng dig by (auto simp: zero money_of_units_def copy_abs_def simp flip: c_def)
qed

lemma quantize_money_units:
  "quantize_money (PyDec d) =
     (let u = rhe (dval d * 10 ^ 8)
      in if \<bar>u\<bar> < 10 ^ 24 then Inr (money_of_units u) else Inl DoesNotFit)"
  by (simp add: quantize_money_def quantize_to_money)


lemma quantize_to_whole:
  "quantize_to d done1 =
     (let u = rhe (dval d)
      in if \<bar>u\<bar> < 10 ^ 16 then Inr (dec_of_int u) else Inl DoesNotFit)"
proof -
  define c where "c = rescale_coef (dcoef d) (dexp d) 0"
  have u: "rhe (dval d) = (if dneg d then - int c else int c)"
    using rhe_quanta [of d 0] by (simp add: c_def)
  have rng: "dless (Dec s c 0) NUMERIC_24_8_MIN \<or> dless NUMERIC_24_8_MAX (Dec s c 0)
      \<longleftrightarrow> \<not> c < 10 ^ 16" for s
    by (auto simp: dless_def Let_def dscale_def dsigned_def NUMERIC_24_8_MIN_def
        NUMERIC_24_8_MAX_def copy_negate_def)
  have zero: "deq (Dec s c 0) dzero \<longleftrightarrow> c = 0" for s
    by (auto simp: deq_def dscale_def dsigned_def)
  have dig: "c < 10 ^ 16 \<Longrightarrow> ndigits c \<le> working_precision"
    by (simp add: ndigits_le working_precision_def)
  show ?thesis
    unfolding quantize_to_def dquantize_def Let_def u
    using rng dig by (auto simp: zero dec_of_int_def copy_abs_def simp flip: c_def)
qed

lemma quantize_money_Inr:
  assumes "quantize_money (PyDec d) = Inr q"
  shows "is_money q" "units q = rhe (dval d * 10 ^ 8)" "\<bar>dval q - dval d\<bar> \<le> 1 / (2 * 10 ^ 8)"
proof -
  have q: "q = money_of_units (rhe (dval d * 10 ^ 8))" "\<bar>rhe (dval d * 10 ^ 8)\<bar> < 10 ^ 24"
    using assms by (simp_all add: quantize_money_units Let_def split: if_splits)
  then show "is_money q" "units q = rhe (dval d * 10 ^ 8)" by (simp_all add: is_money_of_units)
  have "dval q - dval d = (of_int (rhe (dval d * 10 ^ 8)) - dval d * 10 ^ 8) / 10 ^ 8"
    unfolding q(1) by (simp add: diff_divide_distrib)
  then have "\<bar>dval q - dval d\<bar> = \<bar>(of_int (rhe (dval d * 10 ^ 8)) - dval d * 10 ^ 8) / 10 ^ 8\<bar>"
    by (simp only:)
  also have "\<dots> = \<bar>of_int (rhe (dval d * 10 ^ 8)) - dval d * 10 ^ 8\<bar> / 10 ^ 8"
    by (simp only: abs_divide) simp
  also have "\<dots> \<le> (1 / 2) / 10 ^ 8" using rhe_error by (intro divide_right_mono) simp_all
  finally show "\<bar>dval q - dval d\<bar> \<le> 1 / (2 * 10 ^ 8)" by simp
qed

lemma quantize_money_exact:
  assumes "dval d = of_int u / 10 ^ 8" "\<bar>u\<bar> < 10 ^ 24"
  shows "quantize_money (PyDec d) = Inr (money_of_units u)"
proof -
  have "dval d * 10 ^ 8 = of_int u" using assms(1) by simp
  then have "rhe (dval d * 10 ^ 8) = u" by (simp only: rhe_of_int)
  with assms(2) show ?thesis by (simp add: quantize_money_units)
qed

lemma quantize_money_keeps: "is_money d \<Longrightarrow> quantize_money (PyDec d) = Inr d"
  using quantize_money_exact [of d "units d"] is_money_units_bound [of d] dval_money [of d]
    money_of_units_units [of d]
  by (simp add: is_money_def)

lemma rhe_mono: "x \<le> y \<Longrightarrow> rhe x \<le> rhe y"
proof (cases "\<lfloor>x\<rfloor> = \<lfloor>y\<rfloor>")
  case True
  assume "x \<le> y"
  with True have "x - of_int \<lfloor>x\<rfloor> \<le> y - of_int \<lfloor>y\<rfloor>" by simp
  with True show ?thesis by (auto simp: rhe_def Let_def)
next
  case False
  assume "x \<le> y"
  then have "\<lfloor>x\<rfloor> \<le> \<lfloor>y\<rfloor>" by (rule floor_mono)
  with False have "\<lfloor>x\<rfloor> + 1 \<le> \<lfloor>y\<rfloor>" by simp
  moreover have "rhe x \<le> \<lfloor>x\<rfloor> + 1" "\<lfloor>y\<rfloor> \<le> rhe y" by (simp_all add: rhe_def Let_def)
  ultimately show ?thesis by linarith
qed

lemma quantize_money_mono:
  assumes "quantize_money (PyDec a) = Inr a'" "quantize_money (PyDec b) = Inr b'" "dval a \<le> dval b"
  shows "dval a' \<le> dval b'"
proof -
  have "units a' \<le> units b'"
    using assms rhe_mono [of "dval a * 10 ^ 8" "dval b * 10 ^ 8"] by (simp add: quantize_money_Inr)
  then show ?thesis
    using quantize_money_Inr(1) [OF assms(1)] quantize_money_Inr(1) [OF assms(2)]
    by (simp add: is_money_def dval_money divide_right_mono)
qed

lemma quantize_money_nonneg:
  assumes "quantize_money (PyDec a) = Inr a'" "0 \<le> dval a"
  shows "0 \<le> dval a'"
  using quantize_money_mono [of dzero _ a, OF _ assms(1)] quantize_money_exact [of dzero 0] assms(2)
  by simp

lemma apply_rate_product:
  assumes "dcoef b * dcoef r < 10 ^ 60"
  shows "apply_rate (PyDec b) (PyDec r) =
     (let u = rhe (dval b * dval r * 10 ^ 8)
      in if \<bar>u\<bar> < 10 ^ 24 then Inr (money_of_units u) else Inl DoesNotFit)"
  using dmul_is_exact(1) [of working_precision b r] assms
  by (simp add: apply_rate_def quantize_to_money working_precision_def)

lemma quantize_quantity_fractional:
  "quantize_quantity v True = quantize_money v"
  by (simp add: quantize_quantity_def quantize_money_def QUANTITY_QUANTUM_def)

lemma quantize_quantity_whole:
  "quantize_quantity (PyDec d) False =
     (let u = rhe (dval d)
      in if \<bar>u\<bar> < 10 ^ 16 then Inr (dec_of_int u) else Inl DoesNotFit)"
  by (simp only: quantize_quantity_def Let_def coerce.simps ebind_simps if_False quantize_to_whole)

section \<open>Canonical text\<close>

lemma nat_str_digits: "c \<in> set (nat_str n) \<Longrightarrow> \<exists>k<10. c = digit_char k"
proof (induction n rule: nat_str.induct)
  case (1 n)
  show ?case
  proof (cases "n < 10")
    case True
    with "1.prems" have "c = digit_char n" by (simp add: nat_str.simps [of n])
    with True show ?thesis by blast
  next
    case False
    then have "c \<in> set (nat_str (n div 10)) \<or> c = digit_char (n mod 10)"
      using "1.prems" by (auto simp: nat_str.simps [of n])
    moreover have "n mod 10 < 10" by simp
    ultimately show ?thesis using "1.IH" False by blast
  qed
qed

lemma digit_char_not_minus: "k < 10 \<Longrightarrow> digit_char k \<noteq> CHR ''-''"
  using char_digit_digit_char [of k]
  by (auto simp: digit_char_def dest!: arg_cong [where f = "of_char :: char \<Rightarrow> nat"])

lemma nat_str_not_Nil [simp]: "nat_str n \<noteq> []"
  by (subst nat_str.simps) simp

lemma hd_nat_str: "hd (nat_str n @ t) \<noteq> CHR ''-''"
proof -
  have "hd (nat_str n @ t) \<in> set (nat_str n)" by simp
  from nat_str_digits [OF this] show ?thesis using digit_char_not_minus by metis
qed

lemma fixed_point_text_inject:
  assumes "dexp a = dexp b" "fixed_point_text a = fixed_point_text b"
  shows "a = b"
proof -
  let ?t = "\<lambda>d. nat_str (dcoef d div 10 ^ 8) @ ''.'' @ fixed_str 8 (dcoef d mod 10 ^ 8)"
  have hd: "dneg d \<longleftrightarrow> hd (fixed_point_text d) = CHR ''-''" for d
    using hd_nat_str by (auto simp: fixed_point_text_def)
  have sign: "dneg a = dneg b" using assms(2) hd [of a] hd [of b] by simp
  then have "?t a = ?t b" using assms(2) by (auto simp: fixed_point_text_def)
  moreover have "length (''.'' @ fixed_str 8 (dcoef a mod 10 ^ 8))
      = length (''.'' @ fixed_str 8 (dcoef b mod 10 ^ 8))" by simp
  ultimately have t: "nat_str (dcoef a div 10 ^ 8) = nat_str (dcoef b div 10 ^ 8)"
    "''.'' @ fixed_str 8 (dcoef a mod 10 ^ 8) = ''.'' @ fixed_str 8 (dcoef b mod 10 ^ 8)"
    by (simp_all only: append_eq_append_conv simp_thms)
  have "dcoef a div 10 ^ 8 = dcoef b div 10 ^ 8" using t(1) by (simp only: nat_str_inject)
  moreover have "dcoef a mod 10 ^ 8 mod 10 ^ 8 = dcoef b mod 10 ^ 8 mod 10 ^ 8"
    using arg_cong [OF t(2), of "\<lambda>s. str_nat (tl s)"] by (simp only: append.simps list.sel
        str_nat_fixed_str)
  then have "dcoef a mod 10 ^ 8 = dcoef b mod 10 ^ 8" by (simp only: mod_mod_trivial)
  ultimately have "dcoef a = dcoef b" by (metis mult_div_mod_eq)
  with sign assms(1) show ?thesis by (simp add: decimal.expand)
qed

end
