(* ===== verification/Execution_Policy.thy ===== *)
theory Execution_Policy
  imports Money "HOL-Library.Char_ord" "HOL-Library.List_Lexorder"
begin

text \<open>
  \<open>execution_policy.py\<close>: the pinned execution policy with its construction checks, ET
  calendar quarters, and the catalog that selects an immutable policy by release quarter
  or version. The time-zone database is not part of the repository: \<open>ET\<close> and the named
  zones are parameters that give the local wall-clock fields of an instant.
\<close>

section \<open>Local time and quarters\<close>

record local_time =
  lt_year :: int
  lt_month :: int
  lt_day :: int
  lt_hour :: int
  lt_minute :: int
  lt_second :: int
  lt_microsecond :: int

type_synonym zone = "instant \<Rightarrow> local_time"

datatype policy_error = ValueError string | ExecutionPolicyUnavailable string

definition BASIS_POINTS :: decimal where
  "BASIS_POINTS = dec_of_int 10000"

definition PRECISION_RULES_VERSION :: string where
  "PRECISION_RULES_VERSION = ''precision:1.0.0''"

definition int_str :: "int \<Rightarrow> string" where
  "int_str n = (if n < 0 then ''-'' @ nat_str (nat (- n)) else nat_str (nat n))"

text \<open>\<open>midnight y m d\<close> is the UTC instant at which the ET calendar day begins.\<close>

definition et_quarter_start ::
  "(int \<Rightarrow> int \<Rightarrow> int \<Rightarrow> instant) \<Rightarrow> int \<Rightarrow> int \<Rightarrow> policy_error + instant" where
  "et_quarter_start midnight year quarter =
     (if quarter \<notin> {1, 2, 3, 4} then Inl (ValueError ''quarter must be 1-4'')
      else Inr (midnight year (3 * (quarter - 1) + 1) 1))"

definition quarter_index :: "zone \<Rightarrow> instant \<Rightarrow> int option" where
  "quarter_index et t =
     (let l = et t
      in if lt_month l \<notin> {1, 4, 7, 10} then None
         else if (lt_day l, lt_hour l, lt_minute l, lt_second l, lt_microsecond l) \<noteq> (1, 0, 0, 0, 0)
         then None
         else Some (lt_year l * 4 + (lt_month l - 1) div 3))"

definition release_quarter_of :: "zone \<Rightarrow> py_datetime \<Rightarrow> policy_error + string" where
  "release_quarter_of et moment =
     ebind (utc_or (ValueError ''strategy_released_at must be timezone-aware'') moment) (\<lambda>t.
       let l = et t
       in Inr (int_str (lt_year l) @ ''-Q'' @ int_str ((lt_month l - 1) div 3 + 1)))"

section \<open>The policy\<close>

text \<open>A period boundary either carries \<open>timezone.utc\<close> or it does not.\<close>

datatype policy_time = UtcTime instant | OtherTime

record execution_policy =
  pol_version :: string
  pol_release_quarter :: string
  pol_period_start :: policy_time
  pol_period_end :: policy_time
  pol_fee_rate :: decimal
  pol_slippage_rate_bps :: int
  pol_timezone :: string
  pol_session_calendar :: string
  pol_timestamp_unit :: string
  pol_price_arrow_type :: string
  pol_volume_arrow_type :: string
  pol_market_data_schema_version :: string
  pol_calculation_model_version :: string
  pol_market_rules_version :: string
  pol_accounting_rules_version :: string
  pol_fee_policy_id :: string
  pol_buying_power_buffer_policy_id :: string
  pol_good_till_cancelled_horizon :: duration
  pol_max_order_horizon :: duration
  pol_precision_rules_version :: string

definition local_midnight :: "zone \<Rightarrow> instant \<Rightarrow> bool" where
  "local_midnight z t =
     (let l = z t in (lt_hour l, lt_minute l, lt_second l, lt_microsecond l) = (0, 0, 0, 0))"

definition execution_policy_new ::
  "(string \<Rightarrow> zone option) \<Rightarrow> execution_policy \<Rightarrow> policy_error + execution_policy" where
  "execution_policy_new zones p =
     ebind (require (pol_version p \<noteq> []) (ValueError ''execution policy version must not be empty'')) (\<lambda>_.
     case (pol_period_start p, pol_period_end p) of
       (UtcTime s, UtcTime t) \<Rightarrow>
         ebind (require (s < t) (ValueError ''execution policy period must be increasing'')) (\<lambda>_.
         case zones (pol_timezone p) of
           None \<Rightarrow> Inl (ValueError ''execution policy timezone is invalid'')
         | Some z \<Rightarrow>
             ebind (require (local_midnight z s)
               (ValueError ''execution policy period must use local calendar-day boundaries'')) (\<lambda>_.
             ebind (require (local_midnight z t)
               (ValueError ''execution policy period must use local calendar-day boundaries'')) (\<lambda>_.
             ebind (require (\<not> dless (pol_fee_rate p) dzero)
               (ValueError ''execution policy rates must not be negative'')) (\<lambda>_.
             ebind (require (0 \<le> pol_slippage_rate_bps p)
               (ValueError ''execution policy rates must not be negative'')) (\<lambda>_.
             ebind (require (0 < pol_good_till_cancelled_horizon p)
               (ValueError ''good_till_cancelled_horizon must be a positive horizon'')) (\<lambda>_.
             ebind (require (0 < pol_max_order_horizon p)
               (ValueError ''max_order_horizon must be a positive horizon'')) (\<lambda>_.
             ebind (require (pol_good_till_cancelled_horizon p \<le> pol_max_order_horizon p)
               (ValueError ''good_till_cancelled_horizon must not exceed max_order_horizon'')) (\<lambda>_.
             ebind (require (pol_precision_rules_version p = PRECISION_RULES_VERSION)
               (ValueError ''this build implements only precision:1.0.0'')) (\<lambda>_.
             ebind (require (pol_market_rules_version p \<noteq> [])
               (ValueError ''market_rules_version must not be empty'')) (\<lambda>_.
             ebind (require (pol_accounting_rules_version p \<noteq> [])
               (ValueError ''accounting_rules_version must not be empty'')) (\<lambda>_.
             ebind (require (uuid_parse (pol_fee_policy_id p) \<noteq> None)
               (ValueError ''fee_policy_id must be a UUID'')) (\<lambda>_.
             ebind (require (uuid_parse (pol_buying_power_buffer_policy_id p) \<noteq> None)
               (ValueError ''buying_power_buffer_policy_id must be a UUID'')) (\<lambda>_.
             Inr p)))))))))))))
     | _ \<Rightarrow> Inl (ValueError ''execution policy period must use UTC''))"

definition quarter_count :: "zone \<Rightarrow> execution_policy \<Rightarrow> policy_error + int" where
  "quarter_count et p =
     (case (pol_period_start p, pol_period_end p) of
        (UtcTime s, UtcTime t) \<Rightarrow>
          (case (quarter_index et s, quarter_index et t) of
             (Some i, Some j) \<Rightarrow> Inr (j - i)
           | _ \<Rightarrow> Inl (ValueError ''execution policy period is not aligned to ET quarter boundaries''))
      | _ \<Rightarrow> Inl (ValueError ''execution policy period is not aligned to ET quarter boundaries''))"

definition slippage_rate :: "execution_policy \<Rightarrow> dec_error + decimal" where
  "slippage_rate p = ddiv default_prec (dec_of_int (pol_slippage_rate_bps p)) BASIS_POINTS"

datatype column_value = ColText string | ColInt int

definition run_columns :: "execution_policy \<Rightarrow> (string \<times> column_value) list" where
  "run_columns p =
     [(''market_rules_version'', ColText (pol_market_rules_version p)),
      (''accounting_rules_version'', ColText (pol_accounting_rules_version p)),
      (''precision_rules_version'', ColText (pol_precision_rules_version p)),
      (''fee_policy_id'', ColText (pol_fee_policy_id p)),
      (''slippage_rate_bps'', ColInt (pol_slippage_rate_bps p)),
      (''buying_power_buffer_policy_id'', ColText (pol_buying_power_buffer_policy_id p))]"

section \<open>The catalog\<close>

record policy_catalog =
  cat_by_quarter :: "(string \<times> execution_policy) list"
  cat_by_version :: "(string \<times> execution_policy) list"

text \<open>
  The construction loop checks the quarter before the version of each policy and fills
  both dictionaries.
\<close>

fun catalog_add :: "execution_policy list \<Rightarrow> policy_catalog \<Rightarrow> policy_error + policy_catalog" where
  "catalog_add [] c = Inr c"
| "catalog_add (p # ps) c =
     (if map_of (cat_by_quarter c) (pol_release_quarter p) \<noteq> None
      then Inl (ValueError (''execution policy already published for '' @ pol_release_quarter p))
      else if map_of (cat_by_version c) (pol_version p) \<noteq> None
      then Inl (ValueError (''execution policy version is not unique: '' @ pol_version p))
      else catalog_add ps
        (c\<lparr>cat_by_quarter := dict_put (pol_release_quarter p) p (cat_by_quarter c),
           cat_by_version := dict_put (pol_version p) p (cat_by_version c)\<rparr>))"

definition policy_catalog_new :: "execution_policy list \<Rightarrow> policy_error + policy_catalog" where
  "policy_catalog_new ps = catalog_add ps \<lparr>cat_by_quarter = [], cat_by_version = []\<rparr>"

definition catalog_versions :: "policy_catalog \<Rightarrow> string list" where
  "catalog_versions c = sort (map fst (cat_by_version c))"

definition catalog_select :: "zone \<Rightarrow> policy_catalog \<Rightarrow> py_datetime \<Rightarrow> policy_error + execution_policy" where
  "catalog_select et c released_at =
     ebind (release_quarter_of et released_at) (\<lambda>quarter.
       case map_of (cat_by_quarter c) quarter of
         None \<Rightarrow> Inl (ExecutionPolicyUnavailable quarter)
       | Some p \<Rightarrow> Inr p)"

definition catalog_get :: "policy_catalog \<Rightarrow> string \<Rightarrow> policy_error + execution_policy" where
  "catalog_get c version =
     (case map_of (cat_by_version c) version of
        None \<Rightarrow> Inl (ExecutionPolicyUnavailable version)
      | Some p \<Rightarrow> Inr p)"


section \<open>The catalog is a unique index\<close>

definition catalog_ok :: "policy_catalog \<Rightarrow> execution_policy list \<Rightarrow> bool" where
  "catalog_ok c ps \<longleftrightarrow>
     cat_by_quarter c = map (\<lambda>p. (pol_release_quarter p, p)) ps \<and>
     cat_by_version c = map (\<lambda>p. (pol_version p, p)) ps \<and>
     distinct (map pol_release_quarter ps) \<and> distinct (map pol_version ps)"

lemma catalog_add_ok:
  "catalog_ok c qs \<Longrightarrow> catalog_add ps c = Inr c' \<Longrightarrow> catalog_ok c' (qs @ ps)"
proof (induction ps arbitrary: c qs)
  case Nil
  then show ?case by simp
next
  case (Cons p ps)
  from Cons.prems have fresh: "pol_release_quarter p \<notin> pol_release_quarter ` set qs"
    "pol_version p \<notin> pol_version ` set qs"
    and rec: "catalog_add ps (c\<lparr>cat_by_quarter := dict_put (pol_release_quarter p) p (cat_by_quarter c),
      cat_by_version := dict_put (pol_version p) p (cat_by_version c)\<rparr>) = Inr c'"
    by (auto simp: catalog_ok_def map_of_eq_None_iff image_image split: if_splits)
  have "catalog_ok (c\<lparr>cat_by_quarter := dict_put (pol_release_quarter p) p (cat_by_quarter c),
      cat_by_version := dict_put (pol_version p) p (cat_by_version c)\<rparr>) (qs @ [p])"
    using Cons.prems(1) fresh by (simp add: catalog_ok_def dict_put_new image_image)
  from Cons.IH [OF this rec] show ?case by simp
qed

lemma policy_catalog_new_ok: "policy_catalog_new ps = Inr c \<Longrightarrow> catalog_ok c ps"
  using catalog_add_ok [of "\<lparr>cat_by_quarter = [], cat_by_version = []\<rparr>" "[]" ps c]
  by (simp add: policy_catalog_new_def catalog_ok_def)

lemma map_of_keyed:
  "distinct (map key xs) \<Longrightarrow> map_of (map (\<lambda>x. (key x, x)) xs) k = Some x \<longleftrightarrow> x \<in> set xs \<and> key x = k"
  by (subst map_of_eq_Some_iff) (auto simp: o_def)

interpretation by_quarter: unique_index pol_release_quarter policy_catalog_new
  "\<lambda>c. map_of (cat_by_quarter c)"
  by unfold_locales (auto dest!: policy_catalog_new_ok simp: catalog_ok_def map_of_keyed)

interpretation by_version: unique_index pol_version policy_catalog_new
  "\<lambda>c. map_of (cat_by_version c)"
  by unfold_locales (auto dest!: policy_catalog_new_ok simp: catalog_ok_def map_of_keyed)

end
