(* ===== verification/Exec_Types.thy ===== *)
theory Exec_Types
  imports Execution_Policy "HOL-Library.Product_Lexorder"
begin

text \<open>
  The value types of \<open>execution_model.py\<close>: order requests, bars, policies, limits and
  ledger records, each with the checks its constructor makes, in the order it makes them;
  and the resolution table of \<open>elements/core.py\<close> that a bar's length is checked against.
  A datetime argument may be naive (\<open>py_datetime\<close>); a validated record holds instants.
  \<open>isinstance\<close> checks that HOL's types already enforce (enum members, booleans, finite
  decimals) have no counterpart.
\<close>

section \<open>Errors and default-context arithmetic\<close>

datatype exec_error =
    ExecutionModelValidationError string
  | ElementCompatibilityError string
  | MoneyPrecisionError money_error
  | DecimalError dec_error
  | UnknownOrder string
  | AssertionFailed

abbreviation add28 :: "decimal \<Rightarrow> decimal \<Rightarrow> decimal" where
  "add28 \<equiv> dadd default_prec"

abbreviation sub28 :: "decimal \<Rightarrow> decimal \<Rightarrow> decimal" where
  "sub28 \<equiv> dsub default_prec"

abbreviation mul28 :: "decimal \<Rightarrow> decimal \<Rightarrow> decimal" where
  "mul28 \<equiv> dmul default_prec"

definition div28 :: "decimal \<Rightarrow> decimal \<Rightarrow> exec_error + decimal" where
  "div28 a b = map_err DecimalError (ddiv default_prec a b)"

text \<open>The money functions as the engine calls them, on decimals.\<close>

definition qmoney :: "decimal \<Rightarrow> exec_error + decimal" where
  "qmoney d = map_err MoneyPrecisionError (quantize_money (PyDec d))"

definition qquantity :: "decimal \<Rightarrow> bool \<Rightarrow> exec_error + decimal" where
  "qquantity d fractional = map_err MoneyPrecisionError (quantize_quantity (PyDec d) fractional)"

definition qrate :: "decimal \<Rightarrow> decimal \<Rightarrow> exec_error + decimal" where
  "qrate b r = map_err MoneyPrecisionError (apply_rate (PyDec b) (PyDec r))"

abbreviation invalid :: "string \<Rightarrow> exec_error" where
  "invalid \<equiv> ExecutionModelValidationError"

section \<open>Enumerations\<close>

datatype order_side = BUY | SELL

datatype order_type = MARKET | LIMIT | STOP | STOP_LIMIT | TRAILING_STOP

datatype time_in_force = DAY | GTC | GTD

datatype quantity_mode = WHOLE_SHARES | FRACTIONAL_SHARES | NOTIONAL_AMOUNT

datatype order_status = ACCEPTED | PARTIALLY_FILLED | FILLED | CANCELLED | EXPIRED | REJECTED

datatype ledger_direction = DEBIT | CREDIT

datatype ledger_account = CASH | SECURITY | FEE_EXPENSE | REALIZED_PNL

definition REJECT_REASON_CODES :: "string list" where
  "REJECT_REASON_CODES =
     [''FRACTIONAL_INSTRUMENT_NOT_ENABLED'', ''FRACTIONAL_REQUIRES_MARKET_DAY'',
      ''GROSS_EXPOSURE_EXCEEDED'', ''INSTRUMENT_EXPOSURE_EXCEEDED'',
      ''MAX_INSTRUMENT_POSITION_PERCENT'', ''INSUFFICIENT_AVAILABLE_CASH'',
      ''NOTIONAL_REQUIRES_LONG_EXPOSURE'', ''ORDER_HORIZON_EXCEEDED'',
      ''POSITION_UNAVAILABLE'', ''STRATEGY_BUDGET_EXCEEDED'',
      ''WHOLE_SHARES_REQUIRE_INTEGER_QUANTITY'']"

definition CHART_OF_ACCOUNTS_VERSION :: string where
  "CHART_OF_ACCOUNTS_VERSION = ''accounting:1.0.0''"

section \<open>Helpers\<close>

definition exec_utc :: "py_datetime \<Rightarrow> string \<Rightarrow> exec_error + instant" where
  "exec_utc d label = utc_or (invalid (label @ '' must be timezone-aware'')) d"

definition exec_uuid :: "string \<Rightarrow> string \<Rightarrow> exec_error + string" where
  "exec_uuid v label =
     (case uuid_parse v of None \<Rightarrow> Inl (invalid (label @ '' must be a UUID'')) | Some u \<Rightarrow> Inr u)"

definition exec_positive :: "decimal \<Rightarrow> string \<Rightarrow> exec_error + decimal" where
  "exec_positive v label =
     (if dle v dzero then Inl (invalid (label @ '' must be a positive Decimal'')) else Inr v)"

definition exec_non_negative :: "decimal \<Rightarrow> string \<Rightarrow> exec_error + decimal" where
  "exec_non_negative v label =
     (if dless v dzero then Inl (invalid (label @ '' must be a non-negative Decimal'')) else Inr v)"

definition is_integral :: "decimal \<Rightarrow> bool" where
  "is_integral v = deq v (to_integral_floor v)"

definition floor_to_quantum :: "decimal \<Rightarrow> decimal \<Rightarrow> exec_error + decimal" where
  "floor_to_quantum v quantum =
     (if dle v dzero then Inr dzero
      else ebind (map_err DecimalError (ddiv working_precision v quantum)) (\<lambda>steps.
        Inr (dmul working_precision (to_integral_floor steps) quantum)))"

section \<open>Policies and limits\<close>

record microstructure_policy =
  ms_version :: string
  ms_max_volume_participation_bps :: int
  ms_buying_power_buffer_policy_id :: string
  ms_buying_power_buffer_bps :: int

definition microstructure_policy_new :: "microstructure_policy \<Rightarrow> exec_error + microstructure_policy" where
  "microstructure_policy_new m =
     ebind (require (ms_version m \<noteq> []) (invalid ''microstructure policy version must not be empty'')) (\<lambda>_.
     ebind (require (0 < ms_max_volume_participation_bps m \<and> ms_max_volume_participation_bps m \<le> 10000)
       (invalid ''max_volume_participation_bps must be between 1 and 10000 basis points'')) (\<lambda>_.
     ebind (require (0 \<le> ms_buying_power_buffer_bps m \<and> ms_buying_power_buffer_bps m < 10000)
       (invalid ''buying_power_buffer_bps must be between 0 and 9999 basis points'')) (\<lambda>_.
     ebind (exec_uuid (ms_buying_power_buffer_policy_id m) ''buying_power_buffer_policy_id'') (\<lambda>u.
     Inr (m\<lparr>ms_buying_power_buffer_policy_id := u\<rparr>)))))"

definition max_volume_participation_rate :: "microstructure_policy \<Rightarrow> exec_error + decimal" where
  "max_volume_participation_rate m =
     div28 (dec_of_int (ms_max_volume_participation_bps m)) BASIS_POINTS"

definition buying_power_buffer_rate :: "microstructure_policy \<Rightarrow> exec_error + decimal" where
  "buying_power_buffer_rate m = div28 (dec_of_int (ms_buying_power_buffer_bps m)) BASIS_POINTS"

definition D23_MICROSTRUCTURE_POLICY_V1 :: microstructure_policy where
  "D23_MICROSTRUCTURE_POLICY_V1 =
     \<lparr>ms_version = ''d23-microstructure:1.0.0'',
      ms_max_volume_participation_bps = 1000,
      ms_buying_power_buffer_policy_id = ''00000000-0000-4000-8000-000000000001'',
      ms_buying_power_buffer_bps = 1\<rparr>"

record fractional_policy =
  fp_policy_version :: string
  fp_instrument_ids :: "string list"

definition fractional_policy_new :: "fractional_policy \<Rightarrow> exec_error + fractional_policy" where
  "fractional_policy_new f =
     ebind (require (fp_policy_version f \<noteq> []) (invalid ''fractional policy_version must not be empty'')) (\<lambda>_.
     ebind (emap (\<lambda>v. exec_uuid v ''fractional_instrument_id'') (fp_instrument_ids f)) (\<lambda>ids.
     Inr (f\<lparr>fp_instrument_ids := ids\<rparr>)))"

definition enabled_for :: "fractional_policy \<Rightarrow> string \<Rightarrow> bool" where
  "enabled_for f iid = (iid \<in> set (fp_instrument_ids f))"

record risk_limits =
  rl_max_strategy_notional :: decimal
  rl_max_gross_exposure :: decimal
  rl_max_instrument_exposure :: decimal

definition positive_money :: "decimal \<Rightarrow> string \<Rightarrow> exec_error + decimal" where
  "positive_money v label = ebind (exec_positive v label) qmoney"

definition risk_limits_new :: "risk_limits \<Rightarrow> exec_error + risk_limits" where
  "risk_limits_new r =
     ebind (positive_money (rl_max_strategy_notional r) ''max_strategy_notional'') (\<lambda>s.
     ebind (positive_money (rl_max_gross_exposure r) ''max_gross_exposure'') (\<lambda>g.
     ebind (positive_money (rl_max_instrument_exposure r) ''max_instrument_exposure'') (\<lambda>i.
     Inr \<lparr>rl_max_strategy_notional = s, rl_max_gross_exposure = g, rl_max_instrument_exposure = i\<rparr>)))"

section \<open>Order requests\<close>

text \<open>
  The record is polymorphic in its time type: \<open>py_datetime order_request\<close> is what a caller
  passes, \<open>instant order_request\<close> what the constructor returns.
\<close>

record 't order_request =
  or_order_id :: string
  or_instrument_id :: string
  or_side :: order_side
  or_order_type :: order_type
  or_quantity_mode :: quantity_mode
  or_time_in_force :: time_in_force
  or_submitted_at :: 't
  or_eligible_at :: 't
  or_day_expires_at :: 't
  or_reference_price :: decimal
  or_quantity :: "decimal option"
  or_notional_amount :: "decimal option"
  or_expires_at :: "'t option"
  or_limit_price :: "decimal option"
  or_stop_price :: "decimal option"
  or_trail_percent :: "decimal option"
  or_max_instrument_position_notional :: "decimal option"

type_synonym request = "instant order_request"

text \<open>\<open>_validate_requested_measure\<close>: the notional amount it stores back, if any.\<close>

definition validate_requested_measure :: "'t order_request \<Rightarrow> exec_error + decimal option" where
  "validate_requested_measure r =
     (if (or_quantity r = None) = (or_notional_amount r = None)
      then Inl (invalid ''an order carries exactly one of quantity or notional_amount'')
      else if or_quantity_mode r = NOTIONAL_AMOUNT
      then (case or_notional_amount r of
              None \<Rightarrow> Inl (invalid ''NOTIONAL_AMOUNT orders require notional_amount'')
            | Some n \<Rightarrow> ebind (positive_money n ''notional_amount'') (\<lambda>m. Inr (Some m)))
      else (case or_quantity r of
              None \<Rightarrow> Inl (invalid ''orders require quantity'')
            | Some q \<Rightarrow> ebind (exec_positive q ''quantity'') (\<lambda>_. Inr (or_notional_amount r))))"

fun expected_parameters :: "order_type \<Rightarrow> bool \<times> bool \<times> bool" where
  "expected_parameters MARKET = (False, False, False)"
| "expected_parameters LIMIT = (True, False, False)"
| "expected_parameters STOP = (False, True, False)"
| "expected_parameters STOP_LIMIT = (True, True, False)"
| "expected_parameters TRAILING_STOP = (False, False, True)"

fun positive_if_given :: "decimal option \<Rightarrow> string \<Rightarrow> exec_error + unit" where
  "positive_if_given None label = Inr ()"
| "positive_if_given (Some v) label = ebind (exec_positive v label) (\<lambda>_. Inr ())"

definition validate_parameters :: "'t order_request \<Rightarrow> exec_error + unit" where
  "validate_parameters r =
     ebind (require ((or_limit_price r \<noteq> None, or_stop_price r \<noteq> None, or_trail_percent r \<noteq> None)
         = expected_parameters (or_order_type r)) (invalid ''invalid price parameters'')) (\<lambda>_.
     ebind (positive_if_given (or_limit_price r) ''limit_price'') (\<lambda>_.
     ebind (positive_if_given (or_stop_price r) ''stop_price'') (\<lambda>_.
     ebind (positive_if_given (or_trail_percent r) ''trail_percent'') (\<lambda>_.
     case or_trail_percent r of
       None \<Rightarrow> Inr ()
     | Some t \<Rightarrow> require (dle t done1) (invalid ''trail_percent must be at most 1'')))))"

definition validate_expiry :: "py_datetime order_request \<Rightarrow> instant \<Rightarrow> exec_error + instant option" where
  "validate_expiry r eligible =
     (if or_time_in_force r = GTD
      then (case or_expires_at r of
              None \<Rightarrow> Inl (invalid ''GTD requires expires_at'')
            | Some d \<Rightarrow>
                ebind (exec_utc d ''expires_at'') (\<lambda>t.
                ebind (require (eligible < t) (invalid ''GTD expires_at must follow eligibility'')) (\<lambda>_.
                Inr (Some t))))
      else (case or_expires_at r of
              None \<Rightarrow> Inr None
            | Some _ \<Rightarrow> Inl (invalid ''expires_at is allowed only for GTD'')))"

definition order_request_new :: "py_datetime order_request \<Rightarrow> exec_error + request" where
  "order_request_new r =
     ebind (exec_uuid (or_order_id r) ''order_id'') (\<lambda>oid.
     ebind (exec_uuid (or_instrument_id r) ''instrument_id'') (\<lambda>iid.
     ebind (exec_positive (or_reference_price r) ''reference_price'') (\<lambda>_.
     ebind (exec_utc (or_submitted_at r) ''submitted_at'') (\<lambda>submitted.
     ebind (exec_utc (or_eligible_at r) ''eligible_at'') (\<lambda>eligible.
     ebind (exec_utc (or_day_expires_at r) ''day_expires_at'') (\<lambda>day_expires.
     ebind (require (submitted \<le> eligible) (invalid ''eligible_at must not precede submitted_at'')) (\<lambda>_.
     ebind (require (eligible < day_expires) (invalid ''day_expires_at must follow eligible_at'')) (\<lambda>_.
     ebind (require (or_order_type r = MARKET \<longrightarrow> or_time_in_force r = DAY)
       (invalid ''MARKET orders require DAY'')) (\<lambda>_.
     ebind (validate_requested_measure r) (\<lambda>notional.
     ebind (validate_parameters r) (\<lambda>_.
     ebind (validate_expiry r eligible) (\<lambda>expires.
     ebind (case or_max_instrument_position_notional r of
              None \<Rightarrow> Inr None
            | Some m \<Rightarrow> ebind (positive_money m ''max_instrument_position_notional'')
                (\<lambda>v. Inr (Some v))) (\<lambda>cap.
     Inr \<lparr>or_order_id = oid, or_instrument_id = iid, or_side = or_side r,
       or_order_type = or_order_type r, or_quantity_mode = or_quantity_mode r,
       or_time_in_force = or_time_in_force r, or_submitted_at = submitted,
       or_eligible_at = eligible, or_day_expires_at = day_expires,
       or_reference_price = or_reference_price r, or_quantity = or_quantity r,
       or_notional_amount = notional, or_expires_at = expires,
       or_limit_price = or_limit_price r, or_stop_price = or_stop_price r,
       or_trail_percent = or_trail_percent r,
       or_max_instrument_position_notional = cap\<rparr>)))))))))))))"

section \<open>Bars\<close>

text \<open>\<open>RESOLUTION_PERIODS\<close> of \<open>elements/core.py\<close>, in microseconds.\<close>

definition RESOLUTION_PERIODS :: "(string \<times> duration) list" where
  "RESOLUTION_PERIODS =
     [(''1m'', 60000000), (''5m'', 300000000), (''15m'', 900000000), (''30m'', 1800000000),
      (''1h'', 3600000000), (''4h'', 14400000000), (''1d'', 86400000000)]"

definition resolution_period :: "string \<Rightarrow> exec_error + duration" where
  "resolution_period res =
     (case map_of RESOLUTION_PERIODS res of
        None \<Rightarrow> Inl (ElementCompatibilityError res)
      | Some d \<Rightarrow> Inr d)"

record 't execution_bar =
  bar_instrument_id :: string
  bar_starts_at :: 't
  bar_ends_at :: 't
  bar_open :: decimal
  bar_high :: decimal
  bar_low :: decimal
  bar_close :: decimal
  bar_volume :: decimal
  bar_complete :: bool
  bar_resolution :: string
  bar_session_truncated :: bool

type_synonym bar = "instant execution_bar"

definition execution_bar_new :: "py_datetime execution_bar \<Rightarrow> exec_error + bar" where
  "execution_bar_new b =
     ebind (exec_uuid (bar_instrument_id b) ''instrument_id'') (\<lambda>iid.
     ebind (exec_utc (bar_starts_at b) ''starts_at'') (\<lambda>s.
     ebind (exec_utc (bar_ends_at b) ''ends_at'') (\<lambda>e.
     ebind (resolution_period (bar_resolution b)) (\<lambda>period.
     ebind (require (\<not> (e - s \<le> 0 \<or>
         (e - s \<noteq> period \<and> (\<not> bar_session_truncated b \<or> period < e - s))))
       (invalid ''bar must cover its declared resolution or be a shorter session-truncated bar'')) (\<lambda>_.
     ebind (exec_positive (bar_open b) ''open'') (\<lambda>_.
     ebind (exec_positive (bar_high b) ''high'') (\<lambda>_.
     ebind (exec_positive (bar_low b) ''low'') (\<lambda>_.
     ebind (exec_positive (bar_close b) ''close'') (\<lambda>_.
     ebind (exec_non_negative (bar_volume b) ''volume'') (\<lambda>_.
     ebind (require (\<not> (dless (bar_high b) (dmax (bar_open b) (bar_close b)) \<or>
         dless (dmin (bar_open b) (bar_close b)) (bar_low b) \<or> dless (bar_high b) (bar_low b)))
       (invalid ''OHLC values are inconsistent'')) (\<lambda>_.
     Inr \<lparr>bar_instrument_id = iid, bar_starts_at = s, bar_ends_at = e,
       bar_open = bar_open b, bar_high = bar_high b, bar_low = bar_low b,
       bar_close = bar_close b, bar_volume = bar_volume b, bar_complete = bar_complete b,
       bar_resolution = bar_resolution b, bar_session_truncated = bar_session_truncated b\<rparr>)))))))))))"

section \<open>Read models and the ledger\<close>

record backtest_order =
  bo_order_id :: string
  bo_instrument_id :: string
  bo_side :: order_side
  bo_order_type :: order_type
  bo_quantity :: "decimal option"
  bo_remaining_quantity :: "decimal option"
  bo_status :: order_status
  bo_submitted_at :: instant
  bo_eligible_at :: instant
  bo_expires_at :: instant
  bo_reason_code :: "string option"
  bo_notional_amount :: "decimal option"
  bo_remaining_notional :: "decimal option"
  bo_filled_quantity :: decimal

record position_snapshot =
  ps_instrument_id :: string
  ps_quantity :: decimal
  ps_cost_basis :: decimal

record ledger_entry =
  le_entry_id :: string
  le_account_code :: ledger_account
  le_direction :: ledger_direction
  le_amount :: decimal
  le_source_event_id :: string

text \<open>
  The account code is a member of the chart of accounts by type and the currency is
  always the default \<open>USD\<close>; the remaining checks of \<open>LedgerEntry\<close> are made.
\<close>

definition ledger_entry_new :: "ledger_entry \<Rightarrow> exec_error + ledger_entry" where
  "ledger_entry_new e =
     ebind (exec_uuid (le_entry_id e) ''entry_id'') (\<lambda>_.
     ebind (exec_uuid (le_source_event_id e) ''source_event_id'') (\<lambda>_.
     ebind (exec_positive (le_amount e) ''ledger amount'') (\<lambda>_.
     ebind (map_err MoneyPrecisionError (assert_quantized_money (PyDec (le_amount e)))) (\<lambda>_.
     Inr e))))"

record ledger_transaction =
  lx_transaction_id :: string
  lx_source_event_id :: string
  lx_posted_at :: instant
  lx_entries :: "ledger_entry list"

definition entry_total :: "ledger_direction \<Rightarrow> ledger_entry list \<Rightarrow> decimal" where
  "entry_total dir es = dsum default_prec (map le_amount (filter (\<lambda>e. le_direction e = dir) es))"

definition ledger_transaction_new :: "ledger_transaction \<Rightarrow> exec_error + ledger_transaction" where
  "ledger_transaction_new x =
     ebind (exec_uuid (lx_transaction_id x) ''transaction_id'') (\<lambda>_.
     ebind (exec_uuid (lx_source_event_id x) ''source_event_id'') (\<lambda>_.
     ebind (require (2 \<le> length (lx_entries x))
       (invalid ''ledger transaction requires at least two entries'')) (\<lambda>_.
     ebind (require (\<forall>e\<in>set (lx_entries x). le_source_event_id e = lx_source_event_id x)
       (invalid ''ledger entry source_event_id must match transaction'')) (\<lambda>_.
     ebind (require (distinct (map le_entry_id (lx_entries x)))
       (invalid ''ledger entry IDs must be unique'')) (\<lambda>_.
     ebind (require (deq (entry_total DEBIT (lx_entries x)) (entry_total CREDIT (lx_entries x)))
       (invalid ''ledger transaction must be balanced'')) (\<lambda>_.
     Inr x))))))"

record fill =
  fl_fill_id :: string
  fl_order_id :: string
  fl_instrument_id :: string
  fl_side :: order_side
  fl_quantity :: decimal
  fl_base_price :: decimal
  fl_price :: decimal
  fl_gross_amount :: decimal
  fl_slippage_amount :: decimal
  fl_fee :: decimal
  fl_cost_basis :: decimal
  fl_realized_pnl :: decimal
  fl_occurred_at :: instant
  fl_ledger_transaction_id :: string

record lot =
  lot_quantity :: decimal
  lot_cost_basis :: decimal

record order_state =
  os_request :: request
  os_expires_at :: instant
  os_remaining_quantity :: "decimal option"
  os_remaining_notional :: "decimal option"
  os_submission_sequence :: nat
  os_filled_quantity :: decimal
  os_status :: order_status
  os_reason_code :: "string option"
  os_fill_sequence :: nat
  os_triggered :: bool
  os_trail_reference :: "decimal option"
  os_reserved_cash :: decimal
  os_reserved_notional :: decimal
  os_reserved_quantity :: decimal

end
