(* ===== verification/Exec_Engine.thy ===== *)
theory Exec_Engine
  imports Exec_Types
begin

text \<open>
  The operations of \<open>BacktestExecutionModel\<close> (\<open>execution_model.py\<close>) on an explicit state.
  The mutable \<open>_OrderState\<close> objects live in the order dictionary; an operation that mutates
  one writes the new record back with \<open>put_state\<close>. Order identifiers are dictionary keys,
  so \<open>other is not state\<close> is a comparison of identifiers. An operation that raises
  returns the exception and no state. \<open>uuid5 name\<close> stands for
  \<open>str(uuid.uuid5(uuid.NAMESPACE_URL, name))\<close>, a digest of the platform's library, and is
  a parameter.
\<close>

record exec_model =
  em_policy :: execution_policy
  em_microstructure :: microstructure_policy
  em_fractional_policy :: fractional_policy
  em_risk_limits :: risk_limits
  em_cash :: decimal
  em_orders :: "(string \<times> order_state) list"
  em_open_order_ids :: "string set"
  em_lots :: "(string \<times> lot list) list"
  em_fills :: "fill list"
  em_ledger :: "ledger_transaction list"
  em_now :: "instant option"

definition exec_model_new ::
  "execution_policy \<Rightarrow> decimal \<Rightarrow> risk_limits \<Rightarrow> microstructure_policy \<Rightarrow> fractional_policy
     \<Rightarrow> exec_error + exec_model" where
  "exec_model_new policy initial_cash limits micro fractional =
     ebind (require (pol_accounting_rules_version policy = CHART_OF_ACCOUNTS_VERSION)
       (invalid ''this build posts only its own chart of accounts'')) (\<lambda>_.
     ebind (require (ms_buying_power_buffer_policy_id micro = pol_buying_power_buffer_policy_id policy)
       (invalid ''buying_power_buffer_policy_id must match the pinned one'')) (\<lambda>_.
     ebind (exec_non_negative initial_cash ''initial_cash'') (\<lambda>v.
     ebind (qmoney v) (\<lambda>cash.
     Inr \<lparr>em_policy = policy, em_microstructure = micro, em_fractional_policy = fractional,
       em_risk_limits = limits, em_cash = cash, em_orders = [], em_open_order_ids = {},
       em_lots = [], em_fills = [], em_ledger = [], em_now = None\<rparr>))))"

section \<open>State helpers\<close>

abbreviation os_id :: "order_state \<Rightarrow> string" where
  "os_id s \<equiv> or_order_id (os_request s)"

definition put_state :: "order_state \<Rightarrow> exec_model \<Rightarrow> exec_model" where
  "put_state s m = m\<lparr>em_orders := dict_put (os_id s) s (em_orders m)\<rparr>"

definition close_order :: "string \<Rightarrow> exec_model \<Rightarrow> exec_model" where
  "close_order oid m = m\<lparr>em_open_order_ids := em_open_order_ids m - {oid}\<rparr>"

definition find_state :: "string \<Rightarrow> exec_model \<Rightarrow> exec_error + order_state" where
  "find_state oid m =
     ebind (exec_uuid oid ''order_id'') (\<lambda>u.
       case map_of (em_orders m) u of None \<Rightarrow> Inl (UnknownOrder u) | Some s \<Rightarrow> Inr s)"

definition is_open :: "order_state \<Rightarrow> bool" where
  "is_open s = (os_status s \<in> {ACCEPTED, PARTIALLY_FILLED})"

text \<open>
  The order in which Python iterates the set of open identifiers is unspecified; the
  model lists the open orders in the order of their submission.
\<close>

definition open_states :: "exec_model \<Rightarrow> order_state list" where
  "open_states m = map snd (filter (\<lambda>(k, s). k \<in> em_open_order_ids m) (em_orders m))"

definition order_key :: "order_state \<Rightarrow> instant \<times> nat \<times> string" where
  "order_key s = (or_submitted_at (os_request s), os_submission_sequence s, os_id s)"

definition order_view :: "order_state \<Rightarrow> backtest_order" where
  "order_view s =
     \<lparr>bo_order_id = os_id s, bo_instrument_id = or_instrument_id (os_request s),
      bo_side = or_side (os_request s), bo_order_type = or_order_type (os_request s),
      bo_quantity = or_quantity (os_request s), bo_remaining_quantity = os_remaining_quantity s,
      bo_status = os_status s, bo_submitted_at = or_submitted_at (os_request s),
      bo_eligible_at = or_eligible_at (os_request s), bo_expires_at = os_expires_at s,
      bo_reason_code = os_reason_code s, bo_notional_amount = or_notional_amount (os_request s),
      bo_remaining_notional = os_remaining_notional s, bo_filled_quantity = os_filled_quantity s\<rparr>"

definition get_order :: "exec_model \<Rightarrow> string \<Rightarrow> exec_error + backtest_order" where
  "get_order m oid = ebind (find_state oid m) (\<lambda>s. Inr (order_view s))"

definition reject :: "order_state \<Rightarrow> string \<Rightarrow> exec_model \<Rightarrow> exec_error + exec_model" where
  "reject s reason m =
     ebind (require (reason \<in> set REJECT_REASON_CODES) (invalid ''undeclared reject code'')) (\<lambda>_.
     Inr (close_order (os_id s)
       (put_state (s\<lparr>os_status := REJECTED, os_reason_code := Some reason\<rparr>) m)))"

section \<open>Sums over the account\<close>

definition others :: "string \<Rightarrow> exec_model \<Rightarrow> order_state list" where
  "others oid m = filter (\<lambda>s. os_id s \<noteq> oid) (open_states m)"

definition reserved_cash :: "string \<Rightarrow> exec_model \<Rightarrow> decimal" where
  "reserved_cash excluding m = dsum default_prec (map os_reserved_cash (others excluding m))"

definition reserved_notional :: "string \<Rightarrow> exec_model \<Rightarrow> decimal" where
  "reserved_notional excluding m = dsum default_prec (map os_reserved_notional (others excluding m))"

definition instrument_reserved_notional :: "string \<Rightarrow> string \<Rightarrow> exec_model \<Rightarrow> decimal" where
  "instrument_reserved_notional iid excluding m =
     dsum default_prec (map os_reserved_notional
       (filter (\<lambda>s. or_instrument_id (os_request s) = iid \<and> or_side (os_request s) = BUY)
         (others excluding m)))"

definition position_exposure :: "exec_model \<Rightarrow> decimal" where
  "position_exposure m =
     dsum default_prec (map lot_cost_basis (concat (map snd (em_lots m))))"

definition lots_of :: "exec_model \<Rightarrow> string \<Rightarrow> lot list" where
  "lots_of m iid = (case map_of (em_lots m) iid of None \<Rightarrow> [] | Some ls \<Rightarrow> ls)"

definition position :: "exec_model \<Rightarrow> string \<Rightarrow> exec_error + position_snapshot" where
  "position m instrument_id =
     ebind (exec_uuid instrument_id ''instrument_id'') (\<lambda>iid.
     ebind (qmoney (dsum default_prec (map lot_cost_basis (lots_of m iid)))) (\<lambda>basis.
     Inr \<lparr>ps_instrument_id = iid,
       ps_quantity = dsum default_prec (map lot_quantity (lots_of m iid)),
       ps_cost_basis = basis\<rparr>))"

definition buying_power :: "exec_model \<Rightarrow> exec_error + decimal" where
  "buying_power m =
     ebind (buying_power_buffer_rate (em_microstructure m)) (\<lambda>rate.
     ebind (qrate (em_cash m) rate) (\<lambda>buffer_amount.
     qmoney (sub28 (em_cash m) buffer_amount)))"

definition seed_long_position ::
  "string \<Rightarrow> decimal \<Rightarrow> decimal \<Rightarrow> exec_model \<Rightarrow> exec_error + exec_model" where
  "seed_long_position instrument_id quantity unit_cost m =
     ebind (require (em_orders m = [] \<and> em_fills m = [])
       (invalid ''seed positions must be loaded before order processing'')) (\<lambda>_.
     ebind (exec_uuid instrument_id ''instrument_id'') (\<lambda>iid.
     ebind (exec_positive quantity ''quantity'') (\<lambda>_.
     ebind (exec_positive unit_cost ''unit_cost'') (\<lambda>_.
     ebind (qquantity quantity (enabled_for (em_fractional_policy m) iid)) (\<lambda>q.
     ebind (qmoney (mul28 q unit_cost)) (\<lambda>basis.
     Inr (m\<lparr>em_lots := dict_put iid (lots_of m iid @ [\<lparr>lot_quantity = q, lot_cost_basis = basis\<rparr>])
       (em_lots m)\<rparr>)))))))"

section \<open>Prices\<close>

definition policy_slippage_rate :: "exec_model \<Rightarrow> exec_error + decimal" where
  "policy_slippage_rate m = map_err DecimalError (slippage_rate (em_policy m))"

definition limit_base :: "order_side \<Rightarrow> decimal \<Rightarrow> bar \<Rightarrow> decimal option" where
  "limit_base side limit_price b =
     (case side of
        BUY \<Rightarrow> if dle (bar_low b) limit_price then Some (dmin (bar_open b) limit_price) else None
      | SELL \<Rightarrow> if dle limit_price (bar_high b) then Some (dmax (bar_open b) limit_price) else None)"

definition stop_base :: "order_side \<Rightarrow> decimal \<Rightarrow> bar \<Rightarrow> decimal option" where
  "stop_base side stop_price b =
     (case side of
        BUY \<Rightarrow> if dle stop_price (bar_open b) then Some (bar_open b)
               else if dle stop_price (bar_high b) then Some stop_price else None
      | SELL \<Rightarrow> if dle (bar_open b) stop_price then Some (bar_open b)
                else if dle (bar_low b) stop_price then Some stop_price else None)"

text \<open>The \<open>assert \<dots> is not None\<close> of the source, which fails with \<open>AssertionError\<close>.\<close>

fun assert_some :: "'a option \<Rightarrow> exec_error + 'a" where
  "assert_some None = Inl AssertionFailed"
| "assert_some (Some x) = Inr x"

definition trailing_base :: "order_state \<Rightarrow> bar \<Rightarrow> exec_error + order_state \<times> decimal option" where
  "trailing_base s b =
     ebind (assert_some (or_trail_percent (os_request s))) (\<lambda>percent.
     ebind (assert_some (os_trail_reference s)) (\<lambda>ref.
     ebind (qrate ref percent) (\<lambda>offset.
     case or_side (os_request s) of
       SELL \<Rightarrow>
         ebind (qmoney (sub28 ref offset)) (\<lambda>stop.
         if dle (bar_open b) stop then Inr (s, Some (bar_open b))
         else if dle (bar_low b) stop then Inr (s, Some stop)
         else ebind (qmoney (dmax ref (bar_high b))) (\<lambda>r.
           Inr (s\<lparr>os_trail_reference := Some r\<rparr>, None)))
     | BUY \<Rightarrow>
         ebind (qmoney (add28 ref offset)) (\<lambda>stop.
         if dle stop (bar_open b) then Inr (s, Some (bar_open b))
         else if dle stop (bar_high b) then Inr (s, Some stop)
         else ebind (qmoney (dmin ref (bar_low b))) (\<lambda>r.
           Inr (s\<lparr>os_trail_reference := Some r\<rparr>, None))))))"

definition stop_limit_base :: "order_state \<Rightarrow> bar \<Rightarrow> exec_error + order_state \<times> decimal option" where
  "stop_limit_base s b =
     ebind (assert_some (or_stop_price (os_request s))) (\<lambda>stop_price.
     ebind (assert_some (or_limit_price (os_request s))) (\<lambda>limit_price.
     if \<not> os_triggered s then
       (case stop_base (or_side (os_request s)) stop_price b of
          None \<Rightarrow> Inr (s, None)
        | Some trigger_base \<Rightarrow>
            Inr (s\<lparr>os_triggered := True\<rparr>,
              case or_side (os_request s) of
                BUY \<Rightarrow> if dle trigger_base limit_price then Some trigger_base else None
              | SELL \<Rightarrow> if dle limit_price trigger_base then Some trigger_base else None))
     else Inr (s, limit_base (or_side (os_request s)) limit_price b)))"

definition base_price :: "order_state \<Rightarrow> bar \<Rightarrow> exec_error + order_state \<times> decimal option" where
  "base_price s b =
     (case or_order_type (os_request s) of
        MARKET \<Rightarrow> Inr (s, Some (bar_open b))
      | LIMIT \<Rightarrow> ebind (assert_some (or_limit_price (os_request s))) (\<lambda>p.
          Inr (s, limit_base (or_side (os_request s)) p b))
      | STOP \<Rightarrow> ebind (assert_some (or_stop_price (os_request s))) (\<lambda>p.
          Inr (s, stop_base (or_side (os_request s)) p b))
      | STOP_LIMIT \<Rightarrow> stop_limit_base s b
      | TRAILING_STOP \<Rightarrow> trailing_base s b)"

definition estimated_price :: "exec_model \<Rightarrow> order_side \<Rightarrow> decimal \<Rightarrow> exec_error + decimal" where
  "estimated_price m side reference_price =
     ebind (policy_slippage_rate m) (\<lambda>rate.
     ebind (qrate reference_price rate) (\<lambda>slippage.
     case side of
       SELL \<Rightarrow> qmoney (sub28 reference_price slippage)
     | BUY \<Rightarrow> qmoney (add28 reference_price slippage)))"

definition execution_price :: "exec_model \<Rightarrow> request \<Rightarrow> decimal \<Rightarrow> exec_error + decimal" where
  "execution_price m r base =
     ebind (policy_slippage_rate m) (\<lambda>rate.
     ebind (qrate base rate) (\<lambda>slippage.
     case or_side r of
       BUY \<Rightarrow>
         ebind (qmoney (add28 base slippage)) (\<lambda>price.
         case or_limit_price r of
           Some limit \<Rightarrow> if dless limit price then qmoney limit else Inr price
         | None \<Rightarrow> Inr price)
     | SELL \<Rightarrow>
         ebind (qmoney (sub28 base slippage)) (\<lambda>price.
         case or_limit_price r of
           Some limit \<Rightarrow> if dless price limit then qmoney limit else Inr price
         | None \<Rightarrow> Inr price)))"

section \<open>Submission and reservations\<close>

definition eligibility_reason :: "exec_model \<Rightarrow> request \<Rightarrow> exec_error + string option" where
  "eligibility_reason m r =
     (if or_quantity_mode r = WHOLE_SHARES then
        ebind (assert_some (or_quantity r)) (\<lambda>q.
        Inr (if is_integral q then None else Some ''WHOLE_SHARES_REQUIRE_INTEGER_QUANTITY''))
      else if \<not> enabled_for (em_fractional_policy m) (or_instrument_id r)
      then Inr (Some ''FRACTIONAL_INSTRUMENT_NOT_ENABLED'')
      else if or_quantity_mode r = NOTIONAL_AMOUNT \<and> or_side r \<noteq> BUY
      then Inr (Some ''NOTIONAL_REQUIRES_LONG_EXPOSURE'')
      else if or_order_type r \<noteq> MARKET \<or> or_time_in_force r \<noteq> DAY
      then Inr (Some ''FRACTIONAL_REQUIRES_MARKET_DAY'')
      else Inr None)"

definition expiry_of :: "exec_model \<Rightarrow> request \<Rightarrow> exec_error + instant" where
  "expiry_of m r =
     (case or_time_in_force r of
        DAY \<Rightarrow> Inr (or_day_expires_at r)
      | GTC \<Rightarrow> Inr (or_submitted_at r + pol_good_till_cancelled_horizon (em_policy m))
      | GTD \<Rightarrow> assert_some (or_expires_at r))"

definition estimated_commitment :: "exec_model \<Rightarrow> order_state \<Rightarrow> exec_error + decimal \<times> decimal" where
  "estimated_commitment m s =
     ebind (case os_remaining_notional s of
              Some n \<Rightarrow> Inr n
            | None \<Rightarrow>
                ebind (assert_some (os_remaining_quantity s)) (\<lambda>q.
                ebind (estimated_price m BUY (or_reference_price (os_request s))) (\<lambda>p.
                qmoney (mul28 p q)))) (\<lambda>notional.
     ebind (qrate notional (pol_fee_rate (em_policy m))) (\<lambda>fee.
     ebind (qmoney (add28 notional fee)) (\<lambda>cash.
     Inr (notional, cash))))"

definition reserve_sell :: "order_state \<Rightarrow> exec_model \<Rightarrow> exec_error + exec_model" where
  "reserve_sell s m =
     (let iid = or_instrument_id (os_request s) in
     ebind (assert_some (os_remaining_quantity s)) (\<lambda>remaining.
     ebind (position m iid) (\<lambda>pos.
     let available = sub28 (ps_quantity pos) (dsum default_prec (map os_reserved_quantity
           (filter (\<lambda>o'. or_instrument_id (os_request o') = iid \<and> or_side (os_request o') = SELL)
             (others (os_id s) m))))
     in if dless available remaining then reject s ''POSITION_UNAVAILABLE'' m
        else Inr (put_state (s\<lparr>os_reserved_quantity := remaining\<rparr>) m))))"

text \<open>The marked-position test of an order that carries its own position cap.\<close>

definition position_cap_reached :: "order_state \<Rightarrow> exec_model \<Rightarrow> exec_error + bool" where
  "position_cap_reached s m =
     (let r = os_request s; iid = or_instrument_id r in
      case or_max_instrument_position_notional r of
        None \<Rightarrow> Inr False
      | Some cap \<Rightarrow>
          ebind (estimated_price m BUY (or_reference_price r)) (\<lambda>price.
          ebind (position m iid) (\<lambda>pos.
          ebind (qmoney (mul28 (ps_quantity pos) price)) (\<lambda>marked.
          Inr (dle cap (add28 marked (instrument_reserved_notional iid (os_id s) m)))))))"

definition reserve_buy :: "order_state \<Rightarrow> exec_model \<Rightarrow> exec_error + exec_model" where
  "reserve_buy s m =
     (let iid = or_instrument_id (os_request s); limits = em_risk_limits m in
     ebind (estimated_commitment m s) (\<lambda>(notional, cash).
     ebind (position_cap_reached s m) (\<lambda>capped.
     if capped then reject s ''MAX_INSTRUMENT_POSITION_PERCENT'' m else
     ebind (buying_power m) (\<lambda>power.
     if dless (sub28 power (reserved_cash (os_id s) m)) cash
     then reject s ''INSUFFICIENT_AVAILABLE_CASH'' m else
     let committed = add28 (position_exposure m) (reserved_notional (os_id s) m) in
     if dless (rl_max_strategy_notional limits) (add28 committed cash)
     then reject s ''STRATEGY_BUDGET_EXCEEDED'' m
     else if dless (rl_max_gross_exposure limits) (add28 committed notional)
     then reject s ''GROSS_EXPOSURE_EXCEEDED'' m else
     ebind (position m iid) (\<lambda>pos.
     if dless (rl_max_instrument_exposure limits)
          (add28 (add28 (ps_cost_basis pos) (instrument_reserved_notional iid (os_id s) m)) notional)
     then reject s ''INSTRUMENT_EXPOSURE_EXCEEDED'' m
     else Inr (put_state (s\<lparr>os_reserved_cash := cash, os_reserved_notional := notional\<rparr>) m))))))"

definition reserve_or_reject :: "order_state \<Rightarrow> exec_model \<Rightarrow> exec_error + exec_model" where
  "reserve_or_reject s m =
     (case or_side (os_request s) of SELL \<Rightarrow> reserve_sell s m | BUY \<Rightarrow> reserve_buy s m)"

definition refresh_reservation :: "exec_model \<Rightarrow> order_state \<Rightarrow> exec_error + order_state" where
  "refresh_reservation m s =
     (case or_side (os_request s) of
        SELL \<Rightarrow> ebind (assert_some (os_remaining_quantity s)) (\<lambda>q.
          Inr (s\<lparr>os_reserved_quantity := q\<rparr>))
      | BUY \<Rightarrow> ebind (estimated_commitment m s) (\<lambda>(notional, cash).
          Inr (s\<lparr>os_reserved_notional := notional, os_reserved_cash := cash\<rparr>)))"

definition release_reservation :: "order_state \<Rightarrow> order_state" where
  "release_reservation s =
     s\<lparr>os_reserved_cash := dzero, os_reserved_notional := dzero, os_reserved_quantity := dzero\<rparr>"

definition initial_state :: "exec_model \<Rightarrow> request \<Rightarrow> exec_error + order_state" where
  "initial_state m r =
     ebind (expiry_of m r) (\<lambda>expires_at.
     ebind (if or_order_type r = TRAILING_STOP
            then ebind (qmoney (or_reference_price r)) (\<lambda>v. Inr (Some v))
            else Inr None) (\<lambda>trail.
     Inr \<lparr>os_request = r, os_expires_at = expires_at, os_remaining_quantity = or_quantity r,
       os_remaining_notional = or_notional_amount r,
       os_submission_sequence = length (em_orders m) + 1,
       os_filled_quantity = dzero, os_status = ACCEPTED, os_reason_code = None,
       os_fill_sequence = 0, os_triggered = False, os_trail_reference = trail,
       os_reserved_cash = dzero, os_reserved_notional = dzero, os_reserved_quantity = dzero\<rparr>))"

text \<open>\<open>submit\<close> up to its return of the snapshot, which reads the final state.\<close>

definition admit :: "order_state \<Rightarrow> exec_model \<Rightarrow> exec_error + exec_model" where
  "admit s m =
     (let r = os_request s in
     ebind (eligibility_reason m r) (\<lambda>reason.
     case reason of
       Some code \<Rightarrow> reject s code m
     | None \<Rightarrow>
         if or_submitted_at r + pol_max_order_horizon (em_policy m) < os_expires_at s
         then reject s ''ORDER_HORIZON_EXCEEDED'' m
         else
           ebind (case or_quantity r of
                    None \<Rightarrow> Inr s
                  | Some q \<Rightarrow> ebind (qquantity q (or_quantity_mode r \<noteq> WHOLE_SHARES)) (\<lambda>v.
                      Inr (s\<lparr>os_remaining_quantity := Some v\<rparr>))) (\<lambda>s'.
           reserve_or_reject s' (put_state s' m))))"

definition submit :: "request \<Rightarrow> exec_model \<Rightarrow> exec_error + exec_model \<times> backtest_order" where
  "submit r m =
     ebind (require (map_of (em_orders m) (or_order_id r) = None)
       (invalid ''order_id must be unique'')) (\<lambda>_.
     ebind (initial_state m r) (\<lambda>s.
     ebind (admit s (put_state s m\<lparr>em_open_order_ids := insert (or_order_id r) (em_open_order_ids m)\<rparr>)) (\<lambda>m'.
     case map_of (em_orders m') (or_order_id r) of
       None \<Rightarrow> Inl (UnknownOrder (or_order_id r))
     | Some s' \<Rightarrow> Inr (m', order_view s'))))"

definition cancel :: "string \<Rightarrow> py_datetime \<Rightarrow> exec_model \<Rightarrow> exec_error + exec_model \<times> backtest_order" where
  "cancel oid cancelled_at m =
     ebind (exec_utc cancelled_at ''cancelled_at'') (\<lambda>_.
     ebind (find_state oid m) (\<lambda>s.
     if is_open s
     then let s' = release_reservation
                (s\<lparr>os_status := CANCELLED, os_reason_code := Some ''EXPLICITLY_CANCELLED''\<rparr>)
          in Inr (close_order (os_id s) (put_state s' m), order_view s')
     else Inr (m, order_view s)))"

section \<open>The clock\<close>

fun expiry_reason :: "time_in_force \<Rightarrow> string" where
  "expiry_reason DAY = ''DAY_EXPIRED''"
| "expiry_reason GTC = ''GTC_HORIZON_EXPIRED''"
| "expiry_reason GTD = ''GTD_EXPIRED''"

definition expired_state :: "order_state \<Rightarrow> order_state" where
  "expired_state s = release_reservation
     (s\<lparr>os_status := EXPIRED,
        os_reason_code := Some (expiry_reason (or_time_in_force (os_request s)))\<rparr>)"

fun expire_loop :: "instant \<Rightarrow> order_state list \<Rightarrow> exec_model \<Rightarrow> exec_model \<times> backtest_order list" where
  "expire_loop now [] m = (m, [])"
| "expire_loop now (s # ss) m =
     (if os_expires_at s \<le> now
      then let s' = expired_state s;
               (m', out) = expire_loop now ss (close_order (os_id s) (put_state s' m))
           in (m', order_view s' # out)
      else expire_loop now ss m)"

definition advance_clock :: "instant \<Rightarrow> exec_model \<Rightarrow> exec_error + exec_model \<times> backtest_order list" where
  "advance_clock now m =
     ebind (require (case em_now m of None \<Rightarrow> True | Some n \<Rightarrow> n \<le> now)
       (invalid ''execution clock must not move backward'')) (\<lambda>_.
     Inr (expire_loop now (sort_key order_key (open_states m)) (m\<lparr>em_now := Some now\<rparr>)))"

definition advance_time :: "py_datetime \<Rightarrow> exec_model \<Rightarrow> exec_error + exec_model \<times> backtest_order list" where
  "advance_time instant m = ebind (exec_utc instant ''instant'') (\<lambda>now. advance_clock now m)"

definition advance_to_bar :: "bar \<Rightarrow> exec_model \<Rightarrow> exec_error + exec_model \<times> backtest_order list" where
  "advance_to_bar b m =
     (case em_now m of
        None \<Rightarrow> advance_time (Aware (bar_starts_at b)) m
      | Some n \<Rightarrow>
          if n \<le> bar_starts_at b then advance_time (Aware (bar_starts_at b)) m
          else ebind (require (\<not> bar_ends_at b < n)
            (invalid ''a completed bar must not precede the execution clock'')) (\<lambda>_. Inr (m, [])))"

section \<open>Sizing\<close>

text \<open>Python's \<open>min\<close> of a non-empty list of decimals.\<close>

fun dmin_list :: "decimal \<Rightarrow> decimal list \<Rightarrow> decimal" where
  "dmin_list d [] = d"
| "dmin_list d (x # xs) = dmin_list (dmin d x) xs"

text \<open>\<open>max(limit - a - b, ZERO) / unit\<close>, the shape of every BUY cap.\<close>

definition room_over :: "decimal \<Rightarrow> decimal \<Rightarrow> exec_error + decimal" where
  "room_over room unit_price = div28 (dmax room dzero) unit_price"

definition sell_caps :: "exec_model \<Rightarrow> order_state \<Rightarrow> exec_error + decimal list" where
  "sell_caps m s =
     ebind (assert_some (os_remaining_quantity s)) (\<lambda>remaining.
     ebind (position m (or_instrument_id (os_request s))) (\<lambda>pos.
     Inr [remaining, ps_quantity pos]))"

definition own_position_cap :: "exec_model \<Rightarrow> order_state \<Rightarrow> decimal \<Rightarrow> exec_error + decimal list" where
  "own_position_cap m s price =
     (let r = os_request s; iid = or_instrument_id r in
      case or_max_instrument_position_notional r of
        None \<Rightarrow> Inr []
      | Some cap \<Rightarrow>
          ebind (position m iid) (\<lambda>pos.
          ebind (qmoney (mul28 (ps_quantity pos) price)) (\<lambda>marked.
          ebind (room_over (sub28 (sub28 cap marked) (instrument_reserved_notional iid (os_id s) m)) price)
            (\<lambda>c. Inr [c]))))"

definition buy_caps :: "exec_model \<Rightarrow> order_state \<Rightarrow> decimal \<Rightarrow> exec_error + decimal list" where
  "buy_caps m s price =
     (let iid = or_instrument_id (os_request s); oid = os_id s; limits = em_risk_limits m in
     ebind (qrate price (pol_fee_rate (em_policy m))) (\<lambda>fee.
     ebind (qmoney (add28 price fee)) (\<lambda>unit_cash.
     ebind (case os_remaining_notional s of
              Some n \<Rightarrow> div28 n price
            | None \<Rightarrow> assert_some (os_remaining_quantity s)) (\<lambda>wanted.
     ebind (buying_power m) (\<lambda>power.
     ebind (room_over (sub28 power (reserved_cash oid m)) unit_cash) (\<lambda>by_cash.
     ebind (room_over (sub28 (sub28 (rl_max_strategy_notional limits) (position_exposure m))
         (reserved_cash oid m)) unit_cash) (\<lambda>by_strategy.
     ebind (room_over (sub28 (sub28 (rl_max_gross_exposure limits) (position_exposure m))
         (reserved_notional oid m)) price) (\<lambda>by_gross.
     ebind (own_position_cap m s price) (\<lambda>by_own.
     ebind (position m iid) (\<lambda>pos.
     ebind (room_over (sub28 (sub28 (rl_max_instrument_exposure limits) (ps_cost_basis pos))
         (instrument_reserved_notional iid oid m)) price) (\<lambda>by_instrument.
     Inr ([wanted, by_cash, by_strategy, by_gross] @ by_own @ [by_instrument]))))))))))))"

definition fillable_quantity ::
  "exec_model \<Rightarrow> order_state \<Rightarrow> decimal \<Rightarrow> decimal \<Rightarrow> exec_error + decimal" where
  "fillable_quantity m s price bar_capacity =
     ebind (case or_side (os_request s) of
              SELL \<Rightarrow> sell_caps m s
            | BUY \<Rightarrow> buy_caps m s price) (\<lambda>caps.
     let fractional = or_quantity_mode (os_request s) \<noteq> WHOLE_SHARES;
         quantum = if fractional then QUANTITY_QUANTUM else done1
     in ebind (floor_to_quantum (dmin_list bar_capacity caps) quantum) (\<lambda>q.
        qquantity q fractional))"

section \<open>Ledger entries\<close>

definition entry_name :: "string \<Rightarrow> nat \<Rightarrow> string" where
  "entry_name fill_id index = ''idea2strategy:d23:entry:'' @ fill_id @ '':'' @ nat_str index"

type_synonym raw_entry = "ledger_account \<times> ledger_direction \<times> decimal"

fun entries_from ::
  "(string \<Rightarrow> string) \<Rightarrow> string \<Rightarrow> nat \<Rightarrow> raw_entry list \<Rightarrow> exec_error + ledger_entry list" where
  "entries_from uuid5 fill_id index [] = Inr []"
| "entries_from uuid5 fill_id index ((account, direction, amount) # raw) =
     (if deq amount dzero then entries_from uuid5 fill_id (index + 1) raw
      else ebind (ledger_entry_new
              \<lparr>le_entry_id = uuid5 (entry_name fill_id index),
               le_account_code = account, le_direction = direction, le_amount = amount,
               le_source_event_id = fill_id\<rparr>) (\<lambda>e.
           ebind (entries_from uuid5 fill_id (index + 1) raw) (\<lambda>es. Inr (e # es))))"

definition entries :: "(string \<Rightarrow> string) \<Rightarrow> string \<Rightarrow> raw_entry list \<Rightarrow> exec_error + ledger_entry list" where
  "entries uuid5 fill_id raw = entries_from uuid5 fill_id 1 raw"

definition buy_entries ::
  "(string \<Rightarrow> string) \<Rightarrow> string \<Rightarrow> decimal \<Rightarrow> decimal \<Rightarrow> exec_error + ledger_entry list" where
  "buy_entries uuid5 fill_id gross fee =
     ebind (qmoney (add28 gross fee)) (\<lambda>total.
     entries uuid5 fill_id
       [(SECURITY, DEBIT, gross), (FEE_EXPENSE, DEBIT, fee), (CASH, CREDIT, total)])"

definition pnl_entry :: "decimal \<Rightarrow> exec_error + raw_entry list" where
  "pnl_entry realized_pnl =
     (if dless dzero realized_pnl then Inr [(REALIZED_PNL, CREDIT, realized_pnl)]
      else if dless realized_pnl dzero
      then ebind (qmoney (dminus default_prec realized_pnl)) (\<lambda>loss. Inr [(REALIZED_PNL, DEBIT, loss)])
      else Inr [])"

definition sell_entries ::
  "(string \<Rightarrow> string) \<Rightarrow> string \<Rightarrow> decimal \<Rightarrow> decimal \<Rightarrow> decimal \<Rightarrow> decimal
     \<Rightarrow> exec_error + ledger_entry list" where
  "sell_entries uuid5 fill_id gross fee cost_basis realized_pnl =
     ebind (qmoney (sub28 gross fee)) (\<lambda>net.
     ebind (pnl_entry realized_pnl) (\<lambda>pnl.
     entries uuid5 fill_id
       ([(CASH, DEBIT, net), (FEE_EXPENSE, DEBIT, fee), (SECURITY, CREDIT, cost_basis)] @ pnl)))"

section \<open>First in, first out\<close>

text \<open>The basis a partial or full consumption of the head lot takes.\<close>

definition consumed_basis :: "lot \<Rightarrow> decimal \<Rightarrow> exec_error + decimal" where
  "consumed_basis l consumed =
     (if deq consumed (lot_quantity l) then Inr (lot_cost_basis l)
      else ebind (div28 (mul28 (lot_cost_basis l) consumed) (lot_quantity l)) qmoney)"

lemma dsub_equal_zero: "dval a = dval b \<Longrightarrow> dval (dsub p a b) = 0"
proof -
  assume "dval a = dval b"
  then have "dval (dadd_exact a (copy_negate b)) = 0"
    by (simp add: dval_dadd_exact)
  then have "dcoef (dadd_exact a (copy_negate b)) = 0"
    by (simp add: dval_zero_iff)
  then have "dcoef (dfix p (dadd_exact a (copy_negate b))) = 0"
    by (auto simp: dfix_def Let_def div_half_even_def)
  then show ?thesis by (simp add: dsub_def dadd_dfix dval_zero_iff)
qed

text \<open>
  The loop of \<open>_consume_fifo\<close>: each round either retires the head lot or brings the
  remaining quantity to zero.
\<close>

function fifo_loop :: "decimal \<Rightarrow> decimal \<Rightarrow> lot list \<Rightarrow> exec_error + decimal \<times> lot list" where
  "fifo_loop remaining basis lots =
     (if \<not> dless dzero remaining then Inr (basis, lots)
      else case lots of
        [] \<Rightarrow> Inl (invalid ''position changed below reserved sell quantity'')
      | l # ls \<Rightarrow>
          let consumed = dmin remaining (lot_quantity l) in
          ebind (consumed_basis l consumed) (\<lambda>taken.
          ebind (qmoney (sub28 (lot_cost_basis l) taken)) (\<lambda>left_basis.
          let left_quantity = sub28 (lot_quantity l) consumed;
              l' = \<lparr>lot_quantity = left_quantity, lot_cost_basis = left_basis\<rparr>
          in fifo_loop (sub28 remaining consumed) (add28 basis taken)
               (if deq left_quantity dzero then ls else l' # ls))))"
  by pat_completeness auto

lemma fifo_round:
  assumes "dless dzero remaining"
    and "\<not> deq (sub28 q (dmin remaining q)) dzero"
  shows "\<not> dless dzero (sub28 remaining (dmin remaining q))"
proof -
  have "dmin remaining q = remaining"
    using assms(2) dsub_equal_zero [of q q] by (auto simp: dmin_def deq_iff split: if_splits)
  then show ?thesis by (simp add: dless_iff dsub_equal_zero)
qed

termination fifo_loop
  by (relation "measure (\<lambda>(remaining, basis, lots).
        length lots + (if dless dzero remaining then 1 else 0))")
    (auto dest: fifo_round)

declare fifo_loop.simps [simp del]

definition consume_fifo :: "string \<Rightarrow> decimal \<Rightarrow> exec_model \<Rightarrow> exec_error + decimal \<times> exec_model" where
  "consume_fifo iid quantity m =
     ebind (fifo_loop quantity dzero (lots_of m iid)) (\<lambda>(basis, lots).
     ebind (qmoney basis) (\<lambda>b.
     Inr (b, case map_of (em_lots m) iid of
               None \<Rightarrow> m
             | Some _ \<Rightarrow> m\<lparr>em_lots := dict_put iid lots (em_lots m)\<rparr>)))"

section \<open>Fills\<close>

definition advance_remainder ::
  "order_state \<Rightarrow> decimal \<Rightarrow> decimal \<Rightarrow> decimal \<Rightarrow> exec_model \<Rightarrow> exec_error + exec_model" where
  "advance_remainder s quantity gross price m =
     ebind (case os_remaining_notional s of
              Some n \<Rightarrow>
                ebind (qmoney (dmax (sub28 n gross) dzero)) (\<lambda>n'.
                Inr (s\<lparr>os_remaining_notional := Some n'\<rparr>, dless n' (mul28 price QUANTITY_QUANTUM)))
            | None \<Rightarrow>
                ebind (assert_some (os_remaining_quantity s)) (\<lambda>q.
                ebind (qquantity (sub28 q quantity)
                  (or_quantity_mode (os_request s) \<noteq> WHOLE_SHARES)) (\<lambda>q'.
                Inr (s\<lparr>os_remaining_quantity := Some q'\<rparr>, deq q' dzero)))) (\<lambda>(s', complete).
     if complete
     then Inr (close_order (os_id s)
            (put_state (release_reservation (s'\<lparr>os_status := FILLED\<rparr>)) m))
     else ebind (refresh_reservation m (s'\<lparr>os_status := PARTIALLY_FILLED\<rparr>)) (\<lambda>s''.
            Inr (put_state s'' m)))"

definition fill_name :: "string \<Rightarrow> nat \<Rightarrow> string" where
  "fill_name oid n = ''idea2strategy:d23:'' @ oid @ '':'' @ nat_str n"

definition ledger_name :: "string \<Rightarrow> string" where
  "ledger_name fill_id = ''idea2strategy:d23:ledger:'' @ fill_id"

text \<open>
  The side-dependent part of \<open>_record_fill\<close>: cash and lots move, and the cost basis, the
  realised profit and the ledger entries are computed.
\<close>

definition settle ::
  "(string \<Rightarrow> string) \<Rightarrow> order_state \<Rightarrow> string \<Rightarrow> decimal \<Rightarrow> decimal \<Rightarrow> decimal \<Rightarrow> exec_model
     \<Rightarrow> exec_error + exec_model \<times> decimal \<times> decimal \<times> ledger_entry list" where
  "settle uuid5 s fill_id quantity gross fee m =
     (let iid = or_instrument_id (os_request s) in
      case or_side (os_request s) of
        BUY \<Rightarrow>
          ebind (qmoney (sub28 (sub28 (em_cash m) gross) fee)) (\<lambda>cash.
          ebind (qmoney dzero) (\<lambda>pnl.
          ebind (buy_entries uuid5 fill_id gross fee) (\<lambda>es.
          Inr (m\<lparr>em_cash := cash, em_lots := dict_put iid
                 (lots_of m iid @ [\<lparr>lot_quantity = quantity, lot_cost_basis = gross\<rparr>]) (em_lots m)\<rparr>,
               gross, pnl, es))))
      | SELL \<Rightarrow>
          ebind (consume_fifo iid quantity m) (\<lambda>(basis, m').
          ebind (qmoney (sub28 (add28 (em_cash m') gross) fee)) (\<lambda>cash.
          ebind (qmoney (sub28 gross basis)) (\<lambda>pnl.
          ebind (sell_entries uuid5 fill_id gross fee basis pnl) (\<lambda>es.
          Inr (m'\<lparr>em_cash := cash\<rparr>, basis, pnl, es))))))"

definition record_fill ::
  "(string \<Rightarrow> string) \<Rightarrow> order_state \<Rightarrow> instant \<Rightarrow> decimal \<Rightarrow> decimal \<Rightarrow> decimal \<Rightarrow> exec_model
     \<Rightarrow> exec_error + fill \<times> exec_model" where
  "record_fill uuid5 s occurred_at quantity base price m =
     (let s1 = s\<lparr>os_fill_sequence := os_fill_sequence s + 1\<rparr>;
          fill_id = uuid5 (fill_name (os_id s) (os_fill_sequence s1));
          fractional = or_quantity_mode (os_request s) \<noteq> WHOLE_SHARES in
     ebind (qmoney (mul28 price quantity)) (\<lambda>gross.
     ebind (qrate gross (pol_fee_rate (em_policy m))) (\<lambda>fee.
     ebind (qmoney (mul28 (copy_abs (sub28 price base)) quantity)) (\<lambda>slippage.
     ebind (settle uuid5 s1 fill_id quantity gross fee m) (\<lambda>(m1, basis, pnl, es).
     let transaction_id = uuid5 (ledger_name fill_id) in
     ebind (ledger_transaction_new
         \<lparr>lx_transaction_id = transaction_id, lx_source_event_id = fill_id,
          lx_posted_at = occurred_at, lx_entries = es\<rparr>) (\<lambda>tx.
     ebind (qquantity (add28 (os_filled_quantity s1) quantity) fractional) (\<lambda>filled.
     ebind (advance_remainder (s1\<lparr>os_filled_quantity := filled\<rparr>) quantity gross price
         (m1\<lparr>em_ledger := em_ledger m1 @ [tx]\<rparr>)) (\<lambda>m2.
     let f = \<lparr>fl_fill_id = fill_id, fl_order_id = os_id s,
           fl_instrument_id = or_instrument_id (os_request s), fl_side = or_side (os_request s),
           fl_quantity = quantity, fl_base_price = base, fl_price = price,
           fl_gross_amount = gross, fl_slippage_amount = slippage, fl_fee = fee,
           fl_cost_basis = basis, fl_realized_pnl = pnl, fl_occurred_at = occurred_at,
           fl_ledger_transaction_id = transaction_id\<rparr>
     in Inr (f, m2\<lparr>em_fills := em_fills m2 @ [f]\<rparr>)))))))))"

section \<open>Bars\<close>

text \<open>
  The loop of \<open>process_bar\<close> over the eligible orders. An order's own record changes only
  in its own round, so the record taken when the loop starts is the current one.
\<close>

fun fill_loop ::
  "(string \<Rightarrow> string) \<Rightarrow> bar \<Rightarrow> order_state list \<Rightarrow> decimal \<Rightarrow> exec_model
     \<Rightarrow> exec_error + fill list \<times> exec_model" where
  "fill_loop uuid5 b [] capacity m = Inr ([], m)"
| "fill_loop uuid5 b (s # ss) capacity m =
     (if dle capacity dzero then Inr ([], m)
      else ebind (base_price s b) (\<lambda>(s', quote).
        let m' = put_state s' m in
        case quote of
          None \<Rightarrow> fill_loop uuid5 b ss capacity m'
        | Some quoted \<Rightarrow>
            ebind (qmoney quoted) (\<lambda>base.
            ebind (execution_price m' (os_request s') base) (\<lambda>price.
            ebind (fillable_quantity m' s' price capacity) (\<lambda>quantity.
            if dle quantity dzero then fill_loop uuid5 b ss capacity m'
            else
              ebind (record_fill uuid5 s' (bar_ends_at b) quantity base price m') (\<lambda>(f, m2).
              ebind (fill_loop uuid5 b ss (sub28 capacity quantity) m2) (\<lambda>(fs, m3).
              Inr (f # fs, m3))))))))"

definition bar_capacity :: "exec_model \<Rightarrow> bar \<Rightarrow> exec_error + decimal" where
  "bar_capacity m b =
     ebind (max_volume_participation_rate (em_microstructure m)) (\<lambda>rate.
     floor_to_quantum (mul28 (bar_volume b) rate) QUANTITY_QUANTUM)"

definition eligible_states :: "exec_model \<Rightarrow> bar \<Rightarrow> order_state list" where
  "eligible_states m b =
     sort_key order_key
       (filter (\<lambda>s. or_instrument_id (os_request s) = bar_instrument_id b \<and>
                    or_eligible_at (os_request s) \<le> bar_starts_at b) (open_states m))"

definition process_bar ::
  "(string \<Rightarrow> string) \<Rightarrow> bar \<Rightarrow> exec_model \<Rightarrow> exec_error + fill list \<times> exec_model" where
  "process_bar uuid5 b m =
     ebind (advance_to_bar b m) (\<lambda>(m1, _).
     if \<not> bar_complete b then Inr ([], m1)
     else ebind (bar_capacity m1 b) (\<lambda>capacity.
       if dle capacity dzero then Inr ([], m1)
       else fill_loop uuid5 b (eligible_states m1 b) capacity m1))"

fun process_each ::
  "(string \<Rightarrow> string) \<Rightarrow> bar list \<Rightarrow> exec_model \<Rightarrow> exec_error + fill list \<times> exec_model" where
  "process_each uuid5 [] m = Inr ([], m)"
| "process_each uuid5 (b # bs) m =
     ebind (process_bar uuid5 b m) (\<lambda>(fs, m').
     ebind (process_each uuid5 bs m') (\<lambda>(gs, m''). Inr (fs @ gs, m'')))"

definition process_bars ::
  "(string \<Rightarrow> string) \<Rightarrow> bar list \<Rightarrow> exec_model \<Rightarrow> exec_error + fill list \<times> exec_model" where
  "process_bars uuid5 bars m =
     process_each uuid5 (sort_key (\<lambda>b. (bar_starts_at b, bar_instrument_id b)) bars) m"

end
