(* ===== verification/Exec_Arith.thy ===== *)
theory Exec_Arith
  imports Exec_Engine
begin

text \<open>
  The engine's arithmetic on the eight-decimal grid: what the money and quantity
  quantizers return, that sums and differences of quantized amounts are exact in the
  default context, and what \<open>_floor_to_quantum\<close> and the cap list deliver. The component
  proofs use these facts through the collection \<open>grid_intros\<close> and never unfold the
  decimal operations.
\<close>

named_theorems grid_intros \<open>membership in the eight-decimal grid\<close>

section \<open>The grid\<close>

definition on_grid :: "rat \<Rightarrow> bool" where
  "on_grid x \<longleftrightarrow> (\<exists>u::int. x * 10 ^ 8 = of_int u)"

lemma on_gridI: "x * 10 ^ 8 = of_int u \<Longrightarrow> on_grid x"
  unfolding on_grid_def by blast

lemma on_grid_zero [grid_intros, simp]: "on_grid 0"
  by (rule on_gridI [of _ 0]) simp

lemma on_grid_of_int [grid_intros]: "on_grid (of_int k)"
  by (rule on_gridI [of _ "k * 10 ^ 8"]) simp

lemma on_grid_add [grid_intros]: "on_grid x \<Longrightarrow> on_grid y \<Longrightarrow> on_grid (x + y)"
  unfolding on_grid_def by (metis distrib_right of_int_add)

lemma on_grid_diff [grid_intros]: "on_grid x \<Longrightarrow> on_grid y \<Longrightarrow> on_grid (x - y)"
  unfolding on_grid_def by (metis left_diff_distrib of_int_diff)

lemma on_grid_minus [grid_intros]: "on_grid x \<Longrightarrow> on_grid (- x)"
  using on_grid_diff [of 0 x] by simp

lemma on_grid_max [grid_intros]: "on_grid x \<Longrightarrow> on_grid y \<Longrightarrow> on_grid (max x y)"
  by (simp add: max_def)

lemma fine_on_grid [grid_intros]:
  assumes "fine d"
  shows "on_grid (dval d)"
proof -
  have "(10::rat) powi (dexp d + 8) = 10 powi dexp d * 10 powi 8"
    by (rule powi10_add)
  moreover have "(10::rat) powi (dexp d + 8) = 10 ^ nat (dexp d + 8)"
    using assms by (intro powi10_nat) (simp add: fine_def)
  ultimately have "dval d * 10 ^ 8 = of_int (dsigned d * 10 ^ nat (dexp d + 8))"
    by (simp add: dval_def)
  then show ?thesis by (rule on_gridI)
qed

lemma is_money_on_grid [grid_intros]: "is_money d \<Longrightarrow> on_grid (dval d)"
  by (simp add: fine_on_grid is_money_fine)

text \<open>Two grid points closer than one quantum are equal.\<close>

lemma on_grid_sep:
  assumes "on_grid x" "on_grid y" "\<bar>x - y\<bar> < 1 / 10 ^ 8"
  shows "x = y"
proof -
  obtain u v where u: "x * 10 ^ 8 = of_int u" and v: "y * 10 ^ 8 = of_int v"
    using assms(1,2) by (auto simp: on_grid_def)
  have "\<bar>x * 10 ^ 8 - y * 10 ^ 8\<bar> = \<bar>x - y\<bar> * 10 ^ 8"
    by (simp add: abs_if algebra_simps)
  also have "\<dots> < 1" using assms(3) by (simp add: field_simps)
  finally have "\<bar>of_int u - of_int v :: rat\<bar> < 1" unfolding u v .
  then have "u = v" by linarith
  with u v have "x * 10 ^ 8 = y * 10 ^ 8" by simp
  then show ?thesis by simp
qed

lemma on_grid_pos:
  assumes "on_grid x" "0 < x"
  shows "1 / 10 ^ 8 \<le> x"
proof (rule ccontr)
  assume "\<not> 1 / 10 ^ 8 \<le> x"
  with assms(2) have "\<bar>x - 0\<bar> < 1 / 10 ^ 8" by linarith
  with on_grid_sep [OF assms(1) on_grid_zero] assms(2) show False by blast
qed

section \<open>Quantizers\<close>

lemma qmoney_Inr:
  assumes "qmoney d = Inr q"
  shows "is_money q" "\<bar>dval q - dval d\<bar> \<le> 1 / (2 * 10 ^ 8)"
  using assms quantize_money_Inr [of d q] by (simp_all add: qmoney_def)

lemma qmoney_bound: "qmoney d = Inr q \<Longrightarrow> \<bar>dval q\<bar> < 10 ^ 16"
  using qmoney_Inr(1) is_money_dval_bound by blast

lemma qmoney_grid:
  assumes "qmoney d = Inr q" "on_grid (dval d)"
  shows "dval q = dval d"
proof (rule on_grid_sep)
  show "on_grid (dval q)" using qmoney_Inr(1) [OF assms(1)] by (rule is_money_on_grid)
  have "(1::rat) / (2 * 10 ^ 8) < 1 / 10 ^ 8" by simp
  with qmoney_Inr(2) [OF assms(1)] show "\<bar>dval q - dval d\<bar> < 1 / 10 ^ 8" by linarith
qed (rule assms(2))

lemma qmoney_total:
  assumes "on_grid (dval d)" "\<bar>dval d\<bar> < 10 ^ 16"
  shows "\<exists>q. qmoney d = Inr q"
proof -
  obtain u where u: "dval d * 10 ^ 8 = of_int u" using assms(1) by (auto simp: on_grid_def)
  have "\<bar>dval d * 10 ^ 8\<bar> = \<bar>dval d\<bar> * 10 ^ 8" by (simp add: abs_mult)
  also have "\<dots> < 10 ^ 16 * 10 ^ 8" using assms(2) by (intro mult_strict_right_mono) simp_all
  finally have "\<bar>of_int u :: rat\<bar> < of_int (10 ^ 24)" unfolding u by simp
  then have "\<bar>u\<bar> < 10 ^ 24" by linarith
  then have "quantize_money (PyDec d) = Inr (money_of_units u)"
    using u by (intro quantize_money_exact) (simp_all add: field_simps)
  then show ?thesis by (simp add: qmoney_def)
qed

lemma qmoney_keeps: "is_money d \<Longrightarrow> qmoney d = Inr d"
  by (simp add: qmoney_def quantize_money_keeps)

lemma qmoney_mono:
  "qmoney a = Inr a' \<Longrightarrow> qmoney b = Inr b' \<Longrightarrow> dval a \<le> dval b \<Longrightarrow> dval a' \<le> dval b'"
  using quantize_money_mono by (auto simp: qmoney_def)

lemma qmoney_le_grid:
  assumes "qmoney a = Inr a'" "dval a \<le> g" "on_grid g"
  shows "dval a' \<le> g"
proof (rule ccontr)
  assume "\<not> dval a' \<le> g"
  then have "0 < dval a' - g" by simp
  moreover have "on_grid (dval a' - g)"
    using qmoney_Inr(1) [OF assms(1)] assms(3) by (intro grid_intros)
  ultimately have "1 / 10 ^ 8 \<le> dval a' - g" by (intro on_grid_pos)
  moreover have "(1::rat) / (2 * 10 ^ 8) < 1 / 10 ^ 8" by simp
  ultimately show False using qmoney_Inr(2) [OF assms(1)] assms(2) by linarith
qed

lemma qmoney_ge_grid:
  assumes "qmoney a = Inr a'" "g \<le> dval a" "on_grid g"
  shows "g \<le> dval a'"
proof (rule ccontr)
  assume "\<not> g \<le> dval a'"
  then have "0 < g - dval a'" by simp
  moreover have "on_grid (g - dval a')"
    using qmoney_Inr(1) [OF assms(1)] assms(3) by (intro grid_intros)
  ultimately have "1 / 10 ^ 8 \<le> g - dval a'" by (intro on_grid_pos)
  moreover have "(1::rat) / (2 * 10 ^ 8) < 1 / 10 ^ 8" by simp
  ultimately show False using qmoney_Inr(2) [OF assms(1)] assms(2) by linarith
qed

lemma qmoney_nonneg: "qmoney a = Inr a' \<Longrightarrow> 0 \<le> dval a \<Longrightarrow> 0 \<le> dval a'"
  by (rule qmoney_ge_grid) simp_all

text \<open>A quantity is on the grid and inside the numeric range.\<close>

definition is_quantity :: "decimal \<Rightarrow> bool" where
  "is_quantity q \<longleftrightarrow> fine q \<and> \<bar>dval q\<bar> < 10 ^ 16"

lemma is_money_quantity: "is_money q \<Longrightarrow> is_quantity q"
  unfolding is_quantity_def using is_money_fine is_money_dval_bound by blast

lemma is_quantity_on_grid [grid_intros]: "is_quantity q \<Longrightarrow> on_grid (dval q)"
  by (simp add: is_quantity_def fine_on_grid)

lemma qquantity_fractional: "qquantity d True = qmoney d"
  by (simp add: qquantity_def qmoney_def quantize_quantity_fractional)

lemma qquantity_whole:
  assumes "qquantity d False = Inr q"
  shows "dval q = of_int (rhe (dval d))" "is_quantity q"
proof -
  have q: "q = dec_of_int (rhe (dval d))" "\<bar>rhe (dval d)\<bar> < 10 ^ 16"
    using assms by (simp_all add: qquantity_def quantize_quantity_whole Let_def split: if_splits)
  then show "dval q = of_int (rhe (dval d))" by simp
  have "\<bar>of_int (rhe (dval d)) :: rat\<bar> < of_int (10 ^ 16)"
    using q(2) by (simp only: of_int_abs [symmetric] of_int_less_iff)
  moreover have "fine q" by (simp add: q(1) fine_def dec_of_int_def)
  ultimately show "is_quantity q" by (simp add: q(1) is_quantity_def)
qed

lemma qquantity_Inr: "qquantity d f = Inr q \<Longrightarrow> is_quantity q"
  using qquantity_whole(2) qmoney_Inr(1) is_money_quantity
  by (cases f) (auto simp: qquantity_fractional)

text \<open>The quantum of a quantity mode divides a value.\<close>

definition mode_grid :: "bool \<Rightarrow> rat \<Rightarrow> bool" where
  "mode_grid fractional x = (if fractional then on_grid x else x \<in> \<int>)"

lemma mode_grid_on_grid: "mode_grid f x \<Longrightarrow> on_grid x"
  by (auto simp: mode_grid_def on_grid_of_int split: if_splits elim!: Ints_cases)

lemma mode_grid_diff: "mode_grid f x \<Longrightarrow> mode_grid f y \<Longrightarrow> mode_grid f (x - y)"
  by (auto simp: mode_grid_def on_grid_diff)

lemma mode_grid_add: "mode_grid f x \<Longrightarrow> mode_grid f y \<Longrightarrow> mode_grid f (x + y)"
  by (auto simp: mode_grid_def on_grid_add)

lemma qquantity_mode_grid: "qquantity d f = Inr q \<Longrightarrow> mode_grid f (dval q)"
  using qquantity_whole(1) [of d q] qmoney_Inr(1) [of d q]
  by (cases f) (auto simp: qquantity_fractional mode_grid_def is_money_on_grid)

lemma qquantity_grid:
  assumes "qquantity d f = Inr q" "mode_grid f (dval d)"
  shows "dval q = dval d"
proof (cases f)
  case True
  then show ?thesis using assms qmoney_grid by (simp add: qquantity_fractional mode_grid_def)
next
  case False
  then obtain k where k: "dval d = of_int k" using assms(2) by (auto simp: mode_grid_def elim!: Ints_cases)
  show ?thesis using qquantity_whole(1) [of d q] assms(1) False by (simp add: k)
qed

section \<open>Exact sums and differences\<close>

lemma add28_money:
  assumes "is_quantity a" "is_quantity b"
  shows "dval (add28 a b) = dval a + dval b" "fine (add28 a b)"
  using assms dadd_fine [of a b] by (auto simp: is_quantity_def abs_if split: if_splits)

lemma sub28_money:
  assumes "is_quantity a" "is_quantity b"
  shows "dval (sub28 a b) = dval a - dval b" "fine (sub28 a b)"
  using assms dsub_fine [of a b] by (auto simp: is_quantity_def abs_if split: if_splits)

text \<open>Two operations in a row, as in \<open>cash - gross - fee\<close>.\<close>

lemma sub28_sub28_money:
  assumes "is_quantity a" "is_quantity b" "is_quantity c"
  shows "dval (sub28 (sub28 a b) c) = dval a - dval b - dval c"
    "fine (sub28 (sub28 a b) c)"
  using assms sub28_money [of a b] dsub_fine [of "sub28 a b" c]
  by (auto simp: is_quantity_def abs_if split: if_splits)

lemma sub28_add28_money:
  assumes "is_quantity a" "is_quantity b" "is_quantity c"
  shows "dval (sub28 (add28 a b) c) = dval a + dval b - dval c"
    "fine (sub28 (add28 a b) c)"
  using assms add28_money [of a b] dsub_fine [of "add28 a b" c]
  by (auto simp: is_quantity_def abs_if split: if_splits)

lemma qrate_Inr: "qrate b r = Inr q \<Longrightarrow> is_money q"
  by (auto simp: qrate_def apply_rate_def err_simps quantize_to_money is_money_of_units
      Let_def split: if_splits)

lemma dmul_nonneg:
  assumes "0 \<le> dval a" "0 \<le> dval b"
  shows "0 \<le> dval (dmul p a b)"
proof (cases "dcoef a = 0 \<or> dcoef b = 0")
  case True
  then have "dcoef (dmul p a b) = 0"
    by (auto simp: dmul_def dfix_def Let_def div_half_even_def)
  then show ?thesis by (simp add: dval_zero_iff [THEN iffD2])
next
  case False
  then have "\<not> dneg a" "\<not> dneg b"
    using assms dval_nonpos [of a] dval_nonpos [of b] dval_zero_iff [of a] dval_zero_iff [of b]
    by (metis order_antisym)+
  then show ?thesis
    by (intro dval_nonneg) (simp add: dmul_def dfix_def Let_def)
qed

lemma qrate_nonneg:
  assumes "qrate b r = Inr q" "0 \<le> dval b" "0 \<le> dval r"
  shows "0 \<le> dval q"
proof -
  have "quantize_money (PyDec (dmul working_precision b r)) = Inr q"
    using assms(1) by (auto simp: qrate_def apply_rate_def quantize_money_def err_simps)
  then show ?thesis using dmul_nonneg [OF assms(2,3)] quantize_money_nonneg by blast
qed

end
