(* ===== verification/Exec_Sizing.thy ===== *)
theory Exec_Sizing
  imports Exec_Arith
begin

text \<open>
  Sizing of fills: \<open>_floor_to_quantum\<close> is the floor to the quantum of the quantity mode,
  the chosen quantity never exceeds a cap, and every cap the engine computes is an upper
  bound that the account can honour.
\<close>

section \<open>Digits of rounded results\<close>

lemma ndigits_dfix: "0 < p \<Longrightarrow> ndigits (dcoef (dfix p d)) \<le> p"
proof -
  assume p: "0 < p"
  show ?thesis
  proof (cases "ndigits (dcoef d) \<le> p")
    case False
    define k where "k = ndigits (dcoef d) - p"
    define c where "c = div_half_even (dcoef d) (10 ^ k)"
    have "dcoef d < 10 ^ (p + k)"
      using ndigits_upper [of "dcoef d"] False by (simp add: k_def)
    then have "dcoef d div 10 ^ k < 10 ^ p"
      by (simp add: less_mult_imp_div_less power_add)
    then have c: "c \<le> 10 ^ p"
      using div_half_even_le [of "dcoef d" "10 ^ k"] by (simp add: c_def)
    show ?thesis
      using False p c by (auto simp: dfix_def Let_def ndigits_le simp flip: k_def c_def)
  qed (simp add: dfix_def)
qed


text \<open>Every value a division, a product or a quantizer returns fits the working precision.\<close>

definition short :: "decimal \<Rightarrow> bool" where
  "short d \<longleftrightarrow> ndigits (dcoef d) \<le> working_precision"

lemma short_bound: "dcoef d < 10 ^ 60 \<Longrightarrow> short d"
  by (simp add: short_def ndigits_le working_precision_def)

lemma short_dfix28: "short (dfix default_prec d)"
  using ndigits_dfix [of default_prec d]
  by (simp add: short_def default_prec_def working_precision_def)

lemma short_div28: "div28 a b = Inr q \<Longrightarrow> short q"
  using short_dfix28
  by (auto simp: div28_def ddiv_def Let_def split: if_splits prod.splits)

lemma short_mul28: "short (mul28 a b)"
  unfolding dmul_def by (rule short_dfix28)

lemma short_sub28: "short (sub28 a b)"
  unfolding dsub_def dadd_def Let_def by (rule short_dfix28)

lemma short_dsum: "short (dsum default_prec ds)"
proof (cases ds rule: rev_cases)
  case Nil
  then show ?thesis by (simp add: short_bound)
next
  case (snoc xs x)
  then show ?thesis
    unfolding snoc dsum_append dadd_def Let_def by (simp only: short_dfix28)
qed

lemma short_quantity: "is_quantity q \<Longrightarrow> dexp q \<le> 0 \<Longrightarrow> short q"
proof -
  assume q: "is_quantity q" "dexp q \<le> 0"
  have "(10::rat) powi (- 8) \<le> 10 powi dexp q"
    by (rule power_int_increasing) (use q(1) in \<open>simp_all add: is_quantity_def fine_def\<close>)
  then have "(10::rat) ^ 60 * 10 powi (- 8) \<le> 10 ^ 60 * 10 powi dexp q" by simp
  moreover have "(10::rat) ^ 16 \<le> 10 ^ 60 * 10 powi (- 8)" by (simp add: power_int_minus)
  ultimately have "\<bar>dval q\<bar> < 10 ^ 60 * 10 powi dexp q"
    using q(1) unfolding is_quantity_def by linarith
  then show ?thesis by (intro short_bound coef_bound_of_dval)
qed

section \<open>The floor to a quantum\<close>

lemma to_integral_floor_coef: "\<not> dneg d \<Longrightarrow> dcoef (to_integral_floor d) \<le> dcoef d"
  by (simp add: to_integral_floor_def Let_def)

lemma floor_to_power:
  assumes v: "0 < dval v" "short v"
  shows "\<exists>r. floor_to_quantum v (Dec False 1 e) = Inr r \<and>
     dval r = of_int \<lfloor>dval v / 10 powi e\<rfloor> * 10 powi e \<and> e \<le> dexp r"
proof -
  have c: "dcoef v \<noteq> 0" using v(1) by (metis dval_zero_iff less_irrefl)
  have n: "\<not> dneg v" using v(1) dval_nonpos [of v] by linarith
  define t where "t = Dec (dneg v) (dcoef v) (dexp v - e)"
  have t: "ddiv working_precision v (Dec False 1 e) = Inr t"
    using ddiv_power_of_ten [OF _ c, of working_precision e] v(2) by (simp add: short_def t_def)
  have tv: "dval t = dval v / 10 powi e" "\<not> dneg t"
    using n by (simp_all add: t_def dval_def dsigned_def power_int_diff)
  define k where "k = to_integral_floor t"
  have "dcoef k \<le> dcoef v" using to_integral_floor_coef [OF tv(2)] by (simp add: k_def t_def)
  moreover have "dcoef v < 10 ^ working_precision"
    using v(2) by (simp add: short_def ndigits_le working_precision_def)
  ultimately have small: "dcoef k * dcoef (Dec False 1 e) < 10 ^ working_precision" by simp
  have "floor_to_quantum v (Dec False 1 e) = Inr (dmul working_precision k (Dec False 1 e))"
    using v(1) t by (simp add: floor_to_quantum_def dle_iff k_def)
  moreover have "dval (dmul working_precision k (Dec False 1 e)) = dval k * dval (Dec False 1 e)"
    "dexp (dmul working_precision k (Dec False 1 e)) = dexp k + e"
    using dmul_is_exact [OF _ small] by (simp_all add: working_precision_def)
  ultimately show ?thesis
    using to_integral_floor_nonneg [OF tv(2)] tv(1)
    by (simp add: k_def dval_scaled_Dec)
qed

definition mode_quantum :: "bool \<Rightarrow> decimal" where
  "mode_quantum fractional = (if fractional then QUANTITY_QUANTUM else done1)"

lemma dval_mode_quantum: "dval (mode_quantum f) = (if f then 1 / 10 ^ 8 else 1)"
  by (simp add: mode_quantum_def QUANTITY_QUANTUM_def MONEY_QUANTUM_def dval_scaled_Dec powi_minus8)

lemma dval_mode_quantum_pos: "0 < dval (mode_quantum f)"
  by (simp add: dval_mode_quantum)

lemma floor_to_quantum_total:
  assumes "short v"
  shows "\<exists>r. floor_to_quantum v (mode_quantum f) = Inr r \<and>
     dval r = (if 0 < dval v then of_int \<lfloor>dval v / dval (mode_quantum f)\<rfloor> * dval (mode_quantum f) else 0) \<and>
     fine r"
proof (cases "0 < dval v")
  case True
  obtain e where e: "mode_quantum f = Dec False 1 e" "- 8 \<le> e"
    by (cases f) (simp_all add: mode_quantum_def QUANTITY_QUANTUM_def MONEY_QUANTUM_def)
  have "dval (mode_quantum f) = 10 powi e" by (simp add: e dval_scaled_Dec)
  with floor_to_power [OF True assms, of e] e True show ?thesis
    by (auto simp: fine_def)
next
  case False
  then show ?thesis by (simp add: floor_to_quantum_def dle_iff fine_def)
qed

lemma floor_quantum_bounds:
  assumes "0 < (u::rat)"
  shows "of_int \<lfloor>x / u\<rfloor> * u \<le> x" "x < of_int \<lfloor>x / u\<rfloor> * u + u" "0 \<le> x \<Longrightarrow> 0 \<le> of_int \<lfloor>x / u\<rfloor> * u"
proof -
  have "of_int \<lfloor>x / u\<rfloor> \<le> x / u" by simp
  then show "of_int \<lfloor>x / u\<rfloor> * u \<le> x" using assms by (simp only: pos_le_divide_eq)
  have "x / u < of_int \<lfloor>x / u\<rfloor> + 1" by linarith
  then show "x < of_int \<lfloor>x / u\<rfloor> * u + u" using assms by (simp add: field_simps)
  show "0 \<le> of_int \<lfloor>x / u\<rfloor> * u" if "0 \<le> x" using assms that by simp
qed

lemma mode_grid_multiple: "mode_grid f (of_int k * dval (mode_quantum f))"
  unfolding mode_grid_def by (cases f) (auto simp: dval_mode_quantum intro!: on_gridI [of _ k])

section \<open>Minimum of the caps\<close>

lemma dmin_list_le: "d \<in> set (x # xs) \<Longrightarrow> dval (dmin_list x xs) \<le> dval d"
proof (induction xs arbitrary: x d)
  case (Cons y ys)
  have le: "dval (dmin_list (dmin x y) ys) \<le> dval (dmin x y)" by (rule Cons.IH) simp
  show ?case
  proof (cases "d \<in> set ys")
    case True
    then show ?thesis using Cons.IH [of d "dmin x y"] by simp
  next
    case False
    with Cons.prems have "d = x \<or> d = y" by simp
    with le show ?thesis by (auto simp: dval_dmin)
  qed
qed simp

lemma dmin_list_mem: "dmin_list x xs \<in> set (x # xs)"
proof (induction xs arbitrary: x)
  case (Cons y ys)
  from Cons.IH [of "dmin x y"] show ?case by (auto simp: dmin_def split: if_splits)
qed simp

section \<open>The chosen quantity\<close>

definition fractional_order :: "order_state \<Rightarrow> bool" where
  "fractional_order s = (or_quantity_mode (os_request s) \<noteq> WHOLE_SHARES)"

definition caps_of :: "exec_model \<Rightarrow> order_state \<Rightarrow> decimal \<Rightarrow> exec_error + decimal list" where
  "caps_of m s price =
     (case or_side (os_request s) of SELL \<Rightarrow> sell_caps m s | BUY \<Rightarrow> buy_caps m s price)"

lemma fillable_quantity_caps:
  "fillable_quantity m s price cap =
     ebind (caps_of m s price) (\<lambda>caps.
     ebind (floor_to_quantum (dmin_list cap caps) (mode_quantum (fractional_order s))) (\<lambda>q.
     qquantity q (fractional_order s)))"
  by (simp add: fillable_quantity_def caps_of_def mode_quantum_def fractional_order_def Let_def)

text \<open>
  The quantity is the least cap rounded down to the quantum of the order's mode: it is
  at most every cap, and one quantum more would exceed the least one.
\<close>

lemma fillable_quantity_floor:
  assumes q: "fillable_quantity m s price cap = Inr q"
    and caps: "caps_of m s price = Inr caps" and short: "\<forall>d\<in>set (cap # caps). short d"
  defines "l \<equiv> dval (dmin_list cap caps)" and "u \<equiv> dval (mode_quantum (fractional_order s))"
  shows "dval q = (if 0 < l then of_int \<lfloor>l / u\<rfloor> * u else 0)"
    "is_quantity q" "mode_grid (fractional_order s) (dval q)"
proof -
  let ?f = "fractional_order s"
  have "short (dmin_list cap caps)" using dmin_list_mem short by blast
  then obtain r where r: "floor_to_quantum (dmin_list cap caps) (mode_quantum ?f) = Inr r"
    and rv: "dval r = (if 0 < l then of_int \<lfloor>l / u\<rfloor> * u else 0)"
    unfolding l_def u_def using floor_to_quantum_total by blast
  have qr: "qquantity r ?f = Inr q" using q caps r by (simp add: fillable_quantity_caps)
  have "mode_grid ?f (dval r)"
    using mode_grid_multiple [of ?f 0] mode_grid_multiple [of ?f "\<lfloor>l / u\<rfloor>"]
    by (auto simp: rv u_def)
  from qquantity_grid [OF qr this] rv
  show "dval q = (if 0 < l then of_int \<lfloor>l / u\<rfloor> * u else 0)" by simp
  show "is_quantity q" "mode_grid ?f (dval q)"
    using qr by (rule qquantity_Inr, rule qquantity_mode_grid)
qed

lemma fillable_quantity_le:
  assumes "fillable_quantity m s price cap = Inr q" "caps_of m s price = Inr caps"
    "\<forall>d\<in>set (cap # caps). short d" "\<forall>d\<in>set (cap # caps). 0 \<le> dval d"
    "d \<in> set (cap # caps)"
  shows "0 \<le> dval q" "dval q \<le> dval d"
    "dval (dmin_list cap caps) < dval q + dval (mode_quantum (fractional_order s))"
proof -
  let ?l = "dval (dmin_list cap caps)" and ?u = "dval (mode_quantum (fractional_order s))"
  have u: "0 < ?u" by (rule dval_mode_quantum_pos)
  have l0: "0 \<le> ?l" using dmin_list_mem assms(4) by blast
  have ld: "?l \<le> dval d" using assms(5) by (rule dmin_list_le)
  note q = fillable_quantity_floor(1) [OF assms(1-3)]
  show "0 \<le> dval q" "dval q \<le> dval d" "?l < dval q + ?u"
    using floor_quantum_bounds [OF u, of ?l] l0 ld u unfolding q by auto
qed

end
