(* ===== verification/Exec_Orders.thy ===== *)
theory Exec_Orders
  imports Exec_Sizing
begin

text \<open>
  The order book of the execution model as a state machine: the dictionary is keyed by
  order identifier, the set of open identifiers is exactly the set of orders whose status
  is open, an order's request never changes and a terminal order never changes at all.
  Every operation preserves this; reachability of engine states is an inductive relation.
\<close>

section \<open>Order-book invariant\<close>

definition book_ok :: "exec_model \<Rightarrow> bool" where
  "book_ok m \<longleftrightarrow>
     distinct (map fst (em_orders m)) \<and>
     (\<forall>k s. map_of (em_orders m) k = Some s \<longrightarrow> os_id s = k) \<and>
     em_open_order_ids m = {k. \<exists>s. map_of (em_orders m) k = Some s \<and> is_open s}"

text \<open>How one order's record may change: its identity is fixed.\<close>

definition same_order :: "order_state \<Rightarrow> order_state \<Rightarrow> bool" where
  "same_order s s' \<longleftrightarrow>
     os_request s' = os_request s \<and> os_expires_at s' = os_expires_at s \<and>
     os_submission_sequence s' = os_submission_sequence s"

lemma same_order_refl [simp]: "same_order s s"
  by (simp add: same_order_def)

lemma same_order_trans: "same_order s t \<Longrightarrow> same_order t u \<Longrightarrow> same_order s u"
  by (simp add: same_order_def)

text \<open>The effect of one order's operation on the book: its record is written, and its
  identifier leaves the open set when the new status is terminal.\<close>

definition moves_order :: "order_state \<Rightarrow> exec_model \<Rightarrow> exec_model \<Rightarrow> bool" where
  "moves_order s m m' \<longleftrightarrow>
     (\<exists>s'. same_order s s' \<and>
        (is_open s' \<and> m' = put_state s' m \<or>
         \<not> is_open s' \<and> m' = close_order (os_id s) (put_state s' m)))"

lemma moves_orderI1:
  "same_order s s' \<Longrightarrow> is_open s' \<Longrightarrow> moves_order s m (put_state s' m)"
  by (auto simp: moves_order_def)

lemma moves_orderI2:
  "same_order s s' \<Longrightarrow> \<not> is_open s' \<Longrightarrow> moves_order s m (close_order (os_id s) (put_state s' m))"
  by (auto simp: moves_order_def)

text \<open>Orders that exist keep existing, with the same request; terminal ones are frozen.\<close>

definition evolves :: "exec_model \<Rightarrow> exec_model \<Rightarrow> bool" where
  "evolves m m' \<longleftrightarrow>
     (\<forall>k s. map_of (em_orders m) k = Some s \<longrightarrow>
        (\<exists>s'. map_of (em_orders m') k = Some s' \<and> same_order s s' \<and> (\<not> is_open s \<longrightarrow> s' = s)))"

lemma evolves_refl [simp]: "evolves m m"
  by (simp add: evolves_def)

lemma evolves_trans:
  assumes "evolves a b" "evolves b c"
  shows "evolves a c"
  unfolding evolves_def
proof (intro allI impI)
  fix k s
  assume "map_of (em_orders a) k = Some s"
  then obtain t where t: "map_of (em_orders b) k = Some t" "same_order s t" "\<not> is_open s \<longrightarrow> t = s"
    using assms(1) unfolding evolves_def by blast
  then obtain u where u: "map_of (em_orders c) k = Some u" "same_order t u" "\<not> is_open t \<longrightarrow> u = t"
    using assms(2) unfolding evolves_def by blast
  show "\<exists>u. map_of (em_orders c) k = Some u \<and> same_order s u \<and> (\<not> is_open s \<longrightarrow> u = s)"
    using t u same_order_trans by blast
qed

lemma evolves_cong:
  "em_orders a' = em_orders a \<Longrightarrow> em_orders b' = em_orders b \<Longrightarrow> evolves a' b' = evolves a b"
  by (simp add: evolves_def)

lemma book_ok_cong:
  "em_orders a' = em_orders a \<Longrightarrow> em_open_order_ids a' = em_open_order_ids a \<Longrightarrow> book_ok a' = book_ok a"
  by (simp add: book_ok_def)

lemma put_state_fields [simp]:
  "em_orders (put_state s m) = dict_put (os_id s) s (em_orders m)"
  "em_open_order_ids (put_state s m) = em_open_order_ids m"
  "em_policy (put_state s m) = em_policy m"
  "em_microstructure (put_state s m) = em_microstructure m"
  "em_fractional_policy (put_state s m) = em_fractional_policy m"
  "em_risk_limits (put_state s m) = em_risk_limits m"
  "em_cash (put_state s m) = em_cash m"
  "em_lots (put_state s m) = em_lots m"
  "em_fills (put_state s m) = em_fills m"
  "em_ledger (put_state s m) = em_ledger m"
  "em_now (put_state s m) = em_now m"
  by (simp_all add: put_state_def)

lemma close_order_fields [simp]:
  "em_orders (close_order k m) = em_orders m"
  "em_open_order_ids (close_order k m) = em_open_order_ids m - {k}"
  "em_policy (close_order k m) = em_policy m"
  "em_microstructure (close_order k m) = em_microstructure m"
  "em_fractional_policy (close_order k m) = em_fractional_policy m"
  "em_risk_limits (close_order k m) = em_risk_limits m"
  "em_cash (close_order k m) = em_cash m"
  "em_lots (close_order k m) = em_lots m"
  "em_fills (close_order k m) = em_fills m"
  "em_ledger (close_order k m) = em_ledger m"
  "em_now (close_order k m) = em_now m"
  by (simp_all add: close_order_def)

text \<open>The same seen from the book alone, whatever else the operation changes.\<close>

definition book_moves :: "order_state \<Rightarrow> exec_model \<Rightarrow> exec_model \<Rightarrow> bool" where
  "book_moves s m m' \<longleftrightarrow>
     (\<exists>s'. same_order s s' \<and> em_orders m' = dict_put (os_id s) s' (em_orders m) \<and>
        em_open_order_ids m' = em_open_order_ids m - (if is_open s' then {} else {os_id s}))"

lemma moves_order_book:
  assumes "moves_order s m m'"
  shows "book_moves s m m'"
proof -
  from assms obtain s' where s': "same_order s s'"
    and "is_open s' \<and> m' = put_state s' m \<or> \<not> is_open s' \<and> m' = close_order (os_id s) (put_state s' m)"
    unfolding moves_order_def by blast
  then show ?thesis
    unfolding book_moves_def by (intro exI [of _ s']) (auto simp: same_order_def)
qed

lemma book_moves_cong:
  "em_orders a' = em_orders a \<Longrightarrow> em_open_order_ids a' = em_open_order_ids a \<Longrightarrow>
   em_orders b' = em_orders b \<Longrightarrow> em_open_order_ids b' = em_open_order_ids b \<Longrightarrow>
   book_moves s a b \<Longrightarrow> book_moves s a' b'"
  unfolding book_moves_def by (simp only:)

lemma book_moves_same: "same_order s s1 \<Longrightarrow> book_moves s1 m m' \<Longrightarrow> book_moves s m m'"
  unfolding book_moves_def same_order_def by auto

lemma book_moves_put: "same_order s s1 \<Longrightarrow> book_moves s1 (put_state s1 m) m' \<Longrightarrow> book_moves s m m'"
  unfolding book_moves_def same_order_def by auto

lemma book_moves_ok:
  assumes "book_ok m" "book_moves s m m'" "map_of (em_orders m) (os_id s) = Some s0" "is_open s0"
    "same_order s0 s"
  shows "book_ok m'" "evolves m m'"
proof -
  from assms(2) obtain s' where s': "same_order s s'"
    and m': "em_orders m' = dict_put (os_id s) s' (em_orders m)"
      "em_open_order_ids m' = em_open_order_ids m - (if is_open s' then {} else {os_id s})"
    unfolding book_moves_def by blast
  have id: "os_id s' = os_id s" using s' by (simp add: same_order_def)
  show "book_ok m'"
    using m' assms(1,3,4) unfolding book_ok_def by (auto simp: id split: if_splits)
  have "same_order s0 s'" using assms(5) s' by (rule same_order_trans)
  then show "evolves m m'" using assms(3,4) by (auto simp: evolves_def m'(1))
qed

text \<open>A batch of open orders whose records are those of the book.\<close>

definition current :: "exec_model \<Rightarrow> order_state list \<Rightarrow> bool" where
  "current m ss \<longleftrightarrow> distinct (map os_id ss) \<and>
     (\<forall>s\<in>set ss. map_of (em_orders m) (os_id s) = Some s \<and> is_open s)"

lemma current_tail: "current m (s # ss) \<Longrightarrow> book_moves s m m' \<Longrightarrow> current m' ss"
  unfolding current_def book_moves_def by (auto simp: image_iff)

lemma current_same_book: "em_orders m' = em_orders m \<Longrightarrow> current m' ss = current m ss"
  by (simp add: current_def)

lemma book_ok_id: "book_ok m \<Longrightarrow> (k, s) \<in> set (em_orders m) \<Longrightarrow> map_of (em_orders m) k = Some s \<and> os_id s = k"
  by (simp add: book_ok_def)

lemma book_ok_open:
  "book_ok m \<Longrightarrow> k \<in> em_open_order_ids m \<longleftrightarrow> (\<exists>s. map_of (em_orders m) k = Some s \<and> is_open s)"
  unfolding book_ok_def by blast

lemma current_open_states:
  assumes ok: "book_ok m"
  shows "current m (open_states m)"
proof -
  let ?l = "filter (\<lambda>(k, s). k \<in> em_open_order_ids m) (em_orders m)"
  have "map os_id (map snd ?l) = map fst ?l"
    using book_ok_id [OF ok] by (auto simp: o_def intro!: map_cong)
  moreover have "distinct (map fst ?l)"
    using ok by (simp add: book_ok_def distinct_map_filter)
  ultimately have "distinct (map os_id (open_states m))"
    unfolding open_states_def by (simp only:)
  moreover have "map_of (em_orders m) (os_id s) = Some s \<and> is_open s" if "s \<in> set (open_states m)" for s
  proof -
    from that obtain k where k: "(k, s) \<in> set (em_orders m)" "k \<in> em_open_order_ids m"
      by (auto simp: open_states_def)
    have "map_of (em_orders m) k = Some s" "os_id s = k" using book_ok_id [OF ok k(1)] by blast+
    then show ?thesis using k(2) book_ok_open [OF ok, of k] by simp
  qed
  ultimately show ?thesis by (simp add: current_def)
qed

lemma current_sub:
  assumes "current m ss" "distinct ts" "set ts \<subseteq> set ss"
  shows "current m ts"
proof -
  have "inj_on os_id (set ss)" using assms(1) by (simp add: current_def distinct_map)
  then have "inj_on os_id (set ts)" using assms(3) by (rule inj_on_subset)
  with assms show ?thesis by (auto simp: current_def distinct_map)
qed

lemma distinct_open_states: "book_ok m \<Longrightarrow> distinct (open_states m)"
  using current_open_states [of m] by (simp add: current_def distinct_map)

lemma moves_order_fields:
  assumes "moves_order s m m'"
  shows "em_policy m' = em_policy m" "em_microstructure m' = em_microstructure m"
    "em_fractional_policy m' = em_fractional_policy m" "em_risk_limits m' = em_risk_limits m"
    "em_cash m' = em_cash m" "em_lots m' = em_lots m" "em_fills m' = em_fills m"
    "em_ledger m' = em_ledger m" "em_now m' = em_now m"
  using assms unfolding moves_order_def by auto

lemma moves_order_put: "same_order s s1 \<Longrightarrow> moves_order s1 (put_state s1 m) m' \<Longrightarrow> moves_order s m m'"
  unfolding moves_order_def same_order_def
  by (fastforce simp: put_state_def close_order_def)

section \<open>Each operation's move\<close>

lemma reject_moves: "epost (reject s code m) (moves_order s m)"
  unfolding reject_def
  by (intro epost_rules moves_orderI2) (simp_all add: same_order_def is_open_def)

lemma reserve_sell_moves: "is_open s \<Longrightarrow> epost (reserve_sell s m) (moves_order s m)"
  unfolding reserve_sell_def
  by (intro epost_rules reject_moves moves_orderI1) (simp_all add: same_order_def is_open_def)

lemma reserve_buy_moves: "is_open s \<Longrightarrow> epost (reserve_buy s m) (moves_order s m)"
  unfolding reserve_buy_def
  by (intro epost_rules reject_moves moves_orderI1) (simp_all add: same_order_def is_open_def)

lemma reserve_or_reject_moves: "is_open s \<Longrightarrow> epost (reserve_or_reject s m) (moves_order s m)"
  by (cases "or_side (os_request s)")
    (simp_all add: reserve_or_reject_def reserve_sell_moves reserve_buy_moves)

lemma admit_moves:
  assumes "is_open s"
  shows "epost (admit s m) (moves_order s m)"
proof -
  have quantity: "same_order s s' \<and> is_open s'"
    if "(case or_quantity (os_request s) of None \<Rightarrow> Inr s
        | Some q \<Rightarrow> ebind (qquantity q f) (\<lambda>v. Inr (s\<lparr>os_remaining_quantity := Some v\<rparr>))) = Inr s'"
    for s' f
    using that assms by (auto simp: err_simps same_order_def is_open_def split: option.splits)
  show ?thesis
    unfolding admit_def Let_def
  proof (intro epost_rules reject_moves)
    fix f s'
    assume "(case or_quantity (os_request s) of None \<Rightarrow> Inr s
        | Some q \<Rightarrow> ebind (qquantity q f) (\<lambda>v. Inr (s\<lparr>os_remaining_quantity := Some v\<rparr>))) = Inr s'"
    from quantity [OF this] have s': "same_order s s'" "is_open s'" by simp_all
    show "epost (reserve_or_reject s' (put_state s' m)) (moves_order s m)"
      by (rule epost_mono [OF reserve_or_reject_moves [OF s'(2)]]) (rule moves_order_put [OF s'(1)])
  qed
qed

lemma refresh_reservation_same:
  "epost (refresh_reservation m s) (\<lambda>s'. same_order s s' \<and> os_status s' = os_status s)"
  unfolding refresh_reservation_def
  by (cases "or_side (os_request s)"; simp; intro epost_rules; simp add: same_order_def)

lemma advance_remainder_moves: "epost (advance_remainder s q g p m) (moves_order s m)"
  unfolding advance_remainder_def
proof (intro epost_rules)
  fix x s' complete
  assume x: "(case os_remaining_notional s of
        Some n \<Rightarrow> ebind (qmoney (dmax (sub28 n g) dzero)) (\<lambda>n'.
          Inr (s\<lparr>os_remaining_notional := Some n'\<rparr>, dless n' (mul28 p QUANTITY_QUANTUM)))
      | None \<Rightarrow> ebind (assert_some (os_remaining_quantity s)) (\<lambda>r.
          ebind (qquantity (sub28 r q) (or_quantity_mode (os_request s) \<noteq> WHOLE_SHARES)) (\<lambda>q'.
          Inr (s\<lparr>os_remaining_quantity := Some q'\<rparr>, deq q' dzero)))) = Inr x"
    and "x = (s', complete)"
  then have same: "same_order s s'"
    by (auto simp: err_simps same_order_def split: option.splits)
  show "moves_order s m (close_order (os_id s) (put_state (release_reservation (s'\<lparr>os_status := FILLED\<rparr>)) m))"
    using same by (intro moves_orderI2) (simp_all add: same_order_def release_reservation_def is_open_def)
  fix s''
  assume "refresh_reservation m (s'\<lparr>os_status := PARTIALLY_FILLED\<rparr>) = Inr s''"
  from epostD [OF refresh_reservation_same this] same
  show "moves_order s m (put_state s'' m)"
    by (intro moves_orderI1) (simp_all add: same_order_def is_open_def)
qed


section \<open>Fills move one order\<close>

definition same_config :: "exec_model \<Rightarrow> exec_model \<Rightarrow> bool" where
  "same_config m m' \<longleftrightarrow>
     em_policy m' = em_policy m \<and> em_microstructure m' = em_microstructure m \<and>
     em_fractional_policy m' = em_fractional_policy m \<and> em_risk_limits m' = em_risk_limits m"

lemma same_config_refl [simp]: "same_config m m"
  by (simp add: same_config_def)

lemma same_config_trans: "same_config a b \<Longrightarrow> same_config b c \<Longrightarrow> same_config a c"
  by (simp add: same_config_def)

lemma moves_order_config: "moves_order s m m' \<Longrightarrow> same_config m m'"
  by (simp add: same_config_def moves_order_fields)

text \<open>An operation that touches only cash, lots, fills and the ledger.\<close>

definition same_book :: "exec_model \<Rightarrow> exec_model \<Rightarrow> bool" where
  "same_book m m' \<longleftrightarrow> same_config m m' \<and> em_orders m' = em_orders m \<and>
     em_open_order_ids m' = em_open_order_ids m \<and> em_now m' = em_now m"

lemma consume_fifo_book: "epost (consume_fifo iid q m) (\<lambda>(b, m'). same_book m m')"
  unfolding consume_fifo_def
  by (intro epost_rules) (auto simp: same_book_def same_config_def split: option.splits)

lemma settle_book: "epost (settle u s i q g f m) (\<lambda>(m', _). same_book m m')"
proof (cases "or_side (os_request s)")
  case BUY
  then show ?thesis unfolding settle_def Let_def
    by simp (intro epost_rules, simp add: same_book_def same_config_def)
next
  case SELL
  have "same_book m (m'\<lparr>em_cash := c\<rparr>)" if "consume_fifo iid q m = Inr (b, m')" for iid b m' c
    using epostD [OF consume_fifo_book that] by (simp add: same_book_def same_config_def)
  with SELL show ?thesis unfolding settle_def Let_def
    by simp (intro epost_rules, simp)
qed

lemma base_price_same:
  "epost (base_price s b) (\<lambda>(s', _). same_order s s' \<and> os_status s' = os_status s)"
  unfolding base_price_def stop_limit_base_def trailing_base_def
  by (cases "or_order_type (os_request s)"; cases "or_side (os_request s)"; simp;
      intro epost_rules; simp add: same_order_def)

text \<open>What one recorded fill does, call by call.\<close>

lemma record_fill_inv:
  assumes "record_fill u s t q base price m = Inr (f, m')"
  obtains gross fee slip m1 basis pnl es tx filled m2 where
    "qmoney (mul28 price q) = Inr gross"
    "qrate gross (pol_fee_rate (em_policy m)) = Inr fee"
    "qmoney (mul28 (copy_abs (sub28 price base)) q) = Inr slip"
    "settle u (s\<lparr>os_fill_sequence := os_fill_sequence s + 1\<rparr>)
       (u (fill_name (os_id s) (os_fill_sequence s + 1))) q gross fee m = Inr (m1, basis, pnl, es)"
    "ledger_transaction_new
       \<lparr>lx_transaction_id = u (ledger_name (u (fill_name (os_id s) (os_fill_sequence s + 1)))),
        lx_source_event_id = u (fill_name (os_id s) (os_fill_sequence s + 1)),
        lx_posted_at = t, lx_entries = es\<rparr> = Inr tx"
    "qquantity (add28 (os_filled_quantity s) q) (or_quantity_mode (os_request s) \<noteq> WHOLE_SHARES) = Inr filled"
    "advance_remainder (s\<lparr>os_fill_sequence := os_fill_sequence s + 1, os_filled_quantity := filled\<rparr>)
       q gross price (m1\<lparr>em_ledger := em_ledger m1 @ [tx]\<rparr>) = Inr m2"
    "f = \<lparr>fl_fill_id = u (fill_name (os_id s) (os_fill_sequence s + 1)), fl_order_id = os_id s,
        fl_instrument_id = or_instrument_id (os_request s), fl_side = or_side (os_request s),
        fl_quantity = q, fl_base_price = base, fl_price = price, fl_gross_amount = gross,
        fl_slippage_amount = slip, fl_fee = fee, fl_cost_basis = basis, fl_realized_pnl = pnl,
        fl_occurred_at = t,
        fl_ledger_transaction_id = u (ledger_name (u (fill_name (os_id s) (os_fill_sequence s + 1))))\<rparr>"
    "m' = m2\<lparr>em_fills := em_fills m2 @ [f]\<rparr>"
  using assms unfolding record_fill_def Let_def
  by (clarsimp simp: err_simps)

lemma record_fill_book:
  assumes "record_fill u s t q base price m = Inr (f, m')"
  shows "book_moves s m m'" "same_config m m'" "em_now m' = em_now m"
proof -
  from assms obtain gross fee slip m1 basis pnl es tx filled m2 where
    st: "settle u (s\<lparr>os_fill_sequence := os_fill_sequence s + 1\<rparr>)
       (u (fill_name (os_id s) (os_fill_sequence s + 1))) q gross fee m = Inr (m1, basis, pnl, es)"
    and adv: "advance_remainder (s\<lparr>os_fill_sequence := os_fill_sequence s + 1, os_filled_quantity := filled\<rparr>)
       q gross price (m1\<lparr>em_ledger := em_ledger m1 @ [tx]\<rparr>) = Inr m2"
    and m': "m' = m2\<lparr>em_fills := em_fills m2 @ [f]\<rparr>"
    by (rule record_fill_inv)
  let ?s = "s\<lparr>os_fill_sequence := os_fill_sequence s + 1, os_filled_quantity := filled\<rparr>"
  have b1: "same_book m m1" using epostD [OF settle_book st] by simp
  have mv: "moves_order ?s (m1\<lparr>em_ledger := em_ledger m1 @ [tx]\<rparr>) m2"
    by (rule epostD [OF advance_remainder_moves adv])
  have "book_moves ?s m m'"
    by (rule book_moves_cong [OF _ _ _ _ moves_order_book [OF mv]])
      (use b1 in \<open>simp_all add: same_book_def m'\<close>)
  then show "book_moves s m m'" by (rule book_moves_same [rotated]) (simp add: same_order_def)
  show "same_config m m'" "em_now m' = em_now m"
    using b1 moves_order_config [OF mv] moves_order_fields(9) [OF mv]
    by (simp_all add: same_book_def same_config_def m')
qed

section \<open>Every operation keeps the book\<close>

text \<open>One engine call, seen from the book.\<close>

definition book_step :: "exec_model \<Rightarrow> exec_model \<Rightarrow> bool" where
  "book_step m m' \<longleftrightarrow> same_config m m' \<and> (book_ok m \<longrightarrow> book_ok m' \<and> evolves m m')"

lemma book_step_refl [simp]: "book_step m m"
  by (simp add: book_step_def)

lemma book_step_trans: "book_step a b \<Longrightarrow> book_step b c \<Longrightarrow> book_step a c"
  unfolding book_step_def using same_config_trans evolves_trans by blast

lemma book_step_same_book: "same_book m m' \<Longrightarrow> book_step m m'"
  by (simp add: book_step_def same_book_def book_ok_def evolves_def)

lemma book_moves_current:
  assumes "book_moves s m m'" "current m (s # ss)" "same_config m m'"
  shows "book_step m m'"
  using assms book_moves_ok [of m s m' s] unfolding book_step_def current_def by simp

lemma put_state_current:
  assumes "current m (s # ss)" "same_order s s'" "os_status s' = os_status s"
  shows "book_moves s m (put_state s' m)"
  using assms by (auto simp: current_def book_moves_def same_order_def is_open_def intro!: exI [of _ s'])

text \<open>
  The rule for every property of the fill loop. \<open>I\<close> is what holds of the orders still to
  visit, the capacity left and the model; \<open>R\<close> relates the model at some round, the fills
  that follow and the final model. A round either leaves the account alone or records one
  fill.
\<close>

lemma fill_loop_rule:
  assumes "fill_loop u b ss cap m = Inr (fs, m')" "I ss cap m"
    and stop: "\<And>ss cap m. I ss cap m \<Longrightarrow> R cap m [] m"
    and skip: "\<And>s ss cap m s' quote. I (s # ss) cap m \<Longrightarrow> base_price s b = Inr (s', quote) \<Longrightarrow>
        I ss cap (put_state s' m) \<and>
        (\<forall>fs m'. R cap (put_state s' m) fs m' \<longrightarrow> R cap m fs m')"
    and fill: "\<And>s ss cap m s' quoted base price q f m2. I (s # ss) cap m \<Longrightarrow> 0 < dval cap \<Longrightarrow>
        base_price s b = Inr (s', Some quoted) \<Longrightarrow> qmoney quoted = Inr base \<Longrightarrow>
        execution_price (put_state s' m) (os_request s') base = Inr price \<Longrightarrow>
        fillable_quantity (put_state s' m) s' price cap = Inr q \<Longrightarrow> 0 < dval q \<Longrightarrow>
        record_fill u s' (bar_ends_at b) q base price (put_state s' m) = Inr (f, m2) \<Longrightarrow>
        I ss (sub28 cap q) m2 \<and> (\<forall>fs m'. R (sub28 cap q) m2 fs m' \<longrightarrow> R cap m (f # fs) m')"
  shows "R cap m fs m'"
  using assms(1,2)
proof (induction ss arbitrary: cap m fs)
  case Nil
  then show ?case using stop by simp
next
  case (Cons s ss)
  show ?case
  proof (cases "dle cap dzero")
    case True
    with Cons.prems stop [of "s # ss" cap m] show ?thesis by simp
  next
    case False
    with Cons.prems(1) obtain s' quote where bp: "base_price s b = Inr (s', quote)"
      by (auto simp: err_simps)
    let ?m = "put_state s' m"
    note sk = skip [OF Cons.prems(2) bp]
    have skipped: ?thesis if "fill_loop u b ss cap ?m = Inr (fs, m')"
      using Cons.IH [OF that] sk by blast
    show ?thesis
    proof (cases quote)
      case None
      with Cons.prems(1) False bp show ?thesis by (intro skipped) simp
    next
      case (Some quoted)
      with Cons.prems(1) False bp obtain base price q where
        calls: "qmoney quoted = Inr base" "execution_price ?m (os_request s') base = Inr price"
          "fillable_quantity ?m s' price cap = Inr q"
        by (auto simp: err_simps Let_def)
      show ?thesis
      proof (cases "dle q dzero")
        case True
        with Cons.prems(1) False bp Some calls show ?thesis by (intro skipped) simp
      next
        case pos: False
        with Cons.prems(1) False bp Some calls obtain f m2 gs where
          rec: "record_fill u s' (bar_ends_at b) q base price ?m = Inr (f, m2)"
          and rest: "fill_loop u b ss (sub28 cap q) m2 = Inr (gs, m')" and fs: "fs = f # gs"
          by (auto simp: err_simps split: prod.splits)
        have "0 < dval cap" "0 < dval q" using False pos by (simp_all add: dle_iff)
        note fl = fill [OF Cons.prems(2) this(1) bp [unfolded Some] calls this(2) rec]
        show ?thesis unfolding fs using Cons.IH [OF rest] fl by blast
      qed
    qed
  qed
qed

lemma skip_round:
  assumes "current m (s # ss)" "base_price s b = Inr (s', quote)"
  shows "book_moves s m (put_state s' m)" "book_step m (put_state s' m)" "current (put_state s' m) ss"
proof -
  have same: "same_order s s'" "os_status s' = os_status s"
    using epostD [OF base_price_same assms(2)] by simp_all
  show mv: "book_moves s m (put_state s' m)" by (rule put_state_current [OF assms(1) same])
  show "book_step m (put_state s' m)"
    by (rule book_moves_current [OF mv assms(1)]) (simp add: same_config_def)
  show "current (put_state s' m) ss" by (rule current_tail [OF assms(1) mv])
qed

lemma fill_round:
  assumes "current m (s # ss)" "base_price s b = Inr (s', quote)"
    "record_fill u s' t q base price (put_state s' m) = Inr (f, m2)"
  shows "book_moves s m m2" "book_step m m2" "current m2 ss"
proof -
  have same: "same_order s s'" using epostD [OF base_price_same assms(2)] by simp
  note bk = record_fill_book [OF assms(3)]
  show mv: "book_moves s m m2" by (rule book_moves_put [OF same bk(1)])
  show "book_step m m2"
    by (rule book_moves_current [OF mv assms(1)]) (use bk(2) in \<open>simp add: same_config_def\<close>)
  show "current m2 ss" by (rule current_tail [OF assms(1) mv])
qed

lemma fill_loop_book:
  assumes "current m ss" "fill_loop u b ss cap m = Inr (fs, m')"
  shows "book_step m m' \<and> em_now m' = em_now m"
proof (rule fill_loop_rule [where R = "\<lambda>_ m _ m'. book_step m m' \<and> em_now m' = em_now m" and
      I = "\<lambda>ss _ m. current m ss", OF assms(2,1)])
  show "book_step m m \<and> em_now m = em_now m" for m by simp
next
  fix s ss cap m s' quote
  assume "current m (s # ss)" "base_price s b = Inr (s', quote)"
  from skip_round [OF this]
  show "current (put_state s' m) ss \<and> (\<forall>fs m'. book_step (put_state s' m) m' \<and>
      em_now m' = em_now (put_state s' m) \<longrightarrow> book_step m m' \<and> em_now m' = em_now m)"
    using book_step_trans by auto
next
  fix s ss cap m s' quoted base price q f m2
  assume "current m (s # ss)" "base_price s b = Inr (s', Some quoted)"
    and rec: "record_fill u s' (bar_ends_at b) q base price (put_state s' m) = Inr (f, m2)"
  from fill_round [OF this] record_fill_book(3) [OF rec]
  show "current m2 ss \<and> (\<forall>fs m'. book_step m2 m' \<and> em_now m' = em_now m2 \<longrightarrow>
      book_step m m' \<and> em_now m' = em_now m)"
    using book_step_trans by auto
qed


lemma current_eligible: "book_ok m \<Longrightarrow> current m (eligible_states m b)"
  unfolding eligible_states_def
  by (rule current_sub [OF current_open_states]) (auto simp: distinct_open_states)

lemma current_sorted: "book_ok m \<Longrightarrow> current m (sort_key order_key (open_states m))"
  by (rule current_sub [OF current_open_states]) (auto simp: distinct_open_states)

section \<open>Expiry\<close>

lemma expired_state_closed: "same_order s (expired_state s)" "\<not> is_open (expired_state s)"
  by (simp_all add: expired_state_def release_reservation_def same_order_def is_open_def)

lemma expire_moves: "book_moves s m (close_order (os_id s) (put_state (expired_state s) m))"
  by (rule moves_order_book, rule moves_orderI2) (rule expired_state_closed)+

lemma expire_loop_book:
  "current m ss \<Longrightarrow> book_step m (fst (expire_loop now ss m))"
proof (induction ss arbitrary: m)
  case Nil
  then show ?case by simp
next
  case (Cons s ss)
  let ?m = "close_order (os_id s) (put_state (expired_state s) m)"
  have "current ?m ss" by (rule current_tail [OF Cons.prems expire_moves])
  moreover have "book_step m ?m"
    by (rule book_moves_current [OF expire_moves Cons.prems]) (simp add: same_config_def)
  moreover have "current m ss" using Cons.prems by (simp add: current_def)
  ultimately show ?case
    using Cons.IH [of m] Cons.IH [of ?m] book_step_trans
    by (auto simp: Let_def split: prod.splits)
qed

text \<open>The record an order has after the expiry pass.\<close>

definition after_expiry :: "instant \<Rightarrow> order_state \<Rightarrow> order_state" where
  "after_expiry now s = (if os_expires_at s \<le> now then expired_state s else s)"

lemma os_id_expired [simp]: "os_id (expired_state s) = os_id s"
  by (simp add: expired_state_def release_reservation_def)

lemma expire_loop_Cons:
  "expire_loop now (s # ss) m =
     (if os_expires_at s \<le> now
      then (fst (expire_loop now ss (close_order (os_id s) (put_state (expired_state s) m))),
            order_view (expired_state s) #
              snd (expire_loop now ss (close_order (os_id s) (put_state (expired_state s) m))))
      else expire_loop now ss m)"
  by (simp add: Let_def case_prod_beta)

lemma expire_loop_fields:
  "em_policy (fst (expire_loop now ss m)) = em_policy m"
  "em_microstructure (fst (expire_loop now ss m)) = em_microstructure m"
  "em_fractional_policy (fst (expire_loop now ss m)) = em_fractional_policy m"
  "em_risk_limits (fst (expire_loop now ss m)) = em_risk_limits m"
  "em_cash (fst (expire_loop now ss m)) = em_cash m"
  "em_lots (fst (expire_loop now ss m)) = em_lots m"
  "em_fills (fst (expire_loop now ss m)) = em_fills m"
  "em_ledger (fst (expire_loop now ss m)) = em_ledger m"
  "em_now (fst (expire_loop now ss m)) = em_now m"
  by (induction ss arbitrary: m)
    (simp_all only: expire_loop_Cons expire_loop.simps(1) fst_conv close_order_fields put_state_fields
      if_split if_distrib [of fst] simp_thms split: if_split)

lemma expire_loop_out:
  "snd (expire_loop now ss m) =
     map (order_view \<circ> expired_state) (filter (\<lambda>s. os_expires_at s \<le> now) ss)"
  by (induction ss arbitrary: m) (simp_all add: expire_loop_Cons del: expire_loop.simps(2))

lemma expire_loop_orders:
  assumes "current m ss"
  shows "map_of (em_orders (fst (expire_loop now ss m))) k =
      (case find (\<lambda>s. os_id s = k) ss of
         None \<Rightarrow> map_of (em_orders m) k | Some s \<Rightarrow> Some (after_expiry now s))"
  using assms
proof (induction ss arbitrary: m)
  case Nil
  then show ?case by simp
next
  case (Cons s ss)
  let ?m = "close_order (os_id s) (put_state (expired_state s) m)"
  have cur: "current ?m ss" "current m ss"
    using Cons.prems current_tail [OF Cons.prems expire_moves] by (auto simp: current_def)
  have fresh: "find (\<lambda>t. os_id t = os_id s) ss = None"
    using Cons.prems by (auto simp: current_def find_None_iff image_iff)
  have self: "map_of (em_orders m) (os_id s) = Some s"
    using Cons.prems by (simp add: current_def)
  show ?case
    using Cons.IH [OF cur(1)] Cons.IH [OF cur(2)] fresh self
    by (cases "os_id s = k")
      (simp_all add: expire_loop_Cons after_expiry_def cong: option.case_cong del: expire_loop.simps(2))
qed

lemma advance_clock_inv:
  assumes "advance_clock now m = Inr (m', out)"
  shows "m' = fst (expire_loop now (sort_key order_key (open_states m)) (m\<lparr>em_now := Some now\<rparr>))"
    "out = snd (expire_loop now (sort_key order_key (open_states m)) (m\<lparr>em_now := Some now\<rparr>))"
    "case em_now m of None \<Rightarrow> True | Some n \<Rightarrow> n \<le> now"
proof -
  have e: "expire_loop now (sort_key order_key (open_states m)) (m\<lparr>em_now := Some now\<rparr>) = (m', out)"
    and "case em_now m of None \<Rightarrow> True | Some n \<Rightarrow> n \<le> now"
    using assms by (simp_all add: advance_clock_def err_simps)
  then show "m' = fst (expire_loop now (sort_key order_key (open_states m)) (m\<lparr>em_now := Some now\<rparr>))"
    "out = snd (expire_loop now (sort_key order_key (open_states m)) (m\<lparr>em_now := Some now\<rparr>))"
    "case em_now m of None \<Rightarrow> True | Some n \<Rightarrow> n \<le> now"
    by (simp_all only: e fst_conv snd_conv)
qed

lemma advance_clock_book: "epost (advance_clock now m) (\<lambda>(m', _). book_step m m')"
proof (rule epostI, clarify)
  fix m' out
  assume "advance_clock now m = Inr (m', out)"
  note inv = advance_clock_inv [OF this]
  have "book_step (m\<lparr>em_now := Some now\<rparr>) m'" if "book_ok m"
    unfolding inv(1) by (rule expire_loop_book) (use current_sorted [OF that] in \<open>simp add: current_def\<close>)
  moreover have "book_ok (m\<lparr>em_now := Some now\<rparr>) = book_ok m" by (rule book_ok_cong) simp_all
  moreover have "evolves (m\<lparr>em_now := Some now\<rparr>) m' = evolves m m'" by (rule evolves_cong) simp_all
  ultimately have "book_ok m \<Longrightarrow> book_ok m' \<and> evolves m m'" by (simp add: book_step_def)
  moreover have "same_config m m'"
    unfolding inv(1) by (simp add: same_config_def expire_loop_fields)
  ultimately show "book_step m m'" by (simp add: book_step_def)
qed


section \<open>The public operations\<close>

lemma advance_time_clock: "advance_time (Aware t) m = advance_clock t m"
  by (simp add: advance_time_def exec_utc_def)

lemma advance_time_book: "epost (advance_time d m) (\<lambda>(m', _). book_step m m')"
  unfolding advance_time_def by (intro epost_rules advance_clock_book)

lemma advance_to_bar_book: "epost (advance_to_bar b m) (\<lambda>(m', _). book_step m m')"
  unfolding advance_to_bar_def by (intro epost_rules advance_time_book) simp_all

lemma process_bar_book:
  assumes "process_bar u b m = Inr (fs, m')"
  shows "book_step m m'"
proof -
  from assms obtain m1 out where m1: "advance_to_bar b m = Inr (m1, out)"
    by (auto simp: process_bar_def err_simps)
  have s1: "book_step m m1" using epostD [OF advance_to_bar_book m1] by simp
  from assms m1 consider "m' = m1"
    | cap where "fill_loop u b (eligible_states m1 b) cap m1 = Inr (fs, m')"
    by (auto simp: process_bar_def err_simps split: if_splits)
  then show ?thesis
  proof cases
    case (2 cap)
    have "book_ok m1 \<Longrightarrow> book_step m1 m'"
      using fill_loop_book [OF current_eligible 2] by simp
    moreover have "same_config m1 m'"
    proof (rule fill_loop_rule [where R = "\<lambda>_ m _ m'. same_config m m'" and I = "\<lambda>_ _ _. True", OF 2])
      fix s' :: order_state and m q base price f m2
      assume "record_fill u s' (bar_ends_at b) q base price (put_state s' m) = Inr (f, m2)"
      from record_fill_book(2) [OF this]
      show "True \<and> (\<forall>fs m'. same_config m2 m' \<longrightarrow> same_config m m')" by (simp add: same_config_def)
    qed (simp_all add: same_config_def)
    ultimately have "book_step m1 m'" by (auto simp: book_step_def)
    with s1 show ?thesis by (rule book_step_trans)
  qed (use s1 in simp)
qed

lemma process_each_book: "process_each u bs m = Inr (fs, m') \<Longrightarrow> book_step m m'"
proof (induction bs arbitrary: m fs)
  case (Cons b bs)
  then obtain gs m1 hs where "process_bar u b m = Inr (gs, m1)" "process_each u bs m1 = Inr (hs, m')"
    by (auto simp: err_simps split: prod.splits)
  then show ?case using process_bar_book Cons.IH book_step_trans by blast
qed simp

lemma initial_state_fields:
  "epost (initial_state m r) (\<lambda>s. os_request s = r \<and> is_open s \<and> os_filled_quantity s = dzero \<and>
     os_remaining_quantity s = or_quantity r \<and> os_remaining_notional s = or_notional_amount r \<and>
     expiry_of m r = Inr (os_expires_at s))"
  unfolding initial_state_def by (intro epost_rules) (simp add: is_open_def)

lemma submit_inv:
  assumes "submit r m = Inr (m', v)"
  obtains s s' where "initial_state m r = Inr s" "map_of (em_orders m) (or_order_id r) = None"
    "moves_order s (put_state s m\<lparr>em_open_order_ids := insert (or_order_id r) (em_open_order_ids m)\<rparr>) m'"
    "admit s (put_state s m\<lparr>em_open_order_ids := insert (or_order_id r) (em_open_order_ids m)\<rparr>) = Inr m'"
    "map_of (em_orders m') (or_order_id r) = Some s'" "v = order_view s'"
proof -
  from assms obtain s where fresh: "map_of (em_orders m) (or_order_id r) = None"
    and s: "initial_state m r = Inr s"
    and adm: "admit s (put_state s m\<lparr>em_open_order_ids := insert (or_order_id r) (em_open_order_ids m)\<rparr>) = Inr m'"
    and v: "(case map_of (em_orders m') (or_order_id r) of None \<Rightarrow> Inl (UnknownOrder (or_order_id r))
      | Some s' \<Rightarrow> Inr (m', order_view s')) = Inr (m', v)"
    by (auto simp: submit_def err_simps split: option.splits)
  have "is_open s" using epostD [OF initial_state_fields s] by simp
  from epostD [OF admit_moves [OF this] adm] s fresh adm v that show thesis
    by (auto split: option.splits)
qed

lemma submit_book:
  assumes "submit r m = Inr (m', v)"
  shows "book_step m m'"
proof -
  from assms obtain s where s: "initial_state m r = Inr s"
    and fresh: "map_of (em_orders m) (or_order_id r) = None"
    and mv: "moves_order s (put_state s m\<lparr>em_open_order_ids := insert (or_order_id r) (em_open_order_ids m)\<rparr>) m'"
    by (rule submit_inv)
  let ?m = "put_state s m\<lparr>em_open_order_ids := insert (or_order_id r) (em_open_order_ids m)\<rparr>"
  have r: "os_request s = r" "is_open s" using epostD [OF initial_state_fields s] by simp_all
  have cfg: "same_config m ?m" by (simp add: same_config_def)
  have "book_ok ?m \<and> evolves m ?m \<and> current ?m [s]" if ok: "book_ok m"
    using ok fresh r by (auto simp: book_ok_def evolves_def current_def split: if_splits)
  moreover have "current ?m [s] \<Longrightarrow> book_step ?m m'"
    by (rule book_moves_current [OF moves_order_book [OF mv] _ moves_order_config [OF mv]])
  moreover have "same_config m m'"
    by (rule same_config_trans [OF cfg moves_order_config [OF mv]])
  ultimately show ?thesis unfolding book_step_def using evolves_trans by blast
qed

lemma cancel_book:
  assumes "cancel oid d m = Inr (m', v)"
  shows "book_step m m'"
proof -
  from assms obtain u s where s: "map_of (em_orders m) u = Some s"
    and m': "m' = m \<or> is_open s \<and> m' = close_order (os_id s) (put_state (release_reservation
        (s\<lparr>os_status := CANCELLED, os_reason_code := Some ''EXPLICITLY_CANCELLED''\<rparr>)) m)"
    by (auto simp: cancel_def find_state_def err_simps Let_def split: if_splits option.splits)
  let ?s = "release_reservation (s\<lparr>os_status := CANCELLED, os_reason_code := Some ''EXPLICITLY_CANCELLED''\<rparr>)"
  have mv: "moves_order s m (close_order (os_id s) (put_state ?s m))"
    by (rule moves_orderI2) (simp_all add: same_order_def release_reservation_def is_open_def)
  have "os_id s = u" if "book_ok m" using that s unfolding book_ok_def by blast
  then have "current m [s]" if "book_ok m" "is_open s"
    using that s by (simp add: current_def)
  then have "is_open s \<Longrightarrow> book_step m (close_order (os_id s) (put_state ?s m))"
    using book_moves_current [OF moves_order_book [OF mv] _ moves_order_config [OF mv]]
      moves_order_config [OF mv] by (auto simp: book_step_def)
  with m' show ?thesis by auto
qed

lemma seed_book: "epost (seed_long_position iid q c m) (book_step m)"
  unfolding seed_long_position_def
  by (intro epost_rules book_step_same_book) (simp add: same_book_def same_config_def)

section \<open>Reachable engine states\<close>

inductive engine_step :: "(string \<Rightarrow> string) \<Rightarrow> exec_model \<Rightarrow> exec_model \<Rightarrow> bool" for u where
  step_seed: "seed_long_position iid q c m = Inr m' \<Longrightarrow> engine_step u m m'"
| step_submit: "submit r m = Inr (m', v) \<Longrightarrow> engine_step u m m'"
| step_cancel: "cancel oid d m = Inr (m', v) \<Longrightarrow> engine_step u m m'"
| step_advance: "advance_time d m = Inr (m', out) \<Longrightarrow> engine_step u m m'"
| step_bar: "process_bar u b m = Inr (fs, m') \<Longrightarrow> engine_step u m m'"

inductive_cases engine_stepE: "engine_step u m m'"

inductive reachable :: "(string \<Rightarrow> string) \<Rightarrow> exec_model \<Rightarrow> bool" for u where
  reach_new: "exec_model_new p c l ms fp = Inr m \<Longrightarrow> reachable u m"
| reach_step: "reachable u m \<Longrightarrow> engine_step u m m' \<Longrightarrow> reachable u m'"

lemma engine_step_book: "engine_step u m m' \<Longrightarrow> book_step m m'"
  by (erule engine_stepE)
    (use epostD [OF seed_book] submit_book cancel_book epostD [OF advance_time_book] process_bar_book
      in \<open>fastforce+\<close>)

lemma new_book_ok: "exec_model_new p c l ms fp = Inr m \<Longrightarrow> book_ok m"
  by (auto simp: exec_model_new_def err_simps book_ok_def)

lemma reachable_book_ok: "reachable u m \<Longrightarrow> book_ok m"
  by (induction rule: reachable.induct) (use new_book_ok engine_step_book book_step_def in auto)

lemma steps_evolve: "(engine_step u)\<^sup>*\<^sup>* m m' \<Longrightarrow> book_ok m \<Longrightarrow> evolves m m' \<and> book_ok m'"
proof (induction rule: rtranclp_induct)
  case base
  then show ?case by simp
next
  case (step y z)
  then show ?case using engine_step_book [of u y z] evolves_trans by (auto simp: book_step_def)
qed

end
