(* ===== verification/Exec_Examples.thy ===== *)
theory Exec_Examples
  imports Exec_Orders
begin

text \<open>
  A concrete account used by the witnesses: a policy with a fee of twenty basis points and
  a slippage of five, an initial cash balance of 1000, one BUY limit order for two shares and one
  complete bar.
\<close>

lemmas money_eval = qmoney_def qrate_def qquantity_def quantize_money_def quantize_quantity_def
  apply_rate_def quantize_to_def MONEY_QUANTUM_def QUANTITY_QUANTUM_def NUMERIC_24_8_MAX_def
  NUMERIC_24_8_MIN_def working_precision_def div28_def

definition demo_policy :: execution_policy where
  "demo_policy = \<lparr>pol_version = ''v1'', pol_release_quarter = ''2024-Q1'',
     pol_period_start = UtcTime 0, pol_period_end = UtcTime 1, pol_fee_rate = Dec False 2 (- 3),
     pol_slippage_rate_bps = 5, pol_timezone = ''America/New_York'',
     pol_session_calendar = ''XNYS'', pol_timestamp_unit = ''us'',
     pol_price_arrow_type = ''decimal128(24, 8)'', pol_volume_arrow_type = ''int64'',
     pol_market_data_schema_version = ''1'', pol_calculation_model_version = ''1'',
     pol_market_rules_version = ''1'', pol_accounting_rules_version = CHART_OF_ACCOUNTS_VERSION,
     pol_fee_policy_id = uuid_text 2,
     pol_buying_power_buffer_policy_id = uuid_text 1,
     pol_good_till_cancelled_horizon = 1000, pol_max_order_horizon = 1000,
     pol_precision_rules_version = PRECISION_RULES_VERSION\<rparr>"

definition demo_limits :: risk_limits where
  "demo_limits = \<lparr>rl_max_strategy_notional = Dec False 1000000000000 (- 8),
     rl_max_gross_exposure = Dec False 1000000000000 (- 8),
     rl_max_instrument_exposure = Dec False 1000000000000 (- 8)\<rparr>"

definition demo_fractional :: fractional_policy where
  "demo_fractional = \<lparr>fp_policy_version = ''1'', fp_instrument_ids = []\<rparr>"

definition demo_micro :: microstructure_policy where
  "demo_micro = \<lparr>ms_version = ''d23'', ms_max_volume_participation_bps = 1000,
     ms_buying_power_buffer_policy_id = uuid_text 1, ms_buying_power_buffer_bps = 1\<rparr>"

definition demo_model :: exec_model where
  "demo_model = \<lparr>em_policy = demo_policy, em_microstructure = demo_micro,
     em_fractional_policy = demo_fractional, em_risk_limits = demo_limits,
     em_cash = Dec False 100000000000 (- 8), em_orders = [], em_open_order_ids = {},
     em_lots = [], em_fills = [], em_ledger = [], em_now = None\<rparr>"

lemma demo_model_new:
  "exec_model_new demo_policy (Dec False 1000 0) demo_limits demo_micro
     demo_fractional = Inr demo_model"
  by (simp add: exec_model_new_def demo_model_def demo_policy_def demo_micro_def
      exec_non_negative_def money_eval dec_eval cong: ebind_weak_cong)

definition demo_request :: request where
  "demo_request = \<lparr>or_order_id = uuid_text 170,
     or_instrument_id = uuid_text 187, or_side = BUY,
     or_order_type = LIMIT, or_quantity_mode = WHOLE_SHARES, or_time_in_force = DAY,
     or_submitted_at = 0, or_eligible_at = 0, or_day_expires_at = 500,
     or_reference_price = Dec False 100 0, or_quantity = Some (Dec False 2 0),
     or_notional_amount = None, or_expires_at = None, or_limit_price = Some (Dec False 101 0),
     or_stop_price = None, or_trail_percent = None, or_max_instrument_position_notional = None\<rparr>"

definition demo_bar :: bar where
  "demo_bar = \<lparr>bar_instrument_id = uuid_text 187, bar_starts_at = 10,
     bar_ends_at = 60000010, bar_open = Dec False 100 0, bar_high = Dec False 101 0,
     bar_low = Dec False 99 0, bar_close = Dec False 100 0, bar_volume = Dec False 20 0,
     bar_complete = True, bar_resolution = ''1m'', bar_session_truncated = False\<rparr>"

text \<open>A stand-in for the digest: the last character of the name decides the identifier.\<close>

definition demo_uuid5 :: "string \<Rightarrow> string" where
  "demo_uuid5 name = uuid_text (of_char (last name))"

lemmas demo_ids = uuid_parse_uuid_text uuid_text_inject

lemma demo_fields [simp]:
  "pol_fee_rate demo_policy = Dec False 2 (- 3)"
  "pol_max_order_horizon demo_policy = 1000"
  "em_policy demo_model = demo_policy" "em_microstructure demo_model = demo_micro"
  "em_risk_limits demo_model = demo_limits" "em_cash demo_model = Dec False 100000000000 (- 8)"
  "em_orders demo_model = []" "em_open_order_ids demo_model = {}" "em_lots demo_model = []"
  "em_fills demo_model = []" "em_ledger demo_model = []" "em_now demo_model = None"
  "rl_max_strategy_notional demo_limits = Dec False 1000000000000 (- 8)"
  "rl_max_gross_exposure demo_limits = Dec False 1000000000000 (- 8)"
  "rl_max_instrument_exposure demo_limits = Dec False 1000000000000 (- 8)"
  by (simp_all add: demo_policy_def demo_model_def demo_limits_def)

lemma demo_request_fields [simp]:
  "or_order_id demo_request = uuid_text 170" "or_instrument_id demo_request = uuid_text 187"
  "or_side demo_request = BUY" "or_order_type demo_request = LIMIT"
  "or_quantity_mode demo_request = WHOLE_SHARES" "or_time_in_force demo_request = DAY"
  "or_submitted_at demo_request = 0" "or_eligible_at demo_request = 0"
  "or_day_expires_at demo_request = 500" "or_reference_price demo_request = Dec False 100 0"
  "or_quantity demo_request = Some (Dec False 2 0)" "or_notional_amount demo_request = None"
  "or_limit_price demo_request = Some (Dec False 101 0)" "or_max_instrument_position_notional demo_request = None"
  by (simp_all add: demo_request_def)

lemma demo_rates:
  "slippage_rate demo_policy = Inr (Dec False 5 (- 4))"
  "buying_power_buffer_rate demo_micro = Inr (Dec False 1 (- 4))"
  "max_volume_participation_rate demo_micro = Inr (Dec False 1 (- 1))"
  by (simp_all add: dec_eval money_eval slippage_rate_def buying_power_buffer_rate_def
      max_volume_participation_rate_def BASIS_POINTS_def demo_policy_def demo_micro_def)

lemma demo_price:
  "em_policy m = demo_policy \<Longrightarrow> estimated_price m BUY (Dec False 100 0) = Inr (Dec False 10005000000 (- 8))"
  by (simp add: estimated_price_def policy_slippage_rate_def demo_rates money_eval dec_eval
      cong: ebind_weak_cong)

definition demo_order :: order_state where
  "demo_order = \<lparr>os_request = demo_request, os_expires_at = 500,
     os_remaining_quantity = Some (Dec False 2 0), os_remaining_notional = None,
     os_submission_sequence = 1, os_filled_quantity = dzero, os_status = ACCEPTED,
     os_reason_code = None, os_fill_sequence = 0, os_triggered = False, os_trail_reference = None,
     os_reserved_cash = Dec False 20050020000 (- 8), os_reserved_notional = Dec False 20010000000 (- 8),
     os_reserved_quantity = dzero\<rparr>"

definition demo_open :: exec_model where
  "demo_open = demo_model\<lparr>em_orders := [(uuid_text 170, demo_order)],
     em_open_order_ids := {uuid_text 170}\<rparr>"

lemma demo_commitment:
  "em_policy m = demo_policy \<Longrightarrow> os_request s = demo_request \<Longrightarrow>
   os_remaining_notional s = None \<Longrightarrow> os_remaining_quantity s = Some (Dec False 2 0) \<Longrightarrow>
   estimated_commitment m s = Inr (Dec False 20010000000 (- 8), Dec False 20050020000 (- 8))"
  by (simp add: estimated_commitment_def demo_price money_eval dec_eval cong: ebind_weak_cong)

lemma demo_power:
  "em_cash m = Dec False 100000000000 (- 8) \<Longrightarrow> em_microstructure m = demo_micro \<Longrightarrow>
   buying_power m = Inr (Dec False 99990000000 (- 8))"
  by (simp add: buying_power_def demo_rates money_eval dec_eval cong: ebind_weak_cong)

lemma demo_order_fields [simp]:
  "os_request demo_order = demo_request" "os_expires_at demo_order = 500"
  "os_remaining_quantity demo_order = Some (Dec False 2 0)" "os_remaining_notional demo_order = None"
  "os_submission_sequence demo_order = 1" "os_filled_quantity demo_order = dzero"
  "os_status demo_order = ACCEPTED" "os_fill_sequence demo_order = 0"
  by (simp_all add: demo_order_def)

lemma demo_position: "em_lots m = [] \<Longrightarrow>
  position m (uuid_text 187) = Inr \<lparr>ps_instrument_id = uuid_text 187, ps_quantity = dzero, ps_cost_basis = Dec False 0 (- 8)\<rparr>"
  by (simp add: position_def exec_uuid_def demo_ids lots_of_def money_eval dec_eval cong: ebind_weak_cong)

lemma demo_alone: "em_orders m = [(uuid_text 170, s)] \<Longrightarrow> os_request s = demo_request \<Longrightarrow>
  reserved_cash (uuid_text 170) m = dzero \<and> reserved_notional (uuid_text 170) m = dzero \<and>
  instrument_reserved_notional i (uuid_text 170) m = dzero"
  by (simp add: reserved_cash_def reserved_notional_def instrument_reserved_notional_def others_def open_states_def)

lemma demo_compare:
  "dless (sub28 (Dec False 99990000000 (- 8)) dzero) (Dec False 20050020000 (- 8)) = False"
  "dless (Dec False 1000000000000 (- 8)) (add28 (add28 dzero dzero) (Dec False 20050020000 (- 8))) = False"
  "dless (Dec False 1000000000000 (- 8)) (add28 (add28 dzero dzero) (Dec False 20010000000 (- 8))) = False"
  "dless (Dec False 1000000000000 (- 8)) (add28 (add28 (Dec False 0 (- 8)) dzero) (Dec False 20010000000 (- 8))) = False"
  by (simp_all add: dec_eval)

lemma demo_reserve:
  assumes "em_policy m = demo_policy" "em_microstructure m = demo_micro" "em_risk_limits m = demo_limits"
    "em_cash m = Dec False 100000000000 (- 8)" "em_lots m = []" "em_orders m = [(uuid_text 170, s)]"
    "os_request s = demo_request" "os_remaining_notional s = None" "os_remaining_quantity s = Some (Dec False 2 0)"
  shows "reserve_or_reject s m = Inr (put_state (s\<lparr>os_reserved_cash := Dec False 20050020000 (- 8), os_reserved_notional := Dec False 20010000000 (- 8)\<rparr>) m)"
proof -
  have e: "position_exposure m = dzero" by (simp add: position_exposure_def assms(5))
  show ?thesis
  using demo_alone [OF assms(6,7)] demo_commitment [OF assms(1,7,8,9)] demo_power [OF assms(4,2)] demo_position [OF assms(5)]
  by (simp add: assms(3,7) e reserve_or_reject_def reserve_buy_def position_cap_reached_def demo_compare
      Let_def cong: ebind_weak_cong)
qed

section \<open>The order is accepted\<close>

lemma demo_submit: "submit demo_request demo_model = Inr (demo_open, order_view demo_order)"
proof -
  let ?s = "demo_order\<lparr>os_reserved_cash := dzero, os_reserved_notional := dzero\<rparr>"
  let ?m = "demo_model\<lparr>em_orders := [(uuid_text 170, ?s)], em_open_order_ids := {uuid_text 170}\<rparr>"
  have s: "initial_state demo_model demo_request = Inr ?s"
    by (simp add: initial_state_def demo_order_def expiry_of_def)
  have m: "put_state ?s demo_model\<lparr>em_open_order_ids := insert (or_order_id demo_request) (em_open_order_ids demo_model)\<rparr> = ?m"
    by (simp add: put_state_def)
  have q: "qquantity (Dec False 2 0) False = Inr (Dec False 2 0)"
    by (simp add: money_eval dec_eval cong: ebind_weak_cong)
  have i: "is_integral (Dec False 2 0)" by (simp add: is_integral_def dec_eval)
  have same: "?s\<lparr>os_remaining_quantity := Some (Dec False 2 0)\<rparr> = ?s" by (simp add: demo_order_def)
  have p: "put_state ?s ?m = ?m" by (simp add: put_state_def)
  have f: "put_state (demo_order\<lparr>os_reserved_cash := Dec False 20050020000 (- 8), os_reserved_notional := Dec False 20010000000 (- 8)\<rparr>) ?m = demo_open"
    by (simp add: put_state_def demo_open_def demo_order_def)
  have "reserve_or_reject ?s ?m = Inr demo_open"
    by (subst demo_reserve [where s = ?s]) (simp_all add: f)
  then have "admit ?s ?m = Inr demo_open"
    by (simp add: admit_def eligibility_reason_def i q same p cong: ebind_weak_cong)
  then show ?thesis by (simp only: submit_def s m ebind_simps) (simp add: demo_open_def)
qed

lemma demo_amounts:
  "qmoney (Dec False 100 0) = Inr (Dec False 10000000000 (- 8))"
  "qmoney dzero = Inr (Dec False 0 (- 8))"
  "qmoney (mul28 (Dec False 10005000000 (- 8)) (Dec False 2 0)) = Inr (Dec False 20010000000 (- 8))"
  "qrate (Dec False 20010000000 (- 8)) (Dec False 2 (- 3)) = Inr (Dec False 40020000 (- 8))"
  "qmoney (mul28 (copy_abs (sub28 (Dec False 10005000000 (- 8)) (Dec False 10000000000 (- 8)))) (Dec False 2 0))
     = Inr (Dec False 10000000 (- 8))"
  "qmoney (sub28 (sub28 (Dec False 100000000000 (- 8)) (Dec False 20010000000 (- 8))) (Dec False 40020000 (- 8)))
     = Inr (Dec False 79949980000 (- 8))"
  "qmoney (add28 (Dec False 20010000000 (- 8)) (Dec False 40020000 (- 8))) = Inr (Dec False 20050020000 (- 8))"
  "qquantity (add28 dzero (Dec False 2 0)) False = Inr (Dec False 2 0)"
  "qquantity (sub28 (Dec False 2 0) (Dec False 2 0)) False = Inr dzero"
  "qrate (Dec False 10005000000 (- 8)) (Dec False 2 (- 3)) = Inr (Dec False 20010000 (- 8))"
  "qmoney (add28 (Dec False 10005000000 (- 8)) (Dec False 20010000 (- 8))) = Inr (Dec False 10025010000 (- 8))"
  by (simp_all add: money_eval dec_eval cong: ebind_weak_cong)

lemma demo_execution_price:
  assumes "em_policy m = demo_policy"
  shows "execution_price m demo_request (Dec False 10000000000 (- 8)) = Inr (Dec False 10005000000 (- 8))"
proof -
  have "qrate (Dec False 10000000000 (- 8)) (Dec False 5 (- 4)) = Inr (Dec False 5000000 (- 8))"
    "qmoney (add28 (Dec False 10000000000 (- 8)) (Dec False 5000000 (- 8))) = Inr (Dec False 10005000000 (- 8))"
    by (simp_all add: money_eval dec_eval cong: ebind_weak_cong)
  moreover have "\<not> dless (Dec False 101 0) (Dec False 10005000000 (- 8))" by (simp add: dec_eval)
  ultimately show ?thesis
    by (simp add: execution_price_def policy_slippage_rate_def assms demo_rates cong: ebind_weak_cong)
qed

lemma demo_bar_fields [simp]:
  "bar_instrument_id demo_bar = uuid_text 187" "bar_starts_at demo_bar = 10"
  "bar_ends_at demo_bar = 60000010" "bar_open demo_bar = Dec False 100 0"
  "bar_volume demo_bar = Dec False 20 0" "bar_complete demo_bar"
  by (simp_all add: demo_bar_def)

section \<open>The bar and the fill\<close>

lemma demo_capacity:
  "em_microstructure m = demo_micro \<Longrightarrow> bar_capacity m demo_bar = Inr (Dec False 20 (- 1))"
  by (simp add: bar_capacity_def demo_rates floor_to_quantum_def money_eval dec_eval
      ddiv_power_of_ten [unfolded One_nat_def]
      del: ddiv_def cong: ebind_weak_cong)

lemma demo_digits:
  "ndigits 99990000000 = 11" "ndigits 10025010000 = 11" "ndigits 1000000000000 = 13"
  "ndigits 10005000000 = 11" "ndigits 997405488872330301914910808069 = 30"
  "ndigits 99750523939626992890780158822 = 29" "ndigits 99950024987506246876561719141 = 29"
  using ndigits_eqI [of 10 99990000000] ndigits_eqI [of 10 10025010000]
    ndigits_eqI [of 12 1000000000000] ndigits_eqI [of 10 10005000000]
    ndigits_eqI [of 29 997405488872330301914910808069]
    ndigits_eqI [of 28 99750523939626992890780158822] ndigits_eqI [of 28 99950024987506246876561719141]
  by simp_all

lemma demo_quotients:
  "ddiv default_prec (Dec False 99990000000 (- 8)) (Dec False 10025010000 (- 8))
     = Inr (Dec False 9974054888723303019149108081 (- 27))"
  "ddiv default_prec (Dec False 1000000000000 (- 8)) (Dec False 10025010000 (- 8))
     = Inr (Dec False 9975052393962699289078015882 (- 26))"
  "ddiv default_prec (Dec False 1000000000000 (- 8)) (Dec False 10005000000 (- 8))
     = Inr (Dec False 9995002498750624687656171914 (- 26))"
  by (subst ddiv_by_remainder [where shift = 29 and q = 997405488872330301914910808069 and r = 194310000],
      simp_all add: default_prec_def demo_digits dfix_eval div_half_even_def ndigits_le)
    (subst ddiv_by_remainder [where shift = 27 and q = 99750523939626992890780158822 and r = 7861780000],
      simp_all add: default_prec_def demo_digits dfix_eval div_half_even_def ndigits_le,
      subst ddiv_by_remainder [where shift = 27 and q = 99950024987506246876561719140 and r = 4300000000],
      simp_all add: default_prec_def demo_digits dfix_eval div_half_even_def ndigits_le)

lemma demo_rooms:
  "room_over (sub28 (Dec False 99990000000 (- 8)) dzero) (Dec False 10025010000 (- 8))
     = Inr (Dec False 9974054888723303019149108081 (- 27))"
  "room_over (sub28 (sub28 (Dec False 1000000000000 (- 8)) dzero) dzero) (Dec False 10025010000 (- 8))
     = Inr (Dec False 9975052393962699289078015882 (- 26))"
  "room_over (sub28 (sub28 (Dec False 1000000000000 (- 8)) dzero) dzero) (Dec False 10005000000 (- 8))
     = Inr (Dec False 9995002498750624687656171914 (- 26))"
  "room_over (sub28 (sub28 (Dec False 1000000000000 (- 8)) (Dec False 0 (- 8))) dzero) (Dec False 10005000000 (- 8))
     = Inr (Dec False 9995002498750624687656171914 (- 26))"
proof -
  have "dmax (sub28 (Dec False 99990000000 (- 8)) dzero) dzero = Dec False 99990000000 (- 8)"
    "dmax (sub28 (sub28 (Dec False 1000000000000 (- 8)) dzero) dzero) dzero = Dec False 1000000000000 (- 8)"
    "dmax (sub28 (sub28 (Dec False 1000000000000 (- 8)) (Dec False 0 (- 8))) dzero) dzero
       = Dec False 1000000000000 (- 8)"
    by (simp_all add: dsub_def dadd_def dfix_small default_prec_def dscale_def dsigned_def
        copy_negate_def dmax_def dless_def)
  then show
    "room_over (sub28 (Dec False 99990000000 (- 8)) dzero) (Dec False 10025010000 (- 8))
       = Inr (Dec False 9974054888723303019149108081 (- 27))"
    "room_over (sub28 (sub28 (Dec False 1000000000000 (- 8)) dzero) dzero) (Dec False 10025010000 (- 8))
       = Inr (Dec False 9975052393962699289078015882 (- 26))"
    "room_over (sub28 (sub28 (Dec False 1000000000000 (- 8)) dzero) dzero) (Dec False 10005000000 (- 8))
       = Inr (Dec False 9995002498750624687656171914 (- 26))"
    "room_over (sub28 (sub28 (Dec False 1000000000000 (- 8)) (Dec False 0 (- 8))) dzero)
       (Dec False 10005000000 (- 8)) = Inr (Dec False 9995002498750624687656171914 (- 26))"
    by (simp_all only: room_over_def div28_def demo_quotients map_err_simps)
qed

lemma demo_fillable:
  assumes "em_policy m = demo_policy" "em_microstructure m = demo_micro" "em_risk_limits m = demo_limits"
    "em_cash m = Dec False 100000000000 (- 8)" "em_lots m = []" "em_orders m = [(uuid_text 170, demo_order)]"
  shows "fillable_quantity m demo_order (Dec False 10005000000 (- 8)) (Dec False 20 (- 1)) = Inr (Dec False 2 0)"
proof -
  have e: "position_exposure m = dzero" by (simp add: position_exposure_def assms(5))
  have alone: "reserved_cash (uuid_text 170) m = dzero" "reserved_notional (uuid_text 170) m = dzero"
    "instrument_reserved_notional i (uuid_text 170) m = dzero" for i
    using demo_alone [OF assms(6)] by simp_all
  have caps: "buy_caps m demo_order (Dec False 10005000000 (- 8)) = Inr
     [Dec False 2 0, Dec False 9974054888723303019149108081 (- 27), Dec False 9975052393962699289078015882 (- 26),
      Dec False 9995002498750624687656171914 (- 26), Dec False 9995002498750624687656171914 (- 26)]"
    by (simp add: assms(1,3) buy_caps_def own_position_cap_def e alone demo_power [OF assms(4,2)]
        demo_position [OF assms(5)] demo_rooms demo_amounts Let_def cong: ebind_weak_cong)
  have min: "dmin_list (Dec False 20 (- 1)) [Dec False 2 0, Dec False 9974054888723303019149108081 (- 27), Dec False 9975052393962699289078015882 (- 26),
      Dec False 9995002498750624687656171914 (- 26), Dec False 9995002498750624687656171914 (- 26)] = Dec False 20 (- 1)"
    by (simp add: dec_eval)
  have "floor_to_quantum (Dec False 20 (- 1)) done1 = Inr (Dec False 2 0)"
    by (simp add: floor_to_quantum_def money_eval dec_eval ddiv_power_of_ten [unfolded One_nat_def]
        del: ddiv_def cong: ebind_weak_cong)
  moreover have "qquantity (Dec False 2 0) False = Inr (Dec False 2 0)"
    by (simp add: money_eval dec_eval cong: ebind_weak_cong)
  ultimately show ?thesis by (simp add: fillable_quantity_def caps min del: dmin_list.simps cong: ebind_weak_cong)
qed

definition demo_fill :: fill where
  "demo_fill = \<lparr>fl_fill_id = uuid_text 49, fl_order_id = uuid_text 170,
     fl_instrument_id = uuid_text 187, fl_side = BUY, fl_quantity = Dec False 2 0,
     fl_base_price = Dec False 10000000000 (- 8), fl_price = Dec False 10005000000 (- 8),
     fl_gross_amount = Dec False 20010000000 (- 8), fl_slippage_amount = Dec False 10000000 (- 8),
     fl_fee = Dec False 40020000 (- 8), fl_cost_basis = Dec False 20010000000 (- 8),
     fl_realized_pnl = Dec False 0 (- 8), fl_occurred_at = 60000010,
     fl_ledger_transaction_id = uuid_text 49\<rparr>"


lemma last_uuid_text: "last (uuid_text n) = hex_char (n mod 16)"
proof -
  have "hex_str 32 n = hex_str 31 (n div 16) @ [hex_char (n mod 16)]"
    using hex_str.simps(2) [of 31 n] by simp
  then show ?thesis by (simp add: uuid_text_def Let_def)
qed

lemma uuid_text_not_Nil: "uuid_text n \<noteq> []"
  by (simp add: uuid_text_def Let_def)

lemma of_char_digit: "k < 10 \<Longrightarrow> of_char (digit_char k) = (48 + k :: nat)"
  by (simp add: digit_char_def)

lemma last_nat_str: "last (nat_str n) = digit_char (n mod 10)"
  by (subst nat_str.simps) simp

lemma demo_names:
  "demo_uuid5 (fill_name oid (Suc 0)) = uuid_text 49"
  "demo_uuid5 (ledger_name (uuid_text 49)) = uuid_text 49"
  "demo_uuid5 (entry_name oid k) = uuid_text (48 + k mod 10)"
  using uuid_text_not_Nil [of 49]
  by (simp_all add: demo_uuid5_def fill_name_def ledger_name_def entry_name_def last_uuid_text
      last_nat_str of_char_digit hex_char_def)

definition demo_filled_order :: order_state where
  "demo_filled_order = release_reservation (demo_order\<lparr>os_fill_sequence := 1,
     os_filled_quantity := Dec False 2 0, os_remaining_quantity := Some dzero, os_status := FILLED\<rparr>)"

definition demo_entries :: "ledger_entry list" where
  "demo_entries =
    [\<lparr>le_entry_id = uuid_text 49, le_account_code = SECURITY, le_direction = DEBIT,
       le_amount = Dec False 20010000000 (- 8), le_source_event_id = uuid_text 49\<rparr>,
     \<lparr>le_entry_id = uuid_text 50, le_account_code = FEE_EXPENSE, le_direction = DEBIT,
       le_amount = Dec False 40020000 (- 8), le_source_event_id = uuid_text 49\<rparr>,
     \<lparr>le_entry_id = uuid_text 51, le_account_code = CASH, le_direction = CREDIT,
       le_amount = Dec False 20050020000 (- 8), le_source_event_id = uuid_text 49\<rparr>]"

definition demo_filled :: exec_model where
  "demo_filled = demo_open\<lparr>em_orders := [(uuid_text 170, demo_filled_order)], em_open_order_ids := {},
     em_now := Some 10, em_cash := Dec False 79949980000 (- 8),
     em_lots := [(uuid_text 187, [\<lparr>lot_quantity = Dec False 2 0, lot_cost_basis = Dec False 20010000000 (- 8)\<rparr>])],
     em_fills := [demo_fill],
     em_ledger := [\<lparr>lx_transaction_id = uuid_text 49, lx_source_event_id = uuid_text 49,
       lx_posted_at = 60000010, lx_entries = demo_entries\<rparr>]\<rparr>"

lemma demo_buy_entries:
  "buy_entries demo_uuid5 (uuid_text 49) (Dec False 20010000000 (- 8)) (Dec False 40020000 (- 8)) = Inr demo_entries"
proof -
  have nz: "deq (Dec False 20010000000 (- 8)) dzero = False" "deq (Dec False 40020000 (- 8)) dzero = False"
    "deq (Dec False 20050020000 (- 8)) dzero = False" by (simp_all add: dec_eval)
  have ok: "ledger_entry_new \<lparr>le_entry_id = uuid_text i, le_account_code = a, le_direction = d,
       le_amount = Dec False c (- 8), le_source_event_id = uuid_text j\<rparr> = Inr \<lparr>le_entry_id = uuid_text i, le_account_code = a, le_direction = d,
       le_amount = Dec False c (- 8), le_source_event_id = uuid_text j\<rparr>"
    if "i < 2 ^ 128" "j < 2 ^ 128" "0 < c" for i j c a d
    using that by (simp add: ledger_entry_new_def exec_uuid_def uuid_parse_uuid_text exec_positive_def
        assert_quantized_money_def MONEY_SCALE_def dle_def dscale_def dsigned_def)
  show ?thesis
    by (simp add: buy_entries_def entries_def demo_amounts nz demo_names ok demo_entries_def cong: ebind_weak_cong)
qed

lemma demo_transaction:
  "ledger_transaction_new \<lparr>lx_transaction_id = uuid_text 49, lx_source_event_id = uuid_text 49,
       lx_posted_at = t, lx_entries = demo_entries\<rparr> = Inr \<lparr>lx_transaction_id = uuid_text 49, lx_source_event_id = uuid_text 49,
       lx_posted_at = t, lx_entries = demo_entries\<rparr>"
proof -
  have "deq (entry_total DEBIT demo_entries) (entry_total CREDIT demo_entries)"
    by (simp add: entry_total_def demo_entries_def dec_eval)
  then show ?thesis
    by (simp add: ledger_transaction_new_def exec_uuid_def demo_entries_def demo_ids)
qed

lemma demo_process: "process_bar demo_uuid5 demo_bar demo_open = Inr ([demo_fill], demo_filled)"
proof -
  let ?m = "demo_open\<lparr>em_now := Some 10\<rparr>"
  have adv: "advance_to_bar demo_bar demo_open = Inr (?m, [])"
    by (simp add: advance_to_bar_def advance_time_clock advance_clock_def open_states_def demo_open_def)
  have el: "eligible_states ?m demo_bar = [demo_order]"
    by (simp add: eligible_states_def open_states_def demo_open_def)
  have put: "put_state demo_order ?m = ?m" by (simp add: put_state_def demo_open_def)
  have bp: "base_price demo_order demo_bar = Inr (demo_order, Some (Dec False 100 0))"
    by (simp add: base_price_def limit_base_def demo_bar_def dec_eval)
  have q: "fillable_quantity ?m demo_order (Dec False 10005000000 (- 8)) (Dec False 20 (- 1)) = Inr (Dec False 2 0)"
    by (rule demo_fillable) (simp_all add: demo_open_def)
  have pos: "dle (Dec False 20 (- 1)) dzero = False" "dle (Dec False 2 0) dzero = False" "deq dzero dzero"
    by (simp_all add: dec_eval)
  have rec: "record_fill demo_uuid5 demo_order 60000010 (Dec False 2 0) (Dec False 10000000000 (- 8))
      (Dec False 10005000000 (- 8)) ?m = Inr (demo_fill, demo_filled)"
    by (simp add: record_fill_def demo_names demo_amounts demo_buy_entries demo_transaction settle_def
        advance_remainder_def pos Let_def demo_open_def cong: ebind_weak_cong)
      (simp add: demo_filled_def demo_open_def demo_fill_def demo_filled_order_def put_state_def close_order_def
        lots_of_def release_reservation_def)
  have cfg: "em_microstructure demo_open = demo_micro" "em_policy demo_open = demo_policy"
    by (simp_all add: demo_open_def)
  show ?thesis
    by (simp add: process_bar_def adv el demo_capacity bp put demo_amounts demo_execution_price q pos rec
        cfg cong: ebind_weak_cong)
qed
end
