(* ===== verification/Exec_Safety.thy ===== *)
theory Exec_Safety
  imports Exec_Examples
begin

text \<open>
  Safety of the execution model: open orders and expiry, the origin of every fill (no
  look-ahead, a price the market traded at, the protection of a limit), and the share of a
  bar's volume that fills may take. Each property is stated over the public operations and
  applied to the concrete account of the examples.
\<close>

section \<open>Open orders\<close>

lemma open_states_iff:
  assumes "book_ok m"
  shows "s \<in> set (open_states m) \<longleftrightarrow> map_of (em_orders m) (os_id s) = Some s \<and> is_open s"
proof
  assume "s \<in> set (open_states m)"
  then show "map_of (em_orders m) (os_id s) = Some s \<and> is_open s"
    using current_open_states [OF assms] by (simp add: current_def)
next
  assume s: "map_of (em_orders m) (os_id s) = Some s \<and> is_open s"
  then have "os_id s \<in> em_open_order_ids m" using book_ok_open [OF assms] by blast
  moreover have "(os_id s, s) \<in> set (em_orders m)" using s map_of_SomeD by metis
  ultimately show "s \<in> set (open_states m)" by (force simp: open_states_def)
qed

lemma find_by_id:
  assumes "current m ss"
  shows "find (\<lambda>s. os_id s = k) ss = Some s \<longleftrightarrow> s \<in> set ss \<and> os_id s = k"
proof -
  have "distinct (map os_id ss)" using assms by (simp add: current_def)
  then show ?thesis by (induction ss) auto
qed

text \<open>The record of any order after the clock has been advanced.\<close>

lemma advance_clock_orders:
  assumes ok: "book_ok m" and adv: "advance_clock now m = Inr (m', out)"
  shows "map_of (em_orders m') k =
    (case map_of (em_orders m) k of
       None \<Rightarrow> None
     | Some s \<Rightarrow> Some (if is_open s then after_expiry now s else s))"
proof -
  let ?ss = "sort_key order_key (open_states m)"
  have cur: "current (m\<lparr>em_now := Some now\<rparr>) ?ss"
    using current_sorted [OF ok] by (simp add: current_def)
  have f: "find (\<lambda>s. os_id s = k) ?ss = Some s \<longleftrightarrow> map_of (em_orders m) k = Some s \<and> is_open s" for s
    using find_by_id [OF current_sorted [OF ok]] open_states_iff [OF ok, of s] ok
    unfolding book_ok_def by auto
  have m': "map_of (em_orders m') k = (case find (\<lambda>s. os_id s = k) ?ss of
      None \<Rightarrow> map_of (em_orders m) k | Some s \<Rightarrow> Some (after_expiry now s))"
    unfolding advance_clock_inv(1) [OF adv] by (subst expire_loop_orders [OF cur]) (simp cong: option.case_cong)
  show ?thesis
  proof (cases "find (\<lambda>s. os_id s = k) ?ss")
    case None
    then have "\<not> (\<exists>s. map_of (em_orders m) k = Some s \<and> is_open s)" using f by force
    with None m' show ?thesis by (auto split: option.splits)
  next
    case (Some s)
    with f [of s] m' show ?thesis by simp
  qed
qed

lemma advance_clock_open:
  assumes "book_ok m" "advance_clock now m = Inr (m', out)"
  shows "set (open_states m') = {s \<in> set (open_states m). now < os_expires_at s}"
proof -
  have ok': "book_ok m'"
    using epostD [OF advance_clock_book assms(2)] assms(1) by (simp add: book_step_def)
  show ?thesis
    using advance_clock_orders [OF assms] expired_state_closed(2)
    by (auto simp: open_states_iff [OF ok'] open_states_iff [OF assms(1)] after_expiry_def
        split: option.splits if_splits)
qed

lemma advance_to_bar_open:
  assumes "book_ok m" "advance_to_bar b m = Inr (m1, out)"
  shows "set (open_states m1) \<subseteq> set (open_states m)"
    "\<forall>s\<in>set (open_states m1). em_now m1 = Some (bar_starts_at b) \<longrightarrow> bar_starts_at b < os_expires_at s \<or> m1 = m"
proof -
  from assms(2) consider "m1 = m" | "advance_clock (bar_starts_at b) m = Inr (m1, out)"
    by (auto simp: advance_to_bar_def advance_time_clock err_simps split: option.splits if_splits)
  then show "set (open_states m1) \<subseteq> set (open_states m)"
    "\<forall>s\<in>set (open_states m1). em_now m1 = Some (bar_starts_at b) \<longrightarrow> bar_starts_at b < os_expires_at s \<or> m1 = m"
    using advance_clock_open [OF assms(1)] by (cases; auto)+
qed

section \<open>Where a fill comes from\<close>

definition fill_origin :: "execution_policy \<Rightarrow> bar \<Rightarrow> order_state \<Rightarrow> fill \<Rightarrow> bool" where
  "fill_origin pol b s f \<longleftrightarrow>
     fl_order_id f = os_id s \<and> fl_instrument_id f = or_instrument_id (os_request s) \<and>
     fl_side f = or_side (os_request s) \<and> fl_occurred_at f = bar_ends_at b \<and>
     0 < dval (fl_quantity f) \<and>
     (\<exists>s' quoted m. base_price s b = Inr (s', Some quoted) \<and>
        qmoney quoted = Inr (fl_base_price f) \<and> em_policy m = pol \<and>
        execution_price m (os_request s) (fl_base_price f) = Inr (fl_price f))"

lemma record_fill_fields:
  assumes "record_fill u s t q base price m = Inr (f, m')"
  shows "fl_order_id f = os_id s" "fl_instrument_id f = or_instrument_id (os_request s)"
    "fl_side f = or_side (os_request s)" "fl_occurred_at f = t" "fl_quantity f = q"
    "fl_base_price f = base" "fl_price f = price"
  using assms by (auto elim!: record_fill_inv)

lemma fill_loop_origin:
  assumes "fill_loop u b ss cap m = Inr (fs, m')"
  shows "\<forall>f\<in>set fs. \<exists>s\<in>set ss. fill_origin (em_policy m) b s f"
proof (rule fill_loop_rule [where
      R = "\<lambda>_ _ fs _. \<forall>f\<in>set fs. \<exists>s\<in>set ss. fill_origin (em_policy m) b s f" and
      I = "\<lambda>ts _ m'. set ts \<subseteq> set ss \<and> em_policy m' = em_policy m", OF assms])
  fix s ts cap n s' quoted base price q f m2
  assume i: "set (s # ts) \<subseteq> set ss \<and> em_policy n = em_policy m"
    and calls: "base_price s b = Inr (s', Some quoted)" "qmoney quoted = Inr base"
      "execution_price (put_state s' n) (os_request s') base = Inr price" "0 < dval q"
    and rec: "record_fill u s' (bar_ends_at b) q base price (put_state s' n) = Inr (f, m2)"
  have req: "os_request s' = os_request s"
    using epostD [OF base_price_same calls(1)] by (simp add: same_order_def)
  have "fill_origin (em_policy m) b s f"
    unfolding fill_origin_def record_fill_fields [OF rec] req
    using calls i req by (auto intro!: exI [of _ "put_state s' n"])
  moreover have "em_policy m2 = em_policy m"
    using record_fill_book(2) [OF rec] i by (simp add: same_config_def)
  ultimately show "(set ts \<subseteq> set ss \<and> em_policy m2 = em_policy m) \<and>
    (\<forall>fs m'. (\<forall>f\<in>set fs. \<exists>s\<in>set ss. fill_origin (em_policy m) b s f) \<longrightarrow>
      (\<forall>f\<in>set (f # fs). \<exists>s\<in>set ss. fill_origin (em_policy m) b s f))"
    using i by auto
qed auto

lemma process_bar_origin:
  assumes ok: "book_ok m" and run: "process_bar u b m = Inr (fs, m')" and f: "f \<in> set fs"
  shows "\<exists>s. map_of (em_orders m) (fl_order_id f) = Some s \<and> is_open s \<and>
     or_instrument_id (os_request s) = bar_instrument_id b \<and>
     or_eligible_at (os_request s) \<le> bar_starts_at b \<and> bar_complete b \<and>
     fill_origin (em_policy m) b s f"
proof -
  from run obtain m1 out where m1: "advance_to_bar b m = Inr (m1, out)"
    by (auto simp: process_bar_def err_simps)
  with run f obtain cap where fl: "fill_loop u b (eligible_states m1 b) cap m1 = Inr (fs, m')"
    and c: "bar_complete b"
    by (auto simp: process_bar_def err_simps split: if_splits)
  have pol: "em_policy m1 = em_policy m"
    using epostD [OF advance_to_bar_book m1] by (simp add: book_step_def same_config_def)
  from fill_loop_origin [OF fl] f obtain s where s: "s \<in> set (eligible_states m1 b)"
    and o: "fill_origin (em_policy m) b s f" unfolding pol by blast
  have "s \<in> set (open_states m)"
    using s advance_to_bar_open(1) [OF ok m1] by (auto simp: eligible_states_def)
  then have "map_of (em_orders m) (os_id s) = Some s \<and> is_open s"
    by (simp add: open_states_iff [OF ok])
  moreover have "fl_order_id f = os_id s" using o by (simp add: fill_origin_def)
  ultimately show ?thesis using s o c by (auto simp: eligible_states_def)
qed

section \<open>Prices\<close>

text \<open>What the bar's constructor checks of its prices.\<close>

definition bar_ok :: "bar \<Rightarrow> bool" where
  "bar_ok b \<longleftrightarrow> dval (bar_low b) \<le> dval (bar_open b) \<and> dval (bar_open b) \<le> dval (bar_high b)"

lemma execution_bar_new_ok: "epost (execution_bar_new d) bar_ok"
  unfolding execution_bar_new_def
  by (intro epost_rules) (auto simp: bar_ok_def dec_simps)

lemma limit_base_range:
  "bar_ok b \<Longrightarrow> limit_base side l b = Some q \<Longrightarrow> dval (bar_low b) \<le> dval q \<and> dval q \<le> dval (bar_high b)"
  by (cases side) (auto simp: limit_base_def bar_ok_def dec_simps split: if_splits)

lemma stop_base_range:
  "bar_ok b \<Longrightarrow> stop_base side p b = Some q \<Longrightarrow> dval (bar_low b) \<le> dval q \<and> dval q \<le> dval (bar_high b)"
  by (cases side) (auto simp: stop_base_def bar_ok_def dec_simps split: if_splits)

lemma base_price_range:
  assumes "bar_ok b" "base_price s b = Inr (s', Some q)"
  shows "dval (bar_low b) \<le> dval q \<and> dval q \<le> dval (bar_high b)"
proof (cases "or_order_type (os_request s)")
  case MARKET
  with assms show ?thesis by (auto simp: base_price_def bar_ok_def)
next
  case LIMIT
  with assms show ?thesis using limit_base_range by (auto simp: base_price_def err_simps)
next
  case STOP
  with assms show ?thesis using stop_base_range by (auto simp: base_price_def err_simps)
next
  case STOP_LIMIT
  with assms show ?thesis
    using stop_base_range limit_base_range
    by (auto simp: base_price_def stop_limit_base_def err_simps
        split: if_splits option.splits order_side.splits)
next
  case TRAILING_STOP
  with assms show ?thesis
    by (cases "or_side (os_request s)")
      (auto simp: base_price_def trailing_base_def err_simps bar_ok_def dec_simps split: if_splits)
qed

lemma execution_price_limit:
  assumes "execution_price m r base = Inr price" "or_limit_price r = Some l"
  shows "or_side r = BUY \<Longrightarrow> dval price \<le> dval l \<or> qmoney l = Inr price"
    "or_side r = SELL \<Longrightarrow> dval l \<le> dval price \<or> qmoney l = Inr price"
  using assms by (auto simp: execution_price_def err_simps dec_simps split: if_splits)

text \<open>How far a quantized price can leave a bound: half a unit of the eighth decimal, or nothing
  when the bound itself has at most eight decimals.\<close>

lemma qmoney_within:
  assumes "qmoney a = Inr q"
  shows "dval l \<le> dval a \<Longrightarrow> dval l - 1 / (2 * 10 ^ 8) \<le> dval q \<and> (fine l \<longrightarrow> dval l \<le> dval q)"
    "dval a \<le> dval h \<Longrightarrow> dval q \<le> dval h + 1 / (2 * 10 ^ 8) \<and> (fine h \<longrightarrow> dval q \<le> dval h)"
proof -
  have near: "dval a - 1 / (2 * 10 ^ 8) \<le> dval q" "dval q \<le> dval a + 1 / (2 * 10 ^ 8)"
    using qmoney_Inr(2) [OF assms] unfolding abs_le_iff by linarith+
  show "dval l - 1 / (2 * 10 ^ 8) \<le> dval q \<and> (fine l \<longrightarrow> dval l \<le> dval q)" if "dval l \<le> dval a"
    using that near(1) qmoney_ge_grid [OF assms that fine_on_grid [of l]] by (intro conjI impI) linarith+
  show "dval q \<le> dval h + 1 / (2 * 10 ^ 8) \<and> (fine h \<longrightarrow> dval q \<le> dval h)" if "dval a \<le> dval h"
    using that near(2) qmoney_le_grid [OF assms that fine_on_grid [of h]] by (intro conjI impI) linarith+
qed

text \<open>The identifiers and the open set after an expiry pass.\<close>

lemma expire_loop_open_ids:
  "em_open_order_ids (fst (expire_loop now ss m)) =
     em_open_order_ids m - os_id ` set (filter (\<lambda>s. os_expires_at s \<le> now) ss)"
  by (induction ss arbitrary: m)
    (auto simp: expire_loop_Cons close_order_def put_state_def simp del: expire_loop.simps(2))

lemma expire_loop_keys:
  "current m ss \<Longrightarrow> map fst (em_orders (fst (expire_loop now ss m))) = map fst (em_orders m)"
proof (induction ss arbitrary: m)
  case (Cons s ss)
  let ?m = "close_order (os_id s) (put_state (expired_state s) m)"
  have cur: "current ?m ss" "current m ss"
    using Cons.prems current_tail [OF Cons.prems expire_moves] by (auto simp: current_def)
  have "os_id s \<in> fst ` set (em_orders m)"
    using Cons.prems by (force simp: current_def dest: map_of_SomeD)
  then have "map fst (em_orders ?m) = map fst (em_orders m)" by (simp add: close_order_def put_state_def)
  with Cons.IH [OF cur(1)] Cons.IH [OF cur(2)] show ?case
    by (simp add: expire_loop_Cons del: expire_loop.simps(2))
qed simp

section \<open>Properties\<close>

lemma demo_reachable: "reachable u demo_model" "reachable u demo_open" "reachable demo_uuid5 demo_filled"
proof -
  show m: "reachable u demo_model" for u by (rule reach_new [OF demo_model_new])
  show o: "reachable u demo_open" for u by (rule reach_step [OF m step_submit [OF demo_submit]])
  show "reachable demo_uuid5 demo_filled" by (rule reach_step [OF o step_bar [OF demo_process]])
qed

text \<open>
  C1. In every reachable state of the engine the set of open identifiers is exactly the set
  of orders whose status is ACCEPTED or PARTIALLY_FILLED, and every order is stored under
  its own identifier.
\<close>

theorem open_ids_match_status:
  assumes "reachable u m"
  shows "(k \<in> em_open_order_ids m \<longleftrightarrow> (\<exists>s. map_of (em_orders m) k = Some s \<and> is_open s)) \<and>
    (\<forall>s. map_of (em_orders m) k = Some s \<longrightarrow> os_id s = k)"
  using reachable_book_ok [OF assms] unfolding book_ok_def by blast

theorem open_ids_match_status_witness:
  "uuid_text 170 \<in> em_open_order_ids demo_open \<and> is_open demo_order \<and> os_id demo_order = uuid_text 170"
proof -
  have s: "map_of (em_orders demo_open) (uuid_text 170) = Some demo_order" by (simp add: demo_open_def)
  have "is_open demo_order" by (simp add: is_open_def)
  with s open_ids_match_status [OF demo_reachable(2), of "uuid_text 170"] show ?thesis by auto
qed

text \<open>
  C14. Whatever operations follow, an order keeps its identifier, its request and its expiry,
  and an order that is FILLED, CANCELLED, EXPIRED or REJECTED never changes again.
\<close>

theorem terminal_orders_are_frozen:
  assumes "reachable u m" "(engine_step u)\<^sup>*\<^sup>* m m'" "map_of (em_orders m) k = Some s"
  shows "\<exists>s'. map_of (em_orders m') k = Some s' \<and> os_request s' = os_request s \<and>
    os_expires_at s' = os_expires_at s \<and>
    (os_status s \<notin> {ACCEPTED, PARTIALLY_FILLED} \<longrightarrow> s' = s)"
  using steps_evolve [OF assms(2) reachable_book_ok [OF assms(1)]] assms(3)
  unfolding evolves_def same_order_def is_open_def by blast

theorem terminal_orders_are_frozen_witness:
  "\<exists>m'. engine_step demo_uuid5 demo_filled m' \<and> em_now m' = Some 1000 \<and>
     map_of (em_orders m') (uuid_text 170) = Some demo_filled_order"
proof -
  let ?m = "fst (expire_loop 1000 (sort_key order_key (open_states demo_filled)) (demo_filled\<lparr>em_now := Some 1000\<rparr>))"
  have "advance_time (Aware 1000) demo_filled
      = Inr (?m, snd (expire_loop 1000 (sort_key order_key (open_states demo_filled)) (demo_filled\<lparr>em_now := Some 1000\<rparr>)))"
    by (simp add: advance_time_clock advance_clock_def) (simp add: demo_filled_def)
  then have step: "engine_step demo_uuid5 demo_filled ?m" by (rule step_advance)
  have o: "map_of (em_orders demo_filled) (uuid_text 170) = Some demo_filled_order"
    by (simp add: demo_filled_def)
  have "os_status demo_filled_order = FILLED"
    by (simp add: demo_filled_order_def release_reservation_def)
  with terminal_orders_are_frozen [OF demo_reachable(3) r_into_rtranclp [of "engine_step demo_uuid5", OF step] o]
  have "map_of (em_orders ?m) (uuid_text 170) = Some demo_filled_order" by auto
  with step show ?thesis by (intro exI [of _ ?m]) (simp add: expire_loop_fields)
qed

text \<open>
  C16. Advancing the clock expires exactly the open orders whose expiry has been reached. Each of
  them becomes EXPIRED with the reason of its time in force and no reservation left and leaves
  the set of open identifiers; every other order, cash, positions, fills, ledger and
  configuration stay as they were; the call returns the views of exactly the expired orders, in
  the engine's processing order.
\<close>

theorem advance_time_expires:
  assumes "reachable u m" "advance_time (Aware now) m = Inr (m', out)"
  defines "expired \<equiv> \<lambda>s. s\<lparr>os_status := EXPIRED,
      os_reason_code := Some (expiry_reason (or_time_in_force (os_request s))),
      os_reserved_cash := dzero, os_reserved_notional := dzero, os_reserved_quantity := dzero\<rparr>"
  shows "m' = m\<lparr>em_now := Some now, em_orders := em_orders m',
      em_open_order_ids := {k \<in> em_open_order_ids m. \<forall>s. map_of (em_orders m) k = Some s \<longrightarrow> now < os_expires_at s}\<rparr> \<and>
    map fst (em_orders m') = map fst (em_orders m) \<and>
    (\<forall>k. map_of (em_orders m') k =
      map_option (\<lambda>s. if is_open s \<and> os_expires_at s \<le> now then expired s else s) (map_of (em_orders m) k)) \<and>
    out = map (\<lambda>s. order_view (expired s))
      (filter (\<lambda>s. os_expires_at s \<le> now) (sort_key order_key (open_states m)))"
proof -
  have ok: "book_ok m" by (rule reachable_book_ok [OF assms(1)])
  have adv: "advance_clock now m = Inr (m', out)" using assms(2) by (simp add: advance_time_clock)
  let ?ss = "sort_key order_key (open_states m)"
  have cur: "current (m\<lparr>em_now := Some now\<rparr>) ?ss"
    using current_sorted [OF ok] by (simp add: current_def)
  have e: "expired_state s = expired s" for s by (simp add: expired_def expired_state_def release_reservation_def)
  have ids: "em_open_order_ids m' =
      {k \<in> em_open_order_ids m. \<forall>s. map_of (em_orders m) k = Some s \<longrightarrow> now < os_expires_at s}"
  proof -
    have id: "map_of (em_orders m) k = Some s \<Longrightarrow> os_id s = k" for k s
      using ok unfolding book_ok_def by blast
    have "s \<in> set (open_states m) \<longleftrightarrow> map_of (em_orders m) (os_id s) = Some s \<and> is_open s" for s
      by (rule open_states_iff [OF ok])
    then have "os_id ` set (filter (\<lambda>s. os_expires_at s \<le> now) ?ss) =
        {k. \<exists>s. map_of (em_orders m) k = Some s \<and> is_open s \<and> os_expires_at s \<le> now}"
      using id by (auto simp: image_iff)
    moreover have "k \<in> em_open_order_ids m \<longleftrightarrow> (\<exists>s. map_of (em_orders m) k = Some s \<and> is_open s)" for k
      using ok unfolding book_ok_def by blast
    ultimately show ?thesis
      unfolding advance_clock_inv(1) [OF adv] expire_loop_open_ids by (auto simp: not_le)
  qed
  have "m' = m\<lparr>em_now := Some now, em_orders := em_orders m', em_open_order_ids := em_open_order_ids m'\<rparr>"
    unfolding advance_clock_inv(1) [OF adv] by (rule exec_model.equality) (simp_all add: expire_loop_fields)
  moreover have "map fst (em_orders m') = map fst (em_orders m)"
    unfolding advance_clock_inv(1) [OF adv] using expire_loop_keys [OF cur] by simp
  moreover have "map_of (em_orders m') k =
      map_option (\<lambda>s. if is_open s \<and> os_expires_at s \<le> now then expired s else s) (map_of (em_orders m) k)" for k
    using advance_clock_orders [OF ok adv, of k]
    by (auto simp: after_expiry_def e split: option.splits)
  moreover have "out = map (\<lambda>s. order_view (expired s)) (filter (\<lambda>s. os_expires_at s \<le> now) ?ss)"
    unfolding advance_clock_inv(2) [OF adv] expire_loop_out by (simp add: e)
  ultimately show ?thesis unfolding ids by blast
qed

theorem advance_time_expires_witness:
  "\<exists>m' out. advance_time (Aware 500) demo_open = Inr (m', out) \<and>
     map_of (em_orders m') (uuid_text 170) =
       Some (demo_order\<lparr>os_status := EXPIRED, os_reason_code := Some ''DAY_EXPIRED'',
         os_reserved_cash := dzero, os_reserved_notional := dzero, os_reserved_quantity := dzero\<rparr>) \<and>
     em_open_order_ids m' = {} \<and> em_fills m' = em_fills demo_open \<and> length out = 1"
proof -
  obtain m' out where adv: "advance_time (Aware 500) demo_open = Inr (m', out)"
    by (cases "expire_loop 500 (sort_key order_key (open_states demo_open)) (demo_open\<lparr>em_now := Some 500\<rparr>)")
      (simp add: advance_time_clock advance_clock_def, simp add: demo_open_def)
  note all = advance_time_expires [OF demo_reachable(2) adv]
  have "em_open_order_ids m' = {} \<and> em_fills m' = em_fills demo_open"
    using arg_cong [OF conjunct1 [OF all], of em_open_order_ids] arg_cong [OF conjunct1 [OF all], of em_fills]
    by (auto simp: demo_open_def)
  moreover have "length out = 1" using all by (simp add: demo_open_def open_states_def)
  ultimately show ?thesis using all adv by (simp add: demo_open_def is_open_def)
qed

text \<open>
  C2. No look-ahead: a fill of a bar belongs to an order that was open before the bar, on the
  bar's instrument, eligible no later than the bar's start; the bar is complete, the fill is
  stamped with the bar's end, and its quantity is positive.
\<close>

theorem fills_never_look_ahead:
  assumes "reachable u m" "process_bar u b m = Inr (fs, m')" "f \<in> set fs"
  shows "\<exists>s. map_of (em_orders m) (fl_order_id f) = Some s \<and> is_open s \<and>
     or_instrument_id (os_request s) = bar_instrument_id b \<and> fl_instrument_id f = bar_instrument_id b \<and>
     or_eligible_at (os_request s) \<le> bar_starts_at b \<and> bar_complete b \<and>
     fl_occurred_at f = bar_ends_at b \<and> fl_side f = or_side (os_request s) \<and> 0 < dval (fl_quantity f)"
  using process_bar_origin [OF reachable_book_ok [OF assms(1)] assms(2,3)]
  unfolding fill_origin_def by auto

theorem fills_never_look_ahead_witness:
  "\<exists>s. map_of (em_orders demo_open) (fl_order_id demo_fill) = Some s \<and> is_open s \<and>
     or_instrument_id (os_request s) = bar_instrument_id demo_bar \<and>
     fl_instrument_id demo_fill = bar_instrument_id demo_bar \<and>
     or_eligible_at (os_request s) \<le> bar_starts_at demo_bar \<and> bar_complete demo_bar \<and>
     fl_occurred_at demo_fill = bar_ends_at demo_bar \<and> fl_side demo_fill = or_side (os_request s) \<and>
     0 < dval (fl_quantity demo_fill)"
  by (rule fills_never_look_ahead [OF demo_reachable(2) demo_process]) simp

text \<open>
  C15. Prices stay where the bar and the order put them. Whatever the order's type and however many
  decimals the bar's prices carry, the base price of a fill is at most half a unit of the eighth
  decimal below the bar's low or above its high, and not at all where that price has at most eight
  decimals; the same holds of the fill price after slippage and the order's limit.
\<close>

theorem fill_price_is_protected:
  assumes "reachable u m" "process_bar u b m = Inr (fs, m')" "f \<in> set fs" "execution_bar_new d = Inr b"
  shows "dval (bar_low b) - 1 / (2 * 10 ^ 8) \<le> dval (fl_base_price f) \<and>
    (fine (bar_low b) \<longrightarrow> dval (bar_low b) \<le> dval (fl_base_price f)) \<and>
    dval (fl_base_price f) \<le> dval (bar_high b) + 1 / (2 * 10 ^ 8) \<and>
    (fine (bar_high b) \<longrightarrow> dval (fl_base_price f) \<le> dval (bar_high b)) \<and>
    (\<exists>s. map_of (em_orders m) (fl_order_id f) = Some s \<and>
      (\<forall>l. or_limit_price (os_request s) = Some l \<longrightarrow>
         (if or_side (os_request s) = BUY
          then dval (fl_price f) \<le> dval l + 1 / (2 * 10 ^ 8) \<and> (fine l \<longrightarrow> dval (fl_price f) \<le> dval l)
          else dval l - 1 / (2 * 10 ^ 8) \<le> dval (fl_price f) \<and> (fine l \<longrightarrow> dval l \<le> dval (fl_price f)))))"
proof -
  obtain s where s: "map_of (em_orders m) (fl_order_id f) = Some s"
    and o: "fill_origin (em_policy m) b s f"
    using process_bar_origin [OF reachable_book_ok [OF assms(1)] assms(2,3)] by blast
  from o obtain s' quoted n where q: "base_price s b = Inr (s', Some quoted)"
    "qmoney quoted = Inr (fl_base_price f)"
    and x: "execution_price n (os_request s) (fl_base_price f) = Inr (fl_price f)"
    unfolding fill_origin_def by blast
  have r: "dval (bar_low b) \<le> dval quoted" "dval quoted \<le> dval (bar_high b)"
    using base_price_range [OF epostD [OF execution_bar_new_ok assms(4)] q(1)] by simp_all
  have lim: "if or_side (os_request s) = BUY
      then dval (fl_price f) \<le> dval l + 1 / (2 * 10 ^ 8) \<and> (fine l \<longrightarrow> dval (fl_price f) \<le> dval l)
      else dval l - 1 / (2 * 10 ^ 8) \<le> dval (fl_price f) \<and> (fine l \<longrightarrow> dval l \<le> dval (fl_price f))"
    if l: "or_limit_price (os_request s) = Some l" for l
  proof (cases "or_side (os_request s)")
    case BUY
    from execution_price_limit(1) [OF x l BUY] show ?thesis
    proof
      assume "dval (fl_price f) \<le> dval l"
      moreover have "(0::rat) \<le> 1 / (2 * 10 ^ 8)" by simp
      ultimately have "dval (fl_price f) \<le> dval l + 1 / (2 * 10 ^ 8)" by linarith
      with \<open>dval (fl_price f) \<le> dval l\<close> BUY show ?thesis by simp
    qed (use BUY qmoney_within(2) [of l "fl_price f" l] in auto)
  next
    case SELL
    from execution_price_limit(2) [OF x l SELL] show ?thesis
    proof
      assume "dval l \<le> dval (fl_price f)"
      moreover have "(0::rat) \<le> 1 / (2 * 10 ^ 8)" by simp
      ultimately have "dval l - 1 / (2 * 10 ^ 8) \<le> dval (fl_price f)" by linarith
      with \<open>dval l \<le> dval (fl_price f)\<close> SELL show ?thesis by simp
    qed (use SELL qmoney_within(1) [of l "fl_price f" l] in auto)
  qed
  show ?thesis
    using s lim qmoney_within(1) [OF q(2) r(1)] qmoney_within(2) [OF q(2) r(2)] by blast
qed

lemma demo_bar_new:
  "execution_bar_new \<lparr>bar_instrument_id = uuid_text 187, bar_starts_at = Aware 10,
     bar_ends_at = Aware 60000010, bar_open = Dec False 100 0, bar_high = Dec False 101 0,
     bar_low = Dec False 99 0, bar_close = Dec False 100 0, bar_volume = Dec False 20 0,
     bar_complete = True, bar_resolution = ''1m'', bar_session_truncated = False\<rparr> = Inr demo_bar"
  by (simp add: execution_bar_new_def exec_uuid_def demo_ids exec_utc_def resolution_period_def
      RESOLUTION_PERIODS_def exec_positive_def exec_non_negative_def demo_bar_def dec_eval)

theorem fill_price_is_protected_witness:
  "dval (bar_low demo_bar) \<le> dval (fl_base_price demo_fill) \<and>
   dval (fl_base_price demo_fill) \<le> dval (bar_high demo_bar) \<and>
   or_limit_price demo_request = Some (Dec False 101 0) \<and> dval (fl_price demo_fill) \<le> dval (Dec False 101 0)"
proof -
  have o: "map_of (em_orders demo_open) (fl_order_id demo_fill) = Some demo_order"
    by (simp add: demo_open_def demo_fill_def)
  have b: "fine (bar_low demo_bar)" "fine (bar_high demo_bar)" "fine (Dec False 101 0)"
    by (simp_all add: demo_bar_def fine_def)
  show ?thesis
    using fill_price_is_protected [OF demo_reachable(2) demo_process _ demo_bar_new] o b by auto
qed

end
