(* ===== verification/Exec_Lots.thy ===== *)
theory Exec_Lots
  imports Exec_Orders Exec_Sizing
begin

text \<open>
  The lots of \<open>execution_model.py\<close>: what FIFO consumption takes from a list of lots, as exact
  rational arithmetic. Consuming a quantity removes exactly that quantity and exactly the
  reported cost basis from the front of the list, and keeps the lots positive.
\<close>

section \<open>Powers of ten bound rounded sums from below\<close>

lemma dfix_ge_power:
  assumes p: "0 < p" and ge: "10 ^ j \<le> dval d"
  shows "10 ^ j \<le> dval (dfix p d)"
proof (cases "ndigits (dcoef d) \<le> p")
  case False
  define n where "n = ndigits (dcoef d)"
  define k where "k = n - p"
  define e where "e = dexp d + int k"
  have nk: "n = p + k" using False by (simp add: k_def n_def)
  have "(0::rat) < 10 ^ j" by simp
  with ge have "0 < dval d" by linarith
  then have pos: "\<not> dneg d" "0 < dcoef d"
    using dval_nonpos [of d] dval_zero_iff [of d] by (auto intro: gr0I)
  have d: "dval d = of_nat (dcoef d) * 10 powi dexp d" using pos by (simp add: dval_def dsigned_def)
  have r: "dval (dfix p d) = of_nat (rescale_coef (dcoef d) (dexp d) e) * 10 powi e"
    using dfix_rescaled [OF p False] pos by (simp add: n_def [symmetric] k_def [symmetric] e_def [symmetric] dval_scaled_Dec)
  have "0 < k" using False by (simp add: k_def n_def)
  then have rc: "rescale_coef (dcoef d) (dexp d) e = div_half_even (dcoef d) (10 ^ k)"
    by (simp add: rescale_coef_def e_def)
  have fl: "dcoef d div 10 ^ k \<le> rescale_coef (dcoef d) (dexp d) e" unfolding rc by (rule div_half_even_ge)
  have low: "10 ^ (p - 1) \<le> dcoef d div 10 ^ k"
  proof -
    have "10 ^ (p - 1) * 10 ^ k \<le> dcoef d"
      using ndigits_lower [OF pos(2)] p nk by (simp add: n_def [symmetric] flip: power_add)
    then show ?thesis by (simp add: less_eq_div_iff_mult_less_eq)
  qed
  show ?thesis
  proof (cases "e \<le> int j")
    case True
    define i where "i = nat (int j - e)"
    have ji: "int j = int i + e" using True by (simp add: i_def)
    have pw: "(10::rat) ^ j = 10 ^ i * 10 powi e"
      using powi10_add [of "int i" e] by (simp flip: ji)
    have "(10::rat) powi e = 10 ^ k * 10 powi dexp d" by (simp add: e_def powi10_add mult.commute)
    with ge d pw have "(10::rat) ^ i * 10 ^ k * 10 powi dexp d \<le> of_nat (dcoef d) * 10 powi dexp d" by simp
    then have "of_nat (10 ^ i * 10 ^ k) \<le> (of_nat (dcoef d) :: rat)" by simp
    then have "10 ^ i * 10 ^ k \<le> dcoef d" by (simp only: of_nat_le_iff)
    then have "10 ^ i \<le> dcoef d div 10 ^ k" by (simp add: less_eq_div_iff_mult_less_eq)
    with fl have "10 ^ i \<le> rescale_coef (dcoef d) (dexp d) e" by linarith
    then have "(of_nat (10 ^ i) :: rat) \<le> of_nat (rescale_coef (dcoef d) (dexp d) e)" by (simp only: of_nat_le_iff)
    then show ?thesis unfolding r pw by simp
  next
    case False
    have "1 \<le> rescale_coef (dcoef d) (dexp d) e"
      using low fl one_le_power [of "10::nat" "p - 1"] by linarith
    then have "(1::rat) * 10 powi e \<le> of_nat (rescale_coef (dcoef d) (dexp d) e) * 10 powi e"
      by (intro mult_right_mono) simp_all
    moreover have "(10::rat) powi int j \<le> 10 powi e" by (rule power_int_increasing) (use False in simp_all)
    ultimately have "(10::rat) powi int j \<le> of_nat (rescale_coef (dcoef d) (dexp d) e) * 10 powi e" by linarith
    then show ?thesis unfolding r by (simp only: power_int_of_nat)
  qed
qed (use ge in simp)

lemma add28_ge_power:
  assumes "10 ^ j \<le> dval a" "0 \<le> dval b"
  shows "10 ^ j \<le> dval (add28 a b)"
  unfolding dadd_dfix
  by (rule dfix_ge_power) (use assms in \<open>simp_all add: default_prec_def dval_dadd_exact\<close>)

text \<open>
  A running sum of quantized non-negative amounts that ends inside the numeric range was
  exact all along.
\<close>

definition exact_or_large :: "decimal \<Rightarrow> rat \<Rightarrow> bool" where
  "exact_or_large d x \<longleftrightarrow> (fine d \<and> dval d = x) \<or> (10 ^ 16 \<le> dval d \<and> 10 ^ 16 \<le> x)"

lemma exact_or_large_add:
  assumes "exact_or_large d x" "0 \<le> x" "is_quantity t" "0 \<le> dval t"
  shows "exact_or_large (add28 d t) (x + dval t)"
proof (cases "fine d \<and> dval d = x \<and> x < 10 ^ 16")
  case True
  then have "is_quantity d" using assms(2) by (simp add: is_quantity_def abs_if)
  from add28_money [OF this assms(3)] True show ?thesis by (simp add: exact_or_large_def)
next
  case False
  then have "10 ^ 16 \<le> dval d" "10 ^ 16 \<le> x" using assms(1) by (auto simp: exact_or_large_def)
  then show ?thesis using add28_ge_power [of 16 d t] assms(4) by (simp add: exact_or_large_def)
qed

lemma exact_or_large_qmoney:
  assumes "exact_or_large d x" "qmoney d = Inr q"
  shows "dval q = x"
proof (cases "fine d \<and> dval d = x")
  case True
  then show ?thesis using qmoney_grid [OF assms(2)] fine_on_grid [of d] by simp
next
  case False
  then have "10 ^ 16 \<le> dval d" using assms(1) by (auto simp: exact_or_large_def)
  then have "10 ^ 16 \<le> dval q" by (rule qmoney_ge_grid [OF assms(2)]) (use on_grid_of_int [of "10 ^ 16"] in simp)
  moreover have "\<bar>dval q\<bar> < 10 ^ 16" by (rule qmoney_bound [OF assms(2)])
  ultimately show ?thesis by linarith
qed

section \<open>Lots\<close>

text \<open>A seeded quantity may round to nothing; such a lot has no basis either.\<close>

definition lot_ok :: "lot \<Rightarrow> bool" where
  "lot_ok l \<longleftrightarrow> is_quantity (lot_quantity l) \<and> 0 \<le> dval (lot_quantity l) \<and>
     is_money (lot_cost_basis l) \<and> 0 \<le> dval (lot_cost_basis l) \<and>
     (dval (lot_quantity l) = 0 \<longrightarrow> dval (lot_cost_basis l) = 0)"

definition lots_quantity :: "lot list \<Rightarrow> rat" where
  "lots_quantity ls = sum_list (map (dval \<circ> lot_quantity) ls)"

definition lots_basis :: "lot list \<Rightarrow> rat" where
  "lots_basis ls = sum_list (map (dval \<circ> lot_cost_basis) ls)"

lemma lots_sums [simp]:
  "lots_quantity [] = 0" "lots_quantity (l # ls) = dval (lot_quantity l) + lots_quantity ls"
  "lots_quantity (xs @ ys) = lots_quantity xs + lots_quantity ys"
  "lots_basis [] = 0" "lots_basis (l # ls) = dval (lot_cost_basis l) + lots_basis ls"
  "lots_basis (xs @ ys) = lots_basis xs + lots_basis ys"
  by (simp_all add: lots_quantity_def lots_basis_def)

text \<open>A proportional share \<open>b * c / q\<close> of \<open>b\<close> in the default context exceeds \<open>b\<close> at most by rounding.\<close>

lemma mul28_positive:
  assumes "0 < dval b" "0 < dval c"
  shows "0 < dval (mul28 b c)" "dval (mul28 b c) \<le> dval b * dval c * (1 + 10 powi (- 27) / 2)"
proof -
  define x where "x = dval b * dval c"
  define \<epsilon> where "\<epsilon> = (10::rat) powi (- 27)"
  let ?d = "Dec (dneg b \<noteq> dneg c) (dcoef b * dcoef c) (dexp b + dexp c)"
  have e: "0 < \<epsilon>" "\<epsilon> \<le> 1" by (simp_all add: \<epsilon>_def power_int_minus field_simps)
  have xp: "0 < x" using assms by (simp add: x_def)
  have "dval ?d = x" by (simp add: x_def dval_def dsigned_def powi10_add)
  then have m: "\<bar>dval (mul28 b c) - x\<bar> \<le> x * (\<epsilon> / 2)"
    using dfix_error [of default_prec ?d] xp by (simp add: dmul_def default_prec_def \<epsilon>_def)
  have "x * (\<epsilon> / 2) < x * 1" using xp e by (intro mult_strict_left_mono) auto
  with m show "0 < dval (mul28 b c)" by linarith
  show "dval (mul28 b c) \<le> dval b * dval c * (1 + 10 powi (- 27) / 2)"
    using abs_le_D1 [OF m] unfolding x_def \<epsilon>_def by (simp add: algebra_simps)
qed

lemma proportion_bounds:
  assumes b: "0 < dval b" and c: "0 < dval c" "dval c \<le> dval q" and v: "div28 (mul28 b c) q = Inr v"
  shows "0 \<le> dval v" "dval v \<le> dval b + dval b * (2 * 10 powi (- 27))"
proof -
  define \<epsilon> where "\<epsilon> = (10::rat) powi (- 27)"
  define r where "r = dval (mul28 b c) / dval q"
  note m = mul28_positive [OF b c(1), folded \<epsilon>_def]
  have q: "0 < dval q" using c by linarith
  have e: "0 < \<epsilon>" "\<epsilon> \<le> 1" by (simp_all add: \<epsilon>_def power_int_minus field_simps)
  have "ddiv default_prec (mul28 b c) q = Inr v" using v by (simp add: div28_def)
  from ddiv_error [OF this m(1) q] have dv: "\<bar>dval v - r\<bar> \<le> r * \<epsilon>"
    by (simp add: default_prec_def \<epsilon>_def r_def)
  have r: "0 \<le> r" using m(1) q by (simp add: r_def)
  then have "r * \<epsilon> \<le> r * 1" using e by (intro mult_left_mono) simp_all
  with dv show "0 \<le> dval v" by linarith
  have "dval b * dval c \<le> dval b * dval q" using b c(2) by simp
  then have "dval b * dval c * (1 + \<epsilon> / 2) \<le> dval b * dval q * (1 + \<epsilon> / 2)" using e by (intro mult_right_mono) simp_all
  with m(2) have "r \<le> dval b * (1 + \<epsilon> / 2)" using q by (simp add: r_def field_simps)
  then have "r * (1 + \<epsilon>) \<le> dval b * (1 + \<epsilon> / 2) * (1 + \<epsilon>)" using e by (intro mult_right_mono) simp_all
  moreover have "dval v \<le> r * (1 + \<epsilon>)" using abs_le_D1 [OF dv] by (simp add: algebra_simps)
  moreover have "dval b * ((1 + \<epsilon> / 2) * (1 + \<epsilon>)) \<le> dval b * (1 + 2 * \<epsilon>)"
    using b e by (intro mult_left_mono) (simp_all add: algebra_simps)
  ultimately have "dval v \<le> dval b * (1 + 2 * \<epsilon>)" unfolding mult.assoc by linarith
  then show "dval v \<le> dval b + dval b * (2 * 10 powi (- 27))"
    unfolding \<epsilon>_def [symmetric] distrib_left by simp
qed

text \<open>The basis taken from a lot is between nothing and all of it.\<close>

lemma proportional_basis:
  assumes b: "is_money b" "0 \<le> dval b" and c: "0 < dval c" "dval c \<le> dval q"
    and v: "div28 (mul28 b c) q = Inr v" "qmoney v = Inr taken"
  shows "0 \<le> dval taken" "dval taken \<le> dval b"
proof -
  have "0 \<le> dval v \<and> dval v \<le> dval b + 2 / 10 ^ 11"
  proof (cases "dval b = 0")
    case True
    then have "dval (mul28 b c) = 0"
      by (auto simp: dval_zero_iff dmul_def dfix_def Let_def div_half_even_def)
    then have "dval v = 0"
      using v(1) by (auto simp: div28_def dval_zero_iff ddiv_def dfix_def div_half_even_def Let_def split: if_splits prod.splits)
    with b(2) show ?thesis by simp
  next
    case False
    with b(2) have "0 < dval b" by simp
    note p = proportion_bounds [OF this c v(1)]
    have "dval b * (2 * 10 powi (- 27)) \<le> 10 ^ 16 * (2 * 10 powi (- 27))"
      using is_money_dval_bound [OF b(1)] b(2) by (intro mult_right_mono) simp_all
    with p show ?thesis by (simp add: power_int_minus)
  qed
  then have vb: "0 \<le> dval v" "dval v \<le> dval b + 2 / 10 ^ 11" by simp_all
  show "0 \<le> dval taken" by (rule qmoney_nonneg [OF v(2) vb(1)])
  show "dval taken \<le> dval b"
  proof (rule ccontr)
    assume "\<not> dval taken \<le> dval b"
    then have "1 / 10 ^ 8 \<le> dval taken - dval b"
      using on_grid_diff [OF is_money_on_grid [OF qmoney_Inr(1) [OF v(2)]] is_money_on_grid [OF b(1)]]
      by (intro on_grid_pos) simp_all
    moreover have "\<bar>dval taken - dval v\<bar> \<le> 1 / (2 * 10 ^ 8)" by (rule qmoney_Inr(2) [OF v(2)])
    moreover have "(1::rat) / (2 * 10 ^ 8) + 2 / 10 ^ 11 < 1 / 10 ^ 8" by simp
    ultimately show False using vb by linarith
  qed
qed

lemma consumed_basis_bounds:
  assumes l: "lot_ok l" and c: "0 < dval consumed \<or> deq consumed (lot_quantity l)" "dval consumed \<le> dval (lot_quantity l)"
    and t: "consumed_basis l consumed = Inr taken"
  shows "is_money taken" "0 \<le> dval taken" "dval taken \<le> dval (lot_cost_basis l)"
proof -
  have b: "is_money (lot_cost_basis l)" "0 \<le> dval (lot_cost_basis l)" using l by (simp_all add: lot_ok_def)
  have "is_money taken \<and> 0 \<le> dval taken \<and> dval taken \<le> dval (lot_cost_basis l)"
  proof (cases "deq consumed (lot_quantity l)")
    case False
    with c(1) have c': "0 < dval consumed" by simp
    from False obtain v where v: "div28 (mul28 (lot_cost_basis l) consumed) (lot_quantity l) = Inr v" "qmoney v = Inr taken"
      using t by (auto simp: consumed_basis_def err_simps)
    with proportional_basis [OF b c' c(2) v] qmoney_Inr(1) show ?thesis by blast
  qed (use t b in \<open>simp add: consumed_basis_def\<close>)
  then show "is_money taken" "0 \<le> dval taken" "dval taken \<le> dval (lot_cost_basis l)" by simp_all
qed

section \<open>First in, first out\<close>

text \<open>One round of the loop on an admissible head lot.\<close>

lemma fifo_round_facts:
  assumes l: "lot_ok l" and r: "is_quantity remaining" "0 < dval remaining"
    and t: "consumed_basis l (dmin remaining (lot_quantity l)) = Inr taken"
    and b: "qmoney (sub28 (lot_cost_basis l) taken) = Inr left_basis"
  defines "consumed \<equiv> dmin remaining (lot_quantity l)"
  shows "is_quantity (sub28 remaining consumed)" "dval (sub28 remaining consumed) = dval remaining - dval consumed"
    "0 \<le> dval (sub28 remaining consumed)"
    "dval (sub28 (lot_quantity l) consumed) = dval (lot_quantity l) - dval consumed"
    "is_quantity taken" "0 \<le> dval taken" "dval left_basis = dval (lot_cost_basis l) - dval taken"
    "dval (sub28 (lot_quantity l) consumed) \<noteq> 0 \<Longrightarrow>
       lot_ok \<lparr>lot_quantity = sub28 (lot_quantity l) consumed, lot_cost_basis = left_basis\<rparr>"
    "deq (sub28 (lot_quantity l) consumed) dzero \<Longrightarrow> dval left_basis = 0"
proof -
  have q: "is_quantity (lot_quantity l)" "0 \<le> dval (lot_quantity l)" "is_money (lot_cost_basis l)"
    using l by (simp_all add: lot_ok_def)
  have c: "is_quantity consumed" "0 < dval consumed \<or> deq consumed (lot_quantity l)" "dval consumed \<le> dval (lot_quantity l)"
    "dval consumed \<le> dval remaining" "0 \<le> dval consumed"
    using q r by (auto simp: consumed_def dmin_def dless_iff deq_iff)
  note tk = consumed_basis_bounds [OF l c(2,3) t [folded consumed_def]]
  have sr: "dval (sub28 remaining consumed) = dval remaining - dval consumed" "fine (sub28 remaining consumed)"
    and sq: "dval (sub28 (lot_quantity l) consumed) = dval (lot_quantity l) - dval consumed" "fine (sub28 (lot_quantity l) consumed)"
    using sub28_money [OF r(1) c(1)] sub28_money [OF q(1) c(1)] by simp_all
  show "dval (sub28 remaining consumed) = dval remaining - dval consumed"
    "dval (sub28 (lot_quantity l) consumed) = dval (lot_quantity l) - dval consumed"
    by (rule sr sq)+
  show "0 \<le> dval (sub28 remaining consumed)" using sr c by simp
  show "is_quantity (sub28 remaining consumed)"
    using sr c r by (simp add: is_quantity_def)
  show "is_quantity taken" "0 \<le> dval taken" using tk is_money_quantity by simp_all
  have sb: "dval (sub28 (lot_cost_basis l) taken) = dval (lot_cost_basis l) - dval taken" "fine (sub28 (lot_cost_basis l) taken)"
    using sub28_money [OF is_money_quantity [OF q(3)] is_money_quantity [OF tk(1)]] by simp_all
  show lb: "dval left_basis = dval (lot_cost_basis l) - dval taken"
    using qmoney_grid [OF b] fine_on_grid [OF sb(2)] sb(1) by simp
  have "is_quantity (sub28 (lot_quantity l) consumed)" using sq c q by (simp add: is_quantity_def)
  then show "lot_ok \<lparr>lot_quantity = sub28 (lot_quantity l) consumed, lot_cost_basis = left_basis\<rparr>"
    if "dval (sub28 (lot_quantity l) consumed) \<noteq> 0"
    using that sq c lb tk(3) qmoney_Inr(1) [OF b] by (simp add: lot_ok_def)
  show "dval left_basis = 0" if "deq (sub28 (lot_quantity l) consumed) dzero"
  proof -
    have "deq consumed (lot_quantity l)" using that sq(1) by (simp add: deq_iff)
    then have "taken = lot_cost_basis l" using t by (simp add: consumed_basis_def consumed_def)
    with lb show ?thesis by simp
  qed
qed

text \<open>What is left of a list of lots: some of them are gone from the front and one may be reduced.\<close>

definition taken_from_front :: "lot list \<Rightarrow> lot list \<Rightarrow> bool" where
  "taken_from_front lots left \<longleftrightarrow> (\<exists>k. left = drop k lots) \<or> (\<exists>k l. k < length lots \<and> left = l # drop (Suc k) lots)"

lemma taken_from_front_Cons: "taken_from_front ls left \<Longrightarrow> taken_from_front (l # ls) left"
  unfolding taken_from_front_def by (metis Suc_less_eq drop_Suc_Cons length_Cons)

lemma taken_from_front_Cons': "taken_from_front (l' # ls) left \<Longrightarrow> taken_from_front (l # ls) left"
  unfolding taken_from_front_def
proof (elim disjE exE conjE)
  fix k assume "left = drop k (l' # ls)"
  then show "(\<exists>k. left = drop k (l # ls)) \<or> (\<exists>k a. k < length (l # ls) \<and> left = a # drop (Suc k) (l # ls))"
  proof (cases k)
    case 0
    with \<open>left = drop k (l' # ls)\<close> have "left = l' # drop (Suc 0) (l # ls)" by simp
    then show ?thesis by auto
  next
    case (Suc i)
    with \<open>left = drop k (l' # ls)\<close> have "left = drop (Suc i) (l # ls)" by simp
    then show ?thesis by blast
  qed
qed auto

lemma fifo_loop_correct:
  assumes "fifo_loop remaining basis lots = Inr (basis', lots')"
    "\<forall>l\<in>set lots. lot_ok l" "is_quantity remaining" "0 \<le> dval remaining" "exact_or_large basis x" "0 \<le> x"
  shows "(\<forall>l\<in>set lots'. lot_ok l) \<and> lots_quantity lots' = lots_quantity lots - dval remaining \<and>
    exact_or_large basis' (x + (lots_basis lots - lots_basis lots')) \<and> taken_from_front lots lots'"
  using assms
proof (induction remaining basis lots arbitrary: x rule: fifo_loop.induct)
  case (1 remaining basis lots)
  show ?case
  proof (cases "dless dzero remaining")
    case False
    then have "dval remaining = 0" "basis' = basis" "lots' = lots"
      using 1(2,5) by (simp_all add: fifo_loop.simps [of remaining] dless_iff)
    with 1(3,6) show ?thesis by (auto simp: taken_from_front_def intro: exI [of _ 0])
  next
    case True
    with 1(2) obtain l ls where lots: "lots = l # ls" by (cases lots) (simp_all add: fifo_loop.simps [of remaining])
    let ?c = "dmin remaining (lot_quantity l)"
    let ?q = "sub28 (lot_quantity l) ?c"
    obtain taken left_basis where t: "consumed_basis l ?c = Inr taken" "qmoney (sub28 (lot_cost_basis l) taken) = Inr left_basis"
      using 1(2) True lots by (auto simp: fifo_loop.simps [of remaining] err_simps Let_def)
    let ?rest = "if deq ?q dzero then ls else \<lparr>lot_quantity = ?q, lot_cost_basis = left_basis\<rparr> # ls"
    have rec: "fifo_loop (sub28 remaining ?c) (add28 basis taken) ?rest = Inr (basis', lots')"
      using 1(2) True lots t by (simp add: fifo_loop.simps [of remaining] Let_def)
    have ok: "lot_ok l" "\<forall>l\<in>set ls. lot_ok l" using 1(3) lots by simp_all
    have rp: "0 < dval remaining" using True by (simp add: dless_iff)
    note f = fifo_round_facts [OF ok(1) 1(4) rp t]
    have okr: "\<forall>l\<in>set ?rest. lot_ok l" using f(8) ok(2) by (auto simp: deq_iff)
    have sums: "lots_quantity ?rest = lots_quantity lots - dval ?c"
      "lots_basis ?rest = lots_basis lots - dval taken"
      using f(4,7,9) by (auto simp: lots deq_iff)
    have ex: "exact_or_large (add28 basis taken) (x + dval taken)"
      by (rule exact_or_large_add [OF 1(6,7) f(5,6)])
    have "(\<forall>l\<in>set lots'. lot_ok l) \<and> lots_quantity lots' = lots_quantity ?rest - dval (sub28 remaining ?c) \<and>
        exact_or_large basis' (x + dval taken + (lots_basis ?rest - lots_basis lots')) \<and> taken_from_front ?rest lots'"
      by (rule "1.IH" [OF _ lots refl refl refl rec okr f(1,3) ex]) (use True 1(7) f(6) in simp_all)
    moreover have "taken_from_front ?rest lots' \<Longrightarrow> taken_from_front lots lots'"
      unfolding lots using taken_from_front_Cons taken_from_front_Cons' by (auto split: if_splits)
    ultimately show ?thesis using sums f(2) by (simp add: algebra_simps)
  qed
qed

end
