(* ===== verification/Exec_Ledger.thy ===== *)
theory Exec_Ledger
  imports Exec_Lots
begin

text \<open>
  The account of \<open>execution_model.py\<close>: cash, lots, fills and the double-entry ledger. Every
  fill moves cash, position and cost basis by exact amounts, and its postings to the four
  accounts are those same amounts; the engine's decimal arithmetic never loses a unit.
\<close>

section \<open>Amounts\<close>

definition signed_amount :: "ledger_direction \<Rightarrow> decimal \<Rightarrow> rat" where
  "signed_amount dir amount = (case dir of DEBIT \<Rightarrow> dval amount | CREDIT \<Rightarrow> - dval amount)"

definition entries_balance :: "ledger_account \<Rightarrow> ledger_entry list \<Rightarrow> rat" where
  "entries_balance a es =
     sum_list (map (\<lambda>e. if le_account_code e = a then signed_amount (le_direction e) (le_amount e) else 0) es)"

definition raw_balance :: "ledger_account \<Rightarrow> raw_entry list \<Rightarrow> rat" where
  "raw_balance a raw = sum_list (map (\<lambda>(b, dir, amount). if b = a then signed_amount dir amount else 0) raw)"

definition ledger_balance :: "ledger_account \<Rightarrow> exec_model \<Rightarrow> rat" where
  "ledger_balance a m = sum_list (map (entries_balance a \<circ> lx_entries) (em_ledger m))"

lemma entries_balance_simps [simp]:
  "entries_balance a [] = 0"
  "entries_balance a (e # es) =
     (if le_account_code e = a then signed_amount (le_direction e) (le_amount e) else 0) + entries_balance a es"
  by (simp_all add: entries_balance_def)

lemma raw_balance_simps [simp]:
  "raw_balance a [] = 0"
  "raw_balance a ((b, dir, amount) # raw) = (if b = a then signed_amount dir amount else 0) + raw_balance a raw"
  "raw_balance a (raw @ raw') = raw_balance a raw + raw_balance a raw'"
  by (simp_all add: raw_balance_def)

lemma signed_amount_zero: "dval amount = 0 \<Longrightarrow> signed_amount dir amount = 0"
  by (simp add: signed_amount_def split: ledger_direction.splits)

lemma entries_from_balance:
  "entries_from u fid i raw = Inr es \<Longrightarrow> entries_balance a es = raw_balance a raw"
proof (induction raw arbitrary: i es)
  case (Cons r raw)
  obtain b dir amount where r: "r = (b, dir, amount)" by (cases r)
  show ?case
    using Cons by (auto simp: r err_simps deq_iff signed_amount_zero ledger_entry_new_def split: if_splits)
qed simp

lemma entries_from_nonneg:
  "entries_from u fid i raw = Inr es \<Longrightarrow> (b, dir, amount) \<in> set raw \<Longrightarrow> 0 \<le> dval amount"
proof (induction raw arbitrary: i es)
  case (Cons r raw)
  obtain b' dir' amount' where r: "r = (b', dir', amount')" by (cases r)
  show ?case
    using Cons by (auto simp: r err_simps deq_iff ledger_entry_new_def exec_positive_def dless_iff dle_iff split: if_splits)
qed simp

section \<open>The dictionary of lots\<close>

definition account_ok :: "exec_model \<Rightarrow> bool" where
  "account_ok m \<longleftrightarrow> is_money (em_cash m) \<and> distinct (map fst (em_lots m)) \<and>
     (\<forall>p\<in>set (em_lots m). \<forall>l\<in>set (snd p). lot_ok l)"

definition held :: "exec_model \<Rightarrow> string \<Rightarrow> rat" where
  "held m iid = lots_quantity (lots_of m iid)"

definition inventory :: "exec_model \<Rightarrow> rat" where
  "inventory m = sum_list (map (lots_basis \<circ> snd) (em_lots m))"

lemma lots_of_put:
  "lots_of (m\<lparr>em_lots := dict_put iid ls (em_lots m)\<rparr>) iid' = (if iid' = iid then ls else lots_of m iid')"
  by (simp add: lots_of_def)

lemma lots_of_ok: "account_ok m \<Longrightarrow> l \<in> set (lots_of m iid) \<Longrightarrow> lot_ok l"
  by (auto simp: account_ok_def lots_of_def split: option.splits dest!: map_of_SomeD)

lemma dict_put_sum:
  fixes f :: "'v list \<Rightarrow> rat"
  assumes "distinct (map fst d)" "f [] = 0"
  shows "sum_list (map (f \<circ> snd) (dict_put k v d)) =
    sum_list (map (f \<circ> snd) d) - f (case map_of d k of None \<Rightarrow> [] | Some w \<Rightarrow> w) + f v"
  using assms
proof (induction d)
  case (Cons p d)
  obtain k' w where p: "p = (k', w)" by (cases p)
  show ?case
  proof (cases "k' = k")
    case False
    with Cons p show ?thesis by simp
  qed (simp add: p)
qed simp

lemma inventory_put:
  assumes "account_ok m"
  shows "inventory (m\<lparr>em_lots := dict_put iid ls (em_lots m)\<rparr>) = inventory m - lots_basis (lots_of m iid) + lots_basis ls"
  using dict_put_sum [of "em_lots m" lots_basis iid ls] assms
  by (simp add: inventory_def account_ok_def lots_of_def)

lemma dict_put_entries: "p \<in> set (dict_put k v d) \<Longrightarrow> p = (k, v) \<or> p \<in> set d"
  by (induction d) (auto split: if_splits)

lemma account_ok_put:
  assumes "account_ok m" "\<forall>l\<in>set ls. lot_ok l"
  shows "account_ok (m\<lparr>em_lots := dict_put iid ls (em_lots m)\<rparr>)"
  using assms dict_put_entries [of _ iid ls "em_lots m"] by (fastforce simp: account_ok_def)

lemma consume_fifo_correct:
  assumes "consume_fifo iid q m = Inr (basis, m')" "account_ok m" "is_quantity q" "0 < dval q"
  obtains ls where "m' = m\<lparr>em_lots := dict_put iid ls (em_lots m)\<rparr>" "\<forall>l\<in>set ls. lot_ok l"
    "lots_quantity ls = lots_quantity (lots_of m iid) - dval q" "is_money basis"
    "dval basis = lots_basis (lots_of m iid) - lots_basis ls" "taken_from_front (lots_of m iid) ls"
proof -
  obtain b ls where l: "fifo_loop q dzero (lots_of m iid) = Inr (b, ls)" "qmoney b = Inr basis"
    and m': "m' = (case map_of (em_lots m) iid of None \<Rightarrow> m | Some _ \<Rightarrow> m\<lparr>em_lots := dict_put iid ls (em_lots m)\<rparr>)"
    using assms(1) by (auto simp: consume_fifo_def err_simps)
  have "exact_or_large dzero 0" by (simp add: exact_or_large_def fine_def)
  from fifo_loop_correct [OF l(1) _ assms(3) _ this] lots_of_ok [OF assms(2)] assms(4)
  have f: "\<forall>l\<in>set ls. lot_ok l" "lots_quantity ls = lots_quantity (lots_of m iid) - dval q"
    "exact_or_large b (lots_basis (lots_of m iid) - lots_basis ls)" "taken_from_front (lots_of m iid) ls"
    by simp_all
  have "map_of (em_lots m) iid \<noteq> None"
  proof
    assume "map_of (em_lots m) iid = None"
    then have "lots_of m iid = []" by (simp add: lots_of_def)
    then show False using l(1) assms(4) by (simp add: fifo_loop.simps dless_iff)
  qed
  then have "m' = m\<lparr>em_lots := dict_put iid ls (em_lots m)\<rparr>" using m' by auto
  from that [OF this f(1,2) qmoney_Inr(1) [OF l(2)] exact_or_large_qmoney [OF f(3) l(2)] f(4)]
  show thesis .
qed

section \<open>One settlement\<close>

text \<open>What a fill moves: cash, the security at cost, shares, and the profit it realises.\<close>

definition cash_flow :: "fill \<Rightarrow> rat" where
  "cash_flow f = (case fl_side f of
     BUY \<Rightarrow> - (dval (fl_gross_amount f) + dval (fl_fee f))
   | SELL \<Rightarrow> dval (fl_gross_amount f) - dval (fl_fee f))"

definition cost_flow :: "fill \<Rightarrow> rat" where
  "cost_flow f = (case fl_side f of BUY \<Rightarrow> dval (fl_gross_amount f) | SELL \<Rightarrow> - dval (fl_cost_basis f))"

definition share_flow :: "fill \<Rightarrow> rat" where
  "share_flow f = (case fl_side f of BUY \<Rightarrow> dval (fl_quantity f) | SELL \<Rightarrow> - dval (fl_quantity f))"

text \<open>A fill and its ledger entries tell the same story as the account.\<close>

definition moves_account :: "fill \<Rightarrow> exec_model \<Rightarrow> exec_model \<Rightarrow> bool" where
  "moves_account f m m' \<longleftrightarrow>
     dval (em_cash m') = dval (em_cash m) + cash_flow f \<and>
     inventory m' = inventory m + cost_flow f \<and>
     (\<forall>iid. held m' iid = held m iid + (if iid = fl_instrument_id f then share_flow f else 0))"

definition posts :: "fill \<Rightarrow> ledger_entry list \<Rightarrow> bool" where
  "posts f es \<longleftrightarrow>
     entries_balance CASH es = cash_flow f \<and> entries_balance SECURITY es = cost_flow f \<and>
     entries_balance FEE_EXPENSE es = dval (fl_fee f) \<and>
     entries_balance REALIZED_PNL es = - dval (fl_realized_pnl f)"

definition profit_ok :: "fill \<Rightarrow> bool" where
  "profit_ok f \<longleftrightarrow> dval (fl_realized_pnl f) =
     (case fl_side f of BUY \<Rightarrow> 0 | SELL \<Rightarrow> dval (fl_gross_amount f) - dval (fl_cost_basis f))"

lemmas flow_defs = cash_flow_def cost_flow_def share_flow_def profit_ok_def

lemma qmoney_fine: "qmoney d = Inr q \<Longrightarrow> fine d \<Longrightarrow> dval q = dval d"
  by (rule qmoney_grid) (simp_all add: fine_on_grid)

lemma pnl_entry_balance:
  assumes "pnl_entry p = Inr raw" "is_money p"
  shows "raw_balance REALIZED_PNL raw = - dval p" "a \<noteq> REALIZED_PNL \<Longrightarrow> raw_balance a raw = 0"
proof -
  have "dcoef p < 10 ^ 28" using assms(2) by (simp add: is_money_def)
  then have d: "dval (dminus default_prec p) = - dval p" "dexp (dminus default_prec p) = dexp p"
    using dminus_small [of p default_prec] by (simp_all add: default_prec_def)
  then have n: "dval l = - dval p" if "qmoney (dminus default_prec p) = Inr l" for l
    using qmoney_fine [OF that] assms(2) by (simp add: fine_def is_money_def)
  show "raw_balance REALIZED_PNL raw = - dval p" "a \<noteq> REALIZED_PNL \<Longrightarrow> raw_balance a raw = 0"
    using assms(1) n by (auto simp: pnl_entry_def err_simps dless_iff signed_amount_def split: if_splits)
qed

lemma buy_entries_balance:
  assumes "buy_entries u fid gross fee = Inr es" "is_money gross" "is_money fee"
  shows "entries_balance CASH es = - (dval gross + dval fee)" "entries_balance SECURITY es = dval gross"
    "entries_balance FEE_EXPENSE es = dval fee" "entries_balance REALIZED_PNL es = 0" "0 \<le> dval gross"
proof -
  obtain total where t: "qmoney (add28 gross fee) = Inr total"
    and es: "entries_from u fid 1 [(SECURITY, DEBIT, gross), (FEE_EXPENSE, DEBIT, fee), (CASH, CREDIT, total)] = Inr es"
    using assms(1) by (auto simp: buy_entries_def entries_def err_simps)
  have "dval total = dval gross + dval fee"
    using qmoney_fine [OF t] add28_money [OF assms(2,3) [THEN is_money_quantity]] by simp
  then show "entries_balance CASH es = - (dval gross + dval fee)" "entries_balance SECURITY es = dval gross"
    "entries_balance FEE_EXPENSE es = dval fee" "entries_balance REALIZED_PNL es = 0"
    unfolding entries_from_balance [OF es] by (simp_all add: signed_amount_def)
  show "0 \<le> dval gross" by (rule entries_from_nonneg [OF es, of SECURITY DEBIT]) simp
qed

lemma sell_entries_balance:
  assumes "sell_entries u fid gross fee basis pnl = Inr es" "is_money gross" "is_money fee" "is_money pnl"
  shows "entries_balance CASH es = dval gross - dval fee" "entries_balance SECURITY es = - dval basis"
    "entries_balance FEE_EXPENSE es = dval fee" "entries_balance REALIZED_PNL es = - dval pnl"
proof -
  obtain net raw where n: "qmoney (sub28 gross fee) = Inr net" and raw: "pnl_entry pnl = Inr raw"
    and es: "entries_from u fid 1 ([(CASH, DEBIT, net), (FEE_EXPENSE, DEBIT, fee), (SECURITY, CREDIT, basis)] @ raw) = Inr es"
    using assms(1) by (auto simp: sell_entries_def entries_def err_simps)
  have "dval net = dval gross - dval fee"
    using qmoney_fine [OF n] sub28_money [OF assms(2,3) [THEN is_money_quantity]] by simp
  then show "entries_balance CASH es = dval gross - dval fee" "entries_balance SECURITY es = - dval basis"
    "entries_balance FEE_EXPENSE es = dval fee" "entries_balance REALIZED_PNL es = - dval pnl"
    unfolding entries_from_balance [OF es] using pnl_entry_balance [OF raw assms(4)]
    by (simp_all add: signed_amount_def)
qed

lemma held_put:
  "held (m\<lparr>em_lots := dict_put iid ls (em_lots m)\<rparr>) k = (if k = iid then lots_quantity ls else held m k)"
  by (simp add: held_def lots_of_put)

lemma account_update_cash [simp]:
  "inventory (m\<lparr>em_cash := c\<rparr>) = inventory m" "held (m\<lparr>em_cash := c\<rparr>) iid = held m iid"
  by (simp_all add: inventory_def held_def lots_of_def)

lemma account_ok_cash: "account_ok m \<Longrightarrow> is_money c \<Longrightarrow> account_ok (m\<lparr>em_cash := c\<rparr>)"
  by (simp add: account_ok_def)

lemma settle_buy:
  assumes s: "settle u s fid q gross fee m = Inr (m', basis, pnl, es)" "or_side (os_request s) = BUY"
    and ok: "account_ok m" "is_money gross" "is_money fee" "is_quantity q" "0 < dval q"
    and f: "fl_side f = BUY" "fl_instrument_id f = or_instrument_id (os_request s)" "fl_quantity f = q"
      "fl_gross_amount f = gross" "fl_fee f = fee" "fl_cost_basis f = basis" "fl_realized_pnl f = pnl"
  shows "account_ok m' \<and> moves_account f m m' \<and> posts f es \<and> profit_ok f"
proof -
  let ?iid = "or_instrument_id (os_request s)"
  let ?ls = "lots_of m ?iid @ [\<lparr>lot_quantity = q, lot_cost_basis = gross\<rparr>]"
  obtain cash where c: "qmoney (sub28 (sub28 (em_cash m) gross) fee) = Inr cash" "qmoney dzero = Inr pnl"
    "buy_entries u fid gross fee = Inr es" "basis = gross"
    and m': "m' = m\<lparr>em_lots := dict_put ?iid ?ls (em_lots m)\<rparr>\<lparr>em_cash := cash\<rparr>"
    using s by (auto simp: settle_def Let_def err_simps)
  note e = buy_entries_balance [OF c(3) ok(2,3)]
  have cash: "dval cash = dval (em_cash m) - dval gross - dval fee"
    using qmoney_fine [OF c(1)] sub28_sub28_money [of "em_cash m" gross fee] ok(1-3)
    by (simp add: is_money_quantity account_ok_def)
  have "dval pnl = dval dzero" by (rule qmoney_fine [OF c(2)]) (simp add: fine_def)
  moreover have "\<forall>l\<in>set ?ls. lot_ok l" using lots_of_ok [OF ok(1)] ok e(5) by (auto simp: lot_ok_def)
  note account_ok_cash [OF account_ok_put [OF ok(1) this, of ?iid] qmoney_Inr(1) [OF c(1)]]
  moreover have "held m ?iid = lots_quantity (lots_of m ?iid)" by (simp add: held_def)
  ultimately show ?thesis
    using cash e inventory_put [OF ok(1), of ?iid ?ls] f
    by (simp add: m' moves_account_def posts_def flow_defs held_put)
qed

lemma settle_sell:
  assumes s: "settle u s fid q gross fee m = Inr (m', basis, pnl, es)" "or_side (os_request s) = SELL"
    and ok: "account_ok m" "is_money gross" "is_money fee" "is_quantity q" "0 < dval q"
    and f: "fl_side f = SELL" "fl_instrument_id f = or_instrument_id (os_request s)" "fl_quantity f = q"
      "fl_gross_amount f = gross" "fl_fee f = fee" "fl_cost_basis f = basis" "fl_realized_pnl f = pnl"
  shows "account_ok m' \<and> moves_account f m m' \<and> posts f es \<and> profit_ok f"
proof -
  let ?iid = "or_instrument_id (os_request s)"
  obtain m1 cash where c: "consume_fifo ?iid q m = Inr (basis, m1)"
    "qmoney (sub28 (add28 (em_cash m1) gross) fee) = Inr cash" "qmoney (sub28 gross basis) = Inr pnl"
    "sell_entries u fid gross fee basis pnl = Inr es" and m': "m' = m1\<lparr>em_cash := cash\<rparr>"
    using s by (auto simp: settle_def Let_def err_simps split: prod.splits)
  obtain ls where m1: "m1 = m\<lparr>em_lots := dict_put ?iid ls (em_lots m)\<rparr>" and ls: "\<forall>l\<in>set ls. lot_ok l"
    and q: "lots_quantity ls = lots_quantity (lots_of m ?iid) - dval q"
    and b: "is_money basis" "dval basis = lots_basis (lots_of m ?iid) - lots_basis ls"
    by (rule consume_fifo_correct [OF c(1) ok(1,4,5)])
  note e = sell_entries_balance [OF c(4) ok(2,3) qmoney_Inr(1) [OF c(3)]]
  have cash: "dval cash = dval (em_cash m) + dval gross - dval fee"
    using qmoney_fine [OF c(2)] sub28_add28_money [of "em_cash m" gross fee] ok(1-3)
    by (simp add: is_money_quantity account_ok_def m1)
  have "dval pnl = dval gross - dval basis"
    using qmoney_fine [OF c(3)] sub28_money [OF ok(2) [THEN is_money_quantity] b(1) [THEN is_money_quantity]] by simp
  moreover note account_ok_cash [OF account_ok_put [OF ok(1) ls, of ?iid] qmoney_Inr(1) [OF c(2)]]
  moreover have "held m ?iid = lots_quantity (lots_of m ?iid)" by (simp add: held_def)
  ultimately show ?thesis
    using cash e inventory_put [OF ok(1), of ?iid ls] f q b(2)
    by (simp add: m' m1 moves_account_def posts_def flow_defs held_put)
qed

lemma settle_log: "epost (settle u s i q g f m) (\<lambda>(m', _). em_fills m' = em_fills m \<and> em_ledger m' = em_ledger m)"
  unfolding settle_def consume_fifo_def Let_def
  by (cases "or_side (os_request s)"; simp; intro epost_rules; auto simp: err_simps split: option.splits)

lemma settle_correct:
  assumes "settle u s fid q gross fee m = Inr (m', basis, pnl, es)"
    "account_ok m" "is_money gross" "is_money fee" "is_quantity q" "0 < dval q"
    "fl_side f = or_side (os_request s)" "fl_instrument_id f = or_instrument_id (os_request s)" "fl_quantity f = q"
    "fl_gross_amount f = gross" "fl_fee f = fee" "fl_cost_basis f = basis" "fl_realized_pnl f = pnl"
  shows "account_ok m' \<and> moves_account f m m' \<and> posts f es \<and> profit_ok f"
  using settle_buy [OF assms(1) _ assms(2-6) _ assms(8-13)] settle_sell [OF assms(1) _ assms(2-6) _ assms(8-13)] assms(7)
  by (cases "or_side (os_request s)") simp_all

section \<open>A run of fills\<close>

definition posted :: "fill \<Rightarrow> ledger_transaction \<Rightarrow> bool" where
  "posted f tx \<longleftrightarrow> lx_transaction_id tx = fl_ledger_transaction_id f \<and> lx_source_event_id tx = fl_fill_id f \<and>
     lx_posted_at tx = fl_occurred_at f \<and> posts f (lx_entries tx)"

definition shares_moved :: "string \<Rightarrow> fill list \<Rightarrow> rat" where
  "shares_moved iid fs = sum_list (map share_flow (filter (\<lambda>f. fl_instrument_id f = iid) fs))"

definition reconciles :: "fill list \<Rightarrow> exec_model \<Rightarrow> exec_model \<Rightarrow> bool" where
  "reconciles fs m m' \<longleftrightarrow>
     em_fills m' = em_fills m @ fs \<and>
     (\<exists>txs. em_ledger m' = em_ledger m @ txs \<and> list_all2 posted fs txs) \<and>
     dval (em_cash m') = dval (em_cash m) + sum_list (map cash_flow fs) \<and>
     inventory m' = inventory m + sum_list (map cost_flow fs) \<and>
     (\<forall>iid. held m' iid = held m iid + shares_moved iid fs) \<and>
     (\<forall>f\<in>set fs. profit_ok f)"

text \<open>The part of the state that is the account.\<close>

definition same_account :: "exec_model \<Rightarrow> exec_model \<Rightarrow> bool" where
  "same_account m m' \<longleftrightarrow> em_cash m' = em_cash m \<and> em_lots m' = em_lots m \<and>
     em_fills m' = em_fills m \<and> em_ledger m' = em_ledger m"

lemma same_account_views:
  "same_account m m' \<Longrightarrow> inventory m' = inventory m \<and> held m' = held m \<and> account_ok m' = account_ok m"
  by (auto simp: same_account_def inventory_def held_def lots_of_def account_ok_def)

lemma reconciles_Nil: "same_account m m' \<Longrightarrow> reconciles [] m m'"
  using same_account_views [of m m'] by (simp add: reconciles_def same_account_def shares_moved_def)

lemma reconciles_trans:
  assumes "reconciles fs a b" "reconciles gs b c"
  shows "reconciles (fs @ gs) a c"
proof -
  obtain x where x: "em_ledger b = em_ledger a @ x" "list_all2 posted fs x"
    using assms(1) unfolding reconciles_def by blast
  obtain y where y: "em_ledger c = em_ledger b @ y" "list_all2 posted gs y"
    using assms(2) unfolding reconciles_def by blast
  have "em_ledger c = em_ledger a @ (x @ y)" "list_all2 posted (fs @ gs) (x @ y)"
    using x y by (simp_all add: list_all2_appendI)
  then show ?thesis
    using assms unfolding reconciles_def by (auto simp: shares_moved_def)
qed

lemma reconciles_same:
  "same_account a b \<Longrightarrow> reconciles fs b c \<Longrightarrow> reconciles fs a c"
  using reconciles_trans [OF reconciles_Nil, of a b fs c] by simp

lemma moves_order_account: "moves_order s m m' \<Longrightarrow> same_account m m'"
  by (simp add: same_account_def moves_order_fields)

lemma record_fill_account:
  assumes rec: "record_fill u s t q base price m = Inr (f, m')"
    and ok: "account_ok m" "is_quantity q" "0 < dval q"
  shows "account_ok m' \<and> reconciles [f] m m'"
proof -
  from rec obtain gross fee slip m1 basis pnl es tx filled m2 where
    g: "qmoney (mul28 price q) = Inr gross" "qrate gross (pol_fee_rate (em_policy m)) = Inr fee"
    and st: "settle u (s\<lparr>os_fill_sequence := os_fill_sequence s + 1\<rparr>)
       (u (fill_name (os_id s) (os_fill_sequence s + 1))) q gross fee m = Inr (m1, basis, pnl, es)"
    and tx: "ledger_transaction_new
       \<lparr>lx_transaction_id = u (ledger_name (u (fill_name (os_id s) (os_fill_sequence s + 1)))),
        lx_source_event_id = u (fill_name (os_id s) (os_fill_sequence s + 1)),
        lx_posted_at = t, lx_entries = es\<rparr> = Inr tx"
    and adv: "advance_remainder (s\<lparr>os_fill_sequence := os_fill_sequence s + 1, os_filled_quantity := filled\<rparr>)
       q gross price (m1\<lparr>em_ledger := em_ledger m1 @ [tx]\<rparr>) = Inr m2"
    and f: "f = \<lparr>fl_fill_id = u (fill_name (os_id s) (os_fill_sequence s + 1)), fl_order_id = os_id s,
        fl_instrument_id = or_instrument_id (os_request s), fl_side = or_side (os_request s),
        fl_quantity = q, fl_base_price = base, fl_price = price, fl_gross_amount = gross,
        fl_slippage_amount = slip, fl_fee = fee, fl_cost_basis = basis, fl_realized_pnl = pnl,
        fl_occurred_at = t,
        fl_ledger_transaction_id = u (ledger_name (u (fill_name (os_id s) (os_fill_sequence s + 1))))\<rparr>"
    and m': "m' = m2\<lparr>em_fills := em_fills m2 @ [f]\<rparr>"
    by (rule record_fill_inv)
  have money: "is_money gross" "is_money fee" using qmoney_Inr(1) [OF g(1)] qrate_Inr [OF g(2)] by simp_all
  have s: "account_ok m1 \<and> moves_account f m m1 \<and> posts f es \<and> profit_ok f"
    by (rule settle_correct [OF st ok(1) money ok(2,3)]) (simp_all add: f)
  have a: "same_account (m1\<lparr>em_ledger := em_ledger m1 @ [tx]\<rparr>) m2"
    by (rule moves_order_account [OF epostD [OF advance_remainder_moves adv]])
  have keep: "em_fills m1 = em_fills m" "em_ledger m1 = em_ledger m"
    using epostD [OF settle_log st] by simp_all
  have v: "inventory m' = inventory m1" "held m' = held m1" "account_ok m' = account_ok m1" "em_cash m' = em_cash m1"
    using a by (auto simp: m' same_account_def inventory_def held_def lots_of_def account_ok_def)
  have "posted f tx" using tx s by (auto simp: ledger_transaction_new_def err_simps posted_def f)
  moreover have "em_fills m' = em_fills m @ [f]" "em_ledger m' = em_ledger m @ [tx]"
    using a keep by (simp_all add: m' same_account_def)
  ultimately show ?thesis
    using s by (auto simp: v reconciles_def moves_account_def shares_moved_def)
qed

lemma fill_loop_account:
  assumes "fill_loop u b ss cap m = Inr (fs, m')" "account_ok m"
  shows "account_ok m' \<and> reconciles fs m m'"
proof (rule fill_loop_rule [where R = "\<lambda>_ m fs m'. account_ok m' \<and> reconciles fs m m'" and
      I = "\<lambda>_ _ m. account_ok m", OF assms])
  show "account_ok m \<Longrightarrow> account_ok m \<and> reconciles [] m m" for m
    by (simp add: reconciles_Nil same_account_def)
next
  fix s :: order_state and ss :: "order_state list" and cap :: decimal and m s' quote
  assume "account_ok m"
  moreover have a: "same_account m (put_state s' m)" by (simp add: same_account_def)
  ultimately show "account_ok (put_state s' m) \<and> (\<forall>fs m'. account_ok m' \<and> reconciles fs (put_state s' m) m' \<longrightarrow>
      account_ok m' \<and> reconciles fs m m')"
    using same_account_views [OF a] reconciles_same [OF a] by blast
next
  fix s ss cap m s' quoted base price q f m2
  assume ok: "account_ok m" and q: "fillable_quantity (put_state s' m) s' price cap = Inr q" "0 < dval q"
    and rec: "record_fill u s' (bar_ends_at b) q base price (put_state s' m) = Inr (f, m2)"
  have a: "same_account m (put_state s' m)" by (simp add: same_account_def)
  have "is_quantity q" using q(1) by (auto simp: fillable_quantity_def err_simps Let_def qquantity_Inr)
  with record_fill_account [OF rec _ _ q(2)] same_account_views [OF a] ok
  have r: "account_ok m2" "reconciles [f] m m2" using reconciles_same [OF a] by auto
  then show "account_ok m2 \<and> (\<forall>fs m'. account_ok m' \<and> reconciles fs m2 m' \<longrightarrow>
      account_ok m' \<and> reconciles (f # fs) m m')"
    using reconciles_trans [OF r(2)] by auto
qed

section \<open>Engine steps\<close>

lemma advance_clock_account: "epost (advance_clock now m) (\<lambda>(m', _). same_account m m')"
proof (rule epostI, clarify)
  fix m' out assume "advance_clock now m = Inr (m', out)"
  from advance_clock_inv(1) [OF this] show "same_account m m'"
    by (simp add: same_account_def expire_loop_fields)
qed

lemma advance_time_account: "epost (advance_time d m) (\<lambda>(m', _). same_account m m')"
  unfolding advance_time_def by (intro epost_rules advance_clock_account)

lemma advance_to_bar_account: "epost (advance_to_bar b m) (\<lambda>(m', _). same_account m m')"
  unfolding advance_to_bar_def by (intro epost_rules advance_time_account) (simp_all add: same_account_def)

lemma submit_account:
  assumes "submit r m = Inr (m', v)"
  shows "same_account m m'"
proof -
  from assms obtain s where
    "moves_order s (put_state s m\<lparr>em_open_order_ids := insert (or_order_id r) (em_open_order_ids m)\<rparr>) m'"
    by (rule submit_inv)
  from moves_order_account [OF this] show ?thesis by (simp add: same_account_def)
qed

lemma cancel_account: "cancel oid d m = Inr (m', v) \<Longrightarrow> same_account m m'"
  by (auto simp: cancel_def err_simps Let_def same_account_def split: if_splits)

lemma process_bar_split:
  assumes "process_bar u b m = Inr (fs, m')"
  obtains m1 out where "advance_to_bar b m = Inr (m1, out)" "fs = []" "m' = m1"
  | m1 out cap where "advance_to_bar b m = Inr (m1, out)" "bar_capacity m1 b = Inr cap" "0 < dval cap"
      "fill_loop u b (eligible_states m1 b) cap m1 = Inr (fs, m')"
proof -
  from assms obtain m1 out where m1: "advance_to_bar b m = Inr (m1, out)"
    by (auto simp: process_bar_def err_simps)
  show thesis
  proof (cases "bar_complete b")
    case True
    with assms m1 obtain cap where cap: "bar_capacity m1 b = Inr cap"
      by (auto simp: process_bar_def err_simps)
    show thesis
    proof (cases "dle cap dzero")
      case False
      with assms m1 True cap that(2) [OF m1 cap] show thesis by (simp add: process_bar_def dle_iff)
    qed (use assms m1 True cap that(1) in \<open>simp add: process_bar_def\<close>)
  qed (use assms m1 that(1) in \<open>simp add: process_bar_def\<close>)
qed

lemma process_bar_account:
  assumes "process_bar u b m = Inr (fs, m')" "account_ok m"
  shows "account_ok m' \<and> reconciles fs m m'"
  using assms(1)
proof (cases rule: process_bar_split)
  case (1 m1 out)
  have "same_account m m1" using epostD [OF advance_to_bar_account 1(1)] by simp
  then show ?thesis using 1 assms(2) same_account_views reconciles_Nil by blast
next
  case (2 m1 out cap)
  have a: "same_account m m1" using epostD [OF advance_to_bar_account 2(1)] by simp
  with assms(2) have "account_ok m1" using same_account_views by blast
  from fill_loop_account [OF 2(4) this] reconciles_same [OF a] show ?thesis by blast
qed

lemma qquantity_nonneg: "qquantity d f = Inr q \<Longrightarrow> 0 \<le> dval d \<Longrightarrow> 0 \<le> dval q"
  using qmoney_nonneg [of d q] qquantity_whole(1) [of d q] rhe_mono [of 0 "dval d"] rhe_of_int [of 0]
  by (cases f) (auto simp: qquantity_fractional)

text \<open>Seeding adds one lot and nothing else; it is possible only before the first fill.\<close>

lemma seed_account:
  assumes "seed_long_position iid q c m = Inr m'" "account_ok m"
  shows "account_ok m'" "em_cash m' = em_cash m" "em_fills m' = em_fills m" "em_ledger m' = em_ledger m" "em_fills m = []"
proof -
  obtain k q' basis where "exec_positive q ''quantity'' = Inr q" "exec_positive c ''unit_cost'' = Inr c"
    and q': "qquantity q (enabled_for (em_fractional_policy m) k) = Inr q'" and b: "qmoney (mul28 q' c) = Inr basis"
    and m': "m' = m\<lparr>em_lots := dict_put k (lots_of m k @ [\<lparr>lot_quantity = q', lot_cost_basis = basis\<rparr>]) (em_lots m)\<rparr>"
    and "em_fills m = []"
    using assms(1) by (auto simp: seed_long_position_def exec_positive_def err_simps split: if_splits)
  have c: "0 < dval q" "0 < dval c"
    using assms(1) by (auto simp: seed_long_position_def exec_positive_def err_simps dle_iff split: if_splits)
  have q: "0 \<le> dval q'" "is_quantity q'"
    using qquantity_nonneg [OF q'] c qquantity_Inr [OF q'] by simp_all
  have "0 \<le> dval basis" by (rule qmoney_nonneg [OF b dmul_nonneg]) (use q c in simp_all)
  moreover have "dval basis = 0" if "dval q' = 0"
  proof -
    have "dval (mul28 q' c) = 0" using that by (auto simp: dval_zero_iff dmul_def dfix_def Let_def div_half_even_def)
    then show ?thesis using qmoney_grid [OF b] by simp
  qed
  ultimately have "\<forall>l\<in>set (lots_of m k @ [\<lparr>lot_quantity = q', lot_cost_basis = basis\<rparr>]). lot_ok l"
    using lots_of_ok [OF assms(2)] q qmoney_Inr(1) [OF b] by (auto simp: lot_ok_def)
  from account_ok_put [OF assms(2) this] show "account_ok m'" unfolding m' .
  show "em_cash m' = em_cash m" "em_fills m' = em_fills m" "em_ledger m' = em_ledger m" "em_fills m = []"
    by (simp_all add: m' \<open>em_fills m = []\<close>)
qed

lemma new_account: "exec_model_new p c l ms fp = Inr m \<Longrightarrow> account_ok m \<and> em_fills m = [] \<and> em_ledger m = []"
  using qmoney_Inr(1) by (auto simp: exec_model_new_def err_simps account_ok_def)

lemma engine_step_account:
  assumes "engine_step u m m'" "account_ok m"
  shows "account_ok m'"
  using assms(1)
proof cases
  case step_seed then show ?thesis using seed_account(1) assms(2) by blast
next
  case step_submit then show ?thesis using submit_account same_account_views assms(2) by blast
next
  case step_cancel then show ?thesis using cancel_account same_account_views assms(2) by blast
next
  case (step_advance d out)
  have "same_account m m'" using epostD [OF advance_time_account step_advance] by simp
  then show ?thesis using same_account_views assms(2) by blast
next
  case step_bar then show ?thesis using process_bar_account assms(2) by blast
qed

lemma reachable_account_ok: "reachable u m \<Longrightarrow> account_ok m"
  by (induction rule: reachable.induct) (use new_account engine_step_account in blast)+

text \<open>Cash and the ledger are the fold of the recorded fills over the initial cash.\<close>

definition books_from :: "rat \<Rightarrow> exec_model \<Rightarrow> bool" where
  "books_from c m \<longleftrightarrow> account_ok m \<and> dval (em_cash m) = c + sum_list (map cash_flow (em_fills m)) \<and>
     list_all2 posted (em_fills m) (em_ledger m) \<and> (\<forall>f\<in>set (em_fills m). profit_ok f)"

lemma books_same: "same_account m m' \<Longrightarrow> books_from c m \<Longrightarrow> books_from c m'"
  using same_account_views [of m m'] by (simp add: books_from_def same_account_def)

lemma books_step:
  assumes "engine_step u m m'" "books_from c m"
  shows "books_from c m'"
  using assms(1)
proof cases
  case (step_seed iid q c')
  have ok: "account_ok m" using assms(2) by (simp add: books_from_def)
  note s = seed_account [OF step_seed ok]
  show ?thesis using assms(2) s(1) by (simp add: books_from_def s(2-4))
next
  case step_submit then show ?thesis using submit_account books_same assms(2) by blast
next
  case step_cancel then show ?thesis using cancel_account books_same assms(2) by blast
next
  case (step_advance d out)
  have "same_account m m'" using epostD [OF advance_time_account step_advance] by simp
  then show ?thesis using books_same assms(2) by blast
next
  case (step_bar b fs)
  have "account_ok m" using assms(2) by (simp add: books_from_def)
  from process_bar_account [OF step_bar this] assms(2) show ?thesis
    by (auto simp: books_from_def reconciles_def list_all2_appendI)
qed

lemma books_run:
  "(engine_step u)\<^sup>*\<^sup>* m m' \<Longrightarrow> books_from c m \<Longrightarrow> books_from c m'"
  by (induction rule: rtranclp_induct) (use books_step in blast)+

lemma ledger_balance_posted:
  assumes "list_all2 posted fs txs"
  shows "sum_list (map (entries_balance CASH \<circ> lx_entries) txs) = sum_list (map cash_flow fs)"
    "sum_list (map (entries_balance SECURITY \<circ> lx_entries) txs) = sum_list (map cost_flow fs)"
    "sum_list (map (entries_balance FEE_EXPENSE \<circ> lx_entries) txs) = sum_list (map (dval \<circ> fl_fee) fs)"
    "sum_list (map (entries_balance REALIZED_PNL \<circ> lx_entries) txs) = - sum_list (map (dval \<circ> fl_realized_pnl) fs)"
  using assms by (induction rule: list_all2_induct) (auto simp: posted_def posts_def)

end
