(* ===== verification/Exec_Accounting.thy ===== *)
theory Exec_Accounting
  imports Exec_Safety Exec_Ledger
begin

text \<open>
  What the account promises, stated over the public operations of the execution model: cash
  is the initial cash plus the cash account of the ledger, every transaction balances to the
  last unit, bars move cash, shares and cost by exactly what their fills say, and sales
  consume the oldest lots first.
\<close>

section \<open>The abstract account\<close>

text \<open>
  An account in exact arithmetic, without decimals, lots or a ledger: what the engine's account is an
  implementation of.
\<close>

record account =
  ac_cash :: rat
  ac_cost :: rat
  ac_held :: "string \<Rightarrow> rat"

definition account_of :: "exec_model \<Rightarrow> account" where
  "account_of m = \<lparr>ac_cash = dval (em_cash m), ac_cost = inventory m, ac_held = held m\<rparr>"

definition book_fill :: "fill \<Rightarrow> account \<Rightarrow> account" where
  "book_fill f a = \<lparr>ac_cash = ac_cash a + cash_flow f, ac_cost = ac_cost a + cost_flow f,
     ac_held = (ac_held a)(fl_instrument_id f := ac_held a (fl_instrument_id f) + share_flow f)\<rparr>"

lemma fold_book_fill:
  "fold book_fill fs a = \<lparr>ac_cash = ac_cash a + sum_list (map cash_flow fs), ac_cost = ac_cost a + sum_list (map cost_flow fs),
     ac_held = (\<lambda>iid. ac_held a iid + shares_moved iid fs)\<rparr>"
  by (induction fs arbitrary: a) (auto simp: book_fill_def shares_moved_def)

lemma reconciles_refines: "reconciles fs m m' \<Longrightarrow> account_of m' = fold book_fill fs (account_of m)"
  by (auto simp: fold_book_fill account_of_def reconciles_def)

section \<open>Balances\<close>

definition entries_sum :: "ledger_entry list \<Rightarrow> rat" where
  "entries_sum es = sum_list (map (\<lambda>e. signed_amount (le_direction e) (le_amount e)) es)"

lemma entries_sum_accounts:
  "entries_sum es = entries_balance CASH es + entries_balance SECURITY es +
     entries_balance FEE_EXPENSE es + entries_balance REALIZED_PNL es"
proof (induction es)
  case (Cons e es)
  then show ?case by (cases "le_account_code e") (simp_all add: entries_sum_def)
qed (simp add: entries_sum_def)

lemma posted_balances: "posted f tx \<Longrightarrow> profit_ok f \<Longrightarrow> entries_sum (lx_entries tx) = 0"
  by (cases "fl_side f") (simp_all add: entries_sum_accounts posted_def posts_def flow_defs)

lemma flows_balance: "\<forall>f\<in>set fs. profit_ok f \<Longrightarrow>
  sum_list (map cash_flow fs) + sum_list (map cost_flow fs) =
    sum_list (map (dval \<circ> fl_realized_pnl) fs) - sum_list (map (dval \<circ> fl_fee) fs)"
proof (induction fs)
  case (Cons f fs)
  then show ?case by (cases "fl_side f") (simp_all add: flow_defs)
qed simp

lemma held_nonneg:
  assumes "account_ok m"
  shows "0 \<le> held m iid"
  unfolding held_def lots_quantity_def
  by (rule sum_list_nonneg) (use lots_of_ok [OF assms] in \<open>auto simp: lot_ok_def\<close>)

lemma reachable_books:
  assumes "reachable u m"
  shows "\<exists>c. books_from c m"
  using assms
proof (induction rule: reachable.induct)
  case (reach_new p c l ms fp m)
  then show ?case using new_account [OF reach_new] by (auto simp: books_from_def)
next
  case (reach_step m m')
  then show ?case using books_step by blast
qed

text \<open>
  C3. Cash never drifts from the books: whatever sequence of operations follows the
  construction of the engine, the cash balance is the initial cash plus the cash account of
  the ledger as an exact sum, each fill has exactly one ledger transaction, in order and
  under its identifiers, and the fee, profit and security accounts are the sums over the fills.
\<close>

theorem cash_is_initial_cash_plus_ledger:
  assumes "exec_model_new p c l ms fp = Inr m0" "(engine_step u)\<^sup>*\<^sup>* m0 m"
  shows "dval (em_cash m) = dval (em_cash m0) + ledger_balance CASH m \<and>
    list_all2 posted (em_fills m) (em_ledger m) \<and>
    ledger_balance FEE_EXPENSE m = sum_list (map (dval \<circ> fl_fee) (em_fills m)) \<and>
    ledger_balance REALIZED_PNL m = - sum_list (map (dval \<circ> fl_realized_pnl) (em_fills m)) \<and>
    ledger_balance SECURITY m = sum_list (map cost_flow (em_fills m))"
proof -
  have "books_from (dval (em_cash m0)) m0" using new_account [OF assms(1)] by (simp add: books_from_def)
  from books_run [OF assms(2) this] have b: "books_from (dval (em_cash m0)) m" .
  then have p: "list_all2 posted (em_fills m) (em_ledger m)" by (simp add: books_from_def)
  from b show ?thesis by (simp add: books_from_def ledger_balance_def ledger_balance_posted [OF p])
qed

lemma demo_run: "(engine_step demo_uuid5)\<^sup>*\<^sup>* demo_model demo_filled"
proof -
  have "engine_step demo_uuid5 demo_model demo_open" using demo_submit by (rule step_submit)
  moreover have "engine_step demo_uuid5 demo_open demo_filled" using demo_process by (rule step_bar)
  ultimately show ?thesis by (meson converse_rtranclp_into_rtranclp rtranclp.rtrancl_refl)
qed

theorem cash_is_initial_cash_plus_ledger_witness:
  "dval (em_cash demo_filled) = dval (em_cash demo_model) + ledger_balance CASH demo_filled \<and>
   dval (em_cash demo_filled) = 79949980000 / 10 ^ 8"
  using cash_is_initial_cash_plus_ledger [OF demo_model_new demo_run]
  by (simp add: demo_filled_def dval_scaled_Dec powi_minus8)

text \<open>
  C18. Double entry: in every reachable state the debits of each ledger transaction equal its
  credits exactly, not only up to the rounding of the decimal context the check is made in.
\<close>

theorem every_transaction_balances:
  assumes "reachable u m" "tx \<in> set (em_ledger m)"
  shows "entries_sum (lx_entries tx) = 0"
proof -
  obtain c where b: "books_from c m" using reachable_books [OF assms(1)] by blast
  obtain i where i: "i < length (em_ledger m)" "tx = em_ledger m ! i"
    using assms(2) by (auto simp: in_set_conv_nth)
  then have "posted (em_fills m ! i) tx" "em_fills m ! i \<in> set (em_fills m)"
    using b by (auto simp: books_from_def list_all2_conv_all_nth)
  with b show ?thesis by (intro posted_balances) (auto simp: books_from_def)
qed

theorem every_transaction_balances_witness:
  "length (em_ledger demo_filled) = 1 \<and> entries_sum (lx_entries (hd (em_ledger demo_filled))) = 0"
  using every_transaction_balances [OF demo_reachable(3), of "hd (em_ledger demo_filled)"]
  by (simp add: demo_filled_def)

text \<open>
  C4. A bar refines the booking of its fills in exact arithmetic: seen through the abstraction,
  the account after the bar is the abstract account with each fill booked in turn, although the
  engine works in rounded decimals; the fills are appended to the log, no holding becomes short,
  and the book value changes by the realised profit less the fees.
\<close>

theorem bar_refines_exact_bookkeeping:
  assumes "reachable u m" "process_bar u b m = Inr (fs, m')"
  shows "account_of m' = fold book_fill fs (account_of m) \<and> em_fills m' = em_fills m @ fs \<and>
    (\<forall>iid. 0 \<le> ac_held (account_of m') iid) \<and>
    (ac_cash (account_of m') + ac_cost (account_of m')) - (ac_cash (account_of m) + ac_cost (account_of m)) =
      sum_list (map (dval \<circ> fl_realized_pnl) fs) - sum_list (map (dval \<circ> fl_fee) fs)"
proof -
  have r: "account_ok m'" "reconciles fs m m'"
    using process_bar_account [OF assms(2) reachable_account_ok [OF assms(1)]] by simp_all
  then have "\<forall>f\<in>set fs. profit_ok f" by (simp add: reconciles_def)
  from flows_balance [OF this] have "(ac_cash (account_of m') + ac_cost (account_of m')) - (ac_cash (account_of m) + ac_cost (account_of m)) =
      sum_list (map (dval \<circ> fl_realized_pnl) fs) - sum_list (map (dval \<circ> fl_fee) fs)"
    using r(2) by (simp add: reconciles_def account_of_def)
  moreover have "\<forall>iid. 0 \<le> ac_held (account_of m') iid" using held_nonneg [OF r(1)] by (simp add: account_of_def)
  ultimately show ?thesis using reconciles_refines [OF r(2)] r(2) by (simp add: reconciles_def)
qed

theorem bar_refines_exact_bookkeeping_witness:
  "account_of demo_filled = book_fill demo_fill (account_of demo_open) \<and>
   ac_held (account_of demo_filled) (uuid_text 187) = ac_held (account_of demo_open) (uuid_text 187) + 2"
  using bar_refines_exact_bookkeeping [OF demo_reachable(2) demo_process]
  by (simp add: book_fill_def demo_fill_def share_flow_def dval_scaled_Dec)

text \<open>
  C19. Sales are first in, first out: selling a quantity removes exactly that quantity and
  exactly the reported cost basis, from the oldest lots of that instrument (whole lots from
  the front and part of the next), and leaves every other instrument's lots alone.
\<close>

theorem sales_consume_the_oldest_lots:
  assumes "reachable u m" "qquantity d fractional = Inr q" "0 < dval q" "consume_fifo iid q m = Inr (basis, m')"
  shows "taken_from_front (lots_of m iid) (lots_of m' iid) \<and> held m' iid = held m iid - dval q \<and>
    dval basis = lots_basis (lots_of m iid) - lots_basis (lots_of m' iid) \<and> is_money basis \<and>
    (\<forall>k. k \<noteq> iid \<longrightarrow> lots_of m' k = lots_of m k)"
  by (rule consume_fifo_correct [OF assms(4) reachable_account_ok [OF assms(1)] qquantity_Inr [OF assms(2)] assms(3)])
    (simp add: lots_of_put held_def)

theorem sales_consume_the_oldest_lots_witness:
  "\<exists>basis m'. consume_fifo (uuid_text 187) (Dec False 1 0) demo_filled = Inr (basis, m') \<and>
     held m' (uuid_text 187) = held demo_filled (uuid_text 187) - 1 \<and>
     dval basis = lots_basis (lots_of demo_filled (uuid_text 187)) - lots_basis (lots_of m' (uuid_text 187)) \<and>
     basis = Dec False 10005000000 (- 8)"
proof -
  have q: "qquantity (Dec False 1 0) False = Inr (Dec False 1 0)"
    by (simp add: money_eval dec_eval cong: ebind_weak_cong)
  have d: "div28 (mul28 (Dec False 20010000000 (- 8)) (Dec False 1 0)) (Dec False 2 0) = Inr (Dec False 10005000000 (- 8))"
    by (simp add: money_eval dec_eval)
  have l: "fifo_loop (Dec False 1 0) dzero (lots_of demo_filled (uuid_text 187)) =
     Inr (Dec False 10005000000 (- 8), [\<lparr>lot_quantity = Dec False 1 0, lot_cost_basis = Dec False 10005000000 (- 8)\<rparr>])"
    using d by (simp add: fifo_loop.simps demo_filled_def lots_of_def consumed_basis_def money_eval dec_eval cong: ebind_weak_cong)
  obtain m' where c: "consume_fifo (uuid_text 187) (Dec False 1 0) demo_filled = Inr (Dec False 10005000000 (- 8), m')"
    using l by (simp add: consume_fifo_def money_eval dec_eval cong: ebind_weak_cong)
  from sales_consume_the_oldest_lots [OF demo_reachable(3) q _ c] show ?thesis
    using c by (auto simp: dval_scaled_Dec)
qed

end
