(* ===== verification/Exec_Quantities.thy ===== *)
theory Exec_Quantities
  imports Exec_Accounting
begin

text \<open>
  Quantities of orders: an accepted order's filled and remaining quantities always add up to
  its quantized request, its fills in the log add up to its filled quantity, it is never
  overfilled, and the fills of one bar stay within the allowed share of the bar's volume.
\<close>

section \<open>The sizes of one order\<close>

definition order_fills :: "string \<Rightarrow> fill list \<Rightarrow> rat" where
  "order_fills k fs = sum_list (map (dval \<circ> fl_quantity) (filter (\<lambda>f. fl_order_id f = k) fs))"

lemma order_fills_simps [simp]:
  "order_fills k [] = 0"
  "order_fills k (f # fs) = (if fl_order_id f = k then dval (fl_quantity f) else 0) + order_fills k fs"
  "order_fills k (fs @ gs) = order_fills k fs + order_fills k gs"
  by (simp_all add: order_fills_def)

text \<open>A stored quantity: quantized for the order's mode and with no positive exponent.\<close>

definition stored :: "bool \<Rightarrow> decimal \<Rightarrow> bool" where
  "stored f q \<longleftrightarrow> is_quantity q \<and> mode_grid f (dval q) \<and> dexp q \<le> 0"

lemma qquantity_stored: "qquantity d f = Inr q \<Longrightarrow> stored f q"
proof -
  assume q: "qquantity d f = Inr q"
  have "dexp q \<le> 0"
  proof (cases f)
    case True
    then show ?thesis using q qmoney_Inr(1) [of d q] by (simp add: qquantity_fractional is_money_def)
  next
    case False
    then show ?thesis using q by (auto simp: qquantity_def quantize_quantity_whole Let_def dec_of_int_def split: if_splits)
  qed
  then show ?thesis using q qquantity_Inr qquantity_mode_grid by (simp add: stored_def)
qed

definition sized :: "order_state \<Rightarrow> bool" where
  "sized s \<longleftrightarrow> stored (fractional_order s) (os_filled_quantity s) \<and> 0 \<le> dval (os_filled_quantity s) \<and>
     (\<forall>r. os_remaining_quantity s = Some r \<longrightarrow> stored (fractional_order s) r) \<and>
     (os_remaining_notional s = None \<longrightarrow> (\<forall>r. os_remaining_quantity s = Some r \<longrightarrow>
        (\<exists>d q0. or_quantity (os_request s) = Some d \<and> qquantity d (fractional_order s) = Inr q0 \<and>
          dval (os_filled_quantity s) + dval r = dval q0 \<and>
          (0 < dval (os_filled_quantity s) \<longrightarrow> 0 \<le> dval r)) \<and>
        (os_status s = FILLED \<longrightarrow> dval r = 0)))"

lemma same_sizes:
  assumes "sized s" "os_request s' = os_request s" "os_remaining_quantity s' = os_remaining_quantity s"
    "os_remaining_notional s' = os_remaining_notional s" "os_filled_quantity s' = os_filled_quantity s"
    "os_status s' = FILLED \<longrightarrow> os_status s = FILLED"
  shows "sized s'"
  using assms unfolding sized_def fractional_order_def by auto

text \<open>The sizes of all orders, against the log of fills.\<close>

definition sizes_ok :: "exec_model \<Rightarrow> bool" where
  "sizes_ok m \<longleftrightarrow>
     (\<forall>k. map_of (em_orders m) k = None \<longrightarrow> order_fills k (em_fills m) = 0) \<and>
     (\<forall>k s. map_of (em_orders m) k = Some s \<longrightarrow>
        order_fills k (em_fills m) = dval (os_filled_quantity s) \<and> (os_status s \<noteq> REJECTED \<longrightarrow> sized s))"

lemma sizes_okD:
  assumes "sizes_ok m"
  shows "map_of (em_orders m) k = Some s \<Longrightarrow> order_fills k (em_fills m) = dval (os_filled_quantity s)"
    "map_of (em_orders m) k = Some s \<Longrightarrow> os_status s \<noteq> REJECTED \<Longrightarrow> sized s"
    "map_of (em_orders m) k = None \<Longrightarrow> order_fills k (em_fills m) = 0"
  using assms unfolding sizes_ok_def by simp_all

lemma sizes_ok_put:
  assumes "sizes_ok m" "em_orders m' = dict_put k s' (em_orders m)" "em_fills m' = em_fills m @ fs"
    "\<And>j. j \<noteq> k \<Longrightarrow> order_fills j fs = 0"
    "order_fills k (em_fills m) + order_fills k fs = dval (os_filled_quantity s')"
    "os_status s' \<noteq> REJECTED \<Longrightarrow> sized s'"
  shows "sizes_ok m'"
  unfolding sizes_ok_def
proof (intro conjI allI impI)
  fix j assume "map_of (em_orders m') j = None"
  then have "j \<noteq> k" "map_of (em_orders m) j = None" using assms(2) by (auto split: if_splits)
  then show "order_fills j (em_fills m') = 0" using sizes_okD(3) [OF assms(1)] assms(3,4) by simp
next
  fix j s assume s: "map_of (em_orders m') j = Some s"
  have "order_fills j (em_fills m') = dval (os_filled_quantity s) \<and> (os_status s \<noteq> REJECTED \<longrightarrow> sized s)"
  proof (cases "j = k")
    case True
    then show ?thesis using s assms by simp
  next
    case False
    then have "map_of (em_orders m) j = Some s" using s assms(2) by simp
    with sizes_okD(1,2) [OF assms(1) this] False show ?thesis using assms(3,4) by simp
  qed
  then show "order_fills j (em_fills m') = dval (os_filled_quantity s)" "os_status s \<noteq> REJECTED \<Longrightarrow> sized s"
    by simp_all
qed

lemma sizes_ok_cong: "em_orders m' = em_orders m \<Longrightarrow> em_fills m' = em_fills m \<Longrightarrow> sizes_ok m' = sizes_ok m"
  by (simp only: sizes_ok_def)

section \<open>One fill\<close>

lemma stored_sub:
  assumes "stored f a" "stored f b" "qquantity (sub28 a b) f = Inr q"
  shows "dval q = dval a - dval b"
  using qquantity_grid [OF assms(3)] sub28_money(1) [of a b] mode_grid_diff [of f "dval a" "dval b"] assms(1,2)
  by (simp add: stored_def)

lemma stored_add:
  assumes "stored f a" "stored f b" "qquantity (add28 a b) f = Inr q"
  shows "dval q = dval a + dval b"
  using qquantity_grid [OF assms(3)] add28_money(1) [of a b] mode_grid_add [of f "dval a" "dval b"] assms(1,2)
  by (simp add: stored_def)

lemma assert_some_Inr: "assert_some x = Inr y \<longleftrightarrow> x = Some y"
  by (cases x) simp_all

text \<open>What the remainder step writes.\<close>

lemma advance_remainder_writes:
  assumes "advance_remainder s q g p m = Inr m'" "is_open s"
  shows "\<exists>s'. em_orders m' = dict_put (os_id s) s' (em_orders m) \<and> os_request s' = os_request s \<and>
    os_filled_quantity s' = os_filled_quantity s \<and> os_status s' \<noteq> REJECTED \<and>
    (os_remaining_notional s \<noteq> None \<longrightarrow> os_remaining_notional s' \<noteq> None \<and> os_remaining_quantity s' = os_remaining_quantity s) \<and>
    (os_remaining_notional s = None \<longrightarrow> os_remaining_notional s' = None \<and> (\<exists>r r'. os_remaining_quantity s = Some r \<and>
         qquantity (sub28 r q) (fractional_order s) = Inr r' \<and> os_remaining_quantity s' = Some r' \<and>
         (os_status s' = FILLED \<longrightarrow> dval r' = 0)))"
proof -
  have refresh: "os_request s'' = os_request s' \<and> os_filled_quantity s'' = os_filled_quantity s' \<and>
      os_status s'' = os_status s' \<and> os_remaining_notional s'' = os_remaining_notional s' \<and>
      os_remaining_quantity s'' = os_remaining_quantity s'"
    if "refresh_reservation n s' = Inr s''" for n s' s''
    using that by (auto simp: refresh_reservation_def err_simps split: order_side.splits prod.splits)
  show ?thesis
  proof (cases "os_remaining_notional s")
    case None
    with assms(1) obtain r r' where r: "os_remaining_quantity s = Some r"
      "qquantity (sub28 r q) (fractional_order s) = Inr r'"
      by (auto simp: advance_remainder_def err_simps fractional_order_def assert_some_Inr)
    let ?s = "s\<lparr>os_remaining_quantity := Some r'\<rparr>"
    show ?thesis
    proof (cases "deq r' dzero")
      case True
      with assms(1) None r have "m' = close_order (os_id s) (put_state (release_reservation (?s\<lparr>os_status := FILLED\<rparr>)) m)"
        by (simp add: advance_remainder_def fractional_order_def)
      then show ?thesis using None r True
        by (intro exI [of _ "release_reservation (?s\<lparr>os_status := FILLED\<rparr>)"]) (simp add: release_reservation_def deq_iff)
    next
      case False
      with assms(1) None r obtain s'' where s'': "refresh_reservation m (?s\<lparr>os_status := PARTIALLY_FILLED\<rparr>) = Inr s''" "m' = put_state s'' m"
        by (auto simp: advance_remainder_def fractional_order_def err_simps)
      then show ?thesis using None r refresh [OF s''(1)] by (intro exI [of _ s'']) simp
    qed
  next
    case (Some n)
    with assms(1) obtain n' where n': "qmoney (dmax (sub28 n g) dzero) = Inr n'"
      by (auto simp: advance_remainder_def err_simps)
    let ?s = "s\<lparr>os_remaining_notional := Some n'\<rparr>"
    show ?thesis
    proof (cases "dless n' (mul28 p QUANTITY_QUANTUM)")
      case True
      with assms(1) Some n' have "m' = close_order (os_id s) (put_state (release_reservation (?s\<lparr>os_status := FILLED\<rparr>)) m)"
        by (simp add: advance_remainder_def)
      then show ?thesis using Some
        by (intro exI [of _ "release_reservation (?s\<lparr>os_status := FILLED\<rparr>)"]) (simp add: release_reservation_def)
    next
      case False
      with assms(1) Some n' obtain s'' where s'': "refresh_reservation m (?s\<lparr>os_status := PARTIALLY_FILLED\<rparr>) = Inr s''" "m' = put_state s'' m"
        by (auto simp: advance_remainder_def err_simps)
      then show ?thesis using Some refresh [OF s''(1)] by (intro exI [of _ s'']) simp
    qed
  qed
qed

section \<open>Caps\<close>

lemma short_room: "room_over a p = Inr c \<Longrightarrow> short c"
  by (simp add: room_over_def short_div28)

lemma caps_short:
  assumes "caps_of m s price = Inr caps" "\<And>r. os_remaining_quantity s = Some r \<Longrightarrow> short r" "d \<in> set caps"
  shows "short d"
proof (cases "or_side (os_request s)")
  case BUY
  with assms(1) have "buy_caps m s price = Inr caps" by (simp add: caps_of_def)
  then show ?thesis using assms(2,3)
    by (auto simp: buy_caps_def own_position_cap_def err_simps Let_def assert_some_Inr
        dest: short_room short_div28 split: option.splits)
next
  case SELL
  with assms(1) have "sell_caps m s = Inr caps" by (simp add: caps_of_def)
  then show ?thesis using assms(2,3) short_dsum
    by (auto simp: sell_caps_def position_def err_simps assert_some_Inr)
qed

lemma caps_remaining:
  assumes "caps_of m s price = Inr caps" "os_remaining_notional s = None"
  shows "\<exists>r. os_remaining_quantity s = Some r \<and> r \<in> set caps"
  using assms
  by (auto simp: caps_of_def sell_caps_def buy_caps_def err_simps Let_def assert_some_Inr split: order_side.splits)

lemma fillable_bounds:
  assumes q: "fillable_quantity m s price cap = Inr q" "0 < dval q" and s: "sized s" and cap: "short cap"
  shows "stored (fractional_order s) q" "dval q \<le> dval cap"
    "os_remaining_notional s = None \<Longrightarrow> os_remaining_quantity s = Some r \<Longrightarrow> dval q \<le> dval r"
proof -
  obtain caps where caps: "caps_of m s price = Inr caps"
    using q(1) by (auto simp: fillable_quantity_caps err_simps)
  have "short r" if "os_remaining_quantity s = Some r" for r
    using s that by (intro short_quantity) (auto simp: sized_def stored_def)
  then have short: "\<forall>d\<in>set (cap # caps). short d" using caps_short [OF caps] cap by auto
  let ?l = "dval (dmin_list cap caps)" and ?u = "dval (mode_quantum (fractional_order s))"
  note f = fillable_quantity_floor [OF q(1) caps short]
  have "dval q \<le> ?l"
    using f(1) q(2) floor_quantum_bounds(1) [OF dval_mode_quantum_pos, of ?l "fractional_order s"] by (auto split: if_splits)
  then have le: "dval q \<le> dval d" if "d \<in> set (cap # caps)" for d
    using dmin_list_le [OF that] by linarith
  then show "dval q \<le> dval cap" by simp
  show "stored (fractional_order s) q"
    using q(1) by (auto simp: fillable_quantity_caps err_simps qquantity_stored)
  show "dval q \<le> dval r" if "os_remaining_notional s = None" "os_remaining_quantity s = Some r"
    using caps_remaining [OF caps that(1)] that(2) le by auto
qed

section \<open>Recording a fill keeps the sizes\<close>

lemma record_fill_sizes:
  assumes rec: "record_fill u s t q base price m = Inr (f, m')" and m: "sizes_ok m"
    "map_of (em_orders m) (os_id s) = Some s" "is_open s"
    and q: "stored (fractional_order s) q" "0 < dval q"
      "\<And>r. os_remaining_notional s = None \<Longrightarrow> os_remaining_quantity s = Some r \<Longrightarrow> dval q \<le> dval r"
  shows "sizes_ok m'"
proof -
  from rec obtain gross fee m1 basis pnl es tx filled m2 where
    st: "settle u (s\<lparr>os_fill_sequence := os_fill_sequence s + 1\<rparr>)
       (u (fill_name (os_id s) (os_fill_sequence s + 1))) q gross fee m = Inr (m1, basis, pnl, es)"
    and fi: "qquantity (add28 (os_filled_quantity s) q) (or_quantity_mode (os_request s) \<noteq> WHOLE_SHARES) = Inr filled"
    and adv: "advance_remainder (s\<lparr>os_fill_sequence := os_fill_sequence s + 1, os_filled_quantity := filled\<rparr>)
       q gross price (m1\<lparr>em_ledger := em_ledger m1 @ [tx]\<rparr>) = Inr m2"
    and f: "fl_order_id f = os_id s" "fl_quantity f = q"
    and m': "m' = m2\<lparr>em_fills := em_fills m2 @ [f]\<rparr>"
    by (rule record_fill_inv) auto
  let ?s = "s\<lparr>os_fill_sequence := os_fill_sequence s + 1, os_filled_quantity := filled\<rparr>"
  have sz: "sized s" using sizes_okD(2) [OF m(1,2)] m(3) by (auto simp: is_open_def)
  have fv: "dval filled = dval (os_filled_quantity s) + dval q" "stored (fractional_order s) filled"
    using stored_add [OF _ q(1)] fi sz qquantity_stored [OF fi] by (auto simp: sized_def fractional_order_def)
  have open': "is_open ?s" using m(3) by (simp add: is_open_def)
  have fr: "fractional_order (s\<lparr>os_fill_sequence := i, os_filled_quantity := r\<rparr>) = fractional_order s" for i r
    by (simp add: fractional_order_def)
  from advance_remainder_writes [OF adv open', unfolded fr] obtain s' where
    w: "em_orders m2 = dict_put (os_id s) s' (em_orders m1)" "os_request s' = os_request s"
      "os_filled_quantity s' = filled" "os_status s' \<noteq> REJECTED"
    and c: "os_remaining_notional s \<noteq> None \<longrightarrow> os_remaining_notional s' \<noteq> None \<and> os_remaining_quantity s' = os_remaining_quantity s"
      "os_remaining_notional s = None \<longrightarrow> os_remaining_notional s' = None \<and> (\<exists>r r'. os_remaining_quantity s = Some r \<and>
         qquantity (sub28 r q) (fractional_order s) = Inr r' \<and> os_remaining_quantity s' = Some r' \<and>
         (os_status s' = FILLED \<longrightarrow> dval r' = 0))"
    by simp metis
  have fr': "fractional_order s' = fractional_order s" using w(2) by (simp add: fractional_order_def)
  have "sized s'"
  proof (cases "os_remaining_notional s")
    case (Some n)
    with c sz fv q(2) w show ?thesis by (auto simp: sized_def fr')
  next
    case None
    with c obtain r r' where r: "os_remaining_quantity s = Some r" "qquantity (sub28 r q) (fractional_order s) = Inr r'"
      "os_remaining_quantity s' = Some r'" "os_status s' = FILLED \<longrightarrow> dval r' = 0" by auto
    have "dval r' = dval r - dval q"
      using stored_sub [OF _ q(1) r(2)] sz r(1) by (simp add: sized_def)
    then show ?thesis
      using sz None r fv q(2) q(3) [OF None r(1)] w qquantity_stored [OF r(2)] by (auto simp: sized_def fr')
  qed
  moreover have "em_orders m1 = em_orders m" "em_fills m1 = em_fills m"
    using epostD [OF settle_book st] epostD [OF settle_log st] by (simp_all add: same_book_def)
  moreover have "em_fills m2 = em_fills m1"
    using moves_order_account [OF epostD [OF advance_remainder_moves adv]] by (simp add: same_account_def)
  ultimately show ?thesis
    using w sizes_okD(1) [OF m(1,2)] f fv
    by (intro sizes_ok_put [OF m(1), of m' "os_id s" s' "[f]"]) (simp_all add: m')
qed

lemma base_price_sizes:
  "epost (base_price s b) (\<lambda>(s', _). os_request s' = os_request s \<and> os_status s' = os_status s \<and>
     os_remaining_quantity s' = os_remaining_quantity s \<and> os_remaining_notional s' = os_remaining_notional s \<and>
     os_filled_quantity s' = os_filled_quantity s)"
  unfolding base_price_def stop_limit_base_def trailing_base_def
  by (cases "or_order_type (os_request s)"; cases "or_side (os_request s)"; simp; intro epost_rules; simp)

lemma put_same_sizes:
  assumes "sizes_ok m" "map_of (em_orders m) (os_id s) = Some s" "os_request s' = os_request s"
    "os_remaining_quantity s' = os_remaining_quantity s" "os_remaining_notional s' = os_remaining_notional s"
    "os_filled_quantity s' = os_filled_quantity s" "os_status s \<noteq> REJECTED" "os_status s' = FILLED \<longrightarrow> os_status s = FILLED"
  shows "sizes_ok (put_state s' m)"
proof (rule sizes_ok_put [OF assms(1), of _ "os_id s" s' "[]"])
  show "sized s'" by (rule same_sizes [OF sizes_okD(2) [OF assms(1,2,7)] assms(3-6,8)])
qed (use sizes_okD(1) [OF assms(1,2)] assms(3,6) in simp_all)

definition total_filled :: "fill list \<Rightarrow> rat" where
  "total_filled fs = sum_list (map (dval \<circ> fl_quantity) fs)"

lemma fill_loop_sizes:
  assumes "fill_loop u b ss cap m = Inr (fs, m')" "current m ss" "sizes_ok m" "short cap"
  shows "sizes_ok m' \<and> (is_quantity cap \<longrightarrow> 0 \<le> dval cap \<longrightarrow> total_filled fs \<le> dval cap)"
proof (rule fill_loop_rule [where
      R = "\<lambda>cap _ fs m'. sizes_ok m' \<and> (is_quantity cap \<longrightarrow> 0 \<le> dval cap \<longrightarrow> total_filled fs \<le> dval cap)" and
      I = "\<lambda>ss cap m. current m ss \<and> sizes_ok m \<and> short cap", OF assms(1)])
  fix s ss cap m s' quote
  assume i: "current m (s # ss) \<and> sizes_ok m \<and> short cap" and bp: "base_price s b = Inr (s', quote)"
  have "map_of (em_orders m) (os_id s) = Some s" "os_status s \<noteq> REJECTED"
    using i by (auto simp: current_def is_open_def)
  then have "sizes_ok (put_state s' m)"
    using i epostD [OF base_price_sizes bp] by (intro put_same_sizes) auto
  then show "(current (put_state s' m) ss \<and> sizes_ok (put_state s' m) \<and> short cap) \<and>
      (\<forall>fs m'. sizes_ok m' \<and> (is_quantity cap \<longrightarrow> 0 \<le> dval cap \<longrightarrow> total_filled fs \<le> dval cap) \<longrightarrow>
        sizes_ok m' \<and> (is_quantity cap \<longrightarrow> 0 \<le> dval cap \<longrightarrow> total_filled fs \<le> dval cap))"
    using i skip_round(3) [OF _ bp] by blast
next
  fix s ss cap m s' quoted base price q f m2
  assume i: "current m (s # ss) \<and> sizes_ok m \<and> short cap" and bp: "base_price s b = Inr (s', Some quoted)"
    and q: "fillable_quantity (put_state s' m) s' price cap = Inr q" "0 < dval q"
    and rec: "record_fill u s' (bar_ends_at b) q base price (put_state s' m) = Inr (f, m2)"
  have s: "map_of (em_orders m) (os_id s) = Some s" "is_open s" "os_status s \<noteq> REJECTED"
    using i by (auto simp: current_def is_open_def)
  note same = epostD [OF base_price_sizes bp, simplified]
  have sz: "sizes_ok (put_state s' m)"
    using i s same by (intro put_same_sizes) auto
  have s': "map_of (em_orders (put_state s' m)) (os_id s') = Some s'" "is_open s'"
    using s same by (simp_all add: is_open_def)
  have "sized s'" by (rule sizes_okD(2) [OF sz s'(1)]) (use s(3) same in simp)
  note fb = fillable_bounds [OF q this]
  have cap: "short cap" using i by simp
  have "sizes_ok m2" by (rule record_fill_sizes [OF rec sz s' fb(1) [OF cap] q(2) fb(3) [OF cap]])
  moreover have "current m2 ss" using fill_round(3) [OF _ bp rec] i by blast
  moreover have "is_quantity (sub28 cap q) \<and> dval (sub28 cap q) = dval cap - dval q" if "is_quantity cap" "0 \<le> dval cap"
    using sub28_money [OF that(1)] fb(1,2) [OF cap] that q(2) by (simp add: stored_def is_quantity_def)
  moreover have "total_filled (f # fs) = dval q + total_filled fs" for fs
    using record_fill_fields(5) [OF rec] by (simp add: total_filled_def)
  ultimately show "(current m2 ss \<and> sizes_ok m2 \<and> short (sub28 cap q)) \<and>
      (\<forall>fs m'. sizes_ok m' \<and> (is_quantity (sub28 cap q) \<longrightarrow> 0 \<le> dval (sub28 cap q) \<longrightarrow> total_filled fs \<le> dval (sub28 cap q)) \<longrightarrow>
        sizes_ok m' \<and> (is_quantity cap \<longrightarrow> 0 \<le> dval cap \<longrightarrow> total_filled (f # fs) \<le> dval cap))"
    using short_sub28 fb(2) [OF cap] by auto
qed (use assms in \<open>simp_all add: total_filled_def\<close>)

section \<open>Every step keeps the sizes\<close>

lemma expire_loop_sizes:
  "current m ss \<Longrightarrow> sizes_ok m \<Longrightarrow> sizes_ok (fst (expire_loop now ss m))"
proof (induction ss arbitrary: m)
  case (Cons s ss)
  let ?m = "close_order (os_id s) (put_state (expired_state s) m)"
  have s: "map_of (em_orders m) (os_id s) = Some s" "os_status s \<noteq> REJECTED"
    using Cons.prems(1) by (auto simp: current_def is_open_def)
  have "sizes_ok (put_state (expired_state s) m)"
    by (rule put_same_sizes [OF Cons.prems(2) s(1)])
      (simp_all add: expired_state_def release_reservation_def s(2))
  then have "sizes_ok ?m" by (subst sizes_ok_cong [of _ "put_state (expired_state s) m"]) simp_all
  moreover have "current ?m ss" by (rule current_tail [OF Cons.prems(1) expire_moves])
  moreover have "current m ss" using Cons.prems(1) by (simp add: current_def)
  ultimately show ?case
    using Cons.IH [of m] Cons.IH [of ?m] Cons.prems(2)
    by (simp only: expire_loop_Cons split: if_split) simp
qed simp

lemma advance_clock_sizes:
  assumes "advance_clock now m = Inr (m', out)" "book_ok m" "sizes_ok m"
  shows "sizes_ok m'"
proof -
  have "current (m\<lparr>em_now := Some now\<rparr>) (sort_key order_key (open_states m))"
    using current_sorted [OF assms(2)] by (simp add: current_def)
  moreover have "sizes_ok (m\<lparr>em_now := Some now\<rparr>)" using assms(3) by (subst sizes_ok_cong [of _ m]) simp_all
  ultimately show ?thesis unfolding advance_clock_inv(1) [OF assms(1)] by (rule expire_loop_sizes)
qed

lemma advance_to_bar_sizes:
  assumes "advance_to_bar b m = Inr (m', out)" "book_ok m" "sizes_ok m"
  shows "sizes_ok m'"
  using assms advance_clock_sizes
  by (auto simp: advance_to_bar_def advance_time_clock err_simps split: option.splits if_splits)

section \<open>The capacity of a bar\<close>

lemma floor_to_power_short:
  assumes v: "0 < dval v" "short v" and r: "floor_to_quantum v (Dec False 1 e) = Inr r"
  shows "short r"
proof -
  have c: "dcoef v \<noteq> 0" using v(1) by (metis dval_zero_iff less_irrefl)
  have n: "\<not> dneg v" using v(1) dval_nonpos [of v] by linarith
  let ?t = "Dec (dneg v) (dcoef v) (dexp v - e)"
  have t: "ddiv working_precision v (Dec False 1 e) = Inr ?t"
    using ddiv_power_of_ten [OF _ c, of working_precision e] v(2) by (simp add: short_def)
  have k: "dcoef (to_integral_floor ?t) \<le> dcoef v" using to_integral_floor_coef [of ?t] n by simp
  have s: "dcoef v < 10 ^ working_precision"
    using v(2) by (simp add: short_def ndigits_le working_precision_def)
  have "r = dmul working_precision (to_integral_floor ?t) (Dec False 1 e)"
    using r v(1) t by (simp add: floor_to_quantum_def dle_iff)
  then have "dcoef r = dcoef (to_integral_floor ?t)"
    using dmul_is_exact(3) [of working_precision "to_integral_floor ?t" "Dec False 1 e"] k s
    by (simp add: working_precision_def)
  then have "dcoef r < 10 ^ working_precision" using k s by linarith
  then show ?thesis by (simp add: short_def ndigits_le working_precision_def)
qed

lemma bar_capacity_floor:
  assumes "bar_capacity m b = Inr cap" "0 < dval cap"
  obtains rate where "max_volume_participation_rate (em_microstructure m) = Inr rate"
    "short cap" "fine cap" "0 < dval (mul28 (bar_volume b) rate)" "dval cap \<le> dval (mul28 (bar_volume b) rate)"
proof -
  obtain rate where r: "max_volume_participation_rate (em_microstructure m) = Inr rate"
    and f: "floor_to_quantum (mul28 (bar_volume b) rate) (mode_quantum True) = Inr cap"
    using assms(1) by (auto simp: bar_capacity_def err_simps mode_quantum_def)
  let ?v = "mul28 (bar_volume b) rate"
  obtain r' where r': "floor_to_quantum ?v (mode_quantum True) = Inr r'" "fine r'"
    "dval r' = (if 0 < dval ?v then of_int \<lfloor>dval ?v / dval (mode_quantum True)\<rfloor> * dval (mode_quantum True) else 0)"
    using floor_to_quantum_total [OF short_mul28, of "bar_volume b" rate True] by blast
  then have v: "0 < dval ?v" and cap: "fine cap" "dval cap \<le> dval ?v"
    using f assms(2) floor_quantum_bounds(1) [OF dval_mode_quantum_pos, of "dval ?v" True] by (auto split: if_splits)
  have "short cap"
    by (rule floor_to_power_short [OF v short_mul28])
      (use f in \<open>simp add: mode_quantum_def QUANTITY_QUANTUM_def MONEY_QUANTUM_def\<close>)
  from that [OF r this cap(1) v cap(2)] show thesis .
qed

lemma capacity_bound:
  assumes cap: "bar_capacity m b = Inr cap" "0 < dval cap"
    and bps: "0 < ms_max_volume_participation_bps (em_microstructure m)" "ms_max_volume_participation_bps (em_microstructure m) \<le> 10000"
    and vol: "dval (bar_volume b) = of_nat v" "v < 10 ^ 16"
  shows "is_quantity cap" "dval cap * 10000 \<le> of_nat v * of_int (ms_max_volume_participation_bps (em_microstructure m))"
proof -
  define n where "n = ms_max_volume_participation_bps (em_microstructure m)"
  define p where "p = (of_nat v :: rat) * of_int n / 10000"
  define \<epsilon> where "\<epsilon> = (10::rat) powi (- 27)"
  have e: "0 < \<epsilon>" "\<epsilon> \<le> 1" by (simp_all add: \<epsilon>_def power_int_minus field_simps)
  obtain rate where r: "max_volume_participation_rate (em_microstructure m) = Inr rate"
    and c: "fine cap" "0 < dval (mul28 (bar_volume b) rate)" "dval cap \<le> dval (mul28 (bar_volume b) rate)"
    by (rule bar_capacity_floor [OF cap])
  have d: "ddiv default_prec (dec_of_int n) BASIS_POINTS = Inr rate"
    using r by (simp add: max_volume_participation_rate_def div28_def n_def)
  have n: "0 < n" "n \<le> 10000" using bps by (simp_all add: n_def)
  have bp: "dval BASIS_POINTS = 10000" by (simp add: BASIS_POINTS_def dval_scaled_Dec)
  define x where "x = (of_int n / 10000 :: rat)"
  have x: "0 < x" using n by (simp add: x_def)
  have regroup: "of_nat v * (x + x * \<epsilon>) * c = of_nat v * x * ((1 + \<epsilon>) * c)" for c by (simp add: algebra_simps)
  have "\<bar>dval rate - x\<bar> \<le> x * \<epsilon>"
    using ddiv_error [OF d] n by (simp add: bp default_prec_def \<epsilon>_def x_def)
  then have rate: "dval rate \<le> x + x * \<epsilon>" "x - x * \<epsilon> \<le> dval rate" by linarith+
  have "x * \<epsilon> < x * 1" using x by (intro mult_strict_left_mono) (simp_all add: \<epsilon>_def power_int_minus)
  then have rpos: "0 < dval rate" using rate(2) by linarith
  have vpos: "0 < v"
  proof (rule ccontr)
    assume "\<not> 0 < v"
    then have "dval (bar_volume b) = 0" using vol by simp
    then have "dval (mul28 (bar_volume b) rate) = 0" by (auto simp: dval_zero_iff dmul_def dfix_def Let_def div_half_even_def)
    with c(2) show False by simp
  qed
  have "dval (mul28 (bar_volume b) rate) \<le> of_nat v * dval rate * (1 + \<epsilon> / 2)"
    using mul28_positive(2) [of "bar_volume b" rate] vpos rpos vol(1) by (simp add: \<epsilon>_def)
  also have "\<dots> \<le> of_nat v * (x + x * \<epsilon>) * (1 + \<epsilon> / 2)"
    using rate(1) e by (intro mult_right_mono mult_left_mono) simp_all
  also have "\<dots> = p * ((1 + \<epsilon>) * (1 + \<epsilon> / 2))" unfolding regroup by (simp add: p_def x_def)
  also have "\<dots> \<le> p * (1 + 2 * \<epsilon>)"
    using e n by (intro mult_left_mono) (simp_all add: p_def algebra_simps)
  finally have up: "dval cap \<le> p + p * (2 * \<epsilon>)" using c(3) by (simp add: algebra_simps)
  have pv: "p \<le> of_nat v" using mult_left_mono [of "of_int n" 10000 "of_nat v :: rat"] n by (simp add: p_def)
  have v16: "(of_nat v :: rat) < 10 ^ 16" using vol(2) by (metis of_nat_less_iff of_nat_numeral of_nat_power)
  have "p * (2 * \<epsilon>) \<le> 10 ^ 16 * (2 * \<epsilon>)" using pv v16 e by (intro mult_right_mono) simp_all
  then have up': "dval cap \<le> p + 2 / 10 ^ 11" using up by (simp add: \<epsilon>_def power_int_minus)
  have le: "dval cap \<le> p"
  proof (rule ccontr)
    assume "\<not> dval cap \<le> p"
    moreover have "on_grid p" by (rule on_gridI [of _ "int v * n * 10 ^ 4"]) (simp add: p_def)
    ultimately have "1 / 10 ^ 8 \<le> dval cap - p"
      using on_grid_diff [OF fine_on_grid [OF c(1)]] by (intro on_grid_pos) simp_all
    with up' show False by simp
  qed
  then show "dval cap * 10000 \<le> of_nat v * of_int (ms_max_volume_participation_bps (em_microstructure m))"
    by (simp add: p_def n_def)
  show "is_quantity cap" using c(1) le pv v16 cap(2) by (simp add: is_quantity_def)
qed

section \<open>The public operations\<close>

lemma process_bar_sizes:
  assumes "process_bar u b m = Inr (fs, m')" "book_ok m" "sizes_ok m"
  shows "sizes_ok m'"
  using assms(1)
proof (cases rule: process_bar_split)
  case (1 m1 out)
  then show ?thesis using advance_to_bar_sizes assms(2,3) by blast
next
  case (2 m1 out cap)
  have "book_ok m1" using epostD [OF advance_to_bar_book 2(1)] assms(2) by (simp add: book_step_def)
  moreover have "short cap" by (rule bar_capacity_floor [OF 2(2,3)])
  ultimately show ?thesis
    using fill_loop_sizes [OF 2(4) current_eligible] advance_to_bar_sizes [OF 2(1) assms(2,3)] by blast
qed

text \<open>Admission writes the order with its quantized quantity, or rejects it.\<close>

lemma reject_sizes:
  "epost (reject s code m) (\<lambda>m'. \<exists>s'. em_orders m' = dict_put (os_id s) s' (em_orders m) \<and> em_fills m' = em_fills m \<and>
     os_filled_quantity s' = os_filled_quantity s \<and> (os_status s' \<noteq> REJECTED \<longrightarrow> P s'))"
  unfolding reject_def
  by (intro epost_rules exI [of _ "s\<lparr>os_status := REJECTED, os_reason_code := Some code\<rparr>"]) simp

lemma reserve_sizes:
  assumes "sized s"
  shows "epost (reserve_or_reject s m) (\<lambda>m'. \<exists>s'. em_orders m' = dict_put (os_id s) s' (em_orders m) \<and> em_fills m' = em_fills m \<and>
     os_filled_quantity s' = os_filled_quantity s \<and> (os_status s' \<noteq> REJECTED \<longrightarrow> sized s'))"
proof -
  have keep: "\<exists>s'. em_orders (put_state t m) = dict_put (os_id s) s' (em_orders m) \<and> em_fills (put_state t m) = em_fills m \<and>
     os_filled_quantity s' = os_filled_quantity s \<and> (os_status s' \<noteq> REJECTED \<longrightarrow> sized s')"
    if "os_request t = os_request s" "os_filled_quantity t = os_filled_quantity s" "sized t" for t
    using that by (intro exI [of _ t]) simp
  have "sized (s\<lparr>os_reserved_quantity := r\<rparr>)" "sized (s\<lparr>os_reserved_cash := c, os_reserved_notional := n\<rparr>)" for r c n
    by (rule same_sizes [OF assms]; simp)+
  then show ?thesis
    unfolding reserve_or_reject_def reserve_sell_def reserve_buy_def Let_def
    by (cases "or_side (os_request s)"; simp only: order_side.case;
        intro epost_rules reject_sizes keep; simp)
qed

lemma admit_sizes:
  assumes s: "os_filled_quantity s = dzero" "os_remaining_quantity s = or_quantity (os_request s)"
    "os_status s = ACCEPTED" "os_remaining_notional s = or_notional_amount (os_request s)"
  shows "epost (admit s m) (\<lambda>m'. \<exists>s'. em_orders m' = dict_put (os_id s) s' (em_orders m) \<and> em_fills m' = em_fills m \<and>
     dval (os_filled_quantity s') = 0 \<and> (os_status s' \<noteq> REJECTED \<longrightarrow> sized s'))"
proof -
  let ?P = "\<lambda>m'. \<exists>s'. em_orders m' = dict_put (os_id s) s' (em_orders m) \<and> em_fills m' = em_fills m \<and>
     dval (os_filled_quantity s') = 0 \<and> (os_status s' \<noteq> REJECTED \<longrightarrow> sized s')"
  have z: "stored f dzero" for f
    using mode_grid_multiple [of f 0] by (simp add: stored_def is_quantity_def fine_def)
  have size: "sized s' \<and> os_filled_quantity s' = dzero \<and> os_id s' = os_id s"
    if "(case or_quantity (os_request s) of None \<Rightarrow> Inr s
        | Some q \<Rightarrow> ebind (qquantity q (or_quantity_mode (os_request s) \<noteq> WHOLE_SHARES)) (\<lambda>v. Inr (s\<lparr>os_remaining_quantity := Some v\<rparr>))) = Inr s'" for s'
    using that s z qquantity_stored
    by (auto simp: err_simps sized_def fractional_order_def split: option.splits)
  have rej: "epost (reject s code m) ?P" for code
    by (rule epost_mono [OF reject_sizes [where P = sized]]) (use s(1) in auto)
  show ?thesis
    unfolding admit_def Let_def
  proof (intro epost_rules rej)
    fix s'
    assume "(case or_quantity (os_request s) of None \<Rightarrow> Inr s
        | Some q \<Rightarrow> ebind (qquantity q (or_quantity_mode (os_request s) \<noteq> WHOLE_SHARES)) (\<lambda>v. Inr (s\<lparr>os_remaining_quantity := Some v\<rparr>))) = Inr s'"
    from size [OF this] have s': "sized s'" "os_filled_quantity s' = dzero" "os_id s' = os_id s" by simp_all
    show "epost (reserve_or_reject s' (put_state s' m)) ?P"
      by (rule epost_mono [OF reserve_sizes [OF s'(1)]]) (use s'(2,3) in auto)
  qed
qed

lemma submit_sizes:
  assumes "submit r m = Inr (m', v)" "sizes_ok m"
  shows "sizes_ok m'"
proof -
  from assms(1) obtain s where s: "initial_state m r = Inr s" and fresh: "map_of (em_orders m) (or_order_id r) = None"
    and adm: "admit s (put_state s m\<lparr>em_open_order_ids := insert (or_order_id r) (em_open_order_ids m)\<rparr>) = Inr m'"
    by (rule submit_inv)
  have i: "os_request s = r" "os_filled_quantity s = dzero" "os_remaining_quantity s = or_quantity (os_request s)"
    "os_remaining_notional s = or_notional_amount (os_request s)" "os_status s = ACCEPTED"
    using s by (auto simp: initial_state_def err_simps)
  from epostD [OF admit_sizes [OF i(2,3,5,4)] adm] obtain s' where
    w: "em_orders m' = dict_put (os_id s) s' (dict_put (os_id s) s (em_orders m))" "em_fills m' = em_fills m"
      "dval (os_filled_quantity s') = 0" "os_status s' \<noteq> REJECTED \<longrightarrow> sized s'" by auto
  have "order_fills (os_id s) (em_fills m) = 0" using sizes_okD(3) [OF assms(2)] fresh i(1) by simp
  then show ?thesis
    using w by (intro sizes_ok_put [OF assms(2), of m' "os_id s" s' "[]"]) simp_all
qed

lemma cancel_sizes:
  assumes "cancel oid d m = Inr (m', v)" "book_ok m" "sizes_ok m"
  shows "sizes_ok m'"
proof -
  from assms(1) obtain u s where s: "map_of (em_orders m) u = Some s"
    and m': "m' = m \<or> is_open s \<and> m' = close_order (os_id s) (put_state (release_reservation
        (s\<lparr>os_status := CANCELLED, os_reason_code := Some ''EXPLICITLY_CANCELLED''\<rparr>)) m)"
    by (auto simp: cancel_def find_state_def err_simps Let_def split: if_splits option.splits)
  let ?s = "release_reservation (s\<lparr>os_status := CANCELLED, os_reason_code := Some ''EXPLICITLY_CANCELLED''\<rparr>)"
  have "os_id s = u" using assms(2) s unfolding book_ok_def by blast
  then have "is_open s \<Longrightarrow> sizes_ok (put_state ?s m)"
    using s by (intro put_same_sizes [OF assms(3)]) (auto simp: release_reservation_def is_open_def)
  moreover have "sizes_ok (close_order (os_id s) (put_state ?s m)) = sizes_ok (put_state ?s m)"
    by (rule sizes_ok_cong) simp_all
  ultimately show ?thesis using m' assms(3) by auto
qed

lemma seed_sizes:
  assumes "seed_long_position iid q c m = Inr m'" "sizes_ok m"
  shows "sizes_ok m'"
proof -
  have "em_orders m' = em_orders m" "em_fills m' = em_fills m"
    using assms(1) by (auto simp: seed_long_position_def err_simps)
  then show ?thesis using assms(2) sizes_ok_cong by blast
qed

lemma engine_step_sizes:
  assumes "engine_step u m m'" "book_ok m" "sizes_ok m"
  shows "sizes_ok m'"
  using assms(1)
proof cases
  case step_seed then show ?thesis using seed_sizes assms(3) by blast
next
  case step_submit then show ?thesis using submit_sizes assms(3) by blast
next
  case step_cancel then show ?thesis using cancel_sizes assms(2,3) by blast
next
  case (step_advance d out)
  then obtain t where "d = Aware t" by (cases d) (simp_all add: advance_time_def exec_utc_def)
  with step_advance have "advance_clock t m = Inr (m', out)" by (simp add: advance_time_clock)
  then show ?thesis using advance_clock_sizes assms(2,3) by blast
next
  case step_bar then show ?thesis using process_bar_sizes assms(2,3) by blast
qed

lemma reachable_sizes_ok: "reachable u m \<Longrightarrow> sizes_ok m"
proof (induction rule: reachable.induct)
  case (reach_new p c l ms fp m)
  then have "em_orders m = []" "em_fills m = []" by (auto simp: exec_model_new_def err_simps)
  then show ?case by (simp add: sizes_ok_def)
next
  case (reach_step m m')
  then show ?case using engine_step_sizes reachable_book_ok by blast
qed

section \<open>Properties\<close>

text \<open>
  C17. Conservation of quantity: in every reachable state, an order that was not rejected and
  was sized by a positive number of shares has filled and remaining quantities that add up
  exactly to its quantized request, is never overfilled, its fills in the log add up to its
  filled quantity, and nothing remains of it when it is FILLED.
\<close>

theorem order_quantities_are_conserved:
  assumes "reachable u m" "map_of (em_orders m) k = Some s" "os_status s \<noteq> REJECTED"
    and req: "or_notional_amount (os_request s) = None" "os_remaining_notional s = None"
      "or_quantity (os_request s) = Some d" "0 < dval d" "os_remaining_quantity s = Some r"
  shows "\<exists>q0. qquantity d (or_quantity_mode (os_request s) \<noteq> WHOLE_SHARES) = Inr q0 \<and>
    dval (os_filled_quantity s) + dval r = dval q0 \<and> 0 \<le> dval (os_filled_quantity s) \<and> 0 \<le> dval r \<and>
    order_fills k (em_fills m) = dval (os_filled_quantity s) \<and> (os_status s = FILLED \<longrightarrow> dval r = 0)"
proof -
  note ok = reachable_sizes_ok [OF assms(1)]
  have "sized s" by (rule sizes_okD(2) [OF ok assms(2,3)])
  then obtain q0 where q0: "qquantity d (fractional_order s) = Inr q0"
    "dval (os_filled_quantity s) + dval r = dval q0" "0 < dval (os_filled_quantity s) \<longrightarrow> 0 \<le> dval r"
    "0 \<le> dval (os_filled_quantity s)" "os_status s = FILLED \<longrightarrow> dval r = 0"
    using req by (auto simp: sized_def)
  have "0 \<le> dval q0" using qquantity_nonneg [OF q0(1)] req(4) by simp
  then have "0 \<le> dval r" using q0 by force
  then show ?thesis
    using q0 sizes_okD(1) [OF ok assms(2)] by (intro exI [of _ q0]) (simp add: fractional_order_def)
qed

theorem order_quantities_are_conserved_witness:
  "\<exists>q0. qquantity (Dec False 2 0) False = Inr q0 \<and>
     dval (os_filled_quantity demo_filled_order) + dval dzero = dval q0 \<and>
     order_fills (uuid_text 170) (em_fills demo_filled) = 2"
proof -
  have o: "map_of (em_orders demo_filled) (uuid_text 170) = Some demo_filled_order" by (simp add: demo_filled_def)
  have "os_status demo_filled_order \<noteq> REJECTED" "or_notional_amount (os_request demo_filled_order) = None"
    "os_remaining_notional demo_filled_order = None" "or_quantity (os_request demo_filled_order) = Some (Dec False 2 0)"
    "os_remaining_quantity demo_filled_order = Some dzero" "or_quantity_mode (os_request demo_filled_order) = WHOLE_SHARES"
    "os_filled_quantity demo_filled_order = Dec False 2 0"
    by (simp_all add: demo_filled_order_def release_reservation_def)
  with order_quantities_are_conserved [OF demo_reachable(3) o, of "Dec False 2 0" dzero] show ?thesis
    by (auto simp: dval_scaled_Dec)
qed

text \<open>
  C5. Participation: all fills of a bar together take at most the allowed share of its
  volume, for whole-share volumes inside the numeric range, whatever the orders ask for and
  although the share is computed in rounded decimal arithmetic.
\<close>

theorem bar_fills_respect_participation:
  assumes "reachable u m" "process_bar u b m = Inr (fs, m')"
    and bps: "0 < ms_max_volume_participation_bps (em_microstructure m)" "ms_max_volume_participation_bps (em_microstructure m) \<le> 10000"
    and vol: "dval (bar_volume b) = of_nat v" "v < 10 ^ 16"
  shows "total_filled fs * 10000 \<le> of_nat v * of_int (ms_max_volume_participation_bps (em_microstructure m))"
  using assms(2)
proof (cases rule: process_bar_split)
  case 1
  then show ?thesis using bps by (simp add: total_filled_def)
next
  case (2 m1 out cap)
  note bk = reachable_book_ok [OF assms(1)] reachable_sizes_ok [OF assms(1)]
  have st: "book_step m m1" using epostD [OF advance_to_bar_book 2(1)] by simp
  then have cfg: "em_microstructure m1 = em_microstructure m" by (simp add: book_step_def same_config_def)
  have cur: "current m1 (eligible_states m1 b)" using st bk(1) by (intro current_eligible) (simp add: book_step_def)
  have "short cap" by (rule bar_capacity_floor [OF 2(2,3)])
  from fill_loop_sizes [OF 2(4) cur advance_to_bar_sizes [OF 2(1) bk] this]
    capacity_bound [OF 2(2,3) _ _ vol, unfolded cfg, OF bps] 2(3)
  show ?thesis by simp
qed

theorem bar_fills_respect_participation_witness:
  "total_filled [demo_fill] * 10000 \<le> of_nat 20 * of_int (ms_max_volume_participation_bps demo_micro) \<and>
   total_filled [demo_fill] = 2"
proof -
  have "em_microstructure demo_open = demo_micro" by (simp add: demo_open_def)
  then show ?thesis
    using bar_fills_respect_participation [OF demo_reachable(2) demo_process, of 20]
    by (simp add: demo_micro_def total_filled_def demo_fill_def dval_scaled_Dec)
qed

end
