(* ===== verification/Attempt_Coordinator.thy ===== *)
theory Attempt_Coordinator
  imports Py_Text
begin

text \<open>
  \<open>attempt_coordinator.py\<close>: the aggregate that owns an official run's attempts, leases,
  retries and cancellation. Several operations change the aggregate and then raise, so
  each is an \<open>action\<close>: its result or exception together with the state it leaves. The two
  identifiers that \<open>acquire\<close> draws with \<open>uuid4\<close> are its arguments. The lock makes every
  operation atomic; an execution is a sequence of operations. \<open>ProcessResourceMonitor\<close>
  only reads operating-system counters and is not modelled.
\<close>

section \<open>Records\<close>

datatype failure_kind =
    KLeaseExpired | KTimeout | KCpuLimit | KMemoryLimit | KRetryable | KPermanent
  | KSystemCancelled | KCancelled

datatype attempt_error =
    InvalidAttemptInput string
  | LeaseUnavailable
  | StaleLease
  | RunTerminal
  | AttemptFailure failure_kind

datatype run_state = WAITING | RUNNING | COMPLETED | FAILED_RUN | CANCELLED_RUN

datatype attempt_state =
    ACTIVE | SUCCEEDED | RETRYABLE_FAILED | PERMANENT_FAILED | TIMED_OUT | CPU_LIMIT_EXCEEDED
  | MEMORY_LIMIT_EXCEEDED | LEASE_EXPIRED | SYSTEM_CANCELLED | CANCELLED_ATTEMPT

record attempt_policy =
  ap_max_attempts :: int
  ap_lease_duration :: duration
  ap_attempt_timeout :: duration
  ap_max_cpu_time :: duration
  ap_max_memory_bytes :: int

record resource_sample =
  rs_cpu_time :: duration
  rs_memory_bytes :: int

definition resource_sample_new :: "resource_sample \<Rightarrow> attempt_error + resource_sample" where
  "resource_sample_new s =
     ebind (require (0 \<le> rs_cpu_time s) (InvalidAttemptInput ''cpu_time must not be negative'')) (\<lambda>_.
     ebind (require (0 \<le> rs_memory_bytes s)
       (InvalidAttemptInput ''memory_bytes must not be negative'')) (\<lambda>_. Inr s))"

record attempt_lease =
  al_run_id :: string
  al_attempt_id :: string
  al_attempt_number :: nat
  al_worker_id :: string
  al_lease_token :: string
  al_expires_at :: instant

record cancellation_request =
  cr_requested_at :: instant
  cr_reason_code :: string
  cr_requested_by :: string

record attempt_record =
  ar_run_id :: string
  ar_attempt_id :: string
  ar_attempt_number :: nat
  ar_worker_id :: string
  ar_lease_token :: string
  ar_state :: attempt_state
  ar_started_at :: instant
  ar_lease_expires_at :: instant
  ar_last_heartbeat_at :: instant
  ar_cpu_time :: duration
  ar_memory_bytes :: int
  ar_ended_at :: "instant option"
  ar_failure_kind :: "failure_kind option"
  ar_reason_code :: "string option"

fun failure_state :: "failure_kind \<Rightarrow> attempt_state" where
  "failure_state KLeaseExpired = LEASE_EXPIRED"
| "failure_state KTimeout = TIMED_OUT"
| "failure_state KCpuLimit = CPU_LIMIT_EXCEEDED"
| "failure_state KMemoryLimit = MEMORY_LIMIT_EXCEEDED"
| "failure_state KRetryable = RETRYABLE_FAILED"
| "failure_state KPermanent = PERMANENT_FAILED"
| "failure_state KSystemCancelled = SYSTEM_CANCELLED"
| "failure_state KCancelled = CANCELLED_ATTEMPT"

fun kind_value :: "failure_kind \<Rightarrow> string" where
  "kind_value KLeaseExpired = ''LEASE_EXPIRED''"
| "kind_value KTimeout = ''TIMEOUT''"
| "kind_value KCpuLimit = ''CPU_LIMIT''"
| "kind_value KMemoryLimit = ''MEMORY_LIMIT''"
| "kind_value KRetryable = ''RETRYABLE''"
| "kind_value KPermanent = ''PERMANENT''"
| "kind_value KSystemCancelled = ''SYSTEM_CANCELLED''"
| "kind_value KCancelled = ''CANCELLED''"

record coordinator =
  co_run_id :: string
  co_policy :: attempt_policy
  co_queued_at :: instant
  co_state :: run_state
  co_attempts :: "attempt_record list"
  co_result_manifest_id :: "string option"
  co_detail_manifest_id :: "string option"
  co_cancellation :: "cancellation_request option"

type_synonym 'a co_action = "(coordinator, attempt_error, 'a) action"

section \<open>Checks\<close>

definition require_text :: "string \<Rightarrow> string \<Rightarrow> attempt_error + unit" where
  "require_text v field = require (\<not> blank v) (InvalidAttemptInput (field @ '' must not be blank''))"

definition require_aware :: "py_datetime \<Rightarrow> attempt_error + instant" where
  "require_aware d = utc_or (InvalidAttemptInput ''event time must be timezone-aware'') d"

definition validate_policy :: "attempt_policy \<Rightarrow> attempt_error + unit" where
  "validate_policy p =
     ebind (require (0 < ap_max_attempts p) (InvalidAttemptInput ''max_attempts must be positive'')) (\<lambda>_.
     ebind (require (0 < ap_lease_duration p) (InvalidAttemptInput ''lease_duration must be positive'')) (\<lambda>_.
     ebind (require (0 < ap_attempt_timeout p) (InvalidAttemptInput ''attempt_timeout must be positive'')) (\<lambda>_.
     ebind (require (0 < ap_max_cpu_time p) (InvalidAttemptInput ''max_cpu_time must be positive'')) (\<lambda>_.
     require (0 < ap_max_memory_bytes p) (InvalidAttemptInput ''max_memory_bytes must be positive'')))))"

definition coordinator_new ::
  "string \<Rightarrow> attempt_policy \<Rightarrow> py_datetime \<Rightarrow> attempt_error + coordinator" where
  "coordinator_new run_id policy queued_at =
     ebind (require_text run_id ''run_id'') (\<lambda>_.
     ebind (require_aware queued_at) (\<lambda>queued.
     ebind (validate_policy policy) (\<lambda>_.
     Inr \<lparr>co_run_id = run_id, co_policy = policy, co_queued_at = queued, co_state = WAITING,
       co_attempts = [], co_result_manifest_id = None, co_detail_manifest_id = None,
       co_cancellation = None\<rparr>)))"

definition terminal :: "run_state \<Rightarrow> bool" where
  "terminal s = (s \<in> {COMPLETED, FAILED_RUN, CANCELLED_RUN})"

definition active_attempt :: "coordinator \<Rightarrow> attempt_record option" where
  "active_attempt c =
     (if co_attempts c \<noteq> [] \<and> ar_state (last (co_attempts c)) = ACTIVE
      then Some (last (co_attempts c)) else None)"

definition require_nonterminal :: "unit co_action" where
  "require_nonterminal c = (if terminal (co_state c) then (Inl RunTerminal, c) else (Inr (), c))"

definition require_not_before :: "instant \<Rightarrow> instant \<Rightarrow> unit co_action" where
  "require_not_before now bound =
     arequire (bound \<le> now) (InvalidAttemptInput ''event time cannot move backwards'')"

text \<open>\<open>self._attempts[-1] = record\<close>\<close>

definition set_last :: "attempt_record \<Rightarrow> coordinator \<Rightarrow> coordinator" where
  "set_last r c = c\<lparr>co_attempts := butlast (co_attempts c) @ [r]\<rparr>"

definition stopped_record ::
  "instant \<Rightarrow> failure_kind \<Rightarrow> string \<Rightarrow> resource_sample option \<Rightarrow> attempt_record \<Rightarrow> attempt_record" where
  "stopped_record now kind reason sample a =
     a\<lparr>ar_state := failure_state kind, ar_ended_at := Some now, ar_failure_kind := Some kind,
       ar_reason_code := Some reason,
       ar_last_heartbeat_at := (case sample of None \<Rightarrow> ar_last_heartbeat_at a | Some _ \<Rightarrow> now),
       ar_cpu_time := (case sample of None \<Rightarrow> ar_cpu_time a | Some s \<Rightarrow> rs_cpu_time s),
       ar_memory_bytes := (case sample of None \<Rightarrow> ar_memory_bytes a | Some s \<Rightarrow> rs_memory_bytes s)\<rparr>"

definition stop_active ::
  "instant \<Rightarrow> failure_kind \<Rightarrow> string \<Rightarrow> bool \<Rightarrow> resource_sample option \<Rightarrow> run_state \<Rightarrow> unit co_action" where
  "stop_active now kind reason retryable sample terminal_state =
     abind (aget active_attempt) (\<lambda>active.
     case active of
       None \<Rightarrow> araise StaleLease
     | Some a \<Rightarrow>
         abind (require_not_before now (ar_last_heartbeat_at a)) (\<lambda>_.
         aupdate (\<lambda>c. let c' = set_last (stopped_record now kind reason sample a) c in
           c'\<lparr>co_state := if retryable \<and> int (length (co_attempts c')) < ap_max_attempts (co_policy c')
                          then WAITING else terminal_state\<rparr>)))"

definition lease_of :: "attempt_record \<Rightarrow> attempt_lease" where
  "lease_of r = \<lparr>al_run_id = ar_run_id r, al_attempt_id = ar_attempt_id r,
     al_attempt_number = ar_attempt_number r, al_worker_id = ar_worker_id r,
     al_lease_token = ar_lease_token r, al_expires_at = ar_lease_expires_at r\<rparr>"

definition lease_matches :: "coordinator \<Rightarrow> attempt_lease \<Rightarrow> attempt_record \<Rightarrow> bool" where
  "lease_matches c l a \<longleftrightarrow>
     al_run_id l = co_run_id c \<and> al_attempt_id l = ar_attempt_id a \<and>
     al_attempt_number l = ar_attempt_number a \<and> al_worker_id l = ar_worker_id a \<and>
     al_lease_token l = ar_lease_token a"

definition require_lease :: "attempt_lease \<Rightarrow> attempt_record co_action" where
  "require_lease l =
     abind require_nonterminal (\<lambda>_.
     abind (aget (\<lambda>c. (c, active_attempt c))) (\<lambda>(c, active).
     case active of
       None \<Rightarrow> araise StaleLease
     | Some a \<Rightarrow> if lease_matches c l a then areturn a else araise StaleLease))"

definition require_live_lease :: "attempt_lease \<Rightarrow> instant \<Rightarrow> attempt_record co_action" where
  "require_live_lease l now =
     abind (require_lease l) (\<lambda>a.
     abind (require_not_before now (ar_last_heartbeat_at a)) (\<lambda>_.
     if ar_lease_expires_at a \<le> now
     then abind (stop_active now KLeaseExpired ''LEASE_EXPIRED'' True None FAILED_RUN) (\<lambda>_.
       araise (AttemptFailure KLeaseExpired))
     else areturn a))"

section \<open>Operations\<close>

definition new_record ::
  "coordinator \<Rightarrow> string \<Rightarrow> instant \<Rightarrow> string \<Rightarrow> string \<Rightarrow> attempt_record" where
  "new_record c worker_id now attempt_id lease_token =
     \<lparr>ar_run_id = co_run_id c, ar_attempt_id = attempt_id,
      ar_attempt_number = length (co_attempts c) + 1, ar_worker_id = worker_id,
      ar_lease_token = lease_token, ar_state = ACTIVE, ar_started_at = now,
      ar_lease_expires_at = now + ap_lease_duration (co_policy c), ar_last_heartbeat_at = now,
      ar_cpu_time = 0, ar_memory_bytes = 0, ar_ended_at = None, ar_failure_kind = None,
      ar_reason_code = None\<rparr>"

definition acquire ::
  "string \<Rightarrow> py_datetime \<Rightarrow> string \<Rightarrow> string \<Rightarrow> attempt_lease co_action" where
  "acquire worker_id d attempt_id lease_token =
     abind (alift (require_text worker_id ''worker_id'')) (\<lambda>_.
     abind (alift (require_aware d)) (\<lambda>now.
     abind require_nonterminal (\<lambda>_.
     abind (aget co_queued_at) (\<lambda>queued.
     abind (require_not_before now queued) (\<lambda>_.
     abind (aget active_attempt) (\<lambda>active.
     abind (case active of
              None \<Rightarrow> areturn ()
            | Some a \<Rightarrow>
                if now < ar_lease_expires_at a then araise LeaseUnavailable
                else abind (stop_active now KLeaseExpired ''LEASE_EXPIRED'' True None FAILED_RUN) (\<lambda>_.
                  abind (aget co_state) (\<lambda>st.
                  if st = FAILED_RUN then araise RunTerminal else areturn ()))) (\<lambda>_.
     abind (aget id) (\<lambda>c.
     if ap_max_attempts (co_policy c) < int (length (co_attempts c)) + 1
     then abind (aupdate (\<lambda>c. c\<lparr>co_state := FAILED_RUN\<rparr>)) (\<lambda>_. araise RunTerminal)
     else let r = new_record c worker_id now attempt_id lease_token in
       abind (aupdate (\<lambda>c. c\<lparr>co_attempts := co_attempts c @ [r], co_state := RUNNING\<rparr>)) (\<lambda>_.
       areturn (lease_of r))))))))))"

text \<open>The limit a sample breaks, in the order the code tests them.\<close>

definition broken_limit ::
  "attempt_policy \<Rightarrow> duration \<Rightarrow> resource_sample \<Rightarrow> failure_kind option" where
  "broken_limit p elapsed s =
     (if ap_attempt_timeout p \<le> elapsed then Some KTimeout
      else if ap_max_cpu_time p < rs_cpu_time s then Some KCpuLimit
      else if ap_max_memory_bytes p < rs_memory_bytes s then Some KMemoryLimit
      else None)"

definition renewed :: "attempt_policy \<Rightarrow> instant \<Rightarrow> resource_sample \<Rightarrow> attempt_record \<Rightarrow> attempt_record" where
  "renewed p now s a =
     a\<lparr>ar_lease_expires_at := now + ap_lease_duration p, ar_last_heartbeat_at := now,
       ar_cpu_time := rs_cpu_time s, ar_memory_bytes := rs_memory_bytes s\<rparr>"

definition heartbeat :: "attempt_lease \<Rightarrow> py_datetime \<Rightarrow> resource_sample \<Rightarrow> attempt_lease co_action" where
  "heartbeat l d s =
     abind (alift (require_aware d)) (\<lambda>now.
     abind (require_live_lease l now) (\<lambda>a.
     abind (arequire (ar_cpu_time a \<le> rs_cpu_time s)
       (InvalidAttemptInput ''cpu_time must be monotonic'')) (\<lambda>_.
     abind (aget (\<lambda>c. (co_cancellation c, co_policy c))) (\<lambda>(cancellation, p).
     case cancellation of
       Some r \<Rightarrow>
         abind (stop_active now KCancelled (cr_reason_code r) False (Some s) CANCELLED_RUN) (\<lambda>_.
         araise (AttemptFailure KCancelled))
     | None \<Rightarrow>
         (case broken_limit p (now - ar_started_at a) s of
            Some kind \<Rightarrow>
              abind (stop_active now kind (kind_value kind) True (Some s) FAILED_RUN) (\<lambda>_.
              araise (AttemptFailure kind))
          | None \<Rightarrow>
              abind (aupdate (set_last (renewed p now s a))) (\<lambda>_.
              areturn (lease_of (renewed p now s a))))))))"

definition fail_attempt :: "attempt_lease \<Rightarrow> py_datetime \<Rightarrow> string \<Rightarrow> bool \<Rightarrow> unit co_action" where
  "fail_attempt l d reason retryable =
     abind (alift (require_aware d)) (\<lambda>now.
     abind (alift (require_text reason ''reason_code'')) (\<lambda>_.
     abind (require_live_lease l now) (\<lambda>_.
     stop_active now (if retryable then KRetryable else KPermanent) reason retryable None FAILED_RUN)))"

definition complete :: "attempt_lease \<Rightarrow> py_datetime \<Rightarrow> string \<Rightarrow> string \<Rightarrow> unit co_action" where
  "complete l d result_manifest detail_manifest =
     abind (alift (require_aware d)) (\<lambda>now.
     abind (alift (require_text result_manifest ''result_manifest_id'')) (\<lambda>_.
     abind (alift (require_text detail_manifest ''detail_manifest_id'')) (\<lambda>_.
     abind (require_live_lease l now) (\<lambda>a.
     aupdate (\<lambda>c. (set_last (a\<lparr>ar_state := SUCCEEDED, ar_ended_at := Some now\<rparr>) c)
       \<lparr>co_result_manifest_id := Some result_manifest,
        co_detail_manifest_id := Some detail_manifest, co_state := COMPLETED\<rparr>)))))"

definition request_cancellation :: "py_datetime \<Rightarrow> string \<Rightarrow> string \<Rightarrow> unit co_action" where
  "request_cancellation d reason requested_by =
     abind (alift (require_aware d)) (\<lambda>now.
     abind (alift (require_text reason ''reason_code'')) (\<lambda>_.
     abind (alift (require_text requested_by ''requested_by'')) (\<lambda>_.
     abind require_nonterminal (\<lambda>_.
     abind (aget id) (\<lambda>c.
     let r = \<lparr>cr_requested_at = now, cr_reason_code = reason, cr_requested_by = requested_by\<rparr> in
     case active_attempt c of
       None \<Rightarrow>
         abind (require_not_before now (co_queued_at c)) (\<lambda>_.
         aupdate (\<lambda>c. c\<lparr>co_cancellation := Some r, co_state := CANCELLED_RUN\<rparr>))
     | Some a \<Rightarrow>
         abind (require_not_before now (ar_last_heartbeat_at a)) (\<lambda>_.
         aupdate (\<lambda>c. c\<lparr>co_cancellation := Some r\<rparr>)))))))"

definition cancel_by_system :: "py_datetime \<Rightarrow> string \<Rightarrow> unit co_action" where
  "cancel_by_system d reason =
     abind (alift (require_aware d)) (\<lambda>now.
     abind (alift (require_text reason ''reason_code'')) (\<lambda>_.
     abind require_nonterminal (\<lambda>_.
     abind (aget id) (\<lambda>c.
     case active_attempt c of
       Some a \<Rightarrow>
         abind (require_not_before now (ar_last_heartbeat_at a)) (\<lambda>_.
         stop_active now KSystemCancelled reason False None FAILED_RUN)
     | None \<Rightarrow>
         abind (require_not_before now (co_queued_at c)) (\<lambda>_.
         aupdate (\<lambda>c. c\<lparr>co_state := FAILED_RUN\<rparr>))))))"

section \<open>An abstract transition system\<close>

text \<open>
  What the aggregate promises, without leases, clocks or checks: an attempt starts only
  when none is active and the budget allows it, only the active attempt changes, and a
  terminal run is left alone.
\<close>

definition stopped :: "attempt_record \<Rightarrow> bool \<Rightarrow> run_state \<Rightarrow> coordinator \<Rightarrow> coordinator" where
  "stopped r retryable terminal_state c =
     (set_last r c)\<lparr>co_state := if retryable \<and> int (length (co_attempts (set_last r c))) < ap_max_attempts (co_policy c)
        then WAITING else terminal_state\<rparr>"

inductive attempt_step :: "coordinator \<Rightarrow> coordinator \<Rightarrow> bool" where
  as_start: "\<not> terminal (co_state c) \<Longrightarrow> active_attempt c = None \<Longrightarrow>
     int (length (co_attempts c)) < ap_max_attempts (co_policy c) \<Longrightarrow> r = new_record c w now i t \<Longrightarrow>
     attempt_step c (c\<lparr>co_attempts := co_attempts c @ [r], co_state := RUNNING\<rparr>)"
| as_renew: "\<not> terminal (co_state c) \<Longrightarrow> active_attempt c = Some a \<Longrightarrow>
     r = renewed (co_policy c) now s a \<Longrightarrow> ar_last_heartbeat_at a \<le> now \<Longrightarrow> ar_cpu_time a \<le> rs_cpu_time s \<Longrightarrow>
     attempt_step c (set_last r c)"
| as_stop: "\<not> terminal (co_state c) \<Longrightarrow> active_attempt c = Some a \<Longrightarrow>
     r = stopped_record now kind reason sample a \<Longrightarrow> ts \<in> {FAILED_RUN, CANCELLED_RUN} \<Longrightarrow>
     attempt_step c (stopped r retryable ts c)"
| as_complete: "\<not> terminal (co_state c) \<Longrightarrow> active_attempt c = Some a \<Longrightarrow>
     r = a\<lparr>ar_state := SUCCEEDED, ar_ended_at := Some now\<rparr> \<Longrightarrow>
     attempt_step c ((set_last r c)\<lparr>co_result_manifest_id := Some x, co_detail_manifest_id := Some y,
       co_state := COMPLETED\<rparr>)"
| as_mark: "\<not> terminal (co_state c) \<Longrightarrow> active_attempt c \<noteq> None \<Longrightarrow>
     attempt_step c (c\<lparr>co_cancellation := Some q\<rparr>)"
| as_cancel: "\<not> terminal (co_state c) \<Longrightarrow> active_attempt c = None \<Longrightarrow>
     attempt_step c (c\<lparr>co_cancellation := Some q, co_state := CANCELLED_RUN\<rparr>)"
| as_fail: "\<not> terminal (co_state c) \<Longrightarrow> active_attempt c = None \<Longrightarrow>
     attempt_step c (c\<lparr>co_state := FAILED_RUN\<rparr>)"

inductive_cases attempt_stepE: "attempt_step c c'"

abbreviation attempt_steps :: "coordinator \<Rightarrow> coordinator \<Rightarrow> bool" where
  "attempt_steps \<equiv> attempt_step\<^sup>*\<^sup>*"

lemmas steps_refl = rtranclp.rtrancl_refl [of attempt_step]

lemma active_attempt_Some:
  assumes "active_attempt c = Some a"
  shows "co_attempts c = butlast (co_attempts c) @ [a]" "ar_state a = ACTIVE" "co_attempts c \<noteq> []"
    "last (co_attempts c) = a"
proof -
  have ne: "co_attempts c \<noteq> []" and l: "last (co_attempts c) = a" "ar_state a = ACTIVE"
    using assms by (auto simp: active_attempt_def split: if_splits)
  show "co_attempts c = butlast (co_attempts c) @ [a]"
    using append_butlast_last_id [OF ne] l(1) by simp
  show "ar_state a = ACTIVE" "co_attempts c \<noteq> []" "last (co_attempts c) = a" by fact+
qed

lemma failure_state_inactive [simp]: "failure_state k \<noteq> ACTIVE"
  by (cases k) simp_all

lemma set_last_fields [simp]:
  "co_run_id (set_last r c) = co_run_id c" "co_policy (set_last r c) = co_policy c"
  "co_queued_at (set_last r c) = co_queued_at c" "co_state (set_last r c) = co_state c"
  "co_cancellation (set_last r c) = co_cancellation c"
  "co_result_manifest_id (set_last r c) = co_result_manifest_id c"
  "co_detail_manifest_id (set_last r c) = co_detail_manifest_id c"
  "co_attempts (set_last r c) = butlast (co_attempts c) @ [r]"
  by (simp_all add: set_last_def)

lemma stop_active_cases:
  assumes "stop_active now kind reason rt sample ts c = (res, c')" "active_attempt c = Some a"
  shows "(\<exists>e. res = Inl (InvalidAttemptInput e) \<and> c' = c \<and> now < ar_last_heartbeat_at a) \<or>
    (res = Inr () \<and> c' = stopped (stopped_record now kind reason sample a) rt ts c \<and> ar_last_heartbeat_at a \<le> now)"
  using assms
  by (auto simp: stop_active_def action_eval require_not_before_def stopped_def Let_def split: if_splits)

lemma stop_active_refines:
  assumes "stop_active now kind reason rt sample ts c = (res, c')"
    "\<not> terminal (co_state c)" "ts \<in> {FAILED_RUN, CANCELLED_RUN}"
  shows "attempt_steps c c'"
proof (cases "active_attempt c")
  case None
  with assms(1) show ?thesis by (auto simp: stop_active_def action_eval)
next
  case (Some a)
  from stop_active_cases [OF assms(1) Some] as_stop [OF assms(2) Some refl assms(3)] show ?thesis
    by (auto intro: r_into_rtranclp)
qed

lemma require_lease_cases:
  "require_lease l c = (res, c') \<Longrightarrow> c' = c \<and>
     (\<forall>a. res = Inr a \<longrightarrow> \<not> terminal (co_state c) \<and> active_attempt c = Some a \<and> lease_matches c l a)"
  by (auto simp: require_lease_def action_eval require_nonterminal_def split: if_splits option.splits)

text \<open>A live lease, or an exception after which the attempt may have been stopped.\<close>

lemma require_live_lease_cases:
  assumes "require_live_lease l now c = (res, c')"
  shows "attempt_steps c c' \<and>
    (\<forall>a. res = Inr a \<longrightarrow> c' = c \<and> \<not> terminal (co_state c) \<and> active_attempt c = Some a \<and>
       lease_matches c l a \<and> ar_last_heartbeat_at a \<le> now \<and> now < ar_lease_expires_at a)"
proof -
  obtain res1 c1 where r1: "require_lease l c = (res1, c1)" by (cases "require_lease l c")
  note rl = require_lease_cases [OF r1]
  show ?thesis
  proof (cases res1)
    case (Inl e)
    with assms r1 rl show ?thesis by (auto simp: require_live_lease_def action_eval)
  next
    case (Inr a)
    with rl have nt: "\<not> terminal (co_state c)" and act: "active_attempt c = Some a" and c1: "c1 = c"
      and lm: "lease_matches c l a" by simp_all
    obtain res2 c2 where s2: "stop_active now KLeaseExpired ''LEASE_EXPIRED'' True None FAILED_RUN c = (res2, c2)"
      by (cases "stop_active now KLeaseExpired ''LEASE_EXPIRED'' True None FAILED_RUN c")
    have "attempt_steps c c2" by (rule stop_active_refines [OF s2 nt]) simp
    then show ?thesis
      using assms r1 Inr c1 s2 act nt lm
      by (auto simp: require_live_lease_def action_eval require_not_before_def split: if_splits sum.splits)
  qed
qed

text \<open>Every operation refines the abstract system, whether it returns or raises.\<close>

lemma heartbeat_refines:
  assumes "heartbeat l d s c = (res, c')"
  shows "attempt_steps c c'"
proof (cases d)
  case (Naive n)
  with assms show ?thesis by (simp add: heartbeat_def require_aware_def action_eval)
next
  case (Aware now)
  obtain r1 c1 where r1: "require_live_lease l now c = (r1, c1)" by (cases "require_live_lease l now c")
  note rl = require_live_lease_cases [OF r1]
  show ?thesis
  proof (cases r1)
    case (Inl e)
    with assms Aware r1 rl show ?thesis by (auto simp: heartbeat_def require_aware_def action_eval)
  next
    case (Inr a)
    with rl have c1: "c1 = c" and nt: "\<not> terminal (co_state c)" and act: "active_attempt c = Some a"
      and hb: "ar_last_heartbeat_at a \<le> now" by simp_all
    have stop: "attempt_steps c (snd (stop_active now k reason rt sm ts c))"
      if "ts \<in> {FAILED_RUN, CANCELLED_RUN}" for k reason rt sm ts
      using stop_active_refines [OF surjective_pairing nt that] .
    have renew: "ar_cpu_time a \<le> rs_cpu_time s \<Longrightarrow> attempt_steps c (set_last (renewed (co_policy c) now s a) c)"
      using as_renew [OF nt act refl hb] by (rule r_into_rtranclp)
    show ?thesis
      using assms Aware r1 Inr c1 stop renew
      by (auto simp: heartbeat_def require_aware_def action_eval split: if_splits option.splits sum.splits)
  qed
qed

lemma fail_refines:
  assumes "fail_attempt l d reason rt c = (res, c')"
  shows "attempt_steps c c'"
proof (cases d)
  case (Naive n)
  with assms show ?thesis by (simp add: fail_attempt_def require_aware_def action_eval)
next
  case (Aware now)
  obtain r1 c1 where r1: "require_live_lease l now c = (r1, c1)" by (cases "require_live_lease l now c")
  note rl = require_live_lease_cases [OF r1]
  have stop: "attempt_steps c (snd (stop_active now k reason rt None FAILED_RUN c))" if "\<not> terminal (co_state c)" for k
    by (rule stop_active_refines [OF surjective_pairing that]) simp
  show ?thesis
    using assms Aware r1 rl stop [of KRetryable] stop [of KPermanent]
    by (auto simp: fail_attempt_def require_aware_def action_eval require_text_def split: if_splits sum.splits)
qed

lemma complete_refines:
  assumes "complete l d x y c = (res, c')"
  shows "attempt_steps c c'"
proof (cases d)
  case (Naive n)
  with assms show ?thesis by (simp add: complete_def require_aware_def action_eval)
next
  case (Aware now)
  obtain r1 c1 where r1: "require_live_lease l now c = (r1, c1)" by (cases "require_live_lease l now c")
  note rl = require_live_lease_cases [OF r1]
  show ?thesis
  proof (cases r1)
    case (Inl e)
    with assms Aware r1 rl show ?thesis
      by (auto simp: complete_def require_aware_def action_eval require_text_def split: if_splits sum.splits)
  next
    case (Inr a)
    with rl have "c1 = c" "\<not> terminal (co_state c)" "active_attempt c = Some a" by simp_all
    with assms Aware r1 Inr as_complete [where now = now and x = x and y = y, OF this(2,3) refl] show ?thesis
      by (auto simp: complete_def require_aware_def action_eval require_text_def intro: r_into_rtranclp
          split: if_splits sum.splits)
  qed
qed

lemma cancellation_refines:
  assumes "request_cancellation d reason by c = (res, c')"
  shows "attempt_steps c c'"
  using assms
  by (cases d)
    (auto simp: request_cancellation_def require_aware_def action_eval require_text_def Let_def
      require_nonterminal_def require_not_before_def intro!: r_into_rtranclp as_cancel as_mark
      split: if_splits sum.splits option.splits)

lemma system_cancel_refines:
  assumes "cancel_by_system d reason c = (res, c')"
  shows "attempt_steps c c'"
proof -
  have stop: "attempt_steps c c'"
    if "\<not> terminal (co_state c)"
      "stop_active now KSystemCancelled reason False None FAILED_RUN c = (res, c')" for now
    by (rule stop_active_refines [OF that(2,1)]) simp
  have idle: "attempt_steps c (c\<lparr>co_state := FAILED_RUN\<rparr>)"
    if "\<not> terminal (co_state c)" "active_attempt c = None"
    using as_fail [OF that] by (rule r_into_rtranclp)
  show ?thesis
    using assms stop idle
    by (cases d)
      (auto simp: cancel_by_system_def require_aware_def action_eval require_text_def Let_def
        require_nonterminal_def require_not_before_def split: if_splits sum.splits option.splits)
qed

lemma acquire_refines:
  assumes "acquire w d i t c = (res, c')"
  shows "attempt_steps c c'"
proof -
  have start: "attempt_steps c1 (snd (acquire_rest c1))"
    if "\<not> terminal (co_state c1)" "active_attempt c1 = None"
    and "acquire_rest = (\<lambda>c. if ap_max_attempts (co_policy c) < int (length (co_attempts c)) + 1
        then (Inl RunTerminal, c\<lparr>co_state := FAILED_RUN\<rparr>)
        else (Inr (lease_of (new_record c w now i t)),
          c\<lparr>co_attempts := co_attempts c @ [new_record c w now i t], co_state := RUNNING\<rparr>))"
    for c1 now and acquire_rest :: "coordinator \<Rightarrow> (attempt_error + attempt_lease) \<times> coordinator"
    using that as_start [OF that(1,2) _ refl, of w now i t] as_fail [OF that(1,2)]
    by (auto intro: r_into_rtranclp)
  show ?thesis
  proof (cases d)
    case (Naive n)
    with assms show ?thesis
      by (auto simp: acquire_def require_aware_def require_text_def action_eval split: if_splits sum.splits)
  next
    case (Aware now)
    show ?thesis
    proof (cases "blank w \<or> terminal (co_state c) \<or> now < co_queued_at c")
      case True
      with assms Aware show ?thesis
        by (auto simp: acquire_def require_aware_def require_text_def action_eval require_nonterminal_def
            require_not_before_def split: if_splits sum.splits)
    next
      case False
      then have nt: "\<not> terminal (co_state c)" by simp
      show ?thesis
      proof (cases "active_attempt c")
        case None
        with assms Aware False start [OF nt None refl, of now] show ?thesis
          by (auto simp: acquire_def require_aware_def require_text_def action_eval require_nonterminal_def
              require_not_before_def Let_def split: if_splits sum.splits)
      next
        case (Some a)
        obtain r1 c1 where s1: "stop_active now KLeaseExpired ''LEASE_EXPIRED'' True None FAILED_RUN c = (r1, c1)"
          by (cases "stop_active now KLeaseExpired ''LEASE_EXPIRED'' True None FAILED_RUN c")
        have r: "attempt_steps c c1" by (rule stop_active_refines [OF s1 nt]) simp
        have idle: "r1 = Inr () \<Longrightarrow> active_attempt c1 = None \<and> co_state c1 \<in> {WAITING, FAILED_RUN}"
          using stop_active_cases [OF s1 Some]
          by (auto simp: active_attempt_def stopped_def stopped_record_def)
        show ?thesis
        proof (cases "now < ar_lease_expires_at a \<or> r1 \<noteq> Inr () \<or> co_state c1 = FAILED_RUN")
          case True
          then show ?thesis
            using assms Aware False Some s1 r nt
            by (auto simp: acquire_def require_aware_def require_text_def action_eval require_nonterminal_def
                require_not_before_def split: if_splits sum.splits)
        next
          case retry: False
          with idle have "\<not> terminal (co_state c1)" "active_attempt c1 = None" by (auto simp: terminal_def)
          from start [OF this refl, of now] r assms Aware False Some s1 retry show ?thesis
            by (auto simp: acquire_def require_aware_def require_text_def action_eval require_nonterminal_def
                require_not_before_def Let_def split: if_splits sum.splits intro: rtranclp_trans)
        qed
      qed
    qed
  qed
qed

section \<open>The invariant\<close>

definition coord_ok :: "coordinator \<Rightarrow> bool" where
  "coord_ok c \<longleftrightarrow>
     map ar_attempt_number (co_attempts c) = [1..<Suc (length (co_attempts c))] \<and>
     int (length (co_attempts c)) \<le> ap_max_attempts (co_policy c) \<and>
     (\<forall>a\<in>set (butlast (co_attempts c)). ar_state a \<noteq> ACTIVE) \<and>
     (co_state c = RUNNING \<longleftrightarrow> active_attempt c \<noteq> None) \<and>
     (co_state c = WAITING \<longrightarrow> int (length (co_attempts c)) < ap_max_attempts (co_policy c)) \<and>
     (co_state c = COMPLETED \<longleftrightarrow> co_result_manifest_id c \<noteq> None)"

lemma set_last_numbers:
  assumes "active_attempt c = Some a" "ar_attempt_number r = ar_attempt_number a"
  shows "map ar_attempt_number (butlast (co_attempts c) @ [r]) = map ar_attempt_number (co_attempts c)"
    "length (butlast (co_attempts c) @ [r]) = length (co_attempts c)"
proof -
  have "co_attempts c = butlast (co_attempts c) @ [a]" by (rule active_attempt_Some [OF assms(1)])
  then have "map ar_attempt_number (co_attempts c) = map ar_attempt_number (butlast (co_attempts c) @ [a])"
    "length (co_attempts c) = length (butlast (co_attempts c) @ [a])" by (metis)+
  with assms(2) show "map ar_attempt_number (butlast (co_attempts c) @ [r]) = map ar_attempt_number (co_attempts c)"
    "length (butlast (co_attempts c) @ [r]) = length (co_attempts c)" by simp_all
qed

lemma nonlast_inactive:
  assumes "\<forall>a\<in>set (butlast xs). ar_state a \<noteq> ACTIVE" "xs \<noteq> [] \<longrightarrow> ar_state (last xs) \<noteq> ACTIVE"
  shows "\<forall>a\<in>set xs. ar_state a \<noteq> ACTIVE"
  using assms by (cases xs rule: rev_cases) auto

lemma attempt_step_ok:
  assumes "attempt_step c c'" "coord_ok c"
  shows "coord_ok c'"
  using assms(1)
proof cases
  case (as_start r w now i t)
  have "\<forall>a\<in>set (co_attempts c). ar_state a \<noteq> ACTIVE"
  proof (rule nonlast_inactive)
    show "\<forall>a\<in>set (butlast (co_attempts c)). ar_state a \<noteq> ACTIVE"
      using assms(2) by (simp add: coord_ok_def)
    show "co_attempts c \<noteq> [] \<longrightarrow> ar_state (last (co_attempts c)) \<noteq> ACTIVE"
      using as_start(3) by (auto simp: active_attempt_def split: if_splits)
  qed
  moreover have "ar_state r = ACTIVE" "ar_attempt_number r = Suc (length (co_attempts c))"
    using as_start(5) by (simp_all add: new_record_def)
  moreover have "co_result_manifest_id c = None"
    using assms(2) as_start(2) by (simp add: coord_ok_def terminal_def)
  ultimately show ?thesis
    using assms(2) as_start(4) unfolding as_start(1) coord_ok_def
    by (simp add: active_attempt_def)
next
  case (as_renew a r now s)
  have "ar_state r = ACTIVE" "ar_attempt_number r = ar_attempt_number a"
    using as_renew active_attempt_Some(2) by (simp_all add: renewed_def)
  with set_last_numbers [OF as_renew(3) this(2)] assms(2) as_renew show ?thesis
    by (auto simp: coord_ok_def active_attempt_def)
next
  case (as_stop a r now kind reason sample ts retryable)
  have "ar_state r \<noteq> ACTIVE" "ar_attempt_number r = ar_attempt_number a"
    using as_stop by (simp_all add: stopped_record_def)
  with set_last_numbers [OF as_stop(3) this(2)] assms(2) as_stop show ?thesis
    by (auto simp: coord_ok_def active_attempt_def stopped_def terminal_def)
next
  case (as_complete a r now x y)
  have "ar_state r \<noteq> ACTIVE" "ar_attempt_number r = ar_attempt_number a"
    using as_complete by simp_all
  with set_last_numbers [OF as_complete(3) this(2)] assms(2) as_complete show ?thesis
    by (auto simp: coord_ok_def active_attempt_def)
next
  case (as_mark q)
  with assms(2) show ?thesis by (auto simp: coord_ok_def active_attempt_def)
next
  case (as_cancel q)
  with assms(2) show ?thesis by (auto simp: coord_ok_def active_attempt_def terminal_def)
next
  case as_fail
  with assms(2) show ?thesis by (auto simp: coord_ok_def active_attempt_def terminal_def)
qed

lemma attempt_steps_ok: "attempt_steps c c' \<Longrightarrow> coord_ok c \<Longrightarrow> coord_ok c'"
  by (induction rule: rtranclp_induct) (auto intro: attempt_step_ok)

text \<open>A terminal run has no successor.\<close>

lemma terminal_stuck: "attempt_step c c' \<Longrightarrow> \<not> terminal (co_state c)"
  by (erule attempt_stepE) simp_all

lemma terminal_frozen: "attempt_steps c c' \<Longrightarrow> terminal (co_state c) \<Longrightarrow> c' = c"
  by (induction rule: converse_rtranclp_induct) (auto dest: terminal_stuck)

section \<open>Executions\<close>

inductive co_op :: "coordinator \<Rightarrow> coordinator \<Rightarrow> bool" where
  op_acquire: "co_op c (snd (acquire w d i t c))"
| op_heartbeat: "co_op c (snd (heartbeat l d s c))"
| op_fail: "co_op c (snd (fail_attempt l d reason rt c))"
| op_complete: "co_op c (snd (complete l d x y c))"
| op_cancel: "co_op c (snd (request_cancellation d reason by c))"
| op_system: "co_op c (snd (cancel_by_system d reason c))"

inductive co_reachable :: "coordinator \<Rightarrow> bool" where
  co_new: "coordinator_new run_id p d = Inr c \<Longrightarrow> co_reachable c"
| co_next: "co_reachable c \<Longrightarrow> co_op c c' \<Longrightarrow> co_reachable c'"

lemma co_op_refines: "co_op c c' \<Longrightarrow> attempt_steps c c'"
  by (induction rule: co_op.induct)
    (rule acquire_refines heartbeat_refines fail_refines complete_refines cancellation_refines
      system_cancel_refines, rule surjective_pairing)+

lemma coordinator_new_ok: "coordinator_new run_id p d = Inr c \<Longrightarrow> coord_ok c"
  by (auto simp: coordinator_new_def validate_policy_def err_simps coord_ok_def active_attempt_def)

lemma co_reachable_ok: "co_reachable c \<Longrightarrow> coord_ok c"
  by (induction rule: co_reachable.induct)
    (auto intro: coordinator_new_ok attempt_steps_ok co_op_refines)

section \<open>Leases\<close>

text \<open>Whom the last attempt was handed to: run, attempt, number, worker and token.\<close>

definition credentials :: "coordinator \<Rightarrow> (string \<times> string \<times> nat \<times> string \<times> string) option" where
  "credentials c =
     (if co_attempts c = [] then None
      else let a = last (co_attempts c) in
        Some (co_run_id c, ar_attempt_id a, ar_attempt_number a, ar_worker_id a, ar_lease_token a))"

lemma attempt_step_credentials:
  assumes "attempt_step c c'"
  shows "length (co_attempts c) \<le> length (co_attempts c') \<and> co_run_id c' = co_run_id c \<and>
    (length (co_attempts c') = length (co_attempts c) \<longrightarrow> credentials c' = credentials c)"
  using assms
proof cases
  case (as_renew a r now s)
  with active_attempt_Some [OF as_renew(3)] show ?thesis
    by (simp add: credentials_def Let_def renewed_def)
next
  case (as_stop a r now kind reason sample ts retryable)
  with active_attempt_Some [OF as_stop(3)] show ?thesis
    by (simp add: credentials_def Let_def stopped_def stopped_record_def)
next
  case (as_complete a r now x y)
  with active_attempt_Some [OF as_complete(3)] show ?thesis
    by (simp add: credentials_def Let_def)
qed (simp_all add: credentials_def Let_def)

lemma attempt_steps_credentials:
  assumes "attempt_steps c c'"
  shows "length (co_attempts c) \<le> length (co_attempts c') \<and> co_run_id c' = co_run_id c \<and>
    (length (co_attempts c') = length (co_attempts c) \<longrightarrow> credentials c' = credentials c)"
  using assms by (induction rule: rtranclp_induct) (auto dest!: attempt_step_credentials)

lemma co_ops_refine: "co_op\<^sup>*\<^sup>* c c' \<Longrightarrow> attempt_steps c c'"
  by (induction rule: rtranclp_induct) (auto dest!: co_op_refines)

lemma credentials_kept:
  "co_op\<^sup>*\<^sup>* c c' \<Longrightarrow> length (co_attempts c') = length (co_attempts c) \<Longrightarrow> credentials c' = credentials c"
  using attempt_steps_credentials [OF co_ops_refine] by blast

lemma acquire_started:
  assumes "acquire w d i t c = (Inr l, c')"
  obtains c1 now where "attempt_steps c c1" "d = Aware now"
    "c' = c1\<lparr>co_attempts := co_attempts c1 @ [new_record c1 w now i t], co_state := RUNNING\<rparr>"
proof -
  obtain now where d: "d = Aware now"
    using assms by (cases d) (auto simp: acquire_def require_aware_def require_text_def action_eval split: if_splits sum.splits)
  obtain r1 c1 where s1: "stop_active now KLeaseExpired ''LEASE_EXPIRED'' True None FAILED_RUN c = (r1, c1)"
    by (cases "stop_active now KLeaseExpired ''LEASE_EXPIRED'' True None FAILED_RUN c")
  have nt: "\<not> terminal (co_state c)"
    using assms d by (auto simp: acquire_def require_aware_def require_text_def action_eval require_nonterminal_def
        split: if_splits sum.splits)
  have steps: "attempt_steps c c1" by (rule stop_active_refines [OF s1 nt]) simp
  have "c' = c\<lparr>co_attempts := co_attempts c @ [new_record c w now i t], co_state := RUNNING\<rparr> \<or>
      c' = c1\<lparr>co_attempts := co_attempts c1 @ [new_record c1 w now i t], co_state := RUNNING\<rparr>"
    using assms d s1
    by (auto simp: acquire_def require_aware_def require_text_def action_eval require_nonterminal_def
        require_not_before_def Let_def split: if_splits sum.splits option.splits)
  with steps steps_refl d that show thesis by blast
qed

lemma acquire_credentials:
  assumes "acquire w d i t c = (Inr l, c')"
  shows "credentials c' = Some (co_run_id c, i, length (co_attempts c'), w, t)"
proof -
  obtain c1 now where "attempt_steps c c1"
    and c': "c' = c1\<lparr>co_attempts := co_attempts c1 @ [new_record c1 w now i t], co_state := RUNNING\<rparr>"
    by (rule acquire_started [OF assms])
  then have "co_run_id c1 = co_run_id c" using attempt_steps_credentials by blast
  then show ?thesis by (simp add: c' credentials_def Let_def new_record_def)
qed

lemma foreign_lease_refused:
  assumes "\<not> (\<exists>a. active_attempt c = Some a \<and> lease_matches c l a)"
  shows "(\<exists>e. heartbeat l d s c = (Inl e, c)) \<and> (\<exists>e. fail_attempt l d reason rt c = (Inl e, c)) \<and>
    (\<exists>e. complete l d x y c = (Inl e, c))"
proof -
  have "\<exists>e. require_lease l c = (Inl e, c)"
    using assms by (auto simp: require_lease_def action_eval require_nonterminal_def split: option.splits)
  then have live: "\<exists>e. require_live_lease l now c = (Inl e, c)" for now
    by (auto simp: require_live_lease_def action_eval)
  show ?thesis
  proof (cases d)
    case (Naive n)
    then show ?thesis
      by (simp add: heartbeat_def fail_attempt_def complete_def require_aware_def action_eval)
  next
    case (Aware now)
    with live [of now] show ?thesis
      by (auto simp: heartbeat_def fail_attempt_def complete_def require_aware_def action_eval
          require_text_def split: sum.splits)
  qed
qed

text \<open>Every attempt belongs to the run.\<close>

lemma attempt_step_runs:
  assumes "attempt_step c c'" "\<forall>a\<in>set (co_attempts c). ar_run_id a = co_run_id c"
  shows "\<forall>a\<in>set (co_attempts c'). ar_run_id a = co_run_id c'"
proof -
  have keep: "\<forall>b\<in>set (butlast (co_attempts c) @ [r]). ar_run_id b = co_run_id c"
    if "active_attempt c = Some a" "ar_run_id r = ar_run_id a" for a r
    using assms(2) active_attempt_Some(1,3,4) [OF that(1)] that(2) by (auto dest: in_set_butlastD)
  from assms(1) show ?thesis
  proof cases
    case (as_renew a r now s)
    with keep [OF as_renew(3), of r] show ?thesis by (simp add: renewed_def)
  next
    case (as_stop a r now kind reason sample ts retryable)
    with keep [OF as_stop(3), of r] show ?thesis by (simp add: stopped_def stopped_record_def)
  next
    case (as_complete a r now x y)
    with keep [OF as_complete(3), of r] show ?thesis by simp
  qed (use assms(2) in \<open>auto simp: new_record_def\<close>)
qed

lemma reachable_runs: "co_reachable c \<Longrightarrow> \<forall>a\<in>set (co_attempts c). ar_run_id a = co_run_id c"
proof (induction rule: co_reachable.induct)
  case (co_new run_id p d c)
  then show ?case by (auto simp: coordinator_new_def err_simps)
next
  case (co_next c c')
  from co_op_refines [OF co_next(2)] co_next(3) show ?case
    by (induction rule: rtranclp_induct) (use attempt_step_runs in blast)+
qed

lemma live_lease:
  assumes "co_reachable c" "active_attempt c = Some a" "co_attempts c' = co_attempts c" "co_run_id c' = co_run_id c"
    "co_state c' = co_state c" "ar_last_heartbeat_at a \<le> now" "now < ar_lease_expires_at a"
  shows "require_live_lease (lease_of a) now c' = (Inr a, c')"
proof -
  have "co_state c = RUNNING" using co_reachable_ok [OF assms(1)] assms(2) by (simp add: coord_ok_def)
  moreover have "ar_run_id a = co_run_id c"
    using reachable_runs [OF assms(1)] active_attempt_Some(3,4) [OF assms(2)] by auto
  moreover have "active_attempt c' = Some a" using assms(2) unfolding active_attempt_def assms(3) .
  ultimately show ?thesis
    using assms(4-7) by (simp add: require_live_lease_def require_lease_def action_eval require_nonterminal_def
        terminal_def require_not_before_def lease_matches_def lease_of_def)
qed

section \<open>Properties\<close>

definition demo_attempt_policy :: attempt_policy where
  "demo_attempt_policy = \<lparr>ap_max_attempts = 2, ap_lease_duration = 10, ap_attempt_timeout = 100,
     ap_max_cpu_time = 50, ap_max_memory_bytes = 1000\<rparr>"

definition demo_run :: coordinator where
  "demo_run = \<lparr>co_run_id = ''run'', co_policy = demo_attempt_policy, co_queued_at = 0, co_state = WAITING,
     co_attempts = [], co_result_manifest_id = None, co_detail_manifest_id = None,
     co_cancellation = None\<rparr>"

lemma demo_run_new: "coordinator_new ''run'' demo_attempt_policy (Aware 0) = Inr demo_run"
  by (simp add: coordinator_new_def require_text_def require_aware_def validate_policy_def blank_def
      whitespace_code demo_attempt_policy_def demo_run_def)

definition demo_running :: coordinator where
  "demo_running = demo_run\<lparr>co_attempts := [new_record demo_run ''w'' 1 ''a1'' ''t1''], co_state := RUNNING\<rparr>"

lemma not_blank_demo:
  "\<not> blank ''w''" "\<not> blank ''v''" "\<not> blank ''r''"
  by (simp_all add: blank_def whitespace_code)

lemma demo_acquire:
  "acquire ''w'' (Aware 1) ''a1'' ''t1'' demo_run
     = (Inr (lease_of (new_record demo_run ''w'' 1 ''a1'' ''t1'')), demo_running)"
  by (simp add: acquire_def require_text_def require_aware_def action_eval not_blank_demo
      require_nonterminal_def terminal_def require_not_before_def active_attempt_def demo_running_def
      demo_run_def demo_attempt_policy_def Let_def)

lemma demo_running_reachable: "co_reachable demo_run" "co_reachable demo_running"
proof -
  show r: "co_reachable demo_run" by (rule co_new [OF demo_run_new])
  from co_next [OF r op_acquire [of _ "''w''" "Aware 1" "''a1''" "''t1''"]]
  show "co_reachable demo_running" by (simp add: demo_acquire)
qed

text \<open>
  C6. In every reachable state of a run, attempts are numbered consecutively from one, never
  exceed the attempt budget, only the last can be ACTIVE, the run is RUNNING exactly while an
  attempt is active, and a WAITING run still has budget for another attempt.
\<close>

theorem attempts_are_bounded_and_exclusive:
  assumes "co_reachable c"
  shows "map ar_attempt_number (co_attempts c) = [1..<Suc (length (co_attempts c))] \<and>
    int (length (co_attempts c)) \<le> ap_max_attempts (co_policy c) \<and>
    length (filter (\<lambda>a. ar_state a = ACTIVE) (co_attempts c)) = (if co_state c = RUNNING then 1 else 0) \<and>
    filter (\<lambda>a. ar_state a = ACTIVE) (butlast (co_attempts c)) = [] \<and>
    (co_state c = WAITING \<longrightarrow> int (length (co_attempts c)) < ap_max_attempts (co_policy c))"
proof -
  have ok: "coord_ok c" by (rule co_reachable_ok [OF assms])
  have earlier: "filter (\<lambda>a. ar_state a = ACTIVE) (butlast (co_attempts c)) = []"
    using ok by (simp add: coord_ok_def filter_empty_conv)
  then have "filter (\<lambda>a. ar_state a = ACTIVE) (co_attempts c) =
      (if active_attempt c = None then [] else [last (co_attempts c)])"
    by (cases "co_attempts c" rule: rev_cases) (auto simp: active_attempt_def)
  with ok earlier show ?thesis by (auto simp: coord_ok_def)
qed

theorem attempts_are_bounded_and_exclusive_witness:
  "map ar_attempt_number (co_attempts demo_running) = [1] \<and>
   length (filter (\<lambda>a. ar_state a = ACTIVE) (co_attempts demo_running)) = 1"
  using attempts_are_bounded_and_exclusive [OF demo_running_reachable(2)]
  by (simp add: demo_running_def new_record_def)

text \<open>
  A COMPLETED, FAILED or CANCELLED run is final: every later operation leaves the
  aggregate exactly as it is.
\<close>

theorem terminal_runs_never_change:
  assumes "terminal (co_state c)" "co_op\<^sup>*\<^sup>* c c'"
  shows "c' = c"
  using assms(2,1) by (induction rule: converse_rtranclp_induct) (auto dest!: co_op_refines terminal_frozen)

theorem terminal_runs_never_change_witness:
  "snd (acquire ''w'' (Aware 5) ''a2'' ''t2'' (demo_run\<lparr>co_state := COMPLETED\<rparr>)) = demo_run\<lparr>co_state := COMPLETED\<rparr>"
  by (rule terminal_runs_never_change [OF _ r_into_rtranclp [of co_op, OF op_acquire]]) (simp add: terminal_def)

text \<open>
  C32. Fencing. From the moment an acquisition has issued a lease until the next attempt starts,
  whatever operations run in between, a lease that differs from the issued one in its token, its
  attempt, its number, its worker or its run can neither renew, fail nor complete the attempt:
  each operation raises and changes nothing. In particular the holder of any earlier lease is
  shut out.
\<close>

theorem stale_leases_change_nothing:
  assumes "acquire w d0 i t c0 = (Inr issued, c1)" "co_op\<^sup>*\<^sup>* c1 c"
    "length (co_attempts c) = length (co_attempts c1)"
    "(al_run_id l, al_attempt_id l, al_attempt_number l, al_worker_id l, al_lease_token l) \<noteq>
     (co_run_id c0, i, length (co_attempts c1), w, t)"
  shows "(\<exists>e. heartbeat l d s c = (Inl e, c)) \<and> (\<exists>e. fail_attempt l d reason rt c = (Inl e, c)) \<and>
    (\<exists>e. complete l d x y c = (Inl e, c))"
proof -
  have "credentials c = Some (co_run_id c0, i, length (co_attempts c1), w, t)"
    using credentials_kept [OF assms(2,3)] acquire_credentials [OF assms(1)] by simp
  with assms(4) have "\<not> (\<exists>a. active_attempt c = Some a \<and> lease_matches c l a)"
    by (auto simp: credentials_def Let_def lease_matches_def active_attempt_def split: if_splits)
  then show ?thesis by (rule foreign_lease_refused)
qed

theorem stale_leases_change_nothing_witness:
  "\<exists>e. complete (lease_of (new_record demo_run ''w'' 1 ''a1'' ''old'')) (Aware 2) ''r'' ''r'' demo_running
     = (Inl e, demo_running)"
  using stale_leases_change_nothing [OF demo_acquire rtranclp.rtrancl_refl refl,
      of "lease_of (new_record demo_run ''w'' 1 ''a1'' ''old'')" "Aware 2" _ _ _ "''r''" "''r''"]
  by (simp add: lease_of_def new_record_def)

text \<open>
  Mutual exclusion: while the active lease has not expired no worker can acquire the run,
  and the refused acquisition changes nothing.
\<close>

theorem unexpired_lease_excludes_acquisition:
  assumes "co_reachable c" "active_attempt c = Some a" "now < ar_lease_expires_at a" "co_queued_at c \<le> now"
    "\<not> blank w"
  shows "acquire w (Aware now) i t c = (Inl LeaseUnavailable, c)"
proof -
  have "co_state c = RUNNING" using co_reachable_ok [OF assms(1)] assms(2) by (simp add: coord_ok_def)
  with assms show ?thesis
    by (simp add: acquire_def require_text_def require_aware_def action_eval require_nonterminal_def
        terminal_def require_not_before_def)
qed

theorem unexpired_lease_excludes_acquisition_witness:
  "acquire ''v'' (Aware 5) ''a2'' ''t2'' demo_running = (Inl LeaseUnavailable, demo_running)"
  by (rule unexpired_lease_excludes_acquisition [OF demo_running_reachable(2),
        where a = "new_record demo_run ''w'' 1 ''a1'' ''t1''"])
    (simp_all add: active_attempt_def demo_running_def new_record_def demo_run_def demo_attempt_policy_def
      not_blank_demo)

text \<open>
  A heartbeat with a live lease and a monotonic CPU reading renews the lease when no limit
  is broken and no cancellation is pending; a pending cancellation ends the run as CANCELLED
  whatever the sample says; otherwise the first broken limit (time, then CPU, then memory)
  stops the attempt with that failure.
\<close>

theorem heartbeat_decides_by_cancellation_then_limits:
  assumes "\<not> terminal (co_state c)" "active_attempt c = Some a" "lease_matches c l a"
    "ar_last_heartbeat_at a \<le> now" "now < ar_lease_expires_at a" "ar_cpu_time a \<le> rs_cpu_time s"
  shows "heartbeat l (Aware now) s c =
    (case co_cancellation c of
       Some q \<Rightarrow> (Inl (AttemptFailure KCancelled),
         stopped (stopped_record now KCancelled (cr_reason_code q) (Some s) a) False CANCELLED_RUN c)
     | None \<Rightarrow> (case broken_limit (co_policy c) (now - ar_started_at a) s of
         Some k \<Rightarrow> (Inl (AttemptFailure k), stopped (stopped_record now k (kind_value k) (Some s) a) True FAILED_RUN c)
       | None \<Rightarrow> (Inr (lease_of (renewed (co_policy c) now s a)), set_last (renewed (co_policy c) now s a) c)))"
proof -
  have stop: "stop_active now k reason rt sm ts c = (Inr (), stopped (stopped_record now k reason sm a) rt ts c)"
    for k reason rt sm ts
    using stop_active_cases [OF surjective_pairing assms(2), of now k reason rt sm ts] assms(4)
    by (auto simp: prod_eq_iff)
  have "require_live_lease l now c = (Inr a, c)"
    using assms by (simp add: require_live_lease_def require_lease_def action_eval require_nonterminal_def
        require_not_before_def)
  with assms(6) stop show ?thesis
    by (simp add: heartbeat_def require_aware_def action_eval split: option.splits)
qed

theorem heartbeat_decides_by_cancellation_then_limits_witness:
  "fst (heartbeat (lease_of (new_record demo_run ''w'' 1 ''a1'' ''t1'')) (Aware 5)
     \<lparr>rs_cpu_time = 60, rs_memory_bytes = 5000\<rparr> demo_running) = Inl (AttemptFailure KCpuLimit)"
proof -
  let ?a = "new_record demo_run ''w'' 1 ''a1'' ''t1''"
  have "heartbeat (lease_of ?a) (Aware 5) \<lparr>rs_cpu_time = 60, rs_memory_bytes = 5000\<rparr> demo_running =
    (case co_cancellation demo_running of
       Some q \<Rightarrow> (Inl (AttemptFailure KCancelled),
         stopped (stopped_record 5 KCancelled (cr_reason_code q)
           (Some \<lparr>rs_cpu_time = 60, rs_memory_bytes = 5000\<rparr>) ?a) False CANCELLED_RUN demo_running)
     | None \<Rightarrow> (case broken_limit (co_policy demo_running) (5 - ar_started_at ?a)
           \<lparr>rs_cpu_time = 60, rs_memory_bytes = 5000\<rparr> of
         Some k \<Rightarrow> (Inl (AttemptFailure k), stopped (stopped_record 5 k (kind_value k)
           (Some \<lparr>rs_cpu_time = 60, rs_memory_bytes = 5000\<rparr>) ?a) True FAILED_RUN demo_running)
       | None \<Rightarrow> (Inr (lease_of (renewed (co_policy demo_running) 5
             \<lparr>rs_cpu_time = 60, rs_memory_bytes = 5000\<rparr> ?a)),
           set_last (renewed (co_policy demo_running) 5 \<lparr>rs_cpu_time = 60, rs_memory_bytes = 5000\<rparr> ?a) demo_running)))"
    by (rule heartbeat_decides_by_cancellation_then_limits)
      (simp_all add: demo_running_def terminal_def active_attempt_def lease_matches_def lease_of_def
        new_record_def demo_run_def demo_attempt_policy_def)
  then show ?thesis
    by (simp add: demo_running_def demo_run_def demo_attempt_policy_def broken_limit_def new_record_def)
qed

text \<open>
  C33. A requested cancellation does not stop a run whose attempt then fails retryably, although
  the operation is documented as terminal and never retried. For every run with an active attempt
  and budget left: the cancellation is accepted, a retryable failure of the attempt (reported with
  its own lease, in time) puts the run back to WAITING with the cancellation still recorded, and
  the next worker acquires it and runs.
\<close>

theorem cancellation_is_retried_after_a_retryable_failure:
  assumes "co_reachable c" "active_attempt c = Some a" "int (length (co_attempts c)) < ap_max_attempts (co_policy c)"
    and times: "ar_last_heartbeat_at a \<le> t1" "ar_last_heartbeat_at a \<le> t2" "t2 < ar_lease_expires_at a" "co_queued_at c \<le> t3"
    and texts: "\<not> blank reason" "\<not> blank by" "\<not> blank failure" "\<not> blank w"
  shows "\<exists>c1 c2 l c3. request_cancellation (Aware t1) reason by c = (Inr (), c1) \<and>
    fail_attempt (lease_of a) (Aware t2) failure True c1 = (Inr (), c2) \<and>
    co_state c2 = WAITING \<and> map_option cr_reason_code (co_cancellation c2) = Some reason \<and>
    acquire w (Aware t3) i t c2 = (Inr l, c3) \<and> co_state c3 = RUNNING"
proof -
  have run: "co_state c = RUNNING" using co_reachable_ok [OF assms(1)] assms(2) by (simp add: coord_ok_def)
  let ?c1 = "c\<lparr>co_cancellation := Some \<lparr>cr_requested_at = t1, cr_reason_code = reason, cr_requested_by = by\<rparr>\<rparr>"
  let ?r = "stopped_record t2 KRetryable failure None a"
  let ?c2 = "stopped ?r True FAILED_RUN ?c1"
  have "active_attempt ?c1 = active_attempt c" by (simp add: active_attempt_def)
  with assms(2) have act: "active_attempt ?c1 = Some a" by simp
  have one: "request_cancellation (Aware t1) reason by c = (Inr (), ?c1)"
    using assms(2) times texts run
    by (simp add: request_cancellation_def require_aware_def require_text_def action_eval require_nonterminal_def
        terminal_def require_not_before_def Let_def)
  have live: "require_live_lease (lease_of a) t2 ?c1 = (Inr a, ?c1)"
    by (rule live_lease [OF assms(1,2)]) (use times in simp_all)
  have "stop_active t2 KRetryable failure True None FAILED_RUN ?c1 = (Inr (), ?c2)"
    using stop_active_cases [OF surjective_pairing act, of t2 KRetryable failure True None FAILED_RUN] times(2)
    by (auto simp: prod_eq_iff)
  then have two: "fail_attempt (lease_of a) (Aware t2) failure True ?c1 = (Inr (), ?c2)"
    using live texts(3) by (simp add: fail_attempt_def require_aware_def require_text_def action_eval)
  have len: "length (butlast (co_attempts c) @ [?r]) = length (co_attempts c)"
    by (rule set_last_numbers(2) [OF assms(2)]) (simp add: stopped_record_def)
  have c2: "co_state ?c2 = WAITING" "active_attempt ?c2 = None" "co_queued_at ?c2 = co_queued_at c"
    "length (co_attempts ?c2) = length (co_attempts c)" "co_policy ?c2 = co_policy c"
    using len assms(3) by (simp_all add: stopped_def active_attempt_def stopped_record_def)
  have "\<exists>l c3. acquire w (Aware t3) i t ?c2 = (Inr l, c3) \<and> co_state c3 = RUNNING"
    using c2 assms(3) times(4) texts(4)
    by (simp add: acquire_def action_eval require_text_def require_aware_def require_nonterminal_def
        terminal_def require_not_before_def Let_def)
  moreover have "map_option cr_reason_code (co_cancellation ?c2) = Some reason" by (simp add: stopped_def)
  ultimately show ?thesis using one two c2(1) by blast
qed

theorem cancellation_is_retried_after_a_retryable_failure_witness:
  "\<exists>c1 c2 l c3. request_cancellation (Aware 2) ''r'' ''v'' demo_running = (Inr (), c1) \<and>
     fail_attempt (lease_of (new_record demo_run ''w'' 1 ''a1'' ''t1'')) (Aware 3) ''r'' True c1 = (Inr (), c2) \<and>
     co_state c2 = WAITING \<and> map_option cr_reason_code (co_cancellation c2) = Some ''r'' \<and>
     acquire ''v'' (Aware 4) ''a2'' ''t2'' c2 = (Inr l, c3) \<and> co_state c3 = RUNNING"
  by (rule cancellation_is_retried_after_a_retryable_failure [OF demo_running_reachable(2)])
    (simp_all add: active_attempt_def demo_running_def new_record_def demo_run_def demo_attempt_policy_def not_blank_demo)

end
