(* ===== verification/Worker.thy ===== *)
theory Worker
  imports Py_Text
begin

text \<open>
  \<open>worker.py\<close>: the durable queue consumer. A message is parsed into its execution key, the
  key is claimed by compare-and-swap in the execution-key store, the handler runs, and the
  outcome is settled in the store and in the queue. Handling a message has two phases
  around the handler, \<open>handle_begin\<close> and \<open>handle_settle\<close>; the phases of several workers
  interleave. The store is used through its interface, a record of operations with the laws
  of the locale \<open>execution_store\<close>; \<open>InMemoryExecutionKeyStore\<close> is an interpretation.
\<close>

section \<open>Types\<close>

datatype job_result = SUCCEEDED_JOB | CANCELLED_JOB | RETRY | PERMANENT_FAILURE

datatype record_status = IN_PROGRESS | SUCCEEDED | CANCELLED | FAILED

datatype message_disposition = DELETED | RETURNED | DEAD_LETTERED

datatype worker_error =
    WorkerConfigurationError string
  | StoreValueError string
  | StoreKeyError string
  | MessageKeyError string
  | MessageValueError
  | DurationOverflowError
  | ClientError

datatype json = JNull | JBool bool | JNumber string | JString string | JArray "json list"
  | JObject "(string \<times> json) list"

fun status_value :: "record_status \<Rightarrow> string" where
  "status_value IN_PROGRESS = ''IN_PROGRESS''"
| "status_value SUCCEEDED = ''SUCCEEDED''"
| "status_value CANCELLED = ''CANCELLED''"
| "status_value FAILED = ''FAILED''"

section \<open>Execution keys\<close>

definition WORKER_EXECUTION_KEY_MAX_LENGTH :: nat where
  "WORKER_EXECUTION_KEY_MAX_LENGTH = 160"

definition KEY_PREFIX :: string where
  "KEY_PREFIX = ''BACKTEST_RUN:''"

text \<open>The SHA-256 hex digest of the UTF-8 text is the parameter \<open>sha256\<close>.\<close>

definition worker_execution_key_for ::
  "(string \<Rightarrow> string) \<Rightarrow> string \<Rightarrow> string \<Rightarrow> worker_error + string" where
  "worker_execution_key_for sha256 run_id idempotency_key =
     ebind (require (run_id \<noteq> [] \<and> idempotency_key \<noteq> [])
       (WorkerConfigurationError ''run_id and idempotency_key must not be empty'')) (\<lambda>_.
     let key = KEY_PREFIX @ run_id @ '':'' @ idempotency_key in
     if length key \<le> WORKER_EXECUTION_KEY_MAX_LENGTH then Inr key
     else
       let folded = KEY_PREFIX @ run_id @ '':sha256-'' @ sha256 idempotency_key in
       if WORKER_EXECUTION_KEY_MAX_LENGTH < length folded
       then Inl (WorkerConfigurationError ''run_id is too long to form an execution key'')
       else Inr folded)"

section \<open>The execution-key store\<close>

record execution_claim =
  cl_acquired :: bool
  cl_attempt_number :: int
  cl_existing_status :: "record_status option"

record 's key_store =
  ks_claim :: "string \<Rightarrow> string \<Rightarrow> string \<Rightarrow> instant \<Rightarrow> 's \<Rightarrow> execution_claim \<times> 's"
  ks_release :: "string \<Rightarrow> instant \<Rightarrow> 's \<Rightarrow> 's"
  ks_finish :: "string \<Rightarrow> record_status \<Rightarrow> instant \<Rightarrow> string option \<Rightarrow> string option \<Rightarrow> string option
     \<Rightarrow> ('s, worker_error, unit) action"
  ks_record_run_failure :: "string \<Rightarrow> string \<Rightarrow> string \<Rightarrow> instant \<Rightarrow> 's \<Rightarrow> record_status \<times> 's"
  ks_status :: "string \<Rightarrow> 's \<Rightarrow> record_status option"

record execution_record =
  er_run_id :: string
  er_owner :: string
  er_attempt_number :: int
  er_status :: record_status
  er_updated_at :: instant

record memory_store =
  ms_records :: "string \<rightharpoonup> execution_record"
  ms_released_attempts :: "string \<rightharpoonup> int"
  ms_run_failures :: "string \<rightharpoonup> string"

definition memory_store_new :: memory_store where
  "memory_store_new = \<lparr>ms_records = Map.empty, ms_released_attempts = Map.empty, ms_run_failures = Map.empty\<rparr>"

definition mem_claim ::
  "string \<Rightarrow> string \<Rightarrow> string \<Rightarrow> instant \<Rightarrow> memory_store \<Rightarrow> execution_claim \<times> memory_store" where
  "mem_claim key run_id owner now s =
     (case ms_records s key of
        None \<Rightarrow>
          let attempt = (case ms_released_attempts s key of None \<Rightarrow> 0 | Some n \<Rightarrow> n) + 1 in
          (\<lparr>cl_acquired = True, cl_attempt_number = attempt, cl_existing_status = None\<rparr>,
           s\<lparr>ms_released_attempts := (ms_released_attempts s)(key := None),
             ms_records := (ms_records s)(key \<mapsto> \<lparr>er_run_id = run_id, er_owner = owner,
               er_attempt_number = attempt, er_status = IN_PROGRESS, er_updated_at = now\<rparr>)\<rparr>)
      | Some r \<Rightarrow>
          (\<lparr>cl_acquired = False, cl_attempt_number = er_attempt_number r,
            cl_existing_status = Some (er_status r)\<rparr>, s))"

definition mem_release :: "string \<Rightarrow> instant \<Rightarrow> memory_store \<Rightarrow> memory_store" where
  "mem_release key now s =
     (case ms_records s key of
        None \<Rightarrow> s
      | Some r \<Rightarrow> s\<lparr>ms_records := (ms_records s)(key := None),
          ms_released_attempts := (ms_released_attempts s)(key \<mapsto> er_attempt_number r)\<rparr>)"

definition or_else :: "string option \<Rightarrow> string \<Rightarrow> string" where
  "or_else v fallback = (case v of None \<Rightarrow> fallback | Some t \<Rightarrow> if t = [] then fallback else t)"

definition mem_finish ::
  "string \<Rightarrow> record_status \<Rightarrow> instant \<Rightarrow> string option \<Rightarrow> string option \<Rightarrow> string option
     \<Rightarrow> (memory_store, worker_error, unit) action" where
  "mem_finish key status now reason_code run_id run_failure_code s =
     (if status = IN_PROGRESS then (Inl (StoreValueError ''finish requires a terminal status''), s)
      else case ms_records s key of
             None \<Rightarrow> (Inl (StoreKeyError (''no execution record for '' @ key)), s)
           | Some r \<Rightarrow>
               let s' = s\<lparr>ms_records := (ms_records s)(key \<mapsto> r\<lparr>er_status := status, er_updated_at := now\<rparr>)\<rparr>
               in (Inr (),
                   case run_id of
                     None \<Rightarrow> s'
                   | Some rid \<Rightarrow>
                       if status = FAILED
                       then s'\<lparr>ms_run_failures := (ms_run_failures s')(rid \<mapsto>
                              or_else run_failure_code (or_else reason_code ''EXECUTION_FAILED''))\<rparr>
                       else s'))"

definition mem_record_run_failure ::
  "string \<Rightarrow> string \<Rightarrow> string \<Rightarrow> instant \<Rightarrow> memory_store \<Rightarrow> record_status \<times> memory_store" where
  "mem_record_run_failure key run_id failure_code now s =
     (case ms_records s key of
        Some r \<Rightarrow> (er_status r, s)
      | None \<Rightarrow>
          (FAILED,
           if ms_run_failures s run_id = None
           then s\<lparr>ms_run_failures := (ms_run_failures s)(run_id \<mapsto> failure_code)\<rparr> else s))"

definition mem_status :: "string \<Rightarrow> memory_store \<Rightarrow> record_status option" where
  "mem_status key s = map_option er_status (ms_records s key)"

definition run_terminal_failure :: "string \<Rightarrow> memory_store \<Rightarrow> string option" where
  "run_terminal_failure run_id s = ms_run_failures s run_id"

definition mem_attempt_number :: "string \<Rightarrow> memory_store \<Rightarrow> int option" where
  "mem_attempt_number key s =
     (case ms_records s key of Some r \<Rightarrow> Some (er_attempt_number r) | None \<Rightarrow> ms_released_attempts s key)"

definition mem_owner :: "string \<Rightarrow> memory_store \<Rightarrow> string option" where
  "mem_owner key s = map_option er_owner (ms_records s key)"

definition in_memory_store :: "memory_store key_store" where
  "in_memory_store = \<lparr>ks_claim = mem_claim, ks_release = mem_release, ks_finish = mem_finish,
     ks_record_run_failure = mem_record_run_failure, ks_status = mem_status\<rparr>"

section \<open>Configuration\<close>

text \<open>Durations are in microseconds.\<close>

record worker_config =
  wc_queue_url :: string
  wc_dead_letter_queue_url :: string
  wc_worker_id :: string
  wc_max_receive_count :: int
  wc_visibility_timeout :: duration
  wc_wait_time :: duration
  wc_max_messages :: int
  wc_heartbeat_interval :: duration

definition worker_config_new :: "worker_config \<Rightarrow> worker_error + worker_config" where
  "worker_config_new c =
     ebind (require (\<not> blank (wc_queue_url c)) (WorkerConfigurationError ''queue_url must not be blank'')) (\<lambda>_.
     ebind (require (\<not> blank (wc_dead_letter_queue_url c))
       (WorkerConfigurationError ''dead_letter_queue_url must not be blank'')) (\<lambda>_.
     ebind (require (\<not> blank (wc_worker_id c)) (WorkerConfigurationError ''worker_id must not be blank'')) (\<lambda>_.
     ebind (require (1 \<le> wc_max_receive_count c)
       (WorkerConfigurationError ''max_receive_count must be at least 1'')) (\<lambda>_.
     ebind (require (1 \<le> wc_max_messages c \<and> wc_max_messages c \<le> 10)
       (WorkerConfigurationError ''max_messages must be between 1 and 10'')) (\<lambda>_.
     ebind (require (0 \<le> wc_wait_time c \<and> wc_wait_time c \<le> 20000000)
       (WorkerConfigurationError ''wait_time must be between 0 and 20 seconds (the SQS long-poll cap)'')) (\<lambda>_.
     ebind (require (0 < wc_visibility_timeout c)
       (WorkerConfigurationError ''visibility_timeout must be positive'')) (\<lambda>_.
     ebind (require (0 < wc_heartbeat_interval c)
       (WorkerConfigurationError ''heartbeat_interval must be positive'')) (\<lambda>_.
     ebind (require (wc_heartbeat_interval c < wc_visibility_timeout c)
       (WorkerConfigurationError ''heartbeat_interval must be shorter than visibility_timeout, otherwise the message is redelivered before the first extension'')) (\<lambda>_.
     Inr c)))))))))"

section \<open>Messages, outcomes and queue calls\<close>

record message =
  mg_message_id :: string
  mg_receipt_handle :: "string option"
  mg_receive_count :: "string option"
  mg_body :: string

record job_context =
  jc_worker_execution_key :: string
  jc_attempt_number :: int
  jc_receive_count :: int
  jc_message_id :: string
  jc_worker_id :: string

record job_outcome =
  jo_result :: job_result
  jo_reason_code :: "string option"

definition job_outcome_new :: "job_result \<Rightarrow> string option \<Rightarrow> worker_error + job_outcome" where
  "job_outcome_new result reason_code =
     (if result \<noteq> SUCCEEDED_JOB \<and> (reason_code = None \<or> reason_code = Some [])
      then Inl (StoreValueError ''a non-successful outcome must carry a reason_code'')
      else Inr \<lparr>jo_result = result, jo_reason_code = reason_code\<rparr>)"

record handled_message =
  hm_message_id :: string
  hm_disposition :: message_disposition
  hm_reason_code :: "string option"
  hm_worker_execution_key :: "string option"

datatype queue_call =
    DeleteMessage (dm_url: string) (dm_receipt: string)
  | ReturnMessage string string
  | SendDeadLetter (dl_url: string) (dl_body: string) (dl_reason: string) (dl_source: string)
      (dl_worker: string) (dl_key: "string option")

text \<open>
  The world a worker acts on: the store and the calls the queue client accepted. The client
  raises at the call numbers for which \<open>accepts\<close> is false.
\<close>

record 's world =
  w_store :: 's
  w_calls :: "queue_call list"
  w_tried :: nat

definition client_call :: "(nat \<Rightarrow> bool) \<Rightarrow> queue_call \<Rightarrow> ('s world, worker_error, unit) action" where
  "client_call accepts c w =
     (let w' = w\<lparr>w_tried := Suc (w_tried w)\<rparr> in
      if accepts (w_tried w) then (Inr (), w'\<lparr>w_calls := w_calls w @ [c]\<rparr>) else (Inl ClientError, w'))"

definition delete_message :: "(nat \<Rightarrow> bool) \<Rightarrow> worker_config \<Rightarrow> string \<Rightarrow> ('s world, worker_error, unit) action" where
  "delete_message accepts cfg receipt = client_call accepts (DeleteMessage (wc_queue_url cfg) receipt)"

definition return_to_queue :: "(nat \<Rightarrow> bool) \<Rightarrow> worker_config \<Rightarrow> string \<Rightarrow> ('s world, worker_error, unit) action" where
  "return_to_queue accepts cfg receipt = client_call accepts (ReturnMessage (wc_queue_url cfg) receipt)"

definition dead_letter ::
  "(nat \<Rightarrow> bool) \<Rightarrow> worker_config \<Rightarrow> message \<Rightarrow> string \<Rightarrow> string \<Rightarrow> string option
     \<Rightarrow> ('s world, worker_error, handled_message) action" where
  "dead_letter accepts cfg msg receipt reason_code key =
     abind (client_call accepts (SendDeadLetter (wc_dead_letter_queue_url cfg) (mg_body msg) reason_code
              (wc_queue_url cfg) (wc_worker_id cfg) (if key = Some [] then None else key))) (\<lambda>_.
     abind (delete_message accepts cfg receipt) (\<lambda>_.
     areturn \<lparr>hm_message_id = mg_message_id msg, hm_disposition = DEAD_LETTERED,
       hm_reason_code = Some reason_code, hm_worker_execution_key = key\<rparr>))"

definition handled :: "message \<Rightarrow> message_disposition \<Rightarrow> string option \<Rightarrow> string \<Rightarrow> handled_message" where
  "handled msg disposition reason key =
     \<lparr>hm_message_id = mg_message_id msg, hm_disposition = disposition, hm_reason_code = reason,
      hm_worker_execution_key = Some key\<rparr>"

definition acknowledge ::
  "(nat \<Rightarrow> bool) \<Rightarrow> worker_config \<Rightarrow> message \<Rightarrow> string \<Rightarrow> string option \<Rightarrow> string
     \<Rightarrow> ('s world, worker_error, handled_message) action" where
  "acknowledge accepts cfg msg receipt reason key =
     abind (delete_message accepts cfg receipt) (\<lambda>_. areturn (handled msg DELETED reason key))"

definition on_duplicate ::
  "(nat \<Rightarrow> bool) \<Rightarrow> worker_config \<Rightarrow> message \<Rightarrow> string \<Rightarrow> execution_claim \<Rightarrow> string
     \<Rightarrow> ('s world, worker_error, handled_message) action" where
  "on_duplicate accepts cfg msg receipt claim key =
     (if cl_existing_status claim = Some SUCCEEDED
      then acknowledge accepts cfg msg receipt (Some ''DUPLICATE_ALREADY_SUCCEEDED'') key
      else if cl_existing_status claim = Some CANCELLED
      then acknowledge accepts cfg msg receipt (Some ''DUPLICATE_ALREADY_CANCELLED'') key
      else if cl_existing_status claim = Some FAILED
      then dead_letter accepts cfg msg receipt ''DUPLICATE_ALREADY_FAILED'' (Some key)
      else areturn (handled msg RETURNED (Some ''EXECUTION_KEY_HELD'') key))"

text \<open>
  The body is decoded by \<open>json.loads\<close> (\<open>loads\<close>, \<open>None\<close> where it raises); \<open>str\<close> of a member
  is \<open>py_str\<close>, the text itself on a string.
\<close>

record codec =
  cd_loads :: "string \<Rightarrow> json option"
  cd_str :: "json \<Rightarrow> string"
  cd_sha256 :: "string \<Rightarrow> string"

definition parse_message :: "codec \<Rightarrow> message \<Rightarrow> (json \<times> string \<times> string) option" where
  "parse_message cd msg =
     (case cd_loads cd (mg_body msg) of
        Some (JObject members) \<Rightarrow>
          (case (map_of members ''backtestRunId'', map_of members ''idempotencyKey'') of
             (Some r, Some i) \<Rightarrow>
               (case worker_execution_key_for (cd_sha256 cd) (cd_str cd r) (cd_str cd i) of
                  Inl _ \<Rightarrow> None
                | Inr key \<Rightarrow> Some (JObject members, cd_str cd r, key))
           | _ \<Rightarrow> None)
      | _ \<Rightarrow> None)"

section \<open>Handling a message\<close>

record in_flight =
  fl_config :: worker_config
  fl_message :: message
  fl_receipt :: string
  fl_job :: json
  fl_run_id :: string
  fl_context :: job_context

definition in_store :: "('s, 'e, 'a) action \<Rightarrow> ('s world, 'e, 'a) action" where
  "in_store m w = (case m (w_store w) of (r, s) \<Rightarrow> (r, w\<lparr>w_store := s\<rparr>))"

text \<open>
  \<open>_handle\<close> up to the call of the handler: either the message is done with, or its key is
  claimed and the handler runs.
\<close>

definition claim_message ::
  "'s key_store \<Rightarrow> (nat \<Rightarrow> bool) \<Rightarrow> worker_config \<Rightarrow> message \<Rightarrow> string \<Rightarrow> int \<Rightarrow> instant
     \<Rightarrow> json \<times> string \<times> string \<Rightarrow> ('s world, worker_error, handled_message + in_flight) action" where
  "claim_message ops accepts cfg msg receipt receive_count now parsed =
     (case parsed of (job, run_id, key) \<Rightarrow>
      if wc_max_receive_count cfg < receive_count then
        abind (in_store (\<lambda>s. case ks_record_run_failure ops key run_id ''MAX_ATTEMPTS_EXHAUSTED'' now s of
                                (st, s') \<Rightarrow> (Inr st, s'))) (\<lambda>existing.
        if existing = IN_PROGRESS
        then areturn (Inl (handled msg RETURNED (Some ''EXECUTION_KEY_HELD'') key))
        else if existing = SUCCEEDED \<or> existing = CANCELLED
        then abind (acknowledge accepts cfg msg receipt
               (Some (''DUPLICATE_ALREADY_'' @ status_value existing)) key) (\<lambda>h. areturn (Inl h))
        else abind (dead_letter accepts cfg msg receipt ''MAX_ATTEMPTS_EXHAUSTED'' (Some key)) (\<lambda>h. areturn (Inl h)))
      else
        abind (in_store (\<lambda>s. case ks_claim ops key run_id (wc_worker_id cfg) now s of (c, s') \<Rightarrow> (Inr c, s'))) (\<lambda>claim.
        if \<not> cl_acquired claim
        then abind (on_duplicate accepts cfg msg receipt claim key) (\<lambda>h. areturn (Inl h))
        else areturn (Inr \<lparr>fl_config = cfg, fl_message = msg, fl_receipt = receipt, fl_job = job,
          fl_run_id = run_id,
          fl_context = \<lparr>jc_worker_execution_key = key, jc_attempt_number = cl_attempt_number claim,
            jc_receive_count = receive_count, jc_message_id = mg_message_id msg,
            jc_worker_id = wc_worker_id cfg\<rparr>\<rparr>)))"

definition handle_begin ::
  "'s key_store \<Rightarrow> codec \<Rightarrow> (nat \<Rightarrow> bool) \<Rightarrow> worker_config \<Rightarrow> message \<Rightarrow> instant
     \<Rightarrow> ('s world, worker_error, handled_message + in_flight) action" where
  "handle_begin ops cd accepts cfg msg now =
     abind (alift (case mg_receipt_handle msg of None \<Rightarrow> Inl (MessageKeyError ''ReceiptHandle'') | Some r \<Rightarrow> Inr r)) (\<lambda>receipt.
     abind (alift (case py_int (case mg_receive_count msg of None \<Rightarrow> ''1'' | Some t \<Rightarrow> t) of
                     None \<Rightarrow> Inl MessageValueError | Some n \<Rightarrow> Inr n)) (\<lambda>receive_count.
     case parse_message cd msg of
       None \<Rightarrow> abind (dead_letter accepts cfg msg receipt ''MESSAGE_NOT_PARSEABLE'' None) (\<lambda>h. areturn (Inl h))
     | Some parsed \<Rightarrow> claim_message ops accepts cfg msg receipt receive_count now parsed))"

text \<open>\<open>_invoke\<close>: an exception of the handler, by the name of its type, is a retryable outcome.\<close>

definition invoke :: "(json \<Rightarrow> job_context \<Rightarrow> string + job_outcome) \<Rightarrow> in_flight \<Rightarrow> job_outcome" where
  "invoke handler f =
     (case handler (fl_job f) (fl_context f) of
        Inl exception_name \<Rightarrow> \<lparr>jo_result = RETRY, jo_reason_code = Some (''HANDLER_ERROR:'' @ exception_name)\<rparr>
      | Inr outcome \<Rightarrow> outcome)"

text \<open>\<open>_handle\<close> after the handler has returned.\<close>

definition retries_exhausted :: "in_flight \<Rightarrow> bool" where
  "retries_exhausted f \<longleftrightarrow> wc_max_receive_count (fl_config f) \<le> jc_receive_count (fl_context f)"

definition handle_settle ::
  "'s key_store \<Rightarrow> (nat \<Rightarrow> bool) \<Rightarrow> in_flight \<Rightarrow> job_outcome \<Rightarrow> instant
     \<Rightarrow> ('s world, worker_error, handled_message) action" where
  "handle_settle ops accepts f outcome now =
     (let cfg = fl_config f; msg = fl_message f; receipt = fl_receipt f; run_id = fl_run_id f;
          key = jc_worker_execution_key (fl_context f); reason = jo_reason_code outcome in
      case jo_result outcome of
        SUCCEEDED_JOB \<Rightarrow>
          abind (in_store (ks_finish ops key SUCCEEDED now None None None)) (\<lambda>_.
          acknowledge accepts cfg msg receipt None key)
      | CANCELLED_JOB \<Rightarrow>
          abind (in_store (ks_finish ops key CANCELLED now reason (Some run_id) None)) (\<lambda>_.
          acknowledge accepts cfg msg receipt reason key)
      | RETRY \<Rightarrow>
          let reason_code = or_else reason ''RETRY_REQUESTED'' in
          if retries_exhausted f then
            abind (in_store (ks_finish ops key FAILED now (Some reason_code) (Some run_id) (Some ''MAX_ATTEMPTS_EXHAUSTED''))) (\<lambda>_.
            dead_letter accepts cfg msg receipt (''MAX_ATTEMPTS_EXHAUSTED:'' @ reason_code) (Some key))
          else
            abind (in_store (\<lambda>s. (Inr (), ks_release ops key now s))) (\<lambda>_.
            abind (return_to_queue accepts cfg receipt) (\<lambda>_.
            areturn (handled msg RETURNED (Some reason_code) key)))
      | PERMANENT_FAILURE \<Rightarrow>
          abind (in_store (ks_finish ops key FAILED now reason (Some run_id) reason)) (\<lambda>_.
          dead_letter accepts cfg msg receipt (or_else reason ''PERMANENT_FAILURE'') (Some key)))"

definition handle ::
  "'s key_store \<Rightarrow> codec \<Rightarrow> (nat \<Rightarrow> bool) \<Rightarrow> (json \<Rightarrow> job_context \<Rightarrow> string + job_outcome)
     \<Rightarrow> worker_config \<Rightarrow> message \<Rightarrow> instant \<Rightarrow> instant \<Rightarrow> ('s world, worker_error, handled_message) action" where
  "handle ops cd accepts handler cfg msg now later =
     abind (handle_begin ops cd accepts cfg msg now) (\<lambda>r.
     case r of
       Inl h \<Rightarrow> areturn h
     | Inr f \<Rightarrow> handle_settle ops accepts f (invoke handler f) later)"

fun poll_once ::
  "'s key_store \<Rightarrow> codec \<Rightarrow> (nat \<Rightarrow> bool) \<Rightarrow> (json \<Rightarrow> job_context \<Rightarrow> string + job_outcome)
     \<Rightarrow> worker_config \<Rightarrow> (message \<times> instant \<times> instant) list \<Rightarrow> ('s world, worker_error, handled_message list) action" where
  "poll_once ops cd accepts handler cfg [] = areturn []"
| "poll_once ops cd accepts handler cfg ((msg, now, later) # rest) =
     abind (handle ops cd accepts handler cfg msg now later) (\<lambda>h.
     abind (poll_once ops cd accepts handler cfg rest) (\<lambda>hs. areturn (h # hs)))"

section \<open>The heartbeat thread\<close>

text \<open>
  One store heartbeat: it answers with an optional cancellation reason, or raises, and then
  the handler may finish during the pause before the next try. A beat is the tries made in
  one interval; \<open>Finished\<close> means that the thread ended.
\<close>

datatype heartbeat_try = Answered "string option" | Raised bool

datatype beat_result = BeatReason "string option" | BeatUnavailable | BeatFinished

fun heartbeat_tries :: "nat \<Rightarrow> heartbeat_try list \<Rightarrow> beat_result option" where
  "heartbeat_tries retry [] = None"
| "heartbeat_tries retry (Answered reason # ts) = Some (BeatReason reason)"
| "heartbeat_tries retry (Raised done # ts) =
     (if retry = 2 then Some BeatUnavailable
      else if done then Some BeatFinished
      else heartbeat_tries (Suc retry) ts)"

datatype beat_round = HandlerDone | Beat "heartbeat_try list"

record beat_state =
  bs_cancellation :: "string option"
  bs_heartbeat_count :: nat
  bs_ended :: bool

fun beat_loop :: "beat_round list \<Rightarrow> beat_state \<Rightarrow> beat_state" where
  "beat_loop [] b = b"
| "beat_loop (HandlerDone # rs) b = b\<lparr>bs_ended := True\<rparr>"
| "beat_loop (Beat ts # rs) b =
     (case heartbeat_tries 0 ts of
        None \<Rightarrow> b
      | Some BeatUnavailable \<Rightarrow> b\<lparr>bs_cancellation := Some ''WORKER_HEARTBEAT_UNAVAILABLE'', bs_ended := True\<rparr>
      | Some BeatFinished \<Rightarrow> b\<lparr>bs_ended := True\<rparr>
      | Some (BeatReason reason) \<Rightarrow>
          beat_loop rs (b\<lparr>bs_cancellation := (case reason of None \<Rightarrow> bs_cancellation b | Some r \<Rightarrow> Some r),
                          bs_heartbeat_count := Suc (bs_heartbeat_count b)\<rparr>))"

end
