(* ===== verification/Worker_Safety.thy ===== *)
theory Worker_Safety
  imports Worker
begin

text \<open>
  The guarantees of the queue consumer. Workers interleave: at any moment a worker may begin
  a message, a running handler may end with any outcome, or a worker may crash. The contract
  of the execution-key store is the locale \<open>execution_store\<close>; from its laws alone follow
  mutual exclusion per execution key, consecutive attempt numbers, and that a key is never
  executed again after a terminal outcome. The in-memory store satisfies the contract.
\<close>

section \<open>The contract of the store\<close>

locale execution_store =
  fixes ops :: "'s key_store"
    and attempts :: "'s \<Rightarrow> string \<Rightarrow> int"
    and fresh :: 's
  assumes fresh_status: "ks_status ops k fresh = None"
    and fresh_attempts: "attempts fresh k = 0"
    and claim_free: "ks_status ops k s = None \<Longrightarrow> ks_claim ops k rid owner now s = (c, s') \<Longrightarrow>
      cl_acquired c \<and> cl_attempt_number c = attempts s k + 1 \<and>
      ks_status ops k s' = Some IN_PROGRESS \<and> attempts s' k = attempts s k + 1"
    and claim_held: "ks_status ops k s = Some st \<Longrightarrow> ks_claim ops k rid owner now s = (c, s') \<Longrightarrow>
      \<not> cl_acquired c \<and> cl_existing_status c = Some st \<and> s' = s"
    and claim_frame: "ks_claim ops k rid owner now s = (c, s') \<Longrightarrow> k' \<noteq> k \<Longrightarrow>
      ks_status ops k' s' = ks_status ops k' s \<and> attempts s' k' = attempts s k'"
    and release_status: "ks_status ops k (ks_release ops k now s) = None"
    and release_frame: "k' \<noteq> k \<Longrightarrow> ks_status ops k' (ks_release ops k now s) = ks_status ops k' s"
    and release_attempts: "attempts (ks_release ops k now s) k' = attempts s k'"
    and finish_held: "ks_status ops k s \<noteq> None \<Longrightarrow> st \<noteq> IN_PROGRESS \<Longrightarrow>
      ks_finish ops k st now reason run code' s = (r, s') \<Longrightarrow> r = Inr () \<and> ks_status ops k s' = Some st"
    and finish_frame: "ks_finish ops k st now reason run code' s = (r, s') \<Longrightarrow> k' \<noteq> k \<Longrightarrow>
      ks_status ops k' s' = ks_status ops k' s"
    and finish_attempts: "ks_finish ops k st now reason run code' s = (r, s') \<Longrightarrow> attempts s' k' = attempts s k'"
    and failure_result: "ks_record_run_failure ops k rid code now s = (st, s') \<Longrightarrow>
      st = (case ks_status ops k s of None \<Rightarrow> FAILED | Some x \<Rightarrow> x)"
    and failure_frame: "ks_record_run_failure ops k rid code now s = (st, s') \<Longrightarrow>
      ks_status ops k' s' = ks_status ops k' s \<and> attempts s' k' = attempts s k'"

section \<open>Interleaved workers\<close>

text \<open>
  The state of the system: the world, the handlers in flight, the executions started (key and
  attempt number) and the ones ended with their result.
\<close>

record 's worker_system =
  sy_world :: "'s world"
  sy_flights :: "in_flight list"
  sy_started :: "(string \<times> int) list"
  sy_final :: "string list"

definition fl_key :: "in_flight \<Rightarrow> string" where
  "fl_key f = jc_worker_execution_key (fl_context f)"

definition fl_attempt :: "in_flight \<Rightarrow> int" where
  "fl_attempt f = jc_attempt_number (fl_context f)"

text \<open>An outcome that may be tried again: a retry below the receive limit.\<close>

definition retryable :: "in_flight \<Rightarrow> job_outcome \<Rightarrow> bool" where
  "retryable f outcome \<longleftrightarrow> jo_result outcome = RETRY \<and> \<not> retries_exhausted f"

definition system_new :: "'s \<Rightarrow> 's worker_system" where
  "system_new s = \<lparr>sy_world = \<lparr>w_store = s, w_calls = [], w_tried = 0\<rparr>, sy_flights = [],
     sy_started = [], sy_final = []\<rparr>"

definition begin_message ::
  "'s key_store \<Rightarrow> codec \<Rightarrow> (nat \<Rightarrow> bool) \<Rightarrow> worker_config \<Rightarrow> message \<Rightarrow> instant \<Rightarrow> 's worker_system \<Rightarrow> 's worker_system" where
  "begin_message ops cd accepts cfg msg now y =
     (case handle_begin ops cd accepts cfg msg now (sy_world y) of
        (Inr (Inr f), w) \<Rightarrow> y\<lparr>sy_world := w, sy_flights := f # sy_flights y,
                              sy_started := sy_started y @ [(fl_key f, fl_attempt f)]\<rparr>
      | (_, w) \<Rightarrow> y\<lparr>sy_world := w\<rparr>)"

definition settle_flight ::
  "'s key_store \<Rightarrow> (nat \<Rightarrow> bool) \<Rightarrow> in_flight \<Rightarrow> job_outcome \<Rightarrow> instant \<Rightarrow> 's worker_system \<Rightarrow> 's worker_system" where
  "settle_flight ops accepts f outcome now y =
     y\<lparr>sy_world := snd (handle_settle ops accepts f outcome now (sy_world y)),
       sy_flights := remove1 f (sy_flights y),
       sy_final := (if retryable f outcome then sy_final y else sy_final y @ [fl_key f])\<rparr>"

inductive worker_step ::
  "'s key_store \<Rightarrow> codec \<Rightarrow> 's worker_system \<Rightarrow> 's worker_system \<Rightarrow> bool"
  for ops :: "'s key_store" and cd :: codec where
  step_begin: "worker_step ops cd y (begin_message ops cd accepts cfg msg now y)"
| step_settle: "f \<in> set (sy_flights y) \<Longrightarrow> worker_step ops cd y (settle_flight ops accepts f outcome now y)"
| step_crash: "f \<in> set (sy_flights y) \<Longrightarrow> worker_step ops cd y (y\<lparr>sy_flights := remove1 f (sy_flights y)\<rparr>)"

abbreviation worker_reaches :: "'s key_store \<Rightarrow> codec \<Rightarrow> 's worker_system \<Rightarrow> 's worker_system \<Rightarrow> bool" where
  "worker_reaches ops cd \<equiv> (worker_step ops cd)\<^sup>*\<^sup>*"

definition started_attempts :: "string \<Rightarrow> 's worker_system \<Rightarrow> int list" where
  "started_attempts k y = map snd (filter (\<lambda>(k', _). k' = k) (sy_started y))"

section \<open>Effects on the store\<close>

lemma client_call_store [simp]: "w_store (snd (client_call accepts c w)) = w_store w"
  by (simp add: client_call_def Let_def)

lemma delete_store [simp]: "w_store (snd (delete_message accepts cfg r w)) = w_store w"
  by (simp add: delete_message_def)

lemma return_store [simp]: "w_store (snd (return_to_queue accepts cfg r w)) = w_store w"
  by (simp add: return_to_queue_def)

lemma dead_letter_store [simp]: "w_store (snd (dead_letter accepts cfg msg r reason k w)) = w_store w"
  by (simp add: dead_letter_def abind_apply split: sum.splits)

lemma acknowledge_store [simp]: "w_store (snd (acknowledge accepts cfg msg r reason k w)) = w_store w"
  by (simp add: acknowledge_def abind_apply split: sum.splits)

lemma on_duplicate_store [simp]: "w_store (snd (on_duplicate accepts cfg msg r c k w)) = w_store w"
  by (simp add: on_duplicate_def)

lemma in_store_snd [simp]: "w_store (snd (in_store m w)) = snd (m (w_store w))"
  by (simp add: in_store_def split: prod.splits)

lemma in_store_fst [simp]: "fst (in_store m w) = fst (m (w_store w))"
  by (simp add: in_store_def split: prod.splits)

text \<open>What beginning a message may do to the store, and the handler it starts, if any.\<close>

definition flight_of :: "('e + handled_message + in_flight) \<Rightarrow> in_flight option" where
  "flight_of r = (case r of Inr (Inr f) \<Rightarrow> Some f | _ \<Rightarrow> None)"

inductive begin_effect :: "'s key_store \<Rightarrow> instant \<Rightarrow> 's \<Rightarrow> in_flight option \<Rightarrow> 's \<Rightarrow> bool"
  for ops :: "'s key_store" and now :: instant and s :: 's where
  begin_quiet: "begin_effect ops now s None s"
| begin_failure: "ks_record_run_failure ops k rid code now s = (st, s') \<Longrightarrow> begin_effect ops now s None s'"
| begin_held: "ks_claim ops k rid owner now s = (c, s') \<Longrightarrow> \<not> cl_acquired c \<Longrightarrow> begin_effect ops now s None s'"
| begin_claimed: "ks_claim ops k rid owner now s = (c, s') \<Longrightarrow> cl_acquired c \<Longrightarrow> fl_key f = k \<Longrightarrow>
    fl_attempt f = cl_attempt_number c \<Longrightarrow> begin_effect ops now s (Some f) s'"

lemma flight_of_simps [simp]:
  "flight_of (Inl e) = None" "flight_of (Inr (Inl h)) = None" "flight_of (Inr (Inr f)) = Some f"
  by (simp_all add: flight_of_def)

lemma returned_flight [simp]: "flight_of (fst (abind m (\<lambda>h. areturn (Inl h)) w)) = None"
  by (simp add: abind_apply split: sum.splits)

lemma returned_store [simp]: "snd (abind m (\<lambda>h. areturn (g h)) w) = snd (m w)"
  by (simp add: abind_apply split: sum.splits)

lemma claim_message_effect:
  "begin_effect ops now (w_store w)
     (flight_of (fst (claim_message ops accepts cfg msg receipt n now parsed w)))
     (w_store (snd (claim_message ops accepts cfg msg receipt n now parsed w)))"
proof -
  obtain job rid key where p: "parsed = (job, rid, key)" by (cases parsed)
  show ?thesis
  proof (cases "wc_max_receive_count cfg < n")
    case True
    obtain st s' where r: "ks_record_run_failure ops key rid ''MAX_ATTEMPTS_EXHAUSTED'' now (w_store w) = (st, s')"
      by fastforce
    show ?thesis
      using begin_failure [OF r] True by (simp add: claim_message_def p abind_apply [of "in_store m" for m] r)
  next
    case False
    obtain c s' where r: "ks_claim ops key rid (wc_worker_id cfg) now (w_store w) = (c, s')" by fastforce
    show ?thesis
      using begin_held [OF r] begin_claimed [OF r] False
      by (simp add: claim_message_def p abind_apply [of "in_store m" for m] r fl_key_def fl_attempt_def)
  qed
qed

lemma handle_begin_effect:
  "begin_effect ops now (w_store w)
     (flight_of (fst (handle_begin ops cd accepts cfg msg now w)))
     (w_store (snd (handle_begin ops cd accepts cfg msg now w)))"
  using claim_message_effect [of ops now w] begin_quiet [of ops now "w_store w"]
  by (simp add: handle_begin_def abind_apply [of "alift m" for m] split: option.split sum.split)

text \<open>What settling does to the store.\<close>

definition final_status :: "in_flight \<Rightarrow> job_outcome \<Rightarrow> record_status" where
  "final_status f outcome =
     (case jo_result outcome of SUCCEEDED_JOB \<Rightarrow> SUCCEEDED | CANCELLED_JOB \<Rightarrow> CANCELLED | _ \<Rightarrow> FAILED)"

lemma snd_abind_frame:
  assumes "\<And>x v. w_store (snd (g x v)) = w_store v"
  shows "w_store (snd (abind m g w)) = w_store (snd (m w))"
  using assms by (simp add: abind_apply split: sum.splits)

lemma handle_settle_store:
  "\<exists>reason run code.
     w_store (snd (handle_settle ops accepts f outcome now w)) =
       (if retryable f outcome then ks_release ops (fl_key f) now (w_store w)
        else snd (ks_finish ops (fl_key f) (final_status f outcome) now reason run code (w_store w)))"
  by (cases "jo_result outcome")
    (auto simp: handle_settle_def Let_def retryable_def final_status_def fl_key_def snd_abind_frame intro!: exI)

section \<open>Consequences of the contract\<close>

definition system_ok :: "'s key_store \<Rightarrow> ('s \<Rightarrow> string \<Rightarrow> int) \<Rightarrow> 's worker_system \<Rightarrow> bool" where
  "system_ok ops attempts y \<longleftrightarrow>
     distinct (map fl_key (sy_flights y)) \<and>
     (\<forall>f\<in>set (sy_flights y). ks_status ops (fl_key f) (w_store (sy_world y)) = Some IN_PROGRESS \<and>
        attempts (w_store (sy_world y)) (fl_key f) = fl_attempt f) \<and>
     (\<forall>k. 0 \<le> attempts (w_store (sy_world y)) k \<and>
        started_attempts k y = [1..attempts (w_store (sy_world y)) k]) \<and>
     distinct (sy_final y) \<and>
     (\<forall>k\<in>set (sy_final y). \<exists>st. ks_status ops k (w_store (sy_world y)) = Some st \<and> st \<noteq> IN_PROGRESS)"

text \<open>The invariant reads the store only through statuses and attempt counts.\<close>

lemma system_ok_frame:
  assumes "system_ok ops attempts y"
    "\<And>k. ks_status ops k (w_store w) = ks_status ops k (w_store (sy_world y))"
    "\<And>k. attempts (w_store w) k = attempts (w_store (sy_world y)) k"
  shows "system_ok ops attempts (y\<lparr>sy_world := w\<rparr>)"
  using assms by (simp add: system_ok_def started_attempts_def)

lemma begin_message_flight:
  "begin_message ops cd accepts cfg msg now y =
     (let r = handle_begin ops cd accepts cfg msg now (sy_world y) in
      case flight_of (fst r) of
        None \<Rightarrow> y\<lparr>sy_world := snd r\<rparr>
      | Some f \<Rightarrow> y\<lparr>sy_world := snd r, sy_flights := f # sy_flights y,
                    sy_started := sy_started y @ [(fl_key f, fl_attempt f)]\<rparr>)"
  by (auto simp: begin_message_def flight_of_def Let_def split: prod.splits sum.splits)

context execution_store
begin

lemma begin_ok:
  assumes ok: "system_ok ops attempts y"
  shows "system_ok ops attempts (begin_message ops cd accepts cfg msg now y)"
proof -
  let ?r = "handle_begin ops cd accepts cfg msg now (sy_world y)"
  show ?thesis
    using handle_begin_effect [of ops now "sy_world y" cd accepts cfg msg]
  proof cases
    case begin_quiet
    with ok show ?thesis by (simp add: begin_message_flight Let_def system_ok_frame)
  next
    case (begin_failure k rid code st)
    with ok failure_frame [OF begin_failure(2)] show ?thesis
      by (simp add: begin_message_flight Let_def system_ok_frame)
  next
    case (begin_held k rid owner c)
    then obtain st where "ks_status ops k (w_store (sy_world y)) = Some st"
      using claim_free [OF _ begin_held(2)] by (cases "ks_status ops k (w_store (sy_world y))") auto
    from claim_held [OF this begin_held(2)] begin_held ok show ?thesis
      by (simp add: begin_message_flight Let_def system_ok_frame)
  next
    case (begin_claimed k rid owner c f)
    have free: "ks_status ops k (w_store (sy_world y)) = None"
      using claim_held [OF _ begin_claimed(2)] begin_claimed(3)
      by (cases "ks_status ops k (w_store (sy_world y))") auto
    note claimed = claim_free [OF free begin_claimed(2)] and frame = claim_frame [OF begin_claimed(2)]
    have new: "fl_key g \<noteq> k" if "g \<in> set (sy_flights y)" for g
      using that ok free by (auto simp: system_ok_def)
    have fin: "k \<notin> set (sy_final y)" using ok free by (auto simp: system_ok_def)
    have att: "started_attempts k' (y\<lparr>sy_started := sy_started y @ [(k, attempts (w_store (sy_world y)) k + 1)]\<rparr>) =
        [1..attempts (w_store (snd ?r)) k']" for k'
      using ok claimed frame [of k']
      by (cases "k' = k") (auto simp: system_ok_def started_attempts_def upto_rec2)
    have nonneg: "0 \<le> attempts (w_store (snd ?r)) k'" for k'
      using ok claimed frame [of k'] by (cases "k' = k") (auto simp: system_ok_def)
    have final: "\<exists>st. ks_status ops k' (w_store (snd ?r)) = Some st \<and> st \<noteq> IN_PROGRESS"
      if "k' \<in> set (sy_final y)" for k'
      using that ok fin frame [of k'] by (cases "k' = k") (auto simp: system_ok_def)
    have flights: "ks_status ops (fl_key g) (w_store (snd ?r)) = Some IN_PROGRESS \<and>
        attempts (w_store (snd ?r)) (fl_key g) = fl_attempt g" if "g \<in> set (f # sy_flights y)" for g
    proof (cases "g = f")
      case True
      with claimed begin_claimed(4,5) show ?thesis by simp
    next
      case False
      then have g: "g \<in> set (sy_flights y)" using that by simp
      from ok g have "ks_status ops (fl_key g) (w_store (sy_world y)) = Some IN_PROGRESS"
        "attempts (w_store (sy_world y)) (fl_key g) = fl_attempt g"
        unfolding system_ok_def by blast+
      with frame [OF new [OF g]] show ?thesis by simp
    qed
    have "fl_key f \<notin> fl_key ` set (sy_flights y)" unfolding begin_claimed(4) using new by auto
    then have "distinct (map fl_key (f # sy_flights y))" "distinct (sy_final y)"
      using ok by (simp_all add: system_ok_def)
    then show ?thesis
      using final flights att nonneg claimed begin_claimed(1,4,5)
      by (simp add: begin_message_flight Let_def system_ok_def started_attempts_def)
  qed
qed

lemma settle_ok:
  assumes ok: "system_ok ops attempts y" and f: "f \<in> set (sy_flights y)"
  shows "system_ok ops attempts (settle_flight ops accepts f outcome now y)"
proof -
  let ?s = "w_store (sy_world y)" and ?s' = "w_store (snd (handle_settle ops accepts f outcome now (sy_world y)))"
  obtain reason run code where st: "?s' = (if retryable f outcome then ks_release ops (fl_key f) now ?s
      else snd (ks_finish ops (fl_key f) (final_status f outcome) now reason run code ?s))"
    using handle_settle_store [of ops accepts f outcome now "sy_world y"] by blast
  have prog: "ks_status ops (fl_key f) ?s = Some IN_PROGRESS" using ok f by (auto simp: system_ok_def)
  obtain r s' where fin: "ks_finish ops (fl_key f) (final_status f outcome) now reason run code ?s = (r, s')"
    by fastforce
  have ns: "final_status f outcome \<noteq> IN_PROGRESS" by (simp add: final_status_def split: job_result.splits)
  have att: "attempts ?s' k = attempts ?s k" for k
    using st release_attempts finish_attempts [OF fin] by (simp add: fin)
  have other: "ks_status ops k ?s' = ks_status ops k ?s" if "k \<noteq> fl_key f" for k
    using st release_frame [OF that] finish_frame [OF fin that] by (simp add: fin)
  have own: "\<not> retryable f outcome \<Longrightarrow> ks_status ops (fl_key f) ?s' = Some (final_status f outcome)"
    using st finish_held [OF _ ns fin] prog by (simp add: fin)
  have d: "distinct (map fl_key (sy_flights y))" using ok by (simp add: system_ok_def)
  have rest: "fl_key g \<noteq> fl_key f \<and> g \<in> set (sy_flights y)" if "g \<in> set (remove1 f (sy_flights y))" for g
    using that d f by (metis distinct_map distinct_remove1 inj_onD notin_set_remove1 set_remove1_eq Diff_iff singletonI)
  have unfinal: "fl_key f \<notin> set (sy_final y)" using ok prog by (auto simp: system_ok_def)
  have d': "distinct (map fl_key (remove1 f (sy_flights y)))"
    using d by (induction "sy_flights y") (auto simp: distinct_map inj_on_def)
  have flights: "ks_status ops (fl_key g) ?s' = Some IN_PROGRESS \<and> attempts ?s' (fl_key g) = fl_attempt g"
    if "g \<in> set (remove1 f (sy_flights y))" for g
    using rest [OF that] other [of "fl_key g"] att ok by (auto simp: system_ok_def)
  have final: "\<exists>st. ks_status ops k ?s' = Some st \<and> st \<noteq> IN_PROGRESS"
    if "k \<in> set (sy_final y)" for k
    using that unfinal other [of k] ok by (cases "k = fl_key f") (auto simp: system_ok_def)
  show ?thesis
    using ok att d' flights final own ns unfinal
    by (auto simp: system_ok_def settle_flight_def started_attempts_def)
qed

lemma crash_ok:
  assumes ok: "system_ok ops attempts y"
  shows "system_ok ops attempts (y\<lparr>sy_flights := remove1 f (sy_flights y)\<rparr>)"
proof -
  have "distinct (map fl_key (remove1 f (sy_flights y)))"
    using ok by (auto simp: system_ok_def distinct_map intro: inj_on_subset dest: notin_set_remove1)
  moreover have "set (remove1 f (sy_flights y)) \<subseteq> set (sy_flights y)" by (rule set_remove1_subset)
  ultimately show ?thesis using ok by (auto simp: system_ok_def started_attempts_def)
qed

lemma new_ok: "system_ok ops attempts (system_new fresh)"
  by (simp add: system_ok_def system_new_def started_attempts_def fresh_attempts)

lemma step_ok: "worker_step ops cd y y' \<Longrightarrow> system_ok ops attempts y \<Longrightarrow> system_ok ops attempts y'"
  by (induction rule: worker_step.induct) (auto intro: begin_ok settle_ok crash_ok)

lemma steps_ok: "worker_reaches ops cd y y' \<Longrightarrow> system_ok ops attempts y \<Longrightarrow> system_ok ops attempts y'"
  by (induction rule: rtranclp_induct) (auto intro: step_ok)

lemma reachable_ok: "worker_reaches ops cd (system_new fresh) y \<Longrightarrow> system_ok ops attempts y"
  using steps_ok new_ok by blast

text \<open>A finished key is never started again.\<close>

lemma begin_final:
  assumes ok: "system_ok ops attempts y" and k: "k \<in> set (sy_final y)"
  shows "started_attempts k (begin_message ops cd accepts cfg msg now y) = started_attempts k y"
proof -
  let ?z = "begin_message ops cd accepts cfg msg now y"
  obtain st where st: "ks_status ops k (w_store (sy_world y)) = Some st" "st \<noteq> IN_PROGRESS"
    using ok k by (auto simp: system_ok_def)
  show ?thesis
    using handle_begin_effect [of ops now "sy_world y" cd accepts cfg msg]
  proof cases
    case (begin_claimed k' rid owner c f)
    have "k' \<noteq> k" using claim_held [OF _ begin_claimed(2)] begin_claimed(3) st by auto
    with begin_claimed(1,4) show ?thesis by (simp add: begin_message_flight Let_def started_attempts_def)
  qed (simp_all add: begin_message_flight Let_def started_attempts_def)
qed

lemma step_final:
  assumes "worker_step ops cd y y'" "system_ok ops attempts y" "k \<in> set (sy_final y)"
  shows "k \<in> set (sy_final y') \<and> started_attempts k y' = started_attempts k y"
  using assms
proof (induction rule: worker_step.induct)
  case (step_begin y accepts cfg msg now)
  have "sy_final (begin_message ops cd accepts cfg msg now y) = sy_final y"
    by (simp add: begin_message_flight Let_def split: option.splits)
  with step_begin begin_final show ?case by simp
qed (auto simp: settle_flight_def started_attempts_def)

lemma steps_final:
  assumes "worker_reaches ops cd y y'" "system_ok ops attempts y" "k \<in> set (sy_final y)"
  shows "k \<in> set (sy_final y') \<and> started_attempts k y' = started_attempts k y"
  using assms
proof (induction rule: rtranclp_induct)
  case (step y' y'')
  have "system_ok ops attempts y'" by (rule steps_ok [OF step(1) step(4)])
  with step step_final show ?case by metis
qed simp

end

section \<open>The in-memory store\<close>

definition mem_attempts :: "memory_store \<Rightarrow> string \<Rightarrow> int" where
  "mem_attempts s k = (case mem_attempt_number k s of None \<Rightarrow> 0 | Some n \<Rightarrow> n)"

lemmas mem_store_defs = in_memory_store_def mem_claim_def mem_release_def mem_finish_def
  mem_record_run_failure_def mem_status_def mem_attempts_def mem_attempt_number_def
  memory_store_new_def

interpretation memory: execution_store in_memory_store mem_attempts memory_store_new
  by unfold_locales (auto simp: mem_store_defs Let_def split: option.splits if_splits)

section \<open>Queue calls\<close>

text \<open>
  \<open>adds_calls w w' P\<close>: the calls accepted between \<open>w\<close> and \<open>w'\<close> are some list that satisfies
  \<open>P\<close>.
\<close>

definition adds_calls :: "'s world \<Rightarrow> 's world \<Rightarrow> (queue_call list \<Rightarrow> bool) \<Rightarrow> bool" where
  "adds_calls w w' P \<longleftrightarrow> (\<exists>new. w_calls w' = w_calls w @ new \<and> P new)"

definition no_delete :: "queue_call list \<Rightarrow> bool" where
  "no_delete cs \<longleftrightarrow> (\<forall>c\<in>set cs. case c of DeleteMessage _ _ \<Rightarrow> False | _ \<Rightarrow> True)"

definition dead_lettered_first :: "worker_config \<Rightarrow> message \<Rightarrow> queue_call list \<Rightarrow> bool" where
  "dead_lettered_first cfg msg cs \<longleftrightarrow> no_delete cs \<or>
     (\<exists>reason key rest. cs = SendDeadLetter (wc_dead_letter_queue_url cfg) (mg_body msg) reason
        (wc_queue_url cfg) (wc_worker_id cfg) key # rest)"

lemma adds_none [simp]: "w_calls w' = w_calls w \<Longrightarrow> P [] \<Longrightarrow> adds_calls w w' P"
  by (simp add: adds_calls_def)

lemma adds_mono: "adds_calls w w' P \<Longrightarrow> (\<And>cs. P cs \<Longrightarrow> Q cs) \<Longrightarrow> adds_calls w w' Q"
  by (auto simp: adds_calls_def)

lemma no_delete_Nil [simp]: "no_delete []" "dead_lettered_first cfg msg []"
  by (simp_all add: no_delete_def dead_lettered_first_def)

lemma in_store_calls [simp]: "w_calls (snd (in_store m w)) = w_calls w"
  by (simp add: in_store_def split: prod.splits)

lemma dead_letter_calls:
  "adds_calls w (snd (dead_letter accepts cfg msg r reason k w)) (dead_lettered_first cfg msg)"
  by (auto simp: dead_letter_def delete_message_def client_call_def abind_apply adds_calls_def Let_def
      dead_lettered_first_def)

lemma return_calls: "adds_calls w (snd (return_to_queue accepts cfg r w)) no_delete"
  by (simp add: return_to_queue_def client_call_def adds_calls_def Let_def no_delete_def)

lemma acknowledge_calls: "adds_calls w (snd (acknowledge accepts cfg msg r reason k w)) (\<lambda>_. True)"
  by (simp add: acknowledge_def delete_message_def client_call_def abind_apply adds_calls_def Let_def)

text \<open>
  A message leaves the queue only when it is in the dead-letter queue or its execution is
  durably settled.
\<close>

definition accounted ::
  "'s key_store \<Rightarrow> codec \<Rightarrow> worker_config \<Rightarrow> message \<Rightarrow> 's world \<Rightarrow> 's world \<Rightarrow> bool" where
  "accounted ops cd cfg msg w w' \<longleftrightarrow>
     adds_calls w w' (\<lambda>new. dead_lettered_first cfg msg new \<or>
       (\<exists>job rid key. parse_message cd msg = Some (job, rid, key) \<and>
          ks_status ops key (w_store w') \<in> {Some SUCCEEDED, Some CANCELLED}))"

lemma accounted_dead_letter:
  "w_calls v = w_calls w \<Longrightarrow> accounted ops cd cfg msg w (snd (dead_letter accepts cfg msg r reason k v))"
  using dead_letter_calls [of v accepts cfg msg r reason k] by (auto simp: accounted_def adds_calls_def)

lemma accounted_acknowledge:
  assumes "w_calls v = w_calls w" "parse_message cd msg = Some (job, rid, key)"
    "ks_status ops key (w_store v) \<in> {Some SUCCEEDED, Some CANCELLED}"
  shows "accounted ops cd cfg msg w (snd (acknowledge accepts cfg msg r reason k v))"
  using acknowledge_calls [of v accepts cfg msg r reason k] assms by (auto simp: accounted_def adds_calls_def)

lemma accounted_none [simp]: "w_calls v = w_calls w \<Longrightarrow> accounted ops cd cfg msg w v"
  by (simp add: accounted_def)

lemma accounted_no_delete:
  "w_calls v = w_calls w \<Longrightarrow> adds_calls v u no_delete \<Longrightarrow> accounted ops cd cfg msg w u"
  by (auto simp: accounted_def adds_calls_def dead_lettered_first_def)

context execution_store
begin

lemma claim_accounted:
  assumes p: "parse_message cd msg = Some (job, rid, key)"
  shows "accounted ops cd cfg msg w (snd (claim_message ops accepts cfg msg receipt n now (job, rid, key) w))"
proof (cases "wc_max_receive_count cfg < n")
  case True
  obtain st s' where r: "ks_record_run_failure ops key rid ''MAX_ATTEMPTS_EXHAUSTED'' now (w_store w) = (st, s')"
    by fastforce
  have "ks_status ops key s' = Some st" if "st = SUCCEEDED \<or> st = CANCELLED"
    using failure_result [OF r] failure_frame [OF r] that by (auto split: option.splits)
  then show ?thesis
    using True by (auto simp: claim_message_def abind_apply [of "in_store m" for m] r
        intro!: accounted_dead_letter accounted_acknowledge [OF _ p])
next
  case False
  obtain c s' where r: "ks_claim ops key rid (wc_worker_id cfg) now (w_store w) = (c, s')" by fastforce
  have "ks_status ops key s' = cl_existing_status c" if "\<not> cl_acquired c"
    using claim_free [OF _ r] claim_held [OF _ r] that by (cases "ks_status ops key (w_store w)") auto
  then show ?thesis
    using False by (auto simp: claim_message_def on_duplicate_def abind_apply [of "in_store m" for m] r
        intro!: accounted_dead_letter accounted_acknowledge [OF _ p])
qed

lemma settle_accounted:
  assumes p: "parse_message cd (fl_message f) = Some (job, rid, fl_key f)"
    and held: "ks_status ops (fl_key f) (w_store v) \<noteq> None" and same: "w_calls v = w_calls w"
  shows "accounted ops cd (fl_config f) (fl_message f) w (snd (handle_settle ops accepts f outcome now v))"
proof -
  have fin: "fst (in_store (ks_finish ops (fl_key f) st now reason run code) v) = Inr () \<and>
      ks_status ops (fl_key f) (w_store (snd (in_store (ks_finish ops (fl_key f) st now reason run code) v))) = Some st"
    if "st \<noteq> IN_PROGRESS" for st reason run code
    using finish_held [OF held that] by (cases "ks_finish ops (fl_key f) st now reason run code (w_store v)") auto
  note rules = accounted_dead_letter accounted_acknowledge [OF _ p] accounted_no_delete [OF _ return_calls]
  show ?thesis
    using fin same
    by (cases "jo_result outcome")
      (auto simp: handle_settle_def Let_def fl_key_def [symmetric] abind_apply [of "in_store m" for m] intro!: rules)
qed

text \<open>The handler that a message starts is about that message.\<close>

lemma claim_flight:
  assumes "fst (claim_message ops accepts cfg msg receipt n now (job, rid, key) w) = Inr (Inr f)"
  shows "fl_message f = msg \<and> fl_config f = cfg \<and> fl_key f = key \<and>
    ks_status ops key (w_store (snd (claim_message ops accepts cfg msg receipt n now (job, rid, key) w))) \<noteq> None \<and>
    w_calls (snd (claim_message ops accepts cfg msg receipt n now (job, rid, key) w)) = w_calls w"
proof (cases "wc_max_receive_count cfg < n")
  case True
  with assms show ?thesis
    by (auto simp: claim_message_def abind_apply split: sum.splits if_splits)
next
  case False
  obtain c s' where r: "ks_claim ops key rid (wc_worker_id cfg) now (w_store w) = (c, s')" by fastforce
  have acq: "cl_acquired c"
    using assms False returned_flight [of "on_duplicate accepts cfg msg receipt c key"]
    by (auto simp: claim_message_def abind_apply r split: sum.splits if_splits)
  have "ks_status ops key s' \<noteq> None"
    using claim_held [OF _ r] claim_free [OF _ r] acq by (cases "ks_status ops key (w_store w)") auto
  with assms False acq show ?thesis
    by (auto simp: claim_message_def abind_apply [of "in_store m" for m] r fl_key_def)
qed

lemma handle_accounted:
  "accounted ops cd cfg msg w (snd (handle ops cd accepts handler cfg msg now later w))"
proof (cases "mg_receipt_handle msg")
  case (Some receipt)
  show ?thesis
  proof (cases "py_int (case mg_receive_count msg of None \<Rightarrow> ''1'' | Some t \<Rightarrow> t)")
    case None
    with Some show ?thesis by (simp add: handle_def handle_begin_def abind_apply)
  next
    case (Some n)
    show ?thesis
    proof (cases "parse_message cd msg")
      case None
      then show ?thesis
        using \<open>mg_receipt_handle msg = Some receipt\<close> Some
          accounted_dead_letter [of w w ops cd cfg msg accepts receipt "''MESSAGE_NOT_PARSEABLE''" None]
        by (simp add: handle_def handle_begin_def abind_apply split: sum.splits)
    next
      case (Some parsed)
      obtain job rid key where pk: "parsed = (job, rid, key)" by (cases parsed)
      let ?b = "claim_message ops accepts cfg msg receipt n now (job, rid, key) w"
      have b: "handle_begin ops cd accepts cfg msg now w = ?b"
        using \<open>mg_receipt_handle msg = Some receipt\<close> \<open>py_int _ = Some n\<close> Some
        by (simp add: handle_begin_def abind_apply pk)
      note acc = claim_accounted [OF Some [unfolded pk], of cfg w accepts receipt n now]
      show ?thesis
      proof (cases "\<exists>f. fst ?b = Inr (Inr f)")
        case True
        then obtain f where f: "fst ?b = Inr (Inr f)" by blast
        from settle_accounted [of cd f job rid "snd ?b" w accepts "invoke handler f" later]
        show ?thesis using claim_flight [OF f] Some pk f b by (simp add: handle_def abind_apply)
      next
        case False
        with acc b show ?thesis by (auto simp: handle_def abind_apply split: sum.splits)
      qed
    qed
  qed
qed (simp add: handle_def handle_begin_def abind_apply)

end

section \<open>Execution keys\<close>

lemma key_text_inject:
  assumes "CHR '':'' \<notin> set r" "CHR '':'' \<notin> set r'" "r @ '':'' @ t = r' @ '':'' @ t'"
  shows "r = r' \<and> t = t'"
  using assms
proof (induction r arbitrary: r')
  case Nil
  then show ?case by (cases r') auto
next
  case (Cons c r)
  then show ?case by (cases r') auto
qed

lemma worker_execution_key_shape:
  assumes "worker_execution_key_for sha256 r i = Inr k"
  shows "k = KEY_PREFIX @ r @ '':'' @ i \<or> k = KEY_PREFIX @ r @ '':'' @ ''sha256-'' @ sha256 i"
  using assms by (auto simp: worker_execution_key_for_def err_simps Let_def split: if_splits)

section \<open>Properties\<close>

text \<open>
  C34. At most one worker runs a key, and attempts are numbered. With any number of workers
  sharing the in-memory store, any interleaving of begins, handler ends and crashes, and any
  failures of the queue client, no two handlers in flight have the same execution key, a key
  ends finally at most once, no key in flight has ended finally, and the attempts started
  for a key are numbered 1, 2, 3 and so on in order.
\<close>

theorem executions_are_exclusive_and_numbered:
  assumes "worker_reaches in_memory_store cd (system_new memory_store_new) y"
  shows "distinct (map fl_key (sy_flights y)) \<and> distinct (sy_final y) \<and>
    fl_key ` set (sy_flights y) \<inter> set (sy_final y) = {} \<and>
    (\<forall>k. started_attempts k y = [1..mem_attempts (w_store (sy_world y)) k])"
  using memory.reachable_ok [OF assms] by (auto simp: system_ok_def)

text \<open>
  Redelivery never repeats finished work. Once an execution of a key has ended with
  success, cancellation, a permanent failure or an exhausted retry, no later step starts an
  execution of that key, whatever messages are delivered and whatever calls fail.
\<close>

theorem finished_keys_never_run_again:
  assumes "worker_reaches in_memory_store cd (system_new memory_store_new) y"
    "k \<in> set (sy_final y)" "worker_reaches in_memory_store cd y y'"
  shows "k \<in> set (sy_final y') \<and> started_attempts k y' = started_attempts k y"
  using memory.steps_final [OF assms(3) memory.reachable_ok [OF assms(1)] assms(2)] .

text \<open>
  C35. No message is lost. Whatever the handler answers and whichever queue calls fail,
  handling a message deletes it from its queue only if its body has been accepted by the
  configured dead-letter queue before, or the store says that the execution of its key succeeded or was
  cancelled.
\<close>

theorem deleted_messages_are_accounted_for:
  "accounted in_memory_store cd cfg msg w (snd (handle in_memory_store cd accepts handler cfg msg now later w))"
  by (rule memory.handle_accounted)

text \<open>
  Execution keys identify runs. If run identifiers have no colon, idempotency keys do not
  start with the folding marker, and SHA-256 does not collide on the two idempotency keys,
  then equal execution keys come from equal run identifiers and idempotency keys, folded or
  not.
\<close>

theorem execution_keys_are_injective:
  assumes "worker_execution_key_for sha256 r i = Inr k" "worker_execution_key_for sha256 r' i' = Inr k"
    and colon: "CHR '':'' \<notin> set r" "CHR '':'' \<notin> set r'"
    and marker: "take 7 i \<noteq> ''sha256-''" "take 7 i' \<noteq> ''sha256-''"
    and collision: "sha256 i = sha256 i' \<Longrightarrow> i = i'"
  shows "r = r' \<and> i = i'"
proof -
  have "\<exists>t t'. r @ '':'' @ t = r' @ '':'' @ t' \<and> t \<in> {i, ''sha256-'' @ sha256 i} \<and> t' \<in> {i', ''sha256-'' @ sha256 i'}"
    using worker_execution_key_shape [OF assms(1)] worker_execution_key_shape [OF assms(2)]
    by (elim disjE) auto
  then obtain t t' where t: "r = r'" "t = t'" "t \<in> {i, ''sha256-'' @ sha256 i}" "t' \<in> {i', ''sha256-'' @ sha256 i'}"
    using key_text_inject [OF colon] by blast
  with marker collision show ?thesis by auto
qed

text \<open>
  C40. A folded key is also the key of a short idempotency key. Where an idempotency key is
  long enough to be folded, the text that the folding puts in its place is itself an
  idempotency key of the same run with the same execution key: the two messages are taken
  for one.
\<close>

theorem folded_key_collides_with_its_text:
  assumes "r \<noteq> []" "160 < length (KEY_PREFIX @ r @ '':'' @ i)"
    "length (KEY_PREFIX @ r @ '':sha256-'' @ sha256 i) \<le> 160"
  shows "worker_execution_key_for sha256 r (''sha256-'' @ sha256 i) = worker_execution_key_for sha256 r i"
  using assms by (cases i) (auto simp: worker_execution_key_for_def WORKER_EXECUTION_KEY_MAX_LENGTH_def Let_def)

section \<open>An example\<close>

definition demo_codec :: codec where
  "demo_codec = \<lparr>cd_loads = (\<lambda>t. if t = ''job'' then
       Some (JObject [(''backtestRunId'', JString ''r''), (''idempotencyKey'', JString ''i'')]) else None),
     cd_str = (\<lambda>j. case j of JString t \<Rightarrow> t | _ \<Rightarrow> []), cd_sha256 = (\<lambda>_. ''0'')\<rparr>"

definition demo_worker_config :: worker_config where
  "demo_worker_config = \<lparr>wc_queue_url = ''q'', wc_dead_letter_queue_url = ''d'', wc_worker_id = ''w'',
     wc_max_receive_count = 5, wc_visibility_timeout = 300000000, wc_wait_time = 0, wc_max_messages = 1,
     wc_heartbeat_interval = 60000000\<rparr>"

definition demo_message :: message where
  "demo_message = \<lparr>mg_message_id = ''m'', mg_receipt_handle = Some ''h'', mg_receive_count = None, mg_body = ''job''\<rparr>"

definition demo_key :: string where
  "demo_key = ''BACKTEST_RUN:r:i''"

definition demo_begin :: "memory_store worker_system \<Rightarrow> memory_store worker_system" where
  "demo_begin y = begin_message in_memory_store demo_codec (\<lambda>_. True) demo_worker_config demo_message 0 y"

definition demo_flight :: in_flight where
  "demo_flight = \<lparr>fl_config = demo_worker_config, fl_message = demo_message, fl_receipt = ''h'',
     fl_job = JObject [(''backtestRunId'', JString ''r''), (''idempotencyKey'', JString ''i'')],
     fl_run_id = ''r'', fl_context = \<lparr>jc_worker_execution_key = demo_key, jc_attempt_number = 1,
       jc_receive_count = 1, jc_message_id = ''m'', jc_worker_id = ''w''\<rparr>\<rparr>"

definition demo_settle :: "job_result \<Rightarrow> memory_store worker_system \<Rightarrow> memory_store worker_system" where
  "demo_settle r y = settle_flight in_memory_store (\<lambda>_. True) demo_flight \<lparr>jo_result = r, jo_reason_code = Some ''x''\<rparr> 1 y"

lemma demo_parse: "parse_message demo_codec demo_message =
  Some (JObject [(''backtestRunId'', JString ''r''), (''idempotencyKey'', JString ''i'')], ''r'', demo_key)"
  by (simp add: parse_message_def demo_codec_def demo_message_def worker_execution_key_for_def KEY_PREFIX_def
      WORKER_EXECUTION_KEY_MAX_LENGTH_def demo_key_def)

lemma demo_count: "py_int ''1'' = Some 1"
  by (simp add: py_int_def py_strip_def strip_chars_def whitespace_code char_digit_def)

lemma demo_begins:
  "mem_status demo_key (w_store (sy_world y)) = None \<Longrightarrow> mem_attempts (w_store (sy_world y)) demo_key = 0 \<Longrightarrow>
   sy_flights (demo_begin y) = demo_flight # sy_flights y"
  by (simp add: demo_begin_def begin_message_flight handle_begin_def claim_message_def action_eval demo_parse demo_count
      in_store_def in_memory_store_def mem_claim_def mem_status_def mem_attempts_def mem_attempt_number_def demo_flight_def Let_def
      split: option.splits)
    (simp_all add: demo_message_def demo_worker_config_def demo_count)

lemma demo_reaches: "worker_reaches in_memory_store demo_codec y (demo_begin y)"
  by (auto simp: demo_begin_def intro: worker_step.intros)

lemma demo_settles:
  "demo_flight \<in> set (sy_flights y) \<Longrightarrow> worker_reaches in_memory_store demo_codec y (demo_settle r y)"
  by (auto simp: demo_settle_def intro: worker_step.intros)

definition demo_busy :: "memory_store worker_system" where
  "demo_busy = demo_begin (system_new memory_store_new)"

definition demo_done :: "memory_store worker_system" where
  "demo_done = demo_settle SUCCEEDED_JOB demo_busy"

lemma demo_busy_flights: "sy_flights demo_busy = [demo_flight]"
  using demo_begins [of "system_new memory_store_new"]
  by (simp add: demo_busy_def system_new_def memory_store_new_def mem_status_def mem_attempts_def mem_attempt_number_def)

lemma demo_busy_reachable: "worker_reaches in_memory_store demo_codec (system_new memory_store_new) demo_busy"
  using demo_reaches by (simp add: demo_busy_def)

lemma demo_done_reachable: "worker_reaches in_memory_store demo_codec (system_new memory_store_new) demo_done"
  using demo_busy_reachable demo_settles [of demo_busy SUCCEEDED_JOB] demo_busy_flights
  by (simp add: demo_done_def)

lemma demo_flight_key: "fl_key demo_flight = demo_key"
  by (simp add: demo_flight_def fl_key_def)

lemma demo_done_final: "sy_final demo_done = [demo_key]"
proof -
  have "sy_final demo_busy = []"
    by (simp add: demo_busy_def demo_begin_def begin_message_flight Let_def system_new_def split: option.splits)
  then show ?thesis by (simp add: demo_done_def demo_settle_def settle_flight_def retryable_def demo_flight_key)
qed

theorem executions_are_exclusive_and_numbered_witness:
  "fl_key ` set (sy_flights demo_busy) = {demo_key} \<and> demo_key \<notin> set (sy_final demo_busy) \<and>
   started_attempts demo_key demo_busy = [1..mem_attempts (w_store (sy_world demo_busy)) demo_key]"
  using executions_are_exclusive_and_numbered [OF demo_busy_reachable]
  by (simp add: demo_busy_flights demo_flight_key)

theorem finished_keys_never_run_again_witness:
  "demo_key \<in> set (sy_final (demo_begin demo_done)) \<and>
   started_attempts demo_key (demo_begin demo_done) = started_attempts demo_key demo_done"
  by (rule finished_keys_never_run_again [OF demo_done_reachable _ demo_reaches]) (simp add: demo_done_final)

theorem execution_keys_are_injective_witness:
  "worker_execution_key_for (\<lambda>t. t) ''r'' ''i'' = Inr demo_key \<and> (''r'', ''i'') = (''r'', ''i'')"
proof -
  have k: "worker_execution_key_for (\<lambda>t. t) ''r'' ''i'' = Inr demo_key"
    by (simp add: worker_execution_key_for_def KEY_PREFIX_def WORKER_EXECUTION_KEY_MAX_LENGTH_def demo_key_def)
  have "''r'' = ''r'' \<and> ''i'' = ''i''" by (rule execution_keys_are_injective [OF k k]) simp_all
  with k show ?thesis by simp
qed

theorem folded_key_collides_with_its_text_witness:
  "worker_execution_key_for (\<lambda>_. ''0'') ''r'' ''sha256-0'' =
   worker_execution_key_for (\<lambda>_. ''0'') ''r'' (replicate 200 CHR ''i'')"
  using folded_key_collides_with_its_text [of "''r''" "replicate 200 CHR ''i''" "\<lambda>_. ''0''"]
  by (simp add: KEY_PREFIX_def)

end
