(* ===== verification/Lane_Scheduler.thy ===== *)
theory Lane_Scheduler
  imports Worker
begin

text \<open>
  \<open>worker.py\<close>, \<open>BacktestLaneScheduler\<close>: the bounded round-robin over the three queue lanes. A
  poll reaps the finished handlers and then admits messages while a global and a lane slot
  are free. What the lanes' queues, the thread pool and the monotonic clock answer is an
  argument: the finished futures with their results, and for each round of the admission
  loop the instants read and the answer of \<open>receive_one\<close>.
\<close>

section \<open>State\<close>

datatype lane = BASIC | CUSTOM | COMPETITION

record lane_scheduler =
  ls_lanes :: "lane list"
  ls_limits :: "lane \<Rightarrow> int"
  ls_global_limit :: int
  ls_idle_wait :: real
  ls_backoff :: real
  ls_max_backoff :: real
  ls_cursor :: nat
  ls_active :: "lane \<Rightarrow> int"
  ls_futures :: "(nat \<times> lane) list"
  ls_next_future :: nat
  ls_stopped :: bool
  ls_receive_order :: "lane list"
  ls_failures :: "lane \<Rightarrow> nat"
  ls_retry_at :: "lane \<Rightarrow> real"

definition DEFAULT_LIMITS :: "(lane \<times> int) list" where
  "DEFAULT_LIMITS = [(BASIC, 2), (CUSTOM, 1), (COMPETITION, 1)]"

text \<open>The workers are named by their lanes, in the order of the mapping.\<close>

definition lane_scheduler_new ::
  "lane list \<Rightarrow> (lane \<times> int) list \<Rightarrow> int \<Rightarrow> real \<Rightarrow> real \<Rightarrow> real \<Rightarrow> worker_error + lane_scheduler" where
  "lane_scheduler_new workers lane_limits global_limit idle backoff max_backoff =
     (let limits = (if lane_limits = [] then DEFAULT_LIMITS else lane_limits) in
      ebind (require (workers \<noteq> []) (WorkerConfigurationError ''at least one lane worker is required'')) (\<lambda>_.
      ebind (require (1 \<le> global_limit) (WorkerConfigurationError ''global_limit must be at least 1'')) (\<lambda>_.
      ebind (require (0 < idle) (WorkerConfigurationError ''idle_wait_seconds must be positive'')) (\<lambda>_.
      ebind (require (0 < backoff) (WorkerConfigurationError ''receive_backoff_seconds must be positive'')) (\<lambda>_.
      ebind (require (backoff \<le> max_backoff)
        (WorkerConfigurationError ''max_receive_backoff_seconds must be at least receive_backoff_seconds'')) (\<lambda>_.
      ebind (require (set workers = set (map fst limits))
        (WorkerConfigurationError ''lane workers and lane limits must name the same lanes'')) (\<lambda>_.
      ebind (require (\<forall>l\<in>set limits. 1 \<le> snd l)
        (WorkerConfigurationError ''every lane limit must be at least 1'')) (\<lambda>_.
      ebind (require (global_limit \<le> sum_list (map snd limits))
        (WorkerConfigurationError ''global_limit cannot exceed the sum of lane limits'')) (\<lambda>_.
      Inr \<lparr>ls_lanes = workers,
        ls_limits = (\<lambda>l. case map_of limits l of None \<Rightarrow> 0 | Some n \<Rightarrow> n),
        ls_global_limit = global_limit, ls_idle_wait = idle, ls_backoff = backoff, ls_max_backoff = max_backoff,
        ls_cursor = 0, ls_active = (\<lambda>_. 0), ls_futures = [], ls_next_future = 0, ls_stopped = False,
        ls_receive_order = [], ls_failures = (\<lambda>_. 0), ls_retry_at = (\<lambda>_. 0)\<rparr>)))))))))"

definition active_count :: "lane_scheduler \<Rightarrow> int" where
  "active_count s = int (length (ls_futures s))"

definition request_stop :: "lane_scheduler \<Rightarrow> lane_scheduler" where
  "request_stop s = s\<lparr>ls_stopped := True\<rparr>"

section \<open>Failures and backoff\<close>

definition backoff_delay :: "lane_scheduler \<Rightarrow> nat \<Rightarrow> real" where
  "backoff_delay s failures = min (ls_max_backoff s) (ls_backoff s * 2 ^ min (failures - 1) 30)"

definition record_lane_failure :: "real \<Rightarrow> lane \<Rightarrow> lane_scheduler \<Rightarrow> lane_scheduler" where
  "record_lane_failure now l s =
     (let failures = Suc (ls_failures s l) in
      s\<lparr>ls_failures := (ls_failures s)(l := failures),
        ls_retry_at := (ls_retry_at s)(l := now + backoff_delay s failures)\<rparr>)"

definition clear_lane_failure :: "lane \<Rightarrow> lane_scheduler \<Rightarrow> lane_scheduler" where
  "clear_lane_failure l s = s\<lparr>ls_failures := (ls_failures s)(l := 0), ls_retry_at := (ls_retry_at s)(l := 0)\<rparr>"

definition next_wait_seconds :: "real \<Rightarrow> lane_scheduler \<Rightarrow> real" where
  "next_wait_seconds now s =
     (let delays = map (\<lambda>r. r - now) (filter (\<lambda>r. now < r) (map (ls_retry_at s) (ls_lanes s))) in
      case delays of
        [] \<Rightarrow> ls_idle_wait s
      | d # ds \<Rightarrow> max (1 / 1000) (min (ls_idle_wait s) (fold min ds d)))"

section \<open>Choosing a lane\<close>

text \<open>
  The lanes are inspected from the cursor on; \<open>now l\<close> is the instant read when lane \<open>l\<close> is
  inspected.
\<close>

definition lane_eligible :: "lane_scheduler \<Rightarrow> (lane \<Rightarrow> real) \<Rightarrow> lane list \<Rightarrow> lane \<Rightarrow> bool" where
  "lane_eligible s now empty_lanes l \<longleftrightarrow>
     l \<notin> set empty_lanes \<and> \<not> now l < ls_retry_at s l \<and> \<not> ls_limits s l \<le> ls_active s l"

fun eligible_from :: "lane_scheduler \<Rightarrow> (lane \<Rightarrow> real) \<Rightarrow> lane list \<Rightarrow> nat list \<Rightarrow> nat option" where
  "eligible_from s now empty_lanes [] = None"
| "eligible_from s now empty_lanes (offset # offsets) =
     (let index = (ls_cursor s + offset) mod length (ls_lanes s) in
      if lane_eligible s now empty_lanes (ls_lanes s ! index) then Some index
      else eligible_from s now empty_lanes offsets)"

definition next_eligible_lane ::
  "(lane \<Rightarrow> real) \<Rightarrow> lane list \<Rightarrow> lane_scheduler \<Rightarrow> (lane \<times> lane_scheduler) option" where
  "next_eligible_lane now empty_lanes s =
     (case eligible_from s now empty_lanes [0..<length (ls_lanes s)] of
        None \<Rightarrow> None
      | Some index \<Rightarrow> Some (ls_lanes s ! index, s\<lparr>ls_cursor := (index + 1) mod length (ls_lanes s)\<rparr>))"

section \<open>A poll\<close>

text \<open>A finished future: its result, or nothing when the handler raised, and the instant read then.\<close>

fun reap_loop ::
  "(nat \<Rightarrow> (handled_message option \<times> real) option) \<Rightarrow> (nat \<times> lane) list
     \<Rightarrow> lane_scheduler \<Rightarrow> handled_message list \<times> lane_scheduler" where
  "reap_loop finished [] s = ([], s)"
| "reap_loop finished ((i, l) # rest) s =
     (case finished i of
        None \<Rightarrow> reap_loop finished rest s
      | Some (result, now) \<Rightarrow>
          let s1 = s\<lparr>ls_futures := filter (\<lambda>p. fst p \<noteq> i) (ls_futures s),
                     ls_active := (ls_active s)(l := ls_active s l - 1)\<rparr> in
          (case result of
             Some h \<Rightarrow> (let (hs, s2) = reap_loop finished rest s1 in (h # hs, s2))
           | None \<Rightarrow> reap_loop finished rest (record_lane_failure now l s1)))"

definition reap_completed ::
  "(nat \<Rightarrow> (handled_message option \<times> real) option) \<Rightarrow> lane_scheduler \<Rightarrow> handled_message list \<times> lane_scheduler" where
  "reap_completed finished s = reap_loop finished (ls_futures s) s"

datatype receive_answer = ReceiveRaises real | NoMessage | Received

record admission =
  ad_now :: "lane \<Rightarrow> real"
  ad_answer :: receive_answer

definition admit_message :: "lane \<Rightarrow> lane_scheduler \<Rightarrow> lane_scheduler" where
  "admit_message l s = s\<lparr>ls_receive_order := ls_receive_order s @ [l],
     ls_active := (ls_active s)(l := ls_active s l + 1),
     ls_futures := ls_futures s @ [(ls_next_future s, l)], ls_next_future := Suc (ls_next_future s)\<rparr>"

text \<open>Round \<open>n\<close> of the admission loop is answered by \<open>env n\<close>.\<close>

lemma eligible_from_Some:
  assumes "eligible_from s now skipped offsets = Some index" "ls_lanes s \<noteq> []"
  shows "index < length (ls_lanes s) \<and> lane_eligible s now skipped (ls_lanes s ! index)"
  using assms by (induction offsets) (auto simp: Let_def split: if_splits)

lemma next_eligible_Some:
  assumes "next_eligible_lane now skipped s = Some (l, s')"
  shows "l \<in> set (ls_lanes s)" "lane_eligible s now skipped l"
    "s' = s\<lparr>ls_cursor := ls_cursor s'\<rparr>"
proof -
  have ne: "ls_lanes s \<noteq> []" using assms by (auto simp: next_eligible_lane_def)
  obtain index where i: "eligible_from s now skipped [0..<length (ls_lanes s)] = Some index"
      "l = ls_lanes s ! index" "s' = s\<lparr>ls_cursor := (index + 1) mod length (ls_lanes s)\<rparr>"
    using assms by (auto simp: next_eligible_lane_def split: option.splits)
  from eligible_from_Some [OF i(1) ne] i show "l \<in> set (ls_lanes s)" "lane_eligible s now skipped l"
    "s' = s\<lparr>ls_cursor := ls_cursor s'\<rparr>" by simp_all
qed

lemma next_eligible_frame:
  assumes "next_eligible_lane now skipped s = Some (l, s')"
  shows "ls_lanes s' = ls_lanes s" "ls_futures s' = ls_futures s" "ls_global_limit s' = ls_global_limit s"
    "ls_limits s' = ls_limits s" "ls_active s' = ls_active s" "ls_next_future s' = ls_next_future s"
  by (subst next_eligible_Some(3) [OF assms]; simp)+

function admit_loop ::
  "(nat \<Rightarrow> admission) \<Rightarrow> nat \<Rightarrow> lane list \<Rightarrow> lane_scheduler \<Rightarrow> lane_scheduler" where
  "admit_loop env n empty_lanes s =
     (if ls_global_limit s \<le> int (length (ls_futures s)) then s
      else case next_eligible_lane (ad_now (env n)) empty_lanes s of
             None \<Rightarrow> s
           | Some (l, s1) \<Rightarrow>
               (case ad_answer (env n) of
                  ReceiveRaises now \<Rightarrow> admit_loop env (Suc n) (l # empty_lanes) (record_lane_failure now l s1)
                | NoMessage \<Rightarrow> admit_loop env (Suc n) (l # empty_lanes) (clear_lane_failure l s1)
                | Received \<Rightarrow> admit_loop env (Suc n) empty_lanes (admit_message l (clear_lane_failure l s1))))"
  by pat_completeness auto

lemma scheduler_frames [simp]:
  "ls_lanes (record_lane_failure now l s) = ls_lanes s" "ls_futures (record_lane_failure now l s) = ls_futures s"
  "ls_global_limit (record_lane_failure now l s) = ls_global_limit s" "ls_limits (record_lane_failure now l s) = ls_limits s"
  "ls_active (record_lane_failure now l s) = ls_active s" "ls_next_future (record_lane_failure now l s) = ls_next_future s"
  "ls_lanes (clear_lane_failure l s) = ls_lanes s" "ls_futures (clear_lane_failure l s) = ls_futures s"
  "ls_global_limit (clear_lane_failure l s) = ls_global_limit s" "ls_limits (clear_lane_failure l s) = ls_limits s"
  "ls_active (clear_lane_failure l s) = ls_active s" "ls_next_future (clear_lane_failure l s) = ls_next_future s"
  by (simp_all add: record_lane_failure_def clear_lane_failure_def Let_def)

lemma admit_message_frames [simp]:
  "ls_lanes (admit_message l s) = ls_lanes s" "ls_limits (admit_message l s) = ls_limits s"
  "ls_global_limit (admit_message l s) = ls_global_limit s"
  "ls_futures (admit_message l s) = ls_futures s @ [(ls_next_future s, l)]"
  "ls_active (admit_message l s) = (ls_active s)(l := ls_active s l + 1)"
  "ls_next_future (admit_message l s) = Suc (ls_next_future s)"
  by (simp_all add: admit_message_def)

text \<open>Each round either marks one more lane empty or takes one more slot.\<close>

lemma fewer_lanes:
  "l \<in> set lanes \<Longrightarrow> l \<notin> set skipped \<Longrightarrow>
     card (set lanes - insert l (set skipped)) < card (set lanes - set skipped)"
  by (intro psubset_card_mono) auto

termination admit_loop
proof (relation "measure (\<lambda>(env, n, empty_lanes, s).
    nat (ls_global_limit s - int (length (ls_futures s))) + card (set (ls_lanes s) - set empty_lanes))", goal_cases)
  case (2 env n e s p l s1 now)
  then have el: "next_eligible_lane (ad_now (env n)) e s = Some (l, s1)" by simp
  with 2 fewer_lanes [of l "ls_lanes s" e] next_eligible_Some(1,2) [OF el] show ?case
    by (simp add: next_eligible_frame [OF el] lane_eligible_def)
next
  case (3 env n e s p l s1)
  then have el: "next_eligible_lane (ad_now (env n)) e s = Some (l, s1)" by simp
  with 3 fewer_lanes [of l "ls_lanes s" e] next_eligible_Some(1,2) [OF el] show ?case
    by (simp add: next_eligible_frame [OF el] lane_eligible_def)
next
  case (4 env n e s p l s1)
  then have el: "next_eligible_lane (ad_now (env n)) e s = Some (l, s1)" by simp
  with 4 show ?case by (simp add: next_eligible_frame [OF el])
qed simp

definition scheduler_poll ::
  "(nat \<Rightarrow> (handled_message option \<times> real) option) \<Rightarrow> (nat \<Rightarrow> admission) \<Rightarrow> lane_scheduler
     \<Rightarrow> handled_message list \<times> lane_scheduler" where
  "scheduler_poll finished env s =
     (let (completed, s1) = reap_completed finished s in
      (completed, if ls_stopped s1 then s1 else admit_loop env 0 [] s1))"

section \<open>The invariant\<close>

definition lane_load :: "lane \<Rightarrow> (nat \<times> lane) list \<Rightarrow> int" where
  "lane_load l futures = int (length (filter (\<lambda>p. snd p = l) futures))"

definition scheduler_ok :: "lane_scheduler \<Rightarrow> bool" where
  "scheduler_ok s \<longleftrightarrow> distinct (map fst (ls_futures s)) \<and>
     (\<forall>p\<in>set (ls_futures s). fst p < ls_next_future s) \<and>
     (\<forall>l. ls_active s l = lane_load l (ls_futures s)) \<and>
     (\<forall>l. lane_load l (ls_futures s) \<le> max 0 (ls_limits s l)) \<and>
     int (length (ls_futures s)) \<le> ls_global_limit s"

lemma lane_load_simps [simp]:
  "lane_load l [] = 0" "lane_load l (p # ps) = (if snd p = l then 1 else 0) + lane_load l ps"
  "lane_load l (ps @ qs) = lane_load l ps + lane_load l qs"
  by (simp_all add: lane_load_def)

lemma lane_load_remove:
  assumes "distinct (map fst ps)" "(i, l) \<in> set ps"
  shows "lane_load l' (filter (\<lambda>p. fst p \<noteq> i) ps) = lane_load l' ps - (if l' = l then 1 else 0)"
  using assms
proof (induction ps)
  case (Cons p ps)
  show ?case
  proof (cases "fst p = i")
    case True
    with Cons.prems have p: "p = (i, l)" by (cases p) force
    have "filter (\<lambda>q. fst q \<noteq> i) ps = ps" using Cons.prems(1) p by (force simp: filter_id_conv)
    with p show ?thesis by simp
  next
    case False
    with Cons show ?thesis by auto
  qed
qed simp

lemma scheduler_ok_cong:
  assumes "scheduler_ok s" "ls_futures s' = ls_futures s" "ls_next_future s' = ls_next_future s"
    "ls_active s' = ls_active s" "ls_limits s' = ls_limits s" "ls_global_limit s' = ls_global_limit s"
  shows "scheduler_ok s'"
  using assms by (simp add: scheduler_ok_def)

lemma reap_one_ok:
  assumes ok: "scheduler_ok s" and m: "(i, l) \<in> set (ls_futures s)"
  shows "scheduler_ok (s\<lparr>ls_futures := filter (\<lambda>p. fst p \<noteq> i) (ls_futures s),
    ls_active := (ls_active s)(l := ls_active s l - 1)\<rparr>)"
proof -
  have d: "distinct (map fst (ls_futures s))" using ok by (simp add: scheduler_ok_def)
  have "distinct (map fst (filter (\<lambda>p. fst p \<noteq> i) (ls_futures s)))" by (rule distinct_map_filter [OF d])
  moreover have "int (length (filter (\<lambda>p. fst p \<noteq> i) (ls_futures s))) \<le> ls_global_limit s"
    using ok length_filter_le [of "\<lambda>p. fst p \<noteq> i" "ls_futures s"] unfolding scheduler_ok_def by linarith
  moreover have "lane_load k (ls_futures s) - (if k = l then 1 else 0) \<le> max 0 (ls_limits s k)" for k
    using ok by (cases "k = l") (auto simp: scheduler_ok_def intro: order_trans [of _ "lane_load l (ls_futures s)"])
  ultimately show ?thesis
    using ok lane_load_remove [OF d m] by (simp add: scheduler_ok_def)
qed

lemma reap_loop_ok:
  assumes "scheduler_ok s" "set todo \<subseteq> set (ls_futures s)" "distinct (map fst todo)"
  shows "scheduler_ok (snd (reap_loop finished todo s)) \<and>
    ls_stopped (snd (reap_loop finished todo s)) = ls_stopped s \<and>
    ls_lanes (snd (reap_loop finished todo s)) = ls_lanes s \<and>
    ls_receive_order (snd (reap_loop finished todo s)) = ls_receive_order s"
  using assms
proof (induction todo arbitrary: s)
  case (Cons p todo)
  obtain i l where p: "p = (i, l)" by (cases p)
  show ?case
  proof (cases "finished i")
    case None
    with Cons p show ?thesis by simp
  next
    case (Some rn)
    obtain result now where rn: "rn = (result, now)" by (cases rn)
    let ?s1 = "s\<lparr>ls_futures := filter (\<lambda>p. fst p \<noteq> i) (ls_futures s),
      ls_active := (ls_active s)(l := ls_active s l - 1)\<rparr>"
    have ok1: "scheduler_ok ?s1" by (rule reap_one_ok) (use Cons.prems p in auto)
    have ok2: "scheduler_ok (record_lane_failure now l ?s1)" by (rule scheduler_ok_cong [OF ok1]) simp_all
    have sub: "set todo \<subseteq> set (ls_futures ?s1)" using Cons.prems p by force
    have fr: "ls_stopped (record_lane_failure now l ?s1) = ls_stopped s"
      "ls_receive_order (record_lane_failure now l ?s1) = ls_receive_order s"
      by (simp_all add: record_lane_failure_def Let_def)
    show ?thesis
      using Cons.IH [OF ok1 sub] Cons.IH [OF ok2] sub Cons.prems(3) fr p
      by (cases result) (simp_all add: Some rn Let_def case_prod_beta)
  qed
qed simp

lemma reap_completed_ok:
  "scheduler_ok s \<Longrightarrow> scheduler_ok (snd (reap_completed finished s))"
  using reap_loop_ok [of s "ls_futures s" finished] scheduler_ok_def [of s] by (simp add: reap_completed_def)

lemma admit_message_ok:
  assumes "scheduler_ok s" "ls_active s l < ls_limits s l" "int (length (ls_futures s)) < ls_global_limit s"
  shows "scheduler_ok (admit_message l s)"
  using assms by (auto simp: scheduler_ok_def less_Suc_eq)

lemma admit_loop_ok: "scheduler_ok s \<Longrightarrow> scheduler_ok (admit_loop env n skipped s)"
proof (induction env n skipped s rule: admit_loop.induct)
  case (1 env n skipped s)
  show ?case
  proof (cases "ls_global_limit s \<le> int (length (ls_futures s)) \<or> next_eligible_lane (ad_now (env n)) skipped s = None")
    case True
    with 1(4) show ?thesis by (subst admit_loop.simps) auto
  next
    case False
    then obtain l s1 where el: "next_eligible_lane (ad_now (env n)) skipped s = Some (l, s1)" by auto
    have ok1: "scheduler_ok s1" by (rule scheduler_ok_cong [OF 1(4)]) (simp_all add: next_eligible_frame [OF el])
    have lim: "ls_active s1 l < ls_limits s1 l"
      using next_eligible_Some(2) [OF el] by (simp add: lane_eligible_def next_eligible_frame [OF el])
    have oks: "scheduler_ok (record_lane_failure now l s1)" "scheduler_ok (clear_lane_failure l s1)" for now
      by (auto intro: scheduler_ok_cong [OF ok1])
    have "scheduler_ok (admit_message l (clear_lane_failure l s1))"
      by (rule admit_message_ok [OF oks(2)]) (use lim False in \<open>simp_all add: next_eligible_frame [OF el]\<close>)
    then show ?thesis
      using 1(1-3) [OF _ el refl] False oks by (subst admit_loop.simps) (auto simp: el split: receive_answer.splits)
  qed
qed

lemma lane_scheduler_new_ok:
  "lane_scheduler_new ws limits g idle b mb = Inr s \<Longrightarrow> scheduler_ok s"
  by (auto simp: lane_scheduler_new_def err_simps scheduler_ok_def Let_def)

inductive scheduler_reachable :: "lane_scheduler \<Rightarrow> bool" where
  reach_new: "lane_scheduler_new ws limits g idle b mb = Inr s \<Longrightarrow> scheduler_reachable s"
| reach_poll: "scheduler_reachable s \<Longrightarrow> scheduler_reachable (snd (scheduler_poll finished env s))"
| reach_stop: "scheduler_reachable s \<Longrightarrow> scheduler_reachable (request_stop s)"

lemma scheduler_poll_ok: "scheduler_ok s \<Longrightarrow> scheduler_ok (snd (scheduler_poll finished env s))"
  using reap_completed_ok [of s finished] admit_loop_ok
  by (simp add: scheduler_poll_def case_prod_beta)

lemma scheduler_reachable_ok: "scheduler_reachable s \<Longrightarrow> scheduler_ok s"
  by (induction rule: scheduler_reachable.induct)
    (auto intro: lane_scheduler_new_ok scheduler_poll_ok scheduler_ok_cong simp: request_stop_def)

section \<open>Round robin\<close>

text \<open>The cyclic distance from the cursor to the lane at index \<open>j\<close>.\<close>

definition cursor_distance :: "lane_scheduler \<Rightarrow> nat \<Rightarrow> nat" where
  "cursor_distance s j = (j + length (ls_lanes s) - ls_cursor s) mod length (ls_lanes s)"

lemma eligible_from_first:
  assumes "eligible_from s now skipped [a..<b] = Some index"
  shows "\<exists>d. a \<le> d \<and> d < b \<and> index = (ls_cursor s + d) mod length (ls_lanes s) \<and>
    (\<forall>e. a \<le> e \<and> e < d \<longrightarrow> \<not> lane_eligible s now skipped (ls_lanes s ! ((ls_cursor s + e) mod length (ls_lanes s))))"
  using assms
proof (induction "b - a" arbitrary: a)
  case (Suc n)
  then have ab: "a < b" by simp
  show ?case
  proof (cases "lane_eligible s now skipped (ls_lanes s ! ((ls_cursor s + a) mod length (ls_lanes s)))")
    case True
    with Suc.prems ab show ?thesis by (intro exI [of _ a]) (auto simp: upt_conv_Cons)
  next
    case False
    with Suc.prems ab have "eligible_from s now skipped [Suc a..<b] = Some index" by (simp add: upt_conv_Cons)
    moreover have "n = b - Suc a" using Suc.hyps(2) by simp
    ultimately obtain d where d: "Suc a \<le> d" "d < b"
      "index = (ls_cursor s + d) mod length (ls_lanes s)"
      "\<forall>e. Suc a \<le> e \<and> e < d \<longrightarrow> \<not> lane_eligible s now skipped (ls_lanes s ! ((ls_cursor s + e) mod length (ls_lanes s)))"
      using Suc.hyps(1) by blast
    have "\<not> lane_eligible s now skipped (ls_lanes s ! ((ls_cursor s + e) mod length (ls_lanes s)))"
      if "a \<le> e \<and> e < d" for e
      using that d(4) False by (cases "e = a") auto
    with d show ?thesis by (intro exI [of _ d]) simp
  qed
qed simp

lemma eligible_from_None:
  "eligible_from s now skipped offsets = None \<longleftrightarrow>
     (\<forall>d\<in>set offsets. \<not> lane_eligible s now skipped (ls_lanes s ! ((ls_cursor s + d) mod length (ls_lanes s))))"
  by (induction offsets) (auto simp: Let_def)

lemma cursor_offset:
  assumes "ls_cursor s < length (ls_lanes s)" "j < length (ls_lanes s)"
  shows "(ls_cursor s + cursor_distance s j) mod length (ls_lanes s) = j"
    "cursor_distance s j < length (ls_lanes s)"
proof -
  let ?n = "length (ls_lanes s)"
  have "(ls_cursor s + (j + ?n - ls_cursor s)) mod ?n = (j + ?n) mod ?n" using assms by simp
  then show "(ls_cursor s + cursor_distance s j) mod ?n = j"
    using assms(2) by (simp add: cursor_distance_def mod_add_right_eq)
  show "cursor_distance s j < ?n"
    unfolding cursor_distance_def using assms(2) by (intro mod_less_divisor) auto
qed

text \<open>Choosing another lane brings the cursor nearer to every eligible lane it passes over.\<close>

lemma mod_once: "x < 2 * n \<Longrightarrow> x mod n = (if x < n then x else x - n)" for n :: nat
  by (auto simp: le_mod_geq)

lemma distance_decreases:
  fixes c d j n :: nat
  assumes "c < n" "j < n" "d < (j + n - c) mod n"
  shows "(j + n - ((c + d) mod n + 1) mod n) mod n < (j + n - c) mod n"
proof -
  have D: "(j + n - c) mod n = (if j + n - c < n then j + n - c else j - c)"
    using assms mod_once [of "j + n - c" n] by auto
  have "(j + n - c) mod n < n" using assms(1) by (intro mod_less_divisor) simp
  then have d: "d < n" using assms(3) by simp
  define i where "i = (c + d) mod n"
  define k where "k = (i + 1) mod n"
  have i: "i = (if c + d < n then c + d else c + d - n)"
    unfolding i_def using assms(1) d by (intro mod_once) simp
  then have "i < n" using assms(1) d by auto
  then have k: "k = (if i + 1 < n then i + 1 else i + 1 - n)"
    unfolding k_def by (intro mod_once) simp
  have E: "(j + n - k) mod n = (if j + n - k < n then j + n - k else j + n - k - n)"
    using assms(2) by (intro mod_once) simp
  have "(j + n - k) mod n < (j + n - c) mod n"
    using assms(1,2) assms(3) [unfolded D] d i \<open>i < n\<close> k unfolding E D by (simp split: if_splits; intro conjI impI; linarith)
  then show ?thesis by (simp add: k_def i_def)
qed

lemma eligible_index:
  assumes "eligible_from s now skipped [0..<length (ls_lanes s)] = Some index"
    "ls_cursor s < length (ls_lanes s)" "j < length (ls_lanes s)" "lane_eligible s now skipped (ls_lanes s ! j)"
  shows "index = j \<or> (\<exists>d < cursor_distance s j. index = (ls_cursor s + d) mod length (ls_lanes s))"
proof -
  obtain d where d: "d < length (ls_lanes s)" "index = (ls_cursor s + d) mod length (ls_lanes s)"
    "\<forall>e. e < d \<longrightarrow> \<not> lane_eligible s now skipped (ls_lanes s ! ((ls_cursor s + e) mod length (ls_lanes s)))"
    using eligible_from_first [OF assms(1)] by auto
  note o = cursor_offset [OF assms(2,3)]
  have "\<not> cursor_distance s j < d" using d(3) o(1) assms(4) by metis
  then consider "d = cursor_distance s j" | "d < cursor_distance s j" by linarith
  then show ?thesis by cases (use d(2) o(1) in auto)
qed

section \<open>Properties\<close>

text \<open>
  C36. Concurrency is bounded. In every state the scheduler can reach, whatever handlers end
  or raise and whatever the lanes answer, the handlers in flight are at most the global
  limit, those of a lane at most the limit of the lane, and the per-lane counters equal the
  numbers of handlers in flight.
\<close>

theorem concurrency_is_bounded:
  assumes "scheduler_reachable s"
  shows "active_count s \<le> ls_global_limit s \<and>
    (\<forall>l. ls_active s l = lane_load l (ls_futures s)) \<and> (\<forall>l. lane_load l (ls_futures s) \<le> max 0 (ls_limits s l))"
  using scheduler_reachable_ok [OF assms] by (auto simp: scheduler_ok_def active_count_def)

text \<open>
  C37. Lanes are served round robin. A lane is found whenever one is eligible; and if a lane
  is eligible but another one is chosen, the cursor comes strictly nearer to it, so that a
  lane that stays eligible is chosen after fewer than as many choices as there are lanes.
\<close>

theorem eligible_lanes_are_served_in_turn:
  assumes "ls_cursor s < length (ls_lanes s)" "j < length (ls_lanes s)" "lane_eligible s now skipped (ls_lanes s ! j)"
  shows "\<exists>l s'. next_eligible_lane now skipped s = Some (l, s') \<and> ls_cursor s' < length (ls_lanes s') \<and>
    cursor_distance s j < length (ls_lanes s) \<and>
    (l = ls_lanes s ! j \<or> cursor_distance s' j < cursor_distance s j)"
proof -
  note o = cursor_offset [OF assms(1,2)]
  have "eligible_from s now skipped [0..<length (ls_lanes s)] \<noteq> None"
    using eligible_from_None [of s now skipped "[0..<length (ls_lanes s)]"] assms(3) o
    by (auto intro!: bexI [of _ "cursor_distance s j"])
  then obtain index where i: "eligible_from s now skipped [0..<length (ls_lanes s)] = Some index" by blast
  let ?s' = "s\<lparr>ls_cursor := (index + 1) mod length (ls_lanes s)\<rparr>"
  have "next_eligible_lane now skipped s = Some (ls_lanes s ! index, ?s')"
    by (simp add: next_eligible_lane_def i)
  moreover have "ls_lanes s ! index = ls_lanes s ! j \<or> cursor_distance ?s' j < cursor_distance s j"
    using eligible_index [OF i assms]
  proof
    assume "\<exists>d < cursor_distance s j. index = (ls_cursor s + d) mod length (ls_lanes s)"
    then obtain d where d: "d < cursor_distance s j" "index = (ls_cursor s + d) mod length (ls_lanes s)" by blast
    from distance_decreases [OF assms(1,2) d(1) [unfolded cursor_distance_def]] d(2)
    show ?thesis by (simp add: cursor_distance_def)
  qed simp
  moreover have "ls_cursor ?s' < length (ls_lanes ?s')"
    using assms(2) by (auto intro!: mod_less_divisor)
  ultimately show ?thesis using o(2) by blast
qed

text \<open>
  Backoff is bounded and doubles. For a scheduler its constructor accepted, the delay
  after a failure is at least the configured backoff and at most the maximum, it never
  shrinks as failures repeat, and below the maximum and the thirty-first failure it doubles.
\<close>

theorem backoff_is_bounded_and_doubles:
  assumes "lane_scheduler_new ws limits g idle b mb = Inr s"
  shows "b \<le> backoff_delay s (Suc n) \<and> backoff_delay s (Suc n) \<le> mb \<and>
    backoff_delay s (Suc n) \<le> backoff_delay s (Suc (Suc n)) \<and>
    (n < 30 \<and> backoff_delay s (Suc (Suc n)) < mb \<longrightarrow> backoff_delay s (Suc (Suc n)) = 2 * backoff_delay s (Suc n))"
proof -
  have s: "ls_backoff s = b" "ls_max_backoff s = mb" "0 < b" "b \<le> mb"
    using assms by (auto simp: lane_scheduler_new_def err_simps Let_def)
  define p q where "p = b * 2 ^ min n 30" and "q = b * 2 ^ min (Suc n) 30"
  have "b * 1 \<le> p" unfolding p_def by (rule mult_left_mono) (use s in auto)
  moreover have "p \<le> q" unfolding p_def q_def using s by (intro mult_left_mono power_increasing) auto
  moreover have "n < 30 \<Longrightarrow> q = 2 * p" by (simp add: p_def q_def min_def)
  moreover have "backoff_delay s (Suc n) = min mb p" "backoff_delay s (Suc (Suc n)) = min mb q"
    by (simp_all add: backoff_delay_def s p_def q_def)
  ultimately show ?thesis using s by auto
qed

section \<open>An example\<close>

text \<open>Three lanes that always have a message: the four slots are filled round robin.\<close>

definition demo_scheduler :: lane_scheduler where
  "demo_scheduler = \<lparr>ls_lanes = [BASIC, CUSTOM, COMPETITION],
     ls_limits = (\<lambda>l. case map_of DEFAULT_LIMITS l of None \<Rightarrow> 0 | Some n \<Rightarrow> n),
     ls_global_limit = 4, ls_idle_wait = 5, ls_backoff = 1 / 4, ls_max_backoff = 5,
     ls_cursor = 0, ls_active = (\<lambda>_. 0), ls_futures = [], ls_next_future = 0, ls_stopped = False,
     ls_receive_order = [], ls_failures = (\<lambda>_. 0), ls_retry_at = (\<lambda>_. 0)\<rparr>"

lemma demo_scheduler_new:
  "lane_scheduler_new [BASIC, CUSTOM, COMPETITION] [] 4 5 (1 / 4) 5 = Inr demo_scheduler"
  by (simp add: lane_scheduler_new_def demo_scheduler_def DEFAULT_LIMITS_def Let_def)

definition demo_poll :: lane_scheduler where
  "demo_poll = snd (scheduler_poll (\<lambda>_. None) (\<lambda>_. \<lparr>ad_now = (\<lambda>_. 1), ad_answer = Received\<rparr>) demo_scheduler)"

lemma demo_poll_reachable: "scheduler_reachable demo_poll"
  unfolding demo_poll_def by (intro reach_poll reach_new [OF demo_scheduler_new])

lemma demo_poll_order: "ls_receive_order demo_poll = [BASIC, CUSTOM, COMPETITION, BASIC] \<and> active_count demo_poll = 4"
  by (simp add: demo_poll_def scheduler_poll_def reap_completed_def demo_scheduler_def DEFAULT_LIMITS_def
      next_eligible_lane_def upt_rec lane_eligible_def clear_lane_failure_def admit_message_def active_count_def)

theorem concurrency_is_bounded_witness:
  "active_count demo_poll = 4 \<and> active_count demo_poll \<le> ls_global_limit demo_poll \<and>
   ls_active demo_poll BASIC = lane_load BASIC (ls_futures demo_poll) \<and>
   lane_load BASIC (ls_futures demo_poll) \<le> max 0 (ls_limits demo_poll BASIC)"
  using concurrency_is_bounded [OF demo_poll_reachable] demo_poll_order by simp

theorem eligible_lanes_are_served_in_turn_witness:
  "lane_eligible demo_scheduler (\<lambda>_. 1) [BASIC] COMPETITION \<and>
   (\<exists>l s'. next_eligible_lane (\<lambda>_. 1) [BASIC] demo_scheduler = Some (l, s') \<and> l = CUSTOM \<and>
      cursor_distance s' 2 < cursor_distance demo_scheduler 2)"
proof -
  have e: "lane_eligible demo_scheduler (\<lambda>_. 1) [BASIC] (ls_lanes demo_scheduler ! 2)"
    by (simp add: demo_scheduler_def DEFAULT_LIMITS_def lane_eligible_def)
  obtain l s' where n: "next_eligible_lane (\<lambda>_. 1) [BASIC] demo_scheduler = Some (l, s')"
    "l = ls_lanes demo_scheduler ! 2 \<or> cursor_distance s' 2 < cursor_distance demo_scheduler 2"
    using eligible_lanes_are_served_in_turn [OF _ _ e] by (auto simp: demo_scheduler_def)
  moreover have "l = CUSTOM"
    using n(1) by (simp add: demo_scheduler_def DEFAULT_LIMITS_def lane_eligible_def next_eligible_lane_def upt_rec)
  ultimately show ?thesis using e by (simp add: demo_scheduler_def)
qed

theorem backoff_is_bounded_and_doubles_witness:
  "backoff_delay demo_scheduler (Suc 2) = 1 \<and> backoff_delay demo_scheduler (Suc 2) \<le> 5 \<and>
   backoff_delay demo_scheduler (Suc (Suc 2)) = 2 * backoff_delay demo_scheduler (Suc 2)"
proof -
  have "backoff_delay demo_scheduler (Suc 2) = 1" "backoff_delay demo_scheduler (Suc (Suc 2)) < 5"
    by (simp_all add: backoff_delay_def demo_scheduler_def)
  then show ?thesis using backoff_is_bounded_and_doubles [OF demo_scheduler_new, of 2] by simp
qed

end
