(* ===== verification/Scale_Down.thy ===== *)
theory Scale_Down
  imports Py_Text
begin

text \<open>
  \<open>scale_down.py\<close>: the controller that asks Auto Scaling for capacity zero. The polling loop
  runs over the answers of its environment: at each round the stop event ends it, or the
  probe answers (with an activity or an exception) and, if the loop then asks for zero
  capacity, the request succeeds or raises. The probe is modelled with the rows it counts and
  the queue attributes it parses.
\<close>

section \<open>Activity\<close>

datatype scale_down_error = ScaleDownConfigurationError string

record queue_activity =
  qa_queue_url :: string
  qa_visible :: int
  qa_not_visible :: int
  qa_delayed :: int

definition queue_idle :: "queue_activity \<Rightarrow> bool" where
  "queue_idle q \<longleftrightarrow> qa_visible q = qa_not_visible q \<and> qa_not_visible q = qa_delayed q \<and> qa_delayed q = 0"

record backtest_activity =
  ba_queued_runs :: int
  ba_running_runs :: int
  ba_live_claims :: int
  ba_queues :: "queue_activity list"

definition activity_idle :: "backtest_activity \<Rightarrow> bool" where
  "activity_idle a \<longleftrightarrow> ba_queued_runs a = 0 \<and> ba_running_runs a = 0 \<and> ba_live_claims a = 0 \<and>
     ba_queues a \<noteq> [] \<and> list_all queue_idle (ba_queues a)"

section \<open>The probe\<close>

datatype probe_error = ProbeRuntimeError string | ProbeValueError

text \<open>The rows of \<open>backtest.runs\<close> and \<open>backtest.run_attempts\<close> the query reads.\<close>

record attempt_row =
  at_status :: string
  at_claim_expires_at :: "instant option"

record probe_tables =
  pt_run_statuses :: "string list"
  pt_attempts :: "attempt_row list"

type_synonym sqs_response = "(string \<times> string) list option"

definition PROBE_ATTRIBUTES :: "string list" where
  "PROBE_ATTRIBUTES = [''ApproximateNumberOfMessages'', ''ApproximateNumberOfMessagesNotVisible'',
     ''ApproximateNumberOfMessagesDelayed'']"

definition probe_new :: "string list \<Rightarrow> string list \<Rightarrow> scale_down_error + string list" where
  "probe_new queue_urls request_queue_urls =
     (let execution_urls = map py_strip queue_urls; request_urls = map py_strip request_queue_urls in
      ebind (require (length execution_urls = 3 \<and> [] \<notin> set execution_urls)
        (ScaleDownConfigurationError ''scale-down requires exactly three lane queue URLs'')) (\<lambda>_.
      ebind (require (card (set execution_urls) = 3)
        (ScaleDownConfigurationError ''scale-down lane queue URLs must be distinct'')) (\<lambda>_.
      ebind (require (length request_urls = 3 \<and> [] \<notin> set request_urls)
        (ScaleDownConfigurationError ''scale-down requires exactly three request queue URLs'')) (\<lambda>_.
      ebind (require (card (set request_urls) = 3)
        (ScaleDownConfigurationError ''scale-down request queue URLs must be distinct'')) (\<lambda>_.
      ebind (require (set execution_urls \<inter> set request_urls = {})
        (ScaleDownConfigurationError ''scale-down request queue URLs must be distinct from execution queue URLs'')) (\<lambda>_.
      Inr (execution_urls @ request_urls)))))))"

definition attribute_value :: "(string \<times> string) list \<Rightarrow> string \<Rightarrow> probe_error + int" where
  "attribute_value attributes name =
     (case map_of attributes name of
        None \<Rightarrow> Inl (ProbeRuntimeError (''SQS queue attribute is missing: '' @ name))
      | Some raw \<Rightarrow>
          (case py_int raw of
             None \<Rightarrow> Inl ProbeValueError
           | Some v \<Rightarrow>
               if v < 0 then Inl (ProbeRuntimeError (''SQS queue attribute is negative: '' @ name)) else Inr v))"

definition queue_activity_of :: "(string \<Rightarrow> sqs_response) \<Rightarrow> string \<Rightarrow> probe_error + queue_activity" where
  "queue_activity_of sqs url =
     (case sqs url of
        None \<Rightarrow> Inl (ProbeRuntimeError ''SQS queue attributes are missing'')
      | Some attributes \<Rightarrow>
          ebind (emap (attribute_value attributes) PROBE_ATTRIBUTES) (\<lambda>vs.
          Inr \<lparr>qa_queue_url = url, qa_visible = vs ! 0, qa_not_visible = vs ! 1, qa_delayed = vs ! 2\<rparr>))"

definition live_claim :: "instant \<Rightarrow> attempt_row \<Rightarrow> bool" where
  "live_claim clock_timestamp a \<longleftrightarrow> at_status a = ''RUNNING'' \<and>
     (case at_claim_expires_at a of None \<Rightarrow> False | Some t \<Rightarrow> clock_timestamp < t)"

definition observe ::
  "probe_tables \<Rightarrow> instant \<Rightarrow> (string \<Rightarrow> sqs_response) \<Rightarrow> string list \<Rightarrow> probe_error + backtest_activity" where
  "observe db clock_timestamp sqs urls =
     ebind (emap (queue_activity_of sqs) urls) (\<lambda>queues.
     Inr \<lparr>ba_queued_runs = int (length (filter (\<lambda>s. s = ''QUEUED'') (pt_run_statuses db))),
          ba_running_runs = int (length (filter (\<lambda>s. s = ''RUNNING'') (pt_run_statuses db))),
          ba_live_claims = int (length (filter (live_claim clock_timestamp) (pt_attempts db))),
          ba_queues = queues\<rparr>)"

section \<open>The controller\<close>

record controller =
  sc_asg_name :: string
  sc_required :: int

text \<open>
  The poll interval is only compared with zero. Its text is converted by the parameter
  \<open>to_float\<close>, which gives \<open>None\<close> where \<open>float\<close> raises.
\<close>

definition controller_new :: "string \<Rightarrow> real \<Rightarrow> int \<Rightarrow> scale_down_error + controller" where
  "controller_new asg_name poll_seconds required =
     ebind (require (\<not> blank asg_name)
       (ScaleDownConfigurationError ''BACKTEST_ASG_NAME must not be blank'')) (\<lambda>_.
     ebind (require (0 < poll_seconds)
       (ScaleDownConfigurationError ''scale-down poll interval must be positive'')) (\<lambda>_.
     ebind (require (2 \<le> required)
       (ScaleDownConfigurationError ''scale-down requires at least two idle observations'')) (\<lambda>_.
     Inr \<lparr>sc_asg_name = asg_name, sc_required = required\<rparr>)))"

definition env_get :: "(string \<times> string) list \<Rightarrow> string \<Rightarrow> string \<Rightarrow> string" where
  "env_get environ name fallback = (case map_of environ name of None \<Rightarrow> fallback | Some v \<Rightarrow> v)"

definition controller_from_env ::
  "(string \<Rightarrow> real option) \<Rightarrow> (string \<times> string) list \<Rightarrow> string list \<Rightarrow> string list
     \<Rightarrow> scale_down_error + (controller \<times> string list) option" where
  "controller_from_env to_float environ queue_urls request_queue_urls =
     (let enabled = py_lower (py_strip (env_get environ ''BACKTEST_SCALE_DOWN_ENABLED'' ''false'')) in
      if enabled = [] \<or> enabled = ''false'' then Inr None
      else if enabled \<noteq> ''true''
      then Inl (ScaleDownConfigurationError ''BACKTEST_SCALE_DOWN_ENABLED must be true or false'')
      else case to_float (env_get environ ''BACKTEST_SCALE_DOWN_POLL_SECONDS'' ''60'') of
             None \<Rightarrow> Inl (ScaleDownConfigurationError ''BACKTEST_SCALE_DOWN_POLL_SECONDS must be numeric'')
           | Some poll \<Rightarrow>
               ebind (probe_new queue_urls request_queue_urls) (\<lambda>urls.
               ebind (controller_new (env_get environ ''BACKTEST_ASG_NAME'' []) poll 2) (\<lambda>c.
               Inr (Some (c, urls)))))"

text \<open>
  One round of the loop as its environment answers it: the stop event is set, or the probe
  answers and \<open>set_desired_zero\<close> would succeed or raise.
\<close>

datatype poll_round = Stopped | Polled "probe_error + backtest_activity" bool

record loop_result =
  lr_returned :: "bool option"
  lr_requests :: "nat list"

text \<open>
  \<open>run\<close> from round \<open>i\<close>: whether it has returned and what, and the rounds in which it called
  \<open>set_desired_zero\<close>. Without an answer from the environment the loop waits (\<open>None\<close>).
\<close>

fun run_from :: "controller \<Rightarrow> int \<Rightarrow> nat \<Rightarrow> poll_round list \<Rightarrow> loop_result" where
  "run_from c consecutive i [] = \<lparr>lr_returned = None, lr_requests = []\<rparr>"
| "run_from c consecutive i (Stopped # rs) = \<lparr>lr_returned = Some False, lr_requests = []\<rparr>"
| "run_from c consecutive i (Polled (Inl e) ok # rs) = run_from c 0 (Suc i) rs"
| "run_from c consecutive i (Polled (Inr a) ok # rs) =
     (let n = (if activity_idle a then consecutive + 1 else 0) in
      if n < sc_required c then run_from c n (Suc i) rs
      else if ok then \<lparr>lr_returned = Some True, lr_requests = [i]\<rparr>
      else (let r = run_from c 0 (Suc i) rs in r\<lparr>lr_requests := i # lr_requests r\<rparr>))"

definition run_controller :: "controller \<Rightarrow> poll_round list \<Rightarrow> loop_result" where
  "run_controller c rs = run_from c 0 0 rs"

section \<open>The loop\<close>

definition idle_round :: "poll_round \<Rightarrow> bool" where
  "idle_round r = (case r of Stopped \<Rightarrow> False | Polled (Inl _) _ \<Rightarrow> False | Polled (Inr a) _ \<Rightarrow> activity_idle a)"

lemma idle_round_simps [simp]:
  "\<not> idle_round Stopped" "\<not> idle_round (Polled (Inl e) ok)"
  "idle_round (Polled (Inr a) ok) \<longleftrightarrow> activity_idle a"
  by (simp_all add: idle_round_def)

text \<open>
  Invariant of the loop: the counter is the length of a suffix of the rounds already seen, all
  of them idle.
\<close>

definition idle_suffix :: "int \<Rightarrow> poll_round list \<Rightarrow> bool" where
  "idle_suffix n past \<longleftrightarrow> 0 \<le> n \<and> n \<le> int (length past) \<and>
     (\<forall>r\<in>set (drop (length past - nat n) past). idle_round r)"

lemma idle_suffix_0 [simp]: "idle_suffix 0 past"
  by (simp add: idle_suffix_def)

lemma idle_suffix_snoc:
  "idle_suffix n past \<Longrightarrow> idle_round r \<Longrightarrow> idle_suffix (n + 1) (past @ [r])"
  by (auto simp: idle_suffix_def nat_add_distrib Suc_diff_le)

text \<open>A request at round \<open>i\<close> is backed by the required number of idle rounds up to \<open>i\<close>.\<close>

definition backed :: "controller \<Rightarrow> poll_round list \<Rightarrow> nat \<Rightarrow> bool" where
  "backed c rounds i \<longleftrightarrow> i < length rounds \<and> idle_suffix (sc_required c) (take (Suc i) rounds)"

lemma idle_suffix_mono: "idle_suffix n past \<Longrightarrow> 0 \<le> m \<Longrightarrow> m \<le> n \<Longrightarrow> idle_suffix m past"
  using set_drop_subset_set_drop [of "length past - nat n" "length past - nat m" past]
  by (auto simp: idle_suffix_def nat_mono diff_le_mono2)

lemma run_from_backed:
  assumes "idle_suffix n past" "0 \<le> sc_required c"
    "i \<in> set (lr_requests (run_from c n (length past) rs))"
  shows "backed c (past @ rs) i"
  using assms
proof (induction rs arbitrary: n past)
  case (Cons r rs)
  have step: "backed c (past @ r # rs) i"
    if "i \<in> set (lr_requests (run_from c m (Suc (length past)) rs))" "idle_suffix m (past @ [r])" for m
    using Cons.IH [of m "past @ [r]"] that Cons.prems(2) by simp
  show ?case
  proof (cases r)
    case Stopped
    with Cons.prems show ?thesis by simp
  next
    case (Polled ob ok)
    show ?thesis
    proof (cases ob)
      case (Inl e)
      with Polled Cons.prems step [of 0] show ?thesis by simp
    next
      case (Inr a)
      let ?n = "if activity_idle a then n + 1 else 0"
      have suffix: "idle_suffix ?n (past @ [r])"
        using idle_suffix_snoc [OF Cons.prems(1), of r] by (simp add: Polled Inr)
      have "backed c (past @ r # rs) i" if "i = length past" "sc_required c \<le> ?n"
        using idle_suffix_mono [OF suffix Cons.prems(2) that(2)] that(1) by (simp add: backed_def)
      then show ?thesis
        using Cons.prems(3) step [of ?n] step [of 0] suffix
        by (auto simp: Polled Inr Let_def split: if_splits)
    qed
  qed
qed simp

lemma run_from_returns:
  assumes "length idle = k" "int k + n \<ge> sc_required c" "0 < k" "0 \<le> n"
    "\<forall>r\<in>set idle. \<exists>a. r = Polled (Inr a) True \<and> activity_idle a"
  shows "lr_returned (run_from c n i (idle @ rs)) = Some True"
  using assms
proof (induction idle arbitrary: n i k)
  case (Cons r idle)
  then obtain a where r: "r = Polled (Inr a) True" "activity_idle a" by auto
  show ?case
  proof (cases "n + 1 < sc_required c")
    case True
    then have "0 < length idle" "sc_required c \<le> int (length idle) + (n + 1)"
      using Cons.prems by auto
    with True r Cons.IH [of "length idle" "n + 1" "Suc i"] Cons.prems show ?thesis by simp
  next
    case False
    with r show ?thesis by simp
  qed
qed simp

lemma run_from_never_stopped:
  assumes "Stopped \<notin> set pre" "1 \<le> sc_required c" "0 \<le> n"
    "sc_required c \<le> int (length idle)"
    "\<forall>r\<in>set idle. \<exists>a. r = Polled (Inr a) True \<and> activity_idle a"
  shows "lr_returned (run_from c n i (pre @ idle @ rs)) = Some True"
  using assms(1,3)
proof (induction pre arbitrary: n i)
  case Nil
  have "0 < length idle" using assms(2,4) by linarith
  with Nil run_from_returns [of idle "length idle" c n i rs] assms show ?case by simp
next
  case (Cons r pre)
  then obtain ob ok where r: "r = Polled ob ok" by (cases r) auto
  with Cons show ?case by (cases ob) (auto simp: Let_def)
qed

section \<open>Properties\<close>

text \<open>
  C38. Scale-to-zero is fail-closed. A controller that its constructor accepted asks for zero
  capacity only in a round that ends a streak of at least two consecutive observations, in
  which the probe answered without an exception, no run was queued or running, no claim was
  live and every queue was empty.
\<close>

theorem zero_capacity_needs_consecutive_idle_rounds:
  assumes "controller_new name poll required = Inr c" "i \<in> set (lr_requests (run_controller c rounds))"
  shows "i < length rounds \<and> 1 \<le> i \<and> idle_round (rounds ! i) \<and> idle_round (rounds ! (i - 1)) \<and>
    idle_suffix required (take (Suc i) rounds)"
proof -
  have r: "sc_required c = required" "2 \<le> required"
    using assms(1) by (auto simp: controller_new_def err_simps)
  have "backed c ([] @ rounds) i"
    by (rule run_from_backed [of 0]) (use assms(2) r in \<open>simp_all add: run_controller_def\<close>)
  then have b: "i < length rounds" "idle_suffix required (take (Suc i) rounds)"
    by (simp_all add: backed_def r)
  have two: "idle_suffix 2 (take (Suc i) rounds)" by (rule idle_suffix_mono [OF b(2)]) (use r in auto)
  then have i: "1 \<le> i" using b(1) by (simp add: idle_suffix_def)
  have "take (Suc i) rounds = take (i - 1) rounds @ [rounds ! (i - 1), rounds ! i]"
    using i b(1) take_Suc_conv_app_nth [of "i - 1" rounds] by (simp add: take_Suc_conv_app_nth)
  then have "idle_round (rounds ! i) \<and> idle_round (rounds ! (i - 1))"
    using two i b(1) by (auto simp: idle_suffix_def)
  with b i show ?thesis by blast
qed

text \<open>
  C39. The controller does scale down. If the stop event is not set and, at any point, the
  environment gives as many idle observations in a row as the controller requires, with
  Auto Scaling accepting the request, the loop returns \<open>True\<close>.
\<close>

theorem idle_streak_scales_down:
  assumes "controller_new name poll required = Inr c" "Stopped \<notin> set before"
    "required \<le> int (length streak)"
    "\<forall>r\<in>set streak. \<exists>a. r = Polled (Inr a) True \<and> activity_idle a"
  shows "lr_returned (run_controller c (before @ streak @ after)) = Some True"
proof -
  have r: "sc_required c = required" "2 \<le> required"
    using assms(1) by (auto simp: controller_new_def err_simps)
  show ?thesis
    unfolding run_controller_def by (rule run_from_never_stopped) (use assms r in auto)
qed

section \<open>An example\<close>

definition demo_queue :: "int \<Rightarrow> queue_activity" where
  "demo_queue n = \<lparr>qa_queue_url = ''q'', qa_visible = n, qa_not_visible = 0, qa_delayed = 0\<rparr>"

definition demo_activity :: "int \<Rightarrow> backtest_activity" where
  "demo_activity n = \<lparr>ba_queued_runs = 0, ba_running_runs = 0, ba_live_claims = 0, ba_queues = [demo_queue n]\<rparr>"

definition demo_controller :: controller where
  "demo_controller = \<lparr>sc_asg_name = ''asg'', sc_required = 2\<rparr>"

definition demo_rounds :: "poll_round list" where
  "demo_rounds = [Polled (Inr (demo_activity 0)) True, Polled (Inl ProbeValueError) True,
     Polled (Inr (demo_activity 0)) True, Polled (Inr (demo_activity 4)) True,
     Polled (Inr (demo_activity 0)) True, Polled (Inr (demo_activity 0)) True]"

lemmas demo_scale_down = demo_queue_def demo_activity_def demo_controller_def demo_rounds_def
  activity_idle_def queue_idle_def

lemma demo_controller_new: "controller_new ''asg'' 60 2 = Inr demo_controller"
  by (simp add: controller_new_def demo_controller_def blank_def whitespace_code)

theorem zero_capacity_needs_consecutive_idle_rounds_witness:
  "lr_requests (run_controller demo_controller demo_rounds) = [5] \<and>
   idle_suffix 2 (take 6 demo_rounds) \<and> \<not> idle_round (demo_rounds ! 3)"
proof -
  have r: "lr_requests (run_controller demo_controller demo_rounds) = [5]"
    by (simp add: run_controller_def demo_scale_down)
  then have "idle_suffix 2 (take (Suc 5) demo_rounds)"
    using zero_capacity_needs_consecutive_idle_rounds [OF demo_controller_new, of 5 demo_rounds] by simp
  with r show ?thesis by (simp add: demo_scale_down)
qed

theorem idle_streak_scales_down_witness:
  "lr_returned (run_controller demo_controller demo_rounds) = Some True"
  using idle_streak_scales_down [OF demo_controller_new, of "take 4 demo_rounds" "drop 4 demo_rounds" "[]"]
  by (simp add: demo_scale_down)

end
