(* ===== verification/Worker_Environment.thy ===== *)
theory Worker_Environment
  imports Lane_Scheduler Scale_Down "HOL-Library.Char_ord" "HOL-Library.List_Lexorder"
begin

text \<open>
  \<open>worker.py\<close>, the configuration of a process from its environment variables: the single
  worker (\<open>_config_from_env\<close>) and the three lanes with their concurrency budget
  (\<open>_lane_configs_from_env\<close>). A configuration that is accepted here is accepted by the
  constructors of the workers and of the lane scheduler.
\<close>

type_synonym environment = "(string \<times> string) list"

definition env_present :: "environment \<Rightarrow> string \<Rightarrow> bool" where
  "env_present environ name \<longleftrightarrow> env_get environ name [] \<noteq> []"

definition env_int :: "environment \<Rightarrow> string \<Rightarrow> string \<Rightarrow> worker_error + int" where
  "env_int environ name fallback =
     (case py_int (env_get environ name fallback) of None \<Rightarrow> Inl MessageValueError | Some n \<Rightarrow> Inr n)"

text \<open>\<open>timedelta(seconds=n)\<close> in microseconds; days beyond 999999999 overflow.\<close>

definition seconds :: "int \<Rightarrow> worker_error + duration" where
  "seconds n =
     (if - 86399999913600 \<le> n \<and> n \<le> 86399999999999 then Inr (n * 1000000) else Inl DurationOverflowError)"

definition env_seconds :: "environment \<Rightarrow> string \<Rightarrow> string \<Rightarrow> worker_error + duration" where
  "env_seconds environ name fallback = ebind (env_int environ name fallback) seconds"

definition REQUIRED_ENV :: "string list" where
  "REQUIRED_ENV = [''BACKTEST_QUEUE_URL'', ''BACKTEST_DLQ_URL'', ''BACKTEST_WORKER_ID'',
     ''BACKTEST_JOB_HANDLER'', ''BACKTEST_EXECUTION_KEY_STORE'']"

fun join_names :: "string list \<Rightarrow> string" where
  "join_names [] = []"
| "join_names [n] = n"
| "join_names (n # ns) = n @ '', '' @ join_names ns"

definition config_from_env :: "environment \<Rightarrow> worker_error + worker_config" where
  "config_from_env environ =
     (let missing = filter (\<lambda>n. \<not> env_present environ n) REQUIRED_ENV in
      if missing \<noteq> []
      then Inl (WorkerConfigurationError (''missing required environment settings: '' @ join_names (sort missing)))
      else
        ebind (env_int environ ''BACKTEST_MAX_RECEIVE_COUNT'' ''5'') (\<lambda>max_receive.
        ebind (env_seconds environ ''BACKTEST_VISIBILITY_TIMEOUT_SECONDS'' ''300'') (\<lambda>visibility.
        ebind (env_seconds environ ''BACKTEST_WAIT_SECONDS'' ''20'') (\<lambda>wait.
        ebind (env_int environ ''BACKTEST_MAX_MESSAGES'' ''1'') (\<lambda>max_messages.
        ebind (env_seconds environ ''BACKTEST_HEARTBEAT_SECONDS'' ''60'') (\<lambda>heartbeat.
        worker_config_new \<lparr>wc_queue_url = env_get environ ''BACKTEST_QUEUE_URL'' [],
          wc_dead_letter_queue_url = env_get environ ''BACKTEST_DLQ_URL'' [],
          wc_worker_id = env_get environ ''BACKTEST_WORKER_ID'' [],
          wc_max_receive_count = max_receive, wc_visibility_timeout = visibility, wc_wait_time = wait,
          wc_max_messages = max_messages, wc_heartbeat_interval = heartbeat\<rparr>))))))"

section \<open>Lanes\<close>

fun lane_name :: "lane \<Rightarrow> string" where
  "lane_name BASIC = ''BASIC''"
| "lane_name CUSTOM = ''CUSTOM''"
| "lane_name COMPETITION = ''COMPETITION''"

definition lane_prefix :: "lane \<Rightarrow> string" where
  "lane_prefix l = ''BACKTEST_'' @ lane_name l"

definition LANES :: "lane list" where
  "LANES = [BASIC, CUSTOM, COMPETITION]"

definition lane_required_env :: "string list" where
  "lane_required_env = [''BACKTEST_WORKER_ID'', ''BACKTEST_JOB_HANDLER'', ''BACKTEST_EXECUTION_KEY_STORE''] @
     concat (map (\<lambda>l. [lane_prefix l @ ''_QUEUE_URL'', lane_prefix l @ ''_DLQ_URL'']) LANES)"

definition lane_config :: "environment \<Rightarrow> lane \<Rightarrow> worker_error + worker_config" where
  "lane_config environ l =
     ebind (env_int environ ''BACKTEST_MAX_RECEIVE_COUNT'' ''5'') (\<lambda>max_receive.
     ebind (env_seconds environ ''BACKTEST_VISIBILITY_TIMEOUT_SECONDS'' ''300'') (\<lambda>visibility.
     ebind (env_seconds environ ''BACKTEST_HEARTBEAT_SECONDS'' ''60'') (\<lambda>heartbeat.
     worker_config_new \<lparr>wc_queue_url = env_get environ (lane_prefix l @ ''_QUEUE_URL'') [],
       wc_dead_letter_queue_url = env_get environ (lane_prefix l @ ''_DLQ_URL'') [],
       wc_worker_id = env_get environ ''BACKTEST_WORKER_ID'' [],
       wc_max_receive_count = max_receive, wc_visibility_timeout = visibility, wc_wait_time = 0,
       wc_max_messages = 1, wc_heartbeat_interval = heartbeat\<rparr>)))"

definition default_limit_text :: "lane \<Rightarrow> string" where
  "default_limit_text l = (if l = BASIC then ''2'' else ''1'')"

definition lane_setting :: "environment \<Rightarrow> lane \<Rightarrow> worker_error + (lane \<times> worker_config \<times> int)" where
  "lane_setting environ l =
     ebind (lane_config environ l) (\<lambda>c.
     ebind (env_int environ (lane_prefix l @ ''_MAX_CONCURRENCY'') (default_limit_text l)) (\<lambda>limit.
     Inr (l, c, limit)))"

definition lane_configs_from_env ::
  "environment
     \<Rightarrow> worker_error + (lane \<times> worker_config) list \<times> (lane \<times> int) list \<times> int" where
  "lane_configs_from_env environ =
     (let missing = filter (\<lambda>n. \<not> env_present environ n) lane_required_env in
      if missing \<noteq> []
      then Inl (WorkerConfigurationError (''missing required lane environment settings: '' @ join_names (sort missing)))
      else
        ebind (emap (lane_setting environ) LANES) (\<lambda>settings.
        let configs = map (\<lambda>(l, c, n). (l, c)) settings; limits = map (\<lambda>(l, c, n). (l, n)) settings in
        ebind (env_int environ ''BACKTEST_MAX_TOTAL_CONCURRENCY'' ''4'') (\<lambda>global_limit.
        ebind (require (1 \<le> global_limit) (WorkerConfigurationError ''global_limit must be at least 1'')) (\<lambda>_.
        ebind (require (\<forall>l\<in>set limits. 1 \<le> snd l)
          (WorkerConfigurationError ''every lane limit must be at least 1'')) (\<lambda>_.
        ebind (require (global_limit \<le> sum_list (map snd limits))
          (WorkerConfigurationError ''global_limit cannot exceed the sum of lane limits'')) (\<lambda>_.
        Inr (configs, limits, global_limit)))))))"

section \<open>Accepted environments\<close>

lemma worker_config_new_self: "worker_config_new c = Inr c' \<Longrightarrow> c' = c"
  by (auto simp: worker_config_new_def err_simps)

lemma lane_config_valid: "lane_config environ l = Inr c \<Longrightarrow> worker_config_new c = Inr c"
  using worker_config_new_self by (auto simp: lane_config_def err_simps)

text \<open>
  Environment errors surface before messages are received. If the lane settings are read
  from the environment without an error, then each lane's worker configuration passes its
  constructor, the lanes are the three lanes of the deployment, and the scheduler constructor
  accepts the limits with any positive waiting times.
\<close>

theorem accepted_environment_starts:
  assumes "lane_configs_from_env environ = Inr (configs, limits, g)"
    "0 < idle" "0 < b" "b \<le> mb"
  shows "map fst configs = LANES \<and> (\<forall>p\<in>set configs. worker_config_new (snd p) = Inr (snd p)) \<and>
    (\<exists>s. lane_scheduler_new (map fst configs) limits g idle b mb = Inr s \<and> ls_global_limit s = g)"
proof -
  obtain settings where s: "emap (lane_setting environ) LANES = Inr settings"
      "configs = map (\<lambda>(l, c, n). (l, c)) settings" "limits = map (\<lambda>(l, c, n). (l, n)) settings"
      "1 \<le> g" "\<forall>l\<in>set limits. 1 \<le> snd l" "g \<le> sum_list (map snd limits)"
    using assms(1) by (auto simp: lane_configs_from_env_def err_simps Let_def split: if_splits)
  obtain c1 n1 c2 n2 c3 n3 where e: "settings = [(BASIC, c1, n1), (CUSTOM, c2, n2), (COMPETITION, c3, n3)]"
      "lane_config environ BASIC = Inr c1" "lane_config environ CUSTOM = Inr c2" "lane_config environ COMPETITION = Inr c3"
    using s(1) by (auto simp: LANES_def lane_setting_def err_simps)
  have "map fst configs = LANES" "map fst limits = LANES" "limits \<noteq> []"
      "fst ` set limits = {BASIC, CUSTOM, COMPETITION}" by (auto simp: s(2,3) e(1) LANES_def)
  moreover have "\<forall>p\<in>set configs. worker_config_new (snd p) = Inr (snd p)"
    using e(2-4) lane_config_valid by (auto simp: s(2) e(1))
  ultimately show ?thesis
    using s(4-6) assms(2-4) by (simp add: lane_scheduler_new_def Let_def LANES_def)
qed

definition demo_environment :: environment where
  "demo_environment = map (\<lambda>n. (n, ''x'')) lane_required_env @ [(''BACKTEST_CUSTOM_MAX_CONCURRENCY'', '' +3 '')]"

definition demo_lane_config :: worker_config where
  "demo_lane_config = \<lparr>wc_queue_url = ''x'', wc_dead_letter_queue_url = ''x'', wc_worker_id = ''x'',
     wc_max_receive_count = 5, wc_visibility_timeout = 300000000, wc_wait_time = 0, wc_max_messages = 1,
     wc_heartbeat_interval = 60000000\<rparr>"

lemmas demo_env_names = demo_environment_def lane_required_env_def LANES_def lane_prefix_def

lemma demo_numbers:
  "py_int ''5'' = Some 5" "py_int ''300'' = Some 300" "py_int ''60'' = Some 60" "py_int ''2'' = Some 2"
  "py_int ''1'' = Some 1" "py_int '' +3 '' = Some 3" "py_int ''4'' = Some 4"
  by (simp_all add: py_int_def py_strip_def strip_chars_def whitespace_code char_digit_def)

lemma demo_lane_config: "lane_config demo_environment l = Inr demo_lane_config"
  by (cases l) (simp_all add: lane_config_def env_int_def env_seconds_def env_get_def demo_env_names demo_numbers
      seconds_def worker_config_new_def demo_lane_config_def blank_def whitespace_code)

lemma demo_environment_accepted:
  "lane_configs_from_env demo_environment =
     Inr ([(BASIC, demo_lane_config), (CUSTOM, demo_lane_config), (COMPETITION, demo_lane_config)],
          [(BASIC, 2), (CUSTOM, 3), (COMPETITION, 1)], 4)"
proof -
  have m: "filter (\<lambda>n. \<not> env_present demo_environment n) lane_required_env = []"
    by (simp add: env_present_def env_get_def demo_env_names)
  have l: "lane_setting demo_environment BASIC = Inr (BASIC, demo_lane_config, 2)"
    "lane_setting demo_environment CUSTOM = Inr (CUSTOM, demo_lane_config, 3)"
    "lane_setting demo_environment COMPETITION = Inr (COMPETITION, demo_lane_config, 1)"
    unfolding lane_setting_def demo_lane_config
    by (simp_all add: env_int_def env_get_def demo_env_names default_limit_text_def demo_numbers)
  have g: "env_int demo_environment ''BACKTEST_MAX_TOTAL_CONCURRENCY'' ''4'' = Inr 4"
    by (simp add: env_int_def env_get_def demo_env_names demo_numbers)
  show ?thesis by (simp add: lane_configs_from_env_def m l g LANES_def)
qed

theorem accepted_environment_starts_witness:
  "\<exists>s. lane_scheduler_new LANES [(BASIC, 2), (CUSTOM, 3), (COMPETITION, 1)] 4 5 (1 / 4) 5 = Inr s \<and>
     ls_global_limit s = 4"
  using accepted_environment_starts [OF demo_environment_accepted, of 5 "1 / 4" 5] by (simp add: LANES_def)

end
