(* ===== verification/Equity_Curve.thy ===== *)
theory Equity_Curve
  imports Exec_Lots
begin

text \<open>
  \<open>performance/equity_curve.py\<close>: ledger events, valuation grids and the equity curve that every
  performance metric is derived from. A datetime argument may be naive; a validated record
  holds instants, so the records carry their time type as a parameter. The lemmas show what a
  point of the curve is worth, that it never depends on the future, and when a curve can be
  re-derived from the series it stores.
\<close>

section \<open>Errors and checks\<close>

datatype perf_error =
    PerformanceCalculationError string
  | PerfMoneyError money_error
  | PerfDecimalError dec_error
  | PerfKeyError string

abbreviation perf_invalid :: "string \<Rightarrow> perf_error" where
  "perf_invalid \<equiv> PerformanceCalculationError"

definition pmoney :: "decimal \<Rightarrow> perf_error + decimal" where
  "pmoney d = map_err PerfMoneyError (quantize_money (PyDec d))"

definition OPENING_INSTANT_LEAD :: duration where
  "OPENING_INSTANT_LEAD = 1"

definition curve_precision :: nat where
  "curve_precision = 60"

datatype valuation_basis = MARK_TO_MARKET | COST_BASIS

datatype valuation_periodicity = DAILY | EVENT

fun basis_rule_id :: "valuation_basis \<Rightarrow> string" where
  "basis_rule_id MARK_TO_MARKET = ''equity.valuation:mark_to_market:1.0.0''"
| "basis_rule_id COST_BASIS = ''equity.valuation:cost_basis:1.0.0''"

definition perf_utc :: "py_datetime \<Rightarrow> string \<Rightarrow> perf_error + instant" where
  "perf_utc d label = utc_or (perf_invalid (label @ '' must be timezone-aware'')) d"

definition perf_non_negative :: "decimal \<Rightarrow> string \<Rightarrow> perf_error + decimal" where
  "perf_non_negative v label =
     (if dless v dzero then Inl (perf_invalid (label @ '' must be non-negative'')) else Inr v)"

definition perf_positive :: "decimal \<Rightarrow> string \<Rightarrow> perf_error + decimal" where
  "perf_positive v label =
     (if dle v dzero then Inl (perf_invalid (label @ '' must be positive'')) else Inr v)"

section \<open>Inputs\<close>

record mark_price =
  mp_instrument_id :: string
  mp_price :: decimal

definition mark_price_new :: "mark_price \<Rightarrow> perf_error + mark_price" where
  "mark_price_new p =
     ebind (require (mp_instrument_id p \<noteq> []) (perf_invalid ''mark instrument_id must not be empty'')) (\<lambda>_.
     ebind (perf_positive (mp_price p) ''mark price'') (\<lambda>_. Inr p))"

record position_state =
  pst_instrument_id :: string
  pst_quantity :: decimal
  pst_cost_basis :: decimal

definition position_state_new :: "position_state \<Rightarrow> perf_error + position_state" where
  "position_state_new p =
     ebind (require (pst_instrument_id p \<noteq> []) (perf_invalid ''position instrument_id must not be empty'')) (\<lambda>_.
     ebind (perf_positive (pst_quantity p) ''position quantity'') (\<lambda>_.
     ebind (perf_non_negative (pst_cost_basis p) ''position cost_basis'') (\<lambda>_. Inr p)))"

record 't ledger_event =
  lv_as_of :: 't
  lv_cash_delta :: decimal
  lv_positions :: "position_state list"

text \<open>
  The ordering of the dataclasses compares the instrument first; since the instruments are
  distinct, sorting the records is sorting by instrument.
\<close>

definition ledger_event_new :: "py_datetime ledger_event \<Rightarrow> perf_error + instant ledger_event" where
  "ledger_event_new e =
     ebind (perf_utc (lv_as_of e) ''ledger event as_of'') (\<lambda>t.
     ebind (require (distinct (map pst_instrument_id (lv_positions e)))
       (perf_invalid ''ledger event positions must be unique per instrument'')) (\<lambda>_.
     Inr \<lparr>lv_as_of = t, lv_cash_delta = lv_cash_delta e,
       lv_positions = sort_key pst_instrument_id (lv_positions e)\<rparr>))"

record 't valuation_instant =
  vi_as_of :: 't
  vi_marks :: "mark_price list"

definition valuation_instant_new :: "py_datetime valuation_instant \<Rightarrow> perf_error + instant valuation_instant" where
  "valuation_instant_new v =
     ebind (perf_utc (vi_as_of v) ''valuation instant as_of'') (\<lambda>t.
     ebind (require (distinct (map mp_instrument_id (vi_marks v)))
       (perf_invalid ''valuation instant marks must be unique per instrument'')) (\<lambda>_.
     Inr \<lparr>vi_as_of = t, vi_marks = sort_key mp_instrument_id (vi_marks v)\<rparr>))"

record 't valuation_series =
  vs_basis :: valuation_basis
  vs_periodicity :: valuation_periodicity
  vs_opening_at :: 't
  vs_instants :: "instant valuation_instant list"

definition strictly_increasing :: "instant list \<Rightarrow> bool" where
  "strictly_increasing ts \<longleftrightarrow> ts = sort (remdups ts)"

definition valuation_series_new :: "py_datetime valuation_series \<Rightarrow> perf_error + instant valuation_series" where
  "valuation_series_new s =
     ebind (perf_utc (vs_opening_at s) ''valuation opening_at'') (\<lambda>opening.
     ebind (require (strictly_increasing (map vi_as_of (vs_instants s)))
       (perf_invalid ''valuation instants must be strictly increasing in time'')) (\<lambda>_.
     ebind (require (case vs_instants s of [] \<Rightarrow> True | v # _ \<Rightarrow> \<not> vi_as_of v \<le> opening)
       (perf_invalid ''every valuation instant must follow the opening instant'')) (\<lambda>_.
     ebind (require (\<not> (vs_basis s = COST_BASIS \<and> (\<exists>v\<in>set (vs_instants s). vi_marks v \<noteq> [])))
       (perf_invalid ''a COST_BASIS series must not carry mark prices'')) (\<lambda>_.
     Inr \<lparr>vs_basis = vs_basis s, vs_periodicity = vs_periodicity s, vs_opening_at = opening,
       vs_instants = vs_instants s\<rparr>))))"

text \<open>\<open>ValuationSeries.event_driven\<close>: one sample per ledger event and one at completion.\<close>

definition event_driven :: "instant ledger_event list \<Rightarrow> py_datetime \<Rightarrow> perf_error + instant valuation_series" where
  "event_driven events through =
     ebind (perf_utc through ''valuation through'') (\<lambda>closing.
     let moments = sort (remdups (closing # map lv_as_of events)) in
     ebind (require (\<not> closing < last moments)
       (perf_invalid ''a ledger event cannot follow the run's completion instant'')) (\<lambda>_.
     ebind (emap (\<lambda>t. valuation_instant_new \<lparr>vi_as_of = Aware t, vi_marks = []\<rparr>) moments) (\<lambda>instants.
     valuation_series_new \<lparr>vs_basis = COST_BASIS, vs_periodicity = EVENT,
       vs_opening_at = Aware (hd moments - OPENING_INSTANT_LEAD), vs_instants = instants\<rparr>)))"

section \<open>The curve\<close>

record holding =
  hd_instrument_id :: string
  hd_quantity :: decimal
  hd_mark_price :: decimal
  hd_market_value :: decimal

definition holding_new :: "holding \<Rightarrow> perf_error + holding" where
  "holding_new h =
     ebind (require (hd_instrument_id h \<noteq> []) (perf_invalid ''holding instrument_id must not be empty'')) (\<lambda>_.
     ebind (perf_positive (hd_quantity h) ''holding quantity'') (\<lambda>_.
     ebind (perf_non_negative (hd_mark_price h) ''holding mark_price'') (\<lambda>_.
     ebind (perf_non_negative (hd_market_value h) ''holding market_value'') (\<lambda>_. Inr h))))"

record equity_point =
  ep_as_of :: instant
  ep_cash :: decimal
  ep_holdings :: "holding list"
  ep_position_value :: decimal
  ep_equity :: decimal

definition equity_point_new :: "equity_point \<Rightarrow> perf_error + equity_point" where
  "equity_point_new p =
     ebind (require (distinct (map hd_instrument_id (ep_holdings p)))
       (perf_invalid ''equity point holdings must be unique per instrument'')) (\<lambda>_.
     ebind (require (deq (ep_position_value p) (dsum default_prec (map hd_market_value (ep_holdings p))))
       (perf_invalid ''equity point position_value must equal the holding market values'')) (\<lambda>_.
     ebind (require (deq (ep_equity p) (add28 (ep_cash p) (ep_position_value p)))
       (perf_invalid ''equity point equity must equal cash plus position_value'')) (\<lambda>_.
     Inr (p\<lparr>ep_holdings := sort_key hd_instrument_id (ep_holdings p)\<rparr>))))"

record equity_curve =
  cu_basis :: valuation_basis
  cu_periodicity :: valuation_periodicity
  cu_points :: "equity_point list"

definition equity_curve_new :: "equity_curve \<Rightarrow> perf_error + equity_curve" where
  "equity_curve_new c =
     ebind (require (cu_points c \<noteq> []) (perf_invalid ''an equity curve must have at least the opening point'')) (\<lambda>_.
     ebind (require (strictly_increasing (map ep_as_of (cu_points c)))
       (perf_invalid ''equity curve points must be strictly increasing in time'')) (\<lambda>_.
     ebind (require (\<not> (cu_basis c = COST_BASIS \<and> cu_periodicity c = DAILY))
       (perf_invalid ''a COST_BASIS curve is never a DAILY mark grid'')) (\<lambda>_. Inr c)))"

abbreviation curve_opening :: "equity_curve \<Rightarrow> equity_point" where
  "curve_opening c \<equiv> hd (cu_points c)"

abbreviation curve_closing :: "equity_curve \<Rightarrow> equity_point" where
  "curve_closing c \<equiv> last (cu_points c)"

definition point_marks :: "valuation_basis \<Rightarrow> equity_point \<Rightarrow> perf_error + mark_price list" where
  "point_marks basis p =
     (if basis = COST_BASIS then Inr []
      else emap (\<lambda>h. mark_price_new \<lparr>mp_instrument_id = hd_instrument_id h, mp_price = hd_mark_price h\<rparr>)
             (ep_holdings p))"

definition to_series :: "equity_curve \<Rightarrow> perf_error + instant valuation_series" where
  "to_series c =
     ebind (emap (\<lambda>p. ebind (point_marks (cu_basis c) p) (\<lambda>marks.
              valuation_instant_new \<lparr>vi_as_of = Aware (ep_as_of p), vi_marks = marks\<rparr>)) (tl (cu_points c))) (\<lambda>instants.
     valuation_series_new \<lparr>vs_basis = cu_basis c, vs_periodicity = cu_periodicity c,
       vs_opening_at = Aware (ep_as_of (curve_opening c)), vs_instants = instants\<rparr>)"

section \<open>Building the curve\<close>

fun state_at_from :: "instant ledger_event list \<Rightarrow> instant \<Rightarrow> decimal \<Rightarrow> position_state list \<Rightarrow> decimal \<times> position_state list" where
  "state_at_from [] t cash positions = (cash, positions)"
| "state_at_from (e # es) t cash positions =
     (if t < lv_as_of e then (cash, positions)
      else state_at_from es t (add28 cash (lv_cash_delta e)) (lv_positions e))"

definition state_at :: "instant ledger_event list \<Rightarrow> instant \<Rightarrow> decimal \<times> position_state list" where
  "state_at events t = state_at_from events t dzero []"

definition cost_basis_holding :: "position_state \<Rightarrow> perf_error + holding" where
  "cost_basis_holding p =
     ebind (map_err PerfDecimalError (ddiv curve_precision (pst_cost_basis p) (pst_quantity p))) (\<lambda>unit_price.
     ebind (pmoney unit_price) (\<lambda>price.
     ebind (pmoney (pst_cost_basis p)) (\<lambda>market_value.
     holding_new \<lparr>hd_instrument_id = pst_instrument_id p, hd_quantity = pst_quantity p,
       hd_mark_price = price, hd_market_value = market_value\<rparr>)))"

definition mark_to_market_holding :: "(string \<times> decimal) list \<Rightarrow> position_state \<Rightarrow> perf_error + holding" where
  "mark_to_market_holding marks p =
     (case map_of marks (pst_instrument_id p) of
        None \<Rightarrow> Inl (perf_invalid ''a MARK_TO_MARKET curve cannot value an unmarked holding'')
      | Some price \<Rightarrow>
          let market_value = dmul curve_precision (pst_quantity p) price in
          ebind (pmoney price) (\<lambda>mark.
          ebind (pmoney market_value) (\<lambda>value.
          holding_new \<lparr>hd_instrument_id = pst_instrument_id p, hd_quantity = pst_quantity p,
            hd_mark_price = mark, hd_market_value = value\<rparr>)))"

definition holding_of :: "valuation_basis \<Rightarrow> mark_price list \<Rightarrow> position_state \<Rightarrow> perf_error + holding" where
  "holding_of basis marks p =
     (if basis = COST_BASIS then cost_basis_holding p
      else mark_to_market_holding (map (\<lambda>m. (mp_instrument_id m, mp_price m)) marks) p)"

text \<open>One round of the sampling loop.\<close>

definition sample_point ::
  "decimal \<Rightarrow> instant ledger_event list \<Rightarrow> valuation_basis \<Rightarrow> instant valuation_instant \<Rightarrow> perf_error + equity_point" where
  "sample_point opening_cash ordered basis v =
     (let (cash_delta, positions) = state_at ordered (vi_as_of v) in
      ebind (pmoney (add28 opening_cash cash_delta)) (\<lambda>cash.
      ebind (emap (holding_of basis (vi_marks v)) positions) (\<lambda>holdings.
      ebind (pmoney (dsum default_prec (map hd_market_value holdings))) (\<lambda>position_value.
      ebind (pmoney (add28 cash position_value)) (\<lambda>equity.
      equity_point_new \<lparr>ep_as_of = vi_as_of v, ep_cash = cash, ep_holdings = holdings,
        ep_position_value = position_value, ep_equity = equity\<rparr>)))))"

definition build_equity_curve ::
  "decimal \<Rightarrow> instant ledger_event list \<Rightarrow> instant valuation_series \<Rightarrow> perf_error + equity_curve" where
  "build_equity_curve initial_cash events series =
     ebind (perf_non_negative initial_cash ''initial_cash'') (\<lambda>_.
     ebind (pmoney initial_cash) (\<lambda>opening_cash.
     let ordered = sort_key lv_as_of events in
     ebind (require (distinct (map lv_as_of ordered)) (perf_invalid ''ledger events must not share an instant'')) (\<lambda>_.
     ebind (require (case ordered of [] \<Rightarrow> True | e # _ \<Rightarrow> \<not> lv_as_of e < vs_opening_at series)
       (perf_invalid ''no ledger event may precede the opening instant'')) (\<lambda>_.
     ebind (pmoney dzero) (\<lambda>nothing.
     ebind (equity_point_new \<lparr>ep_as_of = vs_opening_at series, ep_cash = opening_cash, ep_holdings = [],
       ep_position_value = nothing, ep_equity = opening_cash\<rparr>) (\<lambda>opening.
     ebind (emap (sample_point opening_cash ordered (vs_basis series)) (vs_instants series)) (\<lambda>points.
     equity_curve_new \<lparr>cu_basis = vs_basis series, cu_periodicity = vs_periodicity series,
       cu_points = opening # points\<rparr>)))))))"

section \<open>Facts of the constructors\<close>

lemma pmoney_qmoney: "pmoney d = Inr q \<longleftrightarrow> qmoney d = Inr q"
  by (simp add: pmoney_def qmoney_def err_simps)

lemma pmoney_value: "dval a = dval b \<Longrightarrow> pmoney a = pmoney b"
  by (simp add: pmoney_def quantize_money_units)

lemma pmoney_keeps: "is_money d \<Longrightarrow> pmoney d = Inr d"
  by (simp add: pmoney_qmoney qmoney_keeps)

lemma strictly_increasing_iff: "strictly_increasing ts \<longleftrightarrow> sorted_wrt (<) ts"
proof
  assume "strictly_increasing ts"
  then have e: "ts = sort (remdups ts)" by (simp add: strictly_increasing_def)
  have "sorted ts" by (subst e) simp
  moreover have "distinct ts" by (subst e) simp
  ultimately show "sorted_wrt (<) ts" by (simp add: strict_sorted_iff)
next
  assume "sorted_wrt (<) ts"
  then have "sorted ts" "distinct ts" by (simp_all add: strict_sorted_iff)
  then show "strictly_increasing ts" by (simp add: strictly_increasing_def distinct_remdups_id sorted_sort_id)
qed

lemma holding_new_Inr: "holding_new h = Inr h' \<longleftrightarrow> h' = h \<and> hd_instrument_id h \<noteq> [] \<and> 0 < dval (hd_quantity h) \<and>
    0 \<le> dval (hd_mark_price h) \<and> 0 \<le> dval (hd_market_value h)"
  by (auto simp: holding_new_def err_simps perf_positive_def perf_non_negative_def dle_iff dless_iff split: if_splits)

lemma mark_price_new_Inr: "mark_price_new m = Inr m' \<longleftrightarrow> m' = m \<and> mp_instrument_id m \<noteq> [] \<and> 0 < dval (mp_price m)"
  by (auto simp: mark_price_new_def err_simps perf_positive_def dle_iff split: if_splits)

section \<open>The state before an instant\<close>

lemma state_at_from_prefix:
  "state_at_from es t cash ps =
     (fold (\<lambda>d acc. add28 acc d) (map lv_cash_delta (takeWhile (\<lambda>e. lv_as_of e \<le> t) es)) cash,
      last (ps # map lv_positions (takeWhile (\<lambda>e. lv_as_of e \<le> t) es)))"
  by (induction es t cash ps rule: state_at_from.induct) auto

lemma takeWhile_sorted:
  "sorted (map lv_as_of es) \<Longrightarrow> takeWhile (\<lambda>e. lv_as_of e \<le> t) es = filter (\<lambda>e. lv_as_of e \<le> t) es"
  for t :: "'t::linorder"
proof (induction es)
  case (Cons e es)
  show ?case
  proof (cases "lv_as_of e \<le> t")
    case False
    with Cons.prems have "\<forall>x\<in>set es. \<not> lv_as_of x \<le> t" by fastforce
    with False show ?thesis by simp
  qed (use Cons in simp)
qed simp

text \<open>
  Cash is the sum of the movements up to the instant, positions are those of the last event
  up to it.
\<close>

lemma state_at_filter:
  assumes "sorted (map lv_as_of es)"
  shows "state_at es t = (dsum default_prec (map lv_cash_delta (filter (\<lambda>e. lv_as_of e \<le> t) es)),
      last ([] # map lv_positions (filter (\<lambda>e. lv_as_of e \<le> t) es)))"
  by (simp add: state_at_def state_at_from_prefix takeWhile_sorted [OF assms] dsum_def)

section \<open>One point\<close>

lemma dsum_money:
  assumes "\<forall>d\<in>set ds. is_quantity d \<and> 0 \<le> dval d"
  shows "exact_or_large (dsum default_prec ds) (\<Sum>d\<leftarrow>ds. dval d)"
  using assms
proof (induction ds rule: rev_induct)
  case Nil
  then show ?case by (simp add: exact_or_large_def fine_def)
next
  case (snoc d ds)
  have "0 \<le> (\<Sum>d\<leftarrow>ds. dval d)" by (rule sum_list_nonneg) (use snoc.prems in auto)
  with snoc exact_or_large_add [of "dsum default_prec ds" "\<Sum>d\<leftarrow>ds. dval d" d] show ?case
    by (simp add: dsum_append)
qed

lemma holding_of_facts:
  assumes "holding_of basis marks p = Inr h"
  shows "hd_instrument_id h = pst_instrument_id p" "hd_quantity h = pst_quantity p"
    "is_money (hd_market_value h)" "0 \<le> dval (hd_market_value h)" "is_money (hd_mark_price h)"
  using assms qmoney_Inr(1)
  by (auto simp: holding_of_def cost_basis_holding_def mark_to_market_holding_def err_simps holding_new_Inr
      pmoney_qmoney Let_def split: if_splits option.splits)

definition holdings_value :: "holding list \<Rightarrow> rat" where
  "holdings_value hs = sum_list (map (dval \<circ> hd_market_value) hs)"

lemma emap_set: "emap f xs = Inr ys \<Longrightarrow> y \<in> set ys \<Longrightarrow> \<exists>x\<in>set xs. f x = Inr y"
  by (induction xs arbitrary: ys) (auto simp: err_simps)

lemma emap_map: "emap f xs = Inr ys \<Longrightarrow> (\<And>x y. f x = Inr y \<Longrightarrow> g y = h x) \<Longrightarrow> map g ys = map h xs"
  by (induction xs arbitrary: ys) (auto simp: err_simps)

lemma emap_cong_set: "(\<And>x. x \<in> set xs \<Longrightarrow> f x = g x) \<Longrightarrow> emap f xs = emap g xs"
  by (induction xs) auto

lemma emap_filter:
  "emap f xs = Inr ys \<Longrightarrow> (\<And>x y. f x = Inr y \<Longrightarrow> Q y \<longleftrightarrow> P x) \<Longrightarrow> emap f (filter P xs) = Inr (filter Q ys)"
  by (induction xs arbitrary: ys) (auto simp: err_simps)

text \<open>
  The checks of \<open>EquityPoint\<close> never fire on what the loop computes: whenever the amounts fit
  the numeric range they agree exactly.
\<close>

lemma sample_point_calls:
  assumes "sample_point oc es basis v = Inr p"
  obtains cash holdings pv eq where "pmoney (add28 oc (fst (state_at es (vi_as_of v)))) = Inr cash"
    "emap (holding_of basis (vi_marks v)) (snd (state_at es (vi_as_of v))) = Inr holdings"
    "pmoney (dsum default_prec (map hd_market_value holdings)) = Inr pv" "pmoney (add28 cash pv) = Inr eq"
    "distinct (map hd_instrument_id holdings)"
    "p = \<lparr>ep_as_of = vi_as_of v, ep_cash = cash, ep_holdings = sort_key hd_instrument_id holdings,
        ep_position_value = pv, ep_equity = eq\<rparr>"
  using assms by (auto simp: sample_point_def equity_point_new_def err_simps case_prod_beta)

lemma point_amounts_agree:
  assumes "emap (holding_of basis marks) ps = Inr hs" "pmoney (dsum default_prec (map hd_market_value hs)) = Inr pv"
    "pmoney d = Inr cash" "pmoney (add28 cash pv) = Inr eq"
  shows "dval pv = holdings_value hs" "dval (dsum default_prec (map hd_market_value hs)) = dval pv"
    "dval eq = dval cash + dval pv" "dval (add28 cash pv) = dval eq"
proof -
  have q: "\<forall>d\<in>set (map hd_market_value hs). is_quantity d \<and> 0 \<le> dval d"
    using emap_set [OF assms(1)] holding_of_facts is_money_quantity by fastforce
  have e: "exact_or_large (dsum default_prec (map hd_market_value hs)) (holdings_value hs)"
    using dsum_money [OF q] by (simp add: holdings_value_def comp_def)
  show pv: "dval pv = holdings_value hs"
    by (rule exact_or_large_qmoney [OF e]) (use assms(2) in \<open>simp add: pmoney_qmoney\<close>)
  have m: "is_money pv" "is_money cash" using assms(2,3) qmoney_Inr(1) by (auto simp: pmoney_qmoney)
  have "\<bar>holdings_value hs\<bar> < 10 ^ 16" using is_money_dval_bound [OF m(1)] pv by simp
  then show "dval (dsum default_prec (map hd_market_value hs)) = dval pv"
    using e pv by (auto simp: exact_or_large_def)
  have a: "dval (add28 cash pv) = dval cash + dval pv" "fine (add28 cash pv)"
    using add28_money [OF is_money_quantity [OF m(2)] is_money_quantity [OF m(1)]] by simp_all
  show "dval eq = dval cash + dval pv"
    using qmoney_grid [of "add28 cash pv" eq] assms(4) fine_on_grid [OF a(2)] a(1) by (simp add: pmoney_qmoney)
  then show "dval (add28 cash pv) = dval eq" using a(1) by simp
qed

lemma sum_list_sort_key: "sum_list (map f (sort_key k xs)) = sum_list (map f xs)"
  for f :: "'a \<Rightarrow> rat"
  by (metis mset_map mset_sort sum_mset_sum_list)

lemma sample_point_amounts:
  assumes "sample_point oc es basis v = Inr p"
  shows "ep_as_of p = vi_as_of v" "is_money (ep_cash p)" "is_money (ep_equity p)"
    "dval (ep_equity p) = dval (ep_cash p) + holdings_value (ep_holdings p)"
    "pmoney (add28 oc (fst (state_at es (vi_as_of v)))) = Inr (ep_cash p)"
proof -
  from assms obtain cash hs pv eq where c: "pmoney (add28 oc (fst (state_at es (vi_as_of v)))) = Inr cash"
    "emap (holding_of basis (vi_marks v)) (snd (state_at es (vi_as_of v))) = Inr hs"
    "pmoney (dsum default_prec (map hd_market_value hs)) = Inr pv" "pmoney (add28 cash pv) = Inr eq"
    and p: "p = \<lparr>ep_as_of = vi_as_of v, ep_cash = cash, ep_holdings = sort_key hd_instrument_id hs,
        ep_position_value = pv, ep_equity = eq\<rparr>"
    by (rule sample_point_calls)
  show "ep_as_of p = vi_as_of v" "pmoney (add28 oc (fst (state_at es (vi_as_of v)))) = Inr (ep_cash p)"
    using c(1) by (simp_all add: p)
  show "is_money (ep_cash p)" "is_money (ep_equity p)" using c qmoney_Inr(1) by (auto simp: p pmoney_qmoney)
  show "dval (ep_equity p) = dval (ep_cash p) + holdings_value (ep_holdings p)"
    using point_amounts_agree [OF c(2,3,1,4)] by (simp add: p holdings_value_def sum_list_sort_key)
qed

section \<open>The whole curve\<close>

lemma build_calls:
  assumes "build_equity_curve ic es s = Inr c"
  obtains oc points where "pmoney ic = Inr oc" "0 \<le> dval ic" "distinct (map lv_as_of es)"
    "emap (sample_point oc (sort_key lv_as_of es) (vs_basis s)) (vs_instants s) = Inr points"
    "c = \<lparr>cu_basis = vs_basis s, cu_periodicity = vs_periodicity s,
       cu_points = \<lparr>ep_as_of = vs_opening_at s, ep_cash = oc, ep_holdings = [],
         ep_position_value = Dec False 0 (- 8), ep_equity = oc\<rparr> # points\<rparr>"
    "sorted_wrt (<) (map ep_as_of (cu_points c))"
    "\<not> (vs_basis s = COST_BASIS \<and> vs_periodicity s = DAILY)"
    "\<forall>e\<in>set es. vs_opening_at s \<le> lv_as_of e"
proof -
  have z: "pmoney dzero = Inr (Dec False 0 (- 8))"
    by (simp add: pmoney_def quantize_money_units money_of_units_def rhe_def)
  have dk: "distinct (map lv_as_of (sort_key lv_as_of es)) = distinct (map lv_as_of es)"
    by (metis distinct_map mset_eq_imp_distinct_iff mset_sort set_sort)
  have first: "(\<forall>e\<in>set es. vs_opening_at s \<le> lv_as_of e)"
    if "case sort_key lv_as_of es of [] \<Rightarrow> True | e # _ \<Rightarrow> \<not> lv_as_of e < vs_opening_at s"
  proof (cases "sort_key lv_as_of es")
    case Nil
    then show ?thesis by (metis empty_iff empty_set set_sort)
  next
    case (Cons e l)
    have "sorted (map lv_as_of (sort_key lv_as_of es))" by simp
    then have "\<forall>x\<in>set (e # l). lv_as_of e \<le> lv_as_of x" unfolding Cons by auto
    moreover have "set es = set (e # l)" using Cons set_sort by metis
    ultimately show ?thesis using that Cons by fastforce
  qed
  from assms obtain oc points where c: "pmoney ic = Inr oc" "perf_non_negative ic ''initial_cash'' = Inr ic"
    "distinct (map lv_as_of (sort_key lv_as_of es))"
    "case sort_key lv_as_of es of [] \<Rightarrow> True | e # _ \<Rightarrow> \<not> lv_as_of e < vs_opening_at s"
    "emap (sample_point oc (sort_key lv_as_of es) (vs_basis s)) (vs_instants s) = Inr points"
    "equity_curve_new \<lparr>cu_basis = vs_basis s, cu_periodicity = vs_periodicity s,
       cu_points = \<lparr>ep_as_of = vs_opening_at s, ep_cash = oc, ep_holdings = [],
         ep_position_value = Dec False 0 (- 8), ep_equity = oc\<rparr> # points\<rparr> = Inr c"
    by (auto simp: build_equity_curve_def err_simps z equity_point_new_def perf_non_negative_def Let_def split: if_splits)
  have "0 \<le> dval ic" using c(2) by (simp add: perf_non_negative_def dless_iff split: if_splits)
  from that [OF c(1) this _ c(5)] c(3,6) first [OF c(4)] show thesis
    by (auto simp: dk equity_curve_new_def err_simps strictly_increasing_iff)
qed

lemma build_intro:
  assumes "pmoney ic = Inr oc" "0 \<le> dval ic" "distinct (map lv_as_of es)" "\<forall>e\<in>set es. vs_opening_at s \<le> lv_as_of e"
    "emap (sample_point oc (sort_key lv_as_of es) (vs_basis s)) (vs_instants s) = Inr points"
    "\<not> (vs_basis s = COST_BASIS \<and> vs_periodicity s = DAILY)"
    "sorted_wrt (<) (vs_opening_at s # map ep_as_of points)"
  shows "build_equity_curve ic es s = Inr \<lparr>cu_basis = vs_basis s, cu_periodicity = vs_periodicity s,
     cu_points = \<lparr>ep_as_of = vs_opening_at s, ep_cash = oc, ep_holdings = [],
       ep_position_value = Dec False 0 (- 8), ep_equity = oc\<rparr> # points\<rparr>"
proof -
  have z: "pmoney dzero = Inr (Dec False 0 (- 8))"
    by (simp add: pmoney_def quantize_money_units money_of_units_def rhe_def)
  have dk: "distinct (map lv_as_of (sort_key lv_as_of es)) = distinct (map lv_as_of es)"
    by (metis distinct_map mset_eq_imp_distinct_iff mset_sort set_sort)
  have "\<forall>e\<in>set (sort_key lv_as_of es). vs_opening_at s \<le> lv_as_of e" using assms(4) by simp
  then have first: "case sort_key lv_as_of es of [] \<Rightarrow> True | e # _ \<Rightarrow> \<not> lv_as_of e < vs_opening_at s"
    by (cases "sort_key lv_as_of es") auto
  have oc: "is_money oc" using assms(1) qmoney_Inr(1) by (auto simp: pmoney_qmoney)
  have "dval (add28 oc (Dec False 0 (- 8))) = dval oc"
    using add28_money(1) [OF is_money_quantity [OF oc], of "Dec False 0 (- 8)"]
    by (simp add: is_quantity_def fine_def dval_scaled_Dec)
  moreover have "deq (Dec False 0 (- 8)) dzero" by (simp add: deq_iff dval_scaled_Dec)
  ultimately show ?thesis
    using assms first
    by (simp add: build_equity_curve_def dk z perf_non_negative_def dless_iff Let_def equity_point_new_def
        equity_curve_new_def strictly_increasing_iff deq_iff)
qed

text \<open>Every point after the opening one is a sample of the grid.\<close>

lemma build_points:
  assumes "build_equity_curve ic es s = Inr c" "p \<in> set (cu_points c)"
  obtains oc where "pmoney ic = Inr oc" "p = curve_opening c" "ep_as_of p = vs_opening_at s" "ep_cash p = oc" "ep_holdings p = []" "ep_equity p = oc"
  | oc v where "pmoney ic = Inr oc" "v \<in> set (vs_instants s)" "sample_point oc (sort_key lv_as_of es) (vs_basis s) v = Inr p"
proof -
  obtain oc points where c: "pmoney ic = Inr oc"
    "emap (sample_point oc (sort_key lv_as_of es) (vs_basis s)) (vs_instants s) = Inr points"
    "c = \<lparr>cu_basis = vs_basis s, cu_periodicity = vs_periodicity s,
       cu_points = \<lparr>ep_as_of = vs_opening_at s, ep_cash = oc, ep_holdings = [],
         ep_position_value = Dec False 0 (- 8), ep_equity = oc\<rparr> # points\<rparr>"
    by (rule build_calls [OF assms(1)])
  from assms(2) consider "p = curve_opening c" | "p \<in> set points" by (auto simp: c(3))
  then show thesis
  proof cases
    case 1 then show thesis using that(1) [OF c(1)] c(3) by simp
  next
    case 2 with emap_set [OF c(2)] that(2) [OF c(1)] show thesis by blast
  qed
qed

section \<open>Causality\<close>

lemma sample_point_past:
  assumes "sorted (map lv_as_of es)" "sorted (map lv_as_of es')" "vi_as_of v \<le> t"
    "filter (\<lambda>e. lv_as_of e \<le> t) es = filter (\<lambda>e. lv_as_of e \<le> t) es'"
  shows "sample_point oc es basis v = sample_point oc es' basis v"
proof -
  have "filter (\<lambda>e. lv_as_of e \<le> vi_as_of v) xs = filter (\<lambda>e. lv_as_of e \<le> vi_as_of v) (filter (\<lambda>e. lv_as_of e \<le> t) xs)" for xs :: "instant ledger_event list"
    using assms(3) by (induction xs) auto
  then have "filter (\<lambda>e. lv_as_of e \<le> vi_as_of v) es = filter (\<lambda>e. lv_as_of e \<le> vi_as_of v) es'"
    using assms(4) by metis
  then have "state_at es (vi_as_of v) = state_at es' (vi_as_of v)"
    by (simp add: state_at_filter assms(1,2))
  then show ?thesis by (simp add: sample_point_def)
qed

lemma past_events_sorted:
  fixes t :: instant
  assumes "distinct (map lv_as_of es)" "mset (filter (\<lambda>e. lv_as_of e \<le> t) es) = mset (filter (\<lambda>e. lv_as_of e \<le> t) es')"
  shows "filter (\<lambda>e. lv_as_of e \<le> t) (sort_key lv_as_of es) = filter (\<lambda>e. lv_as_of e \<le> t) (sort_key lv_as_of es')"
  unfolding filter_sort
  by (rule sort_key_perm_unique [OF assms(2)]) (simp add: assms(1) distinct_map_filter)

text \<open>
  C20. The equity curve never looks ahead: two runs whose ledger events and valuation instants
  agree up to some instant have the same curve up to that instant, whatever happens later and
  in whatever order the events are supplied.
\<close>

theorem equity_curve_never_looks_ahead:
  fixes t :: instant
  assumes "build_equity_curve ic es s = Inr c" "build_equity_curve ic es' s' = Inr c'"
    and "vs_basis s' = vs_basis s" "vs_opening_at s' = vs_opening_at s"
    and "filter (\<lambda>v. vi_as_of v \<le> t) (vs_instants s) = filter (\<lambda>v. vi_as_of v \<le> t) (vs_instants s')"
    and "mset (filter (\<lambda>e. lv_as_of e \<le> t) es) = mset (filter (\<lambda>e. lv_as_of e \<le> t) es')"
  shows "filter (\<lambda>p. ep_as_of p \<le> t) (cu_points c) = filter (\<lambda>p. ep_as_of p \<le> t) (cu_points c')"
proof -
  let ?P = "\<lambda>p. ep_as_of p \<le> t" and ?V = "\<lambda>v. vi_as_of v \<le> t"
  obtain oc ps where c: "pmoney ic = Inr oc" "distinct (map lv_as_of es)"
    "emap (sample_point oc (sort_key lv_as_of es) (vs_basis s)) (vs_instants s) = Inr ps"
    "c = \<lparr>cu_basis = vs_basis s, cu_periodicity = vs_periodicity s,
       cu_points = \<lparr>ep_as_of = vs_opening_at s, ep_cash = oc, ep_holdings = [],
         ep_position_value = Dec False 0 (- 8), ep_equity = oc\<rparr> # ps\<rparr>"
    by (rule build_calls [OF assms(1)])
  obtain oc' ps' where c': "pmoney ic = Inr oc'"
    "emap (sample_point oc' (sort_key lv_as_of es') (vs_basis s')) (vs_instants s') = Inr ps'"
    "c' = \<lparr>cu_basis = vs_basis s', cu_periodicity = vs_periodicity s',
       cu_points = \<lparr>ep_as_of = vs_opening_at s', ep_cash = oc', ep_holdings = [],
         ep_position_value = Dec False 0 (- 8), ep_equity = oc'\<rparr> # ps'\<rparr>"
    by (rule build_calls [OF assms(2)])
  have oc: "oc' = oc" using c(1) c'(1) by simp
  have f: "emap (sample_point oc (sort_key lv_as_of es) (vs_basis s)) (filter ?V (vs_instants s)) = Inr (filter ?P ps)"
    by (rule emap_filter [OF c(3)]) (simp add: sample_point_amounts(1))
  have f': "emap (sample_point oc (sort_key lv_as_of es') (vs_basis s)) (filter ?V (vs_instants s)) = Inr (filter ?P ps')"
    unfolding assms(5) by (rule emap_filter [OF c'(2) [unfolded oc assms(3)]]) (simp add: sample_point_amounts(1))
  have "sample_point oc (sort_key lv_as_of es) (vs_basis s) v = sample_point oc (sort_key lv_as_of es') (vs_basis s) v"
    if "v \<in> set (filter ?V (vs_instants s))" for v
    by (rule sample_point_past [where t = t]) (use that past_events_sorted [OF c(2) assms(6)] in simp_all)
  then have "emap (sample_point oc (sort_key lv_as_of es) (vs_basis s)) (filter ?V (vs_instants s)) =
      emap (sample_point oc (sort_key lv_as_of es') (vs_basis s)) (filter ?V (vs_instants s))"
    by (rule emap_cong_set)
  with f f' have "filter ?P ps = filter ?P ps'" by simp
  then show ?thesis by (simp add: c(4) c'(3) oc assms(4))
qed

section \<open>What a point is worth\<close>

definition cash_moved :: "instant \<Rightarrow> instant ledger_event list \<Rightarrow> rat" where
  "cash_moved t es = sum_list (map (dval \<circ> lv_cash_delta) (filter (\<lambda>e. lv_as_of e \<le> t) es))"

lemma sample_cash:
  assumes p: "sample_point oc (sort_key lv_as_of es) basis v = Inr p" and oc: "is_money oc"
    and es: "\<forall>e\<in>set es. fine (lv_cash_delta e)" "(\<Sum>e\<leftarrow>es. \<bar>dval (lv_cash_delta e)\<bar>) < 10 ^ 19"
  shows "dval (ep_cash p) = dval oc + cash_moved (vi_as_of v) es"
proof -
  let ?es = "filter (\<lambda>e. lv_as_of e \<le> vi_as_of v) (sort_key lv_as_of es)"
  let ?ds = "map lv_cash_delta ?es"
  have abs: "(\<Sum>e\<leftarrow>filter P xs. \<bar>dval (lv_cash_delta e)\<bar>) \<le> (\<Sum>e\<leftarrow>xs. \<bar>dval (lv_cash_delta e)\<bar>)" for P and xs :: "instant ledger_event list"
    by (induction xs) auto
  have "(\<Sum>d\<leftarrow>?ds. \<bar>dval d\<bar>) \<le> (\<Sum>e\<leftarrow>sort_key lv_as_of es. \<bar>dval (lv_cash_delta e)\<bar>)"
    using abs [of "\<lambda>e. lv_as_of e \<le> vi_as_of v" "sort_key lv_as_of es"] by (simp add: comp_def)
  also have "\<dots> = (\<Sum>e\<leftarrow>es. \<bar>dval (lv_cash_delta e)\<bar>)" by (rule sum_list_sort_key)
  finally have b: "(\<Sum>d\<leftarrow>?ds. \<bar>dval d\<bar>) < 10 ^ 19" using es(2) by linarith
  have "\<forall>d\<in>set ?ds. fine d" using es(1) by auto
  from dsum_fine [OF this] b
  have d: "dval (dsum default_prec ?ds) = (\<Sum>d\<leftarrow>?ds. dval d)" "fine (dsum default_prec ?ds)" by simp_all
  have tri: "\<bar>\<Sum>d\<leftarrow>ds. dval d\<bar> \<le> (\<Sum>d\<leftarrow>ds. \<bar>dval d\<bar>)" for ds by (induction ds) auto
  have s: "\<bar>dval (dsum default_prec ?ds)\<bar> < 10 ^ 19" unfolding d(1) by (rule le_less_trans [OF tri b])
  have "\<bar>dval oc + dval (dsum default_prec ?ds)\<bar> < 10 ^ 20"
    using s is_money_dval_bound [OF oc] by (simp add: abs_if split: if_splits)
  from dadd_fine [OF is_money_fine [OF oc] d(2) this]
  have a: "dval (add28 oc (dsum default_prec ?ds)) = dval oc + dval (dsum default_prec ?ds)"
    "fine (add28 oc (dsum default_prec ?ds))" by simp_all
  have "qmoney (add28 oc (dsum default_prec ?ds)) = Inr (ep_cash p)"
    using sample_point_amounts(5) [OF p] state_at_filter [of "sort_key lv_as_of es" "vi_as_of v"]
    by (simp add: pmoney_qmoney)
  from qmoney_grid [OF this fine_on_grid [OF a(2)]]
  have "dval (ep_cash p) = dval oc + (\<Sum>d\<leftarrow>?ds. dval d)" using a(1) d(1) by simp
  also have "(\<Sum>d\<leftarrow>?ds. dval d) = cash_moved (vi_as_of v) es"
    unfolding cash_moved_def filter_sort by (simp add: comp_def sum_list_sort_key)
  finally show ?thesis .
qed

text \<open>
  Every point of a curve is worth its cash plus the market values of its holdings, exactly;
  its cash is the initial cash plus all movements up to its instant, exactly, whenever the total
  turnover stays below \<open>10 ^ 19\<close>; the first point is the initial cash with no holdings.
\<close>

theorem equity_is_cash_plus_holdings:
  assumes "build_equity_curve ic es s = Inr c" "p \<in> set (tl (cu_points c))"
    and "\<forall>e\<in>set es. fine (lv_cash_delta e)" "(\<Sum>e\<leftarrow>es. \<bar>dval (lv_cash_delta e)\<bar>) < 10 ^ 19"
  shows "dval (ep_equity p) = dval (ep_cash p) + holdings_value (ep_holdings p) \<and>
    dval (ep_cash p) = dval (ep_equity (curve_opening c)) + cash_moved (ep_as_of p) es \<and>
    ep_holdings (curve_opening c) = [] \<and> ep_cash (curve_opening c) = ep_equity (curve_opening c) \<and>
    pmoney ic = Inr (ep_equity (curve_opening c))"
proof -
  obtain oc ps where c: "pmoney ic = Inr oc"
    "emap (sample_point oc (sort_key lv_as_of es) (vs_basis s)) (vs_instants s) = Inr ps"
    "c = \<lparr>cu_basis = vs_basis s, cu_periodicity = vs_periodicity s,
       cu_points = \<lparr>ep_as_of = vs_opening_at s, ep_cash = oc, ep_holdings = [],
         ep_position_value = Dec False 0 (- 8), ep_equity = oc\<rparr> # ps\<rparr>"
    by (rule build_calls [OF assms(1)])
  from assms(2) c(3) have "p \<in> set ps" by simp
  from emap_set [OF c(2) this] obtain v where v: "sample_point oc (sort_key lv_as_of es) (vs_basis s) v = Inr p" by blast
  have "is_money oc" using c(1) qmoney_Inr(1) by (auto simp: pmoney_qmoney)
  from sample_cash [OF v this assms(3,4)] sample_point_amounts(1,4) [OF v] c(1,3) show ?thesis by simp
qed

section \<open>Re-deriving a curve\<close>

lemma emap_replace:
  "emap f xs = Inr ys \<Longrightarrow> (\<And>x y. x \<in> set xs \<Longrightarrow> y \<in> set ys \<Longrightarrow> f x = Inr y \<Longrightarrow> g x = Inr y) \<Longrightarrow> emap g xs = Inr ys"
  by (induction xs arbitrary: ys) (auto simp: err_simps)

lemma emap_back:
  assumes "emap f xs = Inr ys" "\<And>x y. x \<in> set xs \<Longrightarrow> f x = Inr y \<Longrightarrow> \<exists>x'. g y = Inr x' \<and> f x' = Inr y \<and> P y x'"
  shows "\<exists>xs'. emap g ys = Inr xs' \<and> emap f xs' = Inr ys \<and> list_all2 P ys xs'"
  using assms
proof (induction xs arbitrary: ys)
  case (Cons x xs)
  then obtain y zs where y: "f x = Inr y" "emap f xs = Inr zs" "ys = y # zs" by (auto simp: err_simps)
  obtain x' where "g y = Inr x'" "f x' = Inr y" "P y x'" using Cons.prems(2) y(1) by (meson list.set_intros(1))
  moreover obtain xs' where "emap g zs = Inr xs'" "emap f xs' = Inr zs" "list_all2 P zs xs'"
    using Cons.IH [OF y(2)] Cons.prems(2) by (meson list.set_intros(2))
  ultimately show ?case by (intro exI [of _ "x' # xs'"]) (simp add: y(3))
qed simp

text \<open>A mark that is already quantized is stored as it is, in the canonical representation.\<close>

lemma quantized_mark:
  assumes "pmoney price = Inr mark" "fine price"
  shows "dval mark = dval price" "dcoef mark < 10 ^ 24"
  using qmoney_grid [of price mark] fine_on_grid [OF assms(2)] qmoney_Inr(1) [of price mark] assms(1)
  by (simp_all add: pmoney_qmoney is_money_def)

lemma dmul_value:
  assumes "dcoef a * dcoef b < 10 ^ curve_precision"
  shows "dval (dmul curve_precision a b) = dval a * dval b"
  using dmul_is_exact(1) [OF _ assms] by (simp add: curve_precision_def)

lemma remarked_holding:
  assumes h: "holding_of MARK_TO_MARKET marks p = Inr h"
    and m: "\<forall>m\<in>set marks. fine (mp_price m) \<and> dcoef (mp_price m) < 10 ^ 30" and q: "dcoef (pst_quantity p) < 10 ^ 30"
    and m': "map_of (map (\<lambda>m. (mp_instrument_id m, mp_price m)) marks') (pst_instrument_id p) = Some (hd_mark_price h)"
  shows "holding_of MARK_TO_MARKET marks' p = Inr h"
proof -
  from h obtain price mark val where
    p: "map_of (map (\<lambda>m. (mp_instrument_id m, mp_price m)) marks) (pst_instrument_id p) = Some price"
    "pmoney price = Inr mark" "pmoney (dmul curve_precision (pst_quantity p) price) = Inr val"
    and n: "holding_new \<lparr>hd_instrument_id = pst_instrument_id p, hd_quantity = pst_quantity p,
       hd_mark_price = mark, hd_market_value = val\<rparr> = Inr h"
    by (auto simp: holding_of_def mark_to_market_holding_def err_simps Let_def split: option.splits)
  have hm: "hd_mark_price h = mark" using n by (auto simp: holding_new_Inr)
  have pr: "fine price" "dcoef price < 10 ^ 30" using map_of_SomeD [OF p(1)] m by auto
  note mk = quantized_mark [OF p(2) pr(1)]
  have "dcoef (pst_quantity p) * dcoef price < 10 ^ 30 * 10 ^ 30"
    "dcoef (pst_quantity p) * dcoef mark < 10 ^ 30 * 10 ^ 24"
    using q pr(2) mk(2) by (intro mult_strict_mono'; simp)+
  then have "dcoef (pst_quantity p) * dcoef price < 10 ^ curve_precision"
    "dcoef (pst_quantity p) * dcoef mark < 10 ^ curve_precision" by (simp_all add: curve_precision_def)
  from this [THEN dmul_value]
  have "dval (dmul curve_precision (pst_quantity p) mark) = dval (dmul curve_precision (pst_quantity p) price)"
    using mk(1) by simp
  from pmoney_value [OF this] p(3) have "pmoney (dmul curve_precision (pst_quantity p) mark) = Inr val" by simp
  moreover have "pmoney mark = Inr mark" using p(2) qmoney_Inr(1) by (intro pmoney_keeps) (auto simp: pmoney_qmoney)
  ultimately show ?thesis using m' n by (simp add: holding_of_def mark_to_market_holding_def hm)
qed

lemma sample_point_unmarked:
  "sample_point oc es COST_BASIS (v\<lparr>vi_marks := ms\<rparr>) = sample_point oc es COST_BASIS v"
  by (simp add: sample_point_def holding_of_def [abs_def])

text \<open>The instant recovered from a point samples to the same point.\<close>

lemma recovered_instant:
  assumes p: "sample_point oc es basis v = Inr p"
    and m: "\<forall>m\<in>set (vi_marks v). fine (mp_price m) \<and> 0 < dval (mp_price m) \<and> dcoef (mp_price m) < 10 ^ 30"
    and q: "\<forall>x\<in>set (snd (state_at es (vi_as_of v))). dcoef (pst_quantity x) < 10 ^ 30"
  shows "\<exists>v'. ebind (point_marks basis p) (\<lambda>marks. valuation_instant_new \<lparr>vi_as_of = Aware (ep_as_of p), vi_marks = marks\<rparr>) = Inr v' \<and>
     sample_point oc es basis v' = Inr p \<and> vi_as_of v' = ep_as_of p \<and> (basis = COST_BASIS \<longrightarrow> vi_marks v' = [])"
proof -
  have at: "ep_as_of p = vi_as_of v" by (rule sample_point_amounts(1) [OF p])
  show ?thesis
  proof (cases basis)
    case COST_BASIS
    let ?v = "\<lparr>vi_as_of = vi_as_of v, vi_marks = []\<rparr>"
    have "?v = v\<lparr>vi_marks := []\<rparr>" by simp
    then have "sample_point oc es COST_BASIS ?v = Inr p" using p COST_BASIS sample_point_unmarked by metis
    then show ?thesis
      by (intro exI [of _ ?v]) (simp add: COST_BASIS point_marks_def valuation_instant_new_def perf_utc_def at)
  next
    case MARK_TO_MARKET
    from p obtain cash hs pv eq where c: "pmoney (add28 oc (fst (state_at es (vi_as_of v)))) = Inr cash"
      "emap (holding_of basis (vi_marks v)) (snd (state_at es (vi_as_of v))) = Inr hs"
      "pmoney (dsum default_prec (map hd_market_value hs)) = Inr pv" "pmoney (add28 cash pv) = Inr eq"
      and d: "distinct (map hd_instrument_id hs)"
      and pe: "p = \<lparr>ep_as_of = vi_as_of v, ep_cash = cash, ep_holdings = sort_key hd_instrument_id hs,
          ep_position_value = pv, ep_equity = eq\<rparr>"
      by (rule sample_point_calls)
    let ?mk = "\<lambda>h. \<lparr>mp_instrument_id = hd_instrument_id h, mp_price = hd_mark_price h\<rparr>"
    let ?hs = "sort_key hd_instrument_id hs"
    let ?marks = "map ?mk ?hs"
    have ds: "distinct (map hd_instrument_id ?hs)" using d by (metis distinct_map mset_eq_imp_distinct_iff mset_sort set_sort)
    have pos: "hd_instrument_id h \<noteq> [] \<and> 0 < dval (hd_mark_price h)" if "h \<in> set hs" for h
    proof -
      from emap_set [OF c(2) that] obtain x where "holding_of basis (vi_marks v) x = Inr h" by blast
      then obtain price where "pmoney price = Inr (hd_mark_price h)" "price \<in> mp_price ` set (vi_marks v)" "hd_instrument_id h \<noteq> []"
        by (auto simp: MARK_TO_MARKET holding_of_def mark_to_market_holding_def err_simps Let_def holding_new_Inr
            split: option.splits dest!: map_of_SomeD)
      then show ?thesis using m quantized_mark by auto
    qed
    have marks: "point_marks basis p = Inr ?marks"
    proof -
      have mk: "mark_price_new (?mk h) = Inr (?mk h)" if "h \<in> set hs" for h
        using pos [OF that] by (simp add: mark_price_new_Inr)
      have "emap (\<lambda>h. mark_price_new (?mk h)) xs = Inr (map ?mk xs)" if "set xs \<subseteq> set hs" for xs
        using that mk by (induction xs) simp_all
      from this [of ?hs] show ?thesis by (simp add: point_marks_def MARK_TO_MARKET pe)
    qed
    have sorted: "sort_key mp_instrument_id ?marks = ?marks" by (rule sort_key_id_if_sorted) (simp add: comp_def)
    let ?v = "\<lparr>vi_as_of = vi_as_of v, vi_marks = ?marks\<rparr>"
    have new: "valuation_instant_new \<lparr>vi_as_of = Aware (ep_as_of p), vi_marks = ?marks\<rparr> = Inr ?v"
      using ds sorted by (simp add: valuation_instant_new_def perf_utc_def at comp_def)
    have "emap (holding_of basis ?marks) (snd (state_at es (vi_as_of v))) = Inr hs"
    proof (rule emap_replace [OF c(2)])
      fix x h assume x: "x \<in> set (snd (state_at es (vi_as_of v)))" "h \<in> set hs" "holding_of basis (vi_marks v) x = Inr h"
      have "map_of (map (\<lambda>m. (mp_instrument_id m, mp_price m)) ?marks) (hd_instrument_id h) = Some (hd_mark_price h)"
        by (rule map_of_is_SomeI) (use ds x(2) in \<open>auto simp: comp_def\<close>)
      then have mo: "map_of (map (\<lambda>m. (mp_instrument_id m, mp_price m)) ?marks) (pst_instrument_id x) = Some (hd_mark_price h)"
        by (simp only: holding_of_facts(1) [OF x(3)])
      have fm: "\<forall>m\<in>set (vi_marks v). fine (mp_price m) \<and> dcoef (mp_price m) < 10 ^ 30" using m by blast
      have qx: "dcoef (pst_quantity x) < 10 ^ 30" using q x(1) by blast
      show "holding_of basis ?marks x = Inr h"
        unfolding MARK_TO_MARKET by (rule remarked_holding [OF x(3) [unfolded MARK_TO_MARKET] fm qx mo])
    qed
    then have "sample_point oc es basis ?v = sample_point oc es basis v"
      using c(2) by (simp add: sample_point_def case_prod_beta)
    then show ?thesis using marks new p at by (intro exI [of _ ?v]) (simp add: MARK_TO_MARKET)
  qed
qed

text \<open>
  C21. Round trip: a curve over quantized marks is re-derived from its own series. Reading the
  valuation series back out of the curve succeeds and building from it, with the same events,
  gives the same curve, for both valuation bases.
\<close>

theorem curve_is_rederived_from_its_series:
  assumes "build_equity_curve ic es s = Inr c"
    and marks: "\<forall>v\<in>set (vs_instants s). \<forall>m\<in>set (vi_marks v). fine (mp_price m) \<and> 0 < dval (mp_price m) \<and> dcoef (mp_price m) < 10 ^ 30"
    and quantities: "\<forall>e\<in>set es. \<forall>x\<in>set (lv_positions e). dcoef (pst_quantity x) < 10 ^ 30"
  shows "\<exists>s'. to_series c = Inr s' \<and> build_equity_curve ic es s' = Inr c"
proof -
  obtain oc ps where c: "pmoney ic = Inr oc" "0 \<le> dval ic" "distinct (map lv_as_of es)"
    "emap (sample_point oc (sort_key lv_as_of es) (vs_basis s)) (vs_instants s) = Inr ps"
    and ce: "c = \<lparr>cu_basis = vs_basis s, cu_periodicity = vs_periodicity s,
       cu_points = \<lparr>ep_as_of = vs_opening_at s, ep_cash = oc, ep_holdings = [],
         ep_position_value = Dec False 0 (- 8), ep_equity = oc\<rparr> # ps\<rparr>"
    and inc: "sorted_wrt (<) (map ep_as_of (cu_points c))"
    and bp: "\<not> (vs_basis s = COST_BASIS \<and> vs_periodicity s = DAILY)"
    and op: "\<forall>e\<in>set es. vs_opening_at s \<le> lv_as_of e"
    by (rule build_calls [OF assms(1)])
  let ?es = "sort_key lv_as_of es"
  have held: "dcoef (pst_quantity x) < 10 ^ 30" if "x \<in> set (snd (state_at ?es t))" for x t
  proof -
    let ?l = "[] # map lv_positions (filter (\<lambda>e. lv_as_of e \<le> t) ?es)"
    have "last ?l \<in> set ?l" by (rule last_in_set) simp
    moreover have "snd (state_at ?es t) = last ?l" by (subst state_at_filter) simp_all
    ultimately show ?thesis using that quantities by auto
  qed
  have "\<exists>vs. emap (\<lambda>p. ebind (point_marks (vs_basis s) p) (\<lambda>marks.
              valuation_instant_new \<lparr>vi_as_of = Aware (ep_as_of p), vi_marks = marks\<rparr>)) ps = Inr vs \<and>
      emap (sample_point oc ?es (vs_basis s)) vs = Inr ps \<and>
      list_all2 (\<lambda>p v. vi_as_of v = ep_as_of p \<and> (vs_basis s = COST_BASIS \<longrightarrow> vi_marks v = [])) ps vs"
    by (rule emap_back [OF c(4)]) (use recovered_instant marks held in blast)
  then obtain vs where vs: "emap (\<lambda>p. ebind (point_marks (vs_basis s) p) (\<lambda>marks.
              valuation_instant_new \<lparr>vi_as_of = Aware (ep_as_of p), vi_marks = marks\<rparr>)) ps = Inr vs"
    "emap (sample_point oc ?es (vs_basis s)) vs = Inr ps"
    and l: "list_all2 (\<lambda>p v. vi_as_of v = ep_as_of p \<and> (vs_basis s = COST_BASIS \<longrightarrow> vi_marks v = [])) ps vs"
    by blast
  have at: "map vi_as_of vs = map ep_as_of ps" and cb: "vs_basis s = COST_BASIS \<longrightarrow> (\<forall>v\<in>set vs. vi_marks v = [])"
    using l by (induction rule: list_all2_induct) auto
  let ?s = "\<lparr>vs_basis = vs_basis s, vs_periodicity = vs_periodicity s, vs_opening_at = vs_opening_at s, vs_instants = vs\<rparr>"
  have first: "case vs of [] \<Rightarrow> True | v # _ \<Rightarrow> \<not> vi_as_of v \<le> vs_opening_at s"
    using inc at ce by (cases vs) auto
  have "valuation_series_new \<lparr>vs_basis = vs_basis s, vs_periodicity = vs_periodicity s,
      vs_opening_at = Aware (vs_opening_at s), vs_instants = vs\<rparr> = Inr ?s"
    using inc first cb by (auto simp: valuation_series_new_def perf_utc_def strictly_increasing_iff at ce)
  then have "to_series c = Inr ?s" using vs(1) by (simp add: to_series_def ce)
  moreover have "build_equity_curve ic es ?s = Inr c"
    using build_intro [OF c(1-3), of ?s ps] op vs(2) bp inc by (simp add: ce)
  ultimately show ?thesis by blast
qed

section \<open>A concrete curve\<close>

text \<open>One purchase, marked on two days.\<close>

lemmas curve_eval = pmoney_def quantize_money_def quantize_to_def MONEY_QUANTUM_def NUMERIC_24_8_MAX_def
  NUMERIC_24_8_MIN_def working_precision_def dec_eval

definition curve_demo_events :: "instant ledger_event list" where
  "curve_demo_events = [\<lparr>lv_as_of = 10, lv_cash_delta = Dec True 20 0,
     lv_positions = [\<lparr>pst_instrument_id = ''X'', pst_quantity = Dec False 2 0, pst_cost_basis = Dec False 20 0\<rparr>]\<rparr>]"

definition curve_demo_series :: "instant valuation_series" where
  "curve_demo_series = \<lparr>vs_basis = MARK_TO_MARKET, vs_periodicity = DAILY, vs_opening_at = 0,
     vs_instants = [\<lparr>vi_as_of = 20, vi_marks = [\<lparr>mp_instrument_id = ''X'', mp_price = Dec False 11 0\<rparr>]\<rparr>,
       \<lparr>vi_as_of = 30, vi_marks = [\<lparr>mp_instrument_id = ''X'', mp_price = Dec False 9 0\<rparr>]\<rparr>]\<rparr>"

definition demo_point :: "instant \<Rightarrow> nat \<Rightarrow> nat \<Rightarrow> nat \<Rightarrow> equity_point" where
  "demo_point t mark val eq = \<lparr>ep_as_of = t, ep_cash = Dec False 8000000000 (- 8),
     ep_holdings = [\<lparr>hd_instrument_id = ''X'', hd_quantity = Dec False 2 0,
       hd_mark_price = Dec False mark (- 8), hd_market_value = Dec False val (- 8)\<rparr>],
     ep_position_value = Dec False val (- 8), ep_equity = Dec False eq (- 8)\<rparr>"

definition curve_demo :: equity_curve where
  "curve_demo = \<lparr>cu_basis = MARK_TO_MARKET, cu_periodicity = DAILY,
     cu_points = [\<lparr>ep_as_of = 0, ep_cash = Dec False 10000000000 (- 8), ep_holdings = [],
         ep_position_value = Dec False 0 (- 8), ep_equity = Dec False 10000000000 (- 8)\<rparr>,
       demo_point 20 1100000000 2200000000 10200000000,
       demo_point 30 900000000 1800000000 9800000000]\<rparr>"

lemma curve_demo_samples:
  "sample_point (Dec False 10000000000 (- 8)) curve_demo_events MARK_TO_MARKET
     \<lparr>vi_as_of = 20, vi_marks = [\<lparr>mp_instrument_id = ''X'', mp_price = Dec False 11 0\<rparr>]\<rparr> =
     Inr (demo_point 20 1100000000 2200000000 10200000000)"
  "sample_point (Dec False 10000000000 (- 8)) curve_demo_events MARK_TO_MARKET
     \<lparr>vi_as_of = 30, vi_marks = [\<lparr>mp_instrument_id = ''X'', mp_price = Dec False 9 0\<rparr>]\<rparr> =
     Inr (demo_point 30 900000000 1800000000 9800000000)"
  by (simp_all add: sample_point_def curve_demo_events_def state_at_def holding_of_def mark_to_market_holding_def
      holding_new_def perf_positive_def perf_non_negative_def equity_point_new_def curve_precision_def demo_point_def curve_eval
      cong: ebind_weak_cong)

lemma curve_demo_built: "build_equity_curve (Dec False 100 0) curve_demo_events curve_demo_series = Inr curve_demo"
proof -
  have "pmoney (Dec False 100 0) = Inr (Dec False 10000000000 (- 8))" by (simp add: curve_eval cong: ebind_weak_cong)
  from build_intro [OF this, of curve_demo_events curve_demo_series "tl (cu_points curve_demo)"] curve_demo_samples
  show ?thesis
    by (simp add: curve_demo_series_def curve_demo_def dval_scaled_Dec) (simp add: curve_demo_events_def demo_point_def)
qed
theorem equity_curve_never_looks_ahead_witness:
  "filter (\<lambda>p. ep_as_of p \<le> 25) (cu_points curve_demo) = take 2 (cu_points curve_demo) \<and>
   (\<exists>c'. build_equity_curve (Dec False 100 0) curve_demo_events (curve_demo_series\<lparr>vs_instants := take 1 (vs_instants curve_demo_series)\<rparr>) = Inr c' \<and>
      filter (\<lambda>p. ep_as_of p \<le> 25) (cu_points c') = take 2 (cu_points curve_demo))"
proof -
  let ?s = "curve_demo_series\<lparr>vs_instants := take 1 (vs_instants curve_demo_series)\<rparr>"
  have f: "filter (\<lambda>p. ep_as_of p \<le> 25) (cu_points curve_demo) = take 2 (cu_points curve_demo)"
    by (simp add: curve_demo_def demo_point_def)
  have "pmoney (Dec False 100 0) = Inr (Dec False 10000000000 (- 8))" by (simp add: curve_eval cong: ebind_weak_cong)
  from build_intro [OF this, of curve_demo_events ?s "[cu_points curve_demo ! 1]"] curve_demo_samples
  obtain c' where c': "build_equity_curve (Dec False 100 0) curve_demo_events ?s = Inr c'"
    by (simp add: curve_demo_series_def curve_demo_def dval_scaled_Dec) (simp add: curve_demo_events_def demo_point_def)
  have "filter (\<lambda>p. ep_as_of p \<le> 25) (cu_points curve_demo) = filter (\<lambda>p. ep_as_of p \<le> 25) (cu_points c')"
    by (rule equity_curve_never_looks_ahead [OF curve_demo_built c']) (simp_all add: curve_demo_series_def)
  with f c' show ?thesis by auto
qed

theorem equity_is_cash_plus_holdings_witness:
  "dval (ep_equity (curve_closing curve_demo)) = 98 \<and>
   dval (ep_cash (curve_closing curve_demo)) = dval (ep_equity (curve_opening curve_demo)) + cash_moved 30 curve_demo_events"
proof -
  have p: "curve_closing curve_demo \<in> set (tl (cu_points curve_demo))" by (simp add: curve_demo_def)
  have "\<forall>e\<in>set curve_demo_events. fine (lv_cash_delta e)"
    "(\<Sum>e\<leftarrow>curve_demo_events. \<bar>dval (lv_cash_delta e)\<bar>) < 10 ^ 19"
    by (simp_all add: curve_demo_events_def fine_def dval_def dsigned_def)
  from equity_is_cash_plus_holdings [OF curve_demo_built p this] show ?thesis
    by (simp add: curve_demo_def demo_point_def holdings_value_def dval_scaled_Dec powi_minus8)
qed

theorem curve_is_rederived_from_its_series_witness:
  "\<exists>s'. to_series curve_demo = Inr s' \<and> build_equity_curve (Dec False 100 0) curve_demo_events s' = Inr curve_demo"
  by (rule curve_is_rederived_from_its_series [OF curve_demo_built])
    (simp_all add: curve_demo_series_def curve_demo_events_def fine_def dval_scaled_Dec)

definition fine_mark_events :: "instant ledger_event list" where
  "fine_mark_events = [\<lparr>lv_as_of = 10, lv_cash_delta = dzero,
     lv_positions = [\<lparr>pst_instrument_id = ''X'', pst_quantity = Dec False 10 0, pst_cost_basis = Dec False 20 0\<rparr>]\<rparr>]"

definition fine_mark_series :: "decimal \<Rightarrow> instant valuation_series" where
  "fine_mark_series price = \<lparr>vs_basis = MARK_TO_MARKET, vs_periodicity = DAILY, vs_opening_at = 0,
     vs_instants = [\<lparr>vi_as_of = 20, vi_marks = [\<lparr>mp_instrument_id = ''X'', mp_price = price\<rparr>]\<rparr>]\<rparr>"

text \<open>
  Marks with more than eight decimals are not recovered: the stored holding keeps the
  quantized mark, so building again from the recovered series values the position differently.
\<close>

lemma unquantized_mark_is_not_recovered:
  "\<exists>c s' c'. build_equity_curve (Dec False 100 0) fine_mark_events (fine_mark_series (Dec False 1000000005 (- 9))) = Inr c \<and>
     to_series c = Inr s' \<and> build_equity_curve (Dec False 100 0) fine_mark_events s' = Inr c' \<and>
     ep_equity (curve_closing c) = Dec False 11000000005 (- 8) \<and> ep_equity (curve_closing c') = Dec False 11000000000 (- 8)"
proof -
  let ?h = "\<lambda>val. \<lparr>hd_instrument_id = ''X'', hd_quantity = Dec False 10 0, hd_mark_price = Dec False 100000000 (- 8), hd_market_value = Dec False val (- 8)\<rparr>"
  let ?p = "\<lambda>val eq. \<lparr>ep_as_of = 20, ep_cash = Dec False 10000000000 (- 8), ep_holdings = [?h val],
     ep_position_value = Dec False val (- 8), ep_equity = Dec False eq (- 8)\<rparr>"
  let ?c = "\<lambda>val eq. \<lparr>cu_basis = MARK_TO_MARKET, cu_periodicity = DAILY,
     cu_points = [\<lparr>ep_as_of = 0, ep_cash = Dec False 10000000000 (- 8), ep_holdings = [],
         ep_position_value = Dec False 0 (- 8), ep_equity = Dec False 10000000000 (- 8)\<rparr>, ?p val eq]\<rparr>"
  have oc: "pmoney (Dec False 100 0) = Inr (Dec False 10000000000 (- 8))" by (simp add: curve_eval cong: ebind_weak_cong)
  have s: "sample_point (Dec False 10000000000 (- 8)) fine_mark_events MARK_TO_MARKET
      \<lparr>vi_as_of = 20, vi_marks = [\<lparr>mp_instrument_id = ''X'', mp_price = Dec False 1000000005 (- 9)\<rparr>]\<rparr> = Inr (?p 1000000005 11000000005)"
    "sample_point (Dec False 10000000000 (- 8)) fine_mark_events MARK_TO_MARKET
      \<lparr>vi_as_of = 20, vi_marks = [\<lparr>mp_instrument_id = ''X'', mp_price = Dec False 100000000 (- 8)\<rparr>]\<rparr> = Inr (?p 1000000000 11000000000)"
    by (simp_all add: sample_point_def fine_mark_events_def state_at_def holding_of_def mark_to_market_holding_def
        holding_new_def perf_positive_def perf_non_negative_def equity_point_new_def curve_precision_def curve_eval
        cong: ebind_weak_cong)
  have "build_equity_curve (Dec False 100 0) fine_mark_events (fine_mark_series (Dec False 1000000005 (- 9))) = Inr (?c 1000000005 11000000005)"
    using build_intro [OF oc, of fine_mark_events "fine_mark_series (Dec False 1000000005 (- 9))" "[?p 1000000005 11000000005]"] s(1)
    by (simp add: fine_mark_series_def dval_scaled_Dec) (simp add: fine_mark_events_def)
  moreover have "build_equity_curve (Dec False 100 0) fine_mark_events (fine_mark_series (Dec False 100000000 (- 8))) = Inr (?c 1000000000 11000000000)"
    using build_intro [OF oc, of fine_mark_events "fine_mark_series (Dec False 100000000 (- 8))" "[?p 1000000000 11000000000]"] s(2)
    by (simp add: fine_mark_series_def dval_scaled_Dec) (simp add: fine_mark_events_def)
  moreover have "to_series (?c 1000000005 11000000005) = Inr (fine_mark_series (Dec False 100000000 (- 8)))"
    by (simp add: to_series_def point_marks_def mark_price_new_def perf_positive_def valuation_instant_new_def perf_utc_def
        valuation_series_new_def strictly_increasing_def fine_mark_series_def dec_eval)
  ultimately show ?thesis by auto
qed

end
