(* ===== verification/Dec_Context.thy ===== *)
theory Dec_Context
  imports Py_Decimal Py_Text
begin

text \<open>
  More of \<open>decimal.Decimal\<close>: contexts that round half-up, squares and square roots,
  \<open>normalize\<close>, the constructor \<open>Decimal(text)\<close> and the two renderings \<open>str(d)\<close> and
  \<open>format(d, "f")\<close>. The text conversions work on ASCII digits. The main lemma is that
  \<open>Decimal(str(d))\<close> is \<open>d\<close> itself, sign, coefficient and exponent included.
\<close>

section \<open>Rounding half-up\<close>

definition div_half_up :: "nat \<Rightarrow> nat \<Rightarrow> nat" where
  "div_half_up n m = (if m \<le> 2 * (n mod m) then n div m + 1 else n div m)"

definition dfix_up :: "nat \<Rightarrow> decimal \<Rightarrow> decimal" where
  "dfix_up p d =
     (if ndigits (dcoef d) \<le> p then d
      else let k = ndigits (dcoef d) - p; c = div_half_up (dcoef d) (10 ^ k)
           in if ndigits c \<le> p then Dec (dneg d) c (dexp d + int k)
              else Dec (dneg d) (c div 10) (dexp d + int k + 1))"

text \<open>The operations of a context with \<open>rounding=ROUND_HALF_UP\<close>.\<close>

definition dadd_up :: "nat \<Rightarrow> decimal \<Rightarrow> decimal \<Rightarrow> decimal" where
  "dadd_up p a b = dfix_up p (dadd_exact a b)"

definition dmul_up :: "nat \<Rightarrow> decimal \<Rightarrow> decimal \<Rightarrow> decimal" where
  "dmul_up p a b = dfix_up p (Dec (dneg a \<noteq> dneg b) (dcoef a * dcoef b) (dexp a + dexp b))"

text \<open>
  The quotient before the last rounding: enough digits to round correctly, made odd in the
  fifth when it is not exact.
\<close>

definition ddiv_wide :: "nat \<Rightarrow> decimal \<Rightarrow> decimal \<Rightarrow> dec_error + decimal" where
  "ddiv_wide p a b =
     (let s = (dneg a \<noteq> dneg b); ideal = dexp a - dexp b
      in if dcoef b = 0 then Inl (if dcoef a = 0 then DivisionUndefined else DivisionByZero)
         else if dcoef a = 0 then Inr (Dec s 0 ideal)
         else let shift = int (ndigits (dcoef b)) - int (ndigits (dcoef a)) + int p + 1;
                  num = dcoef a * 10 ^ nat shift;
                  den = dcoef b * 10 ^ nat (- shift);
                  c = num div den;
                  e = ideal - shift
              in if num mod den \<noteq> 0 then Inr (Dec s (if c mod 5 = 0 then c + 1 else c) e)
                 else (let (c', e') = strip_zeros (nat (ideal - e)) c e
                       in Inr (Dec s c' e')))"

definition ddiv_up :: "nat \<Rightarrow> decimal \<Rightarrow> decimal \<Rightarrow> dec_error + decimal" where
  "ddiv_up p a b = ebind (ddiv_wide p a b) (\<lambda>q. Inr (dfix_up p q))"

lemma ddiv_of_wide: "ddiv p a b = ebind (ddiv_wide p a b) (\<lambda>q. Inr (dfix p q))"
  by (simp add: ddiv_def ddiv_wide_def Let_def split: prod.splits)

section \<open>Squares and square roots\<close>

text \<open>
  \<open>x ** 2\<close>: a power with a one-digit integer exponent is a multiplication with three extra
  digits, rounded half-even, and then rounded to the context; a zero has exponent zero.
\<close>

definition dsquare_wide :: "nat \<Rightarrow> decimal \<Rightarrow> decimal" where
  "dsquare_wide p x = (if dcoef x = 0 then dzero else dmul (p + 3) x x)"

text \<open>The integer square root, and \<open>Decimal.sqrt\<close> of a non-negative finite decimal on top of it.\<close>

function isqrt :: "nat \<Rightarrow> nat" where
  "isqrt n = (if n = 0 then 0 else let r = 2 * isqrt (n div 4) in if (r + 1) * (r + 1) \<le> n then r + 1 else r)"
  by pat_completeness auto
termination by (relation "measure id") auto

declare isqrt.simps [simp del]

text \<open>Square roots are rounded half-even whatever the rounding of the context.\<close>

definition dsqrt :: "nat \<Rightarrow> decimal \<Rightarrow> dec_error + decimal" where
  "dsqrt p d =
     (if dcoef d = 0 then Inr (dfix p (Dec (dneg d) 0 (dexp d div 2)))
      else if dneg d then Inl InvalidOperation
      else let odd_exp = dexp d mod 2 = 1;
               c = if odd_exp then dcoef d * 10 else dcoef d;
               l = if odd_exp then ndigits (dcoef d) div 2 + 1 else (ndigits (dcoef d) + 1) div 2;
               shift = int (p + 1) - int l;
               c' = if 0 \<le> shift then c * 100 ^ nat shift else c div 100 ^ nat (- shift);
               exact0 = (0 \<le> shift \<or> c mod 100 ^ nat (- shift) = 0);
               n = isqrt c';
               e = dexp d div 2 - shift
           in if exact0 \<and> n * n = c'
              then Inr (dfix p (if 0 \<le> shift then Dec False (n div 10 ^ nat shift) (dexp d div 2)
                                else Dec False (n * 10 ^ nat (- shift)) (dexp d div 2)))
              else Inr (dfix p (Dec False (if n mod 5 = 0 then n + 1 else n) e)))"

section \<open>Other operations\<close>

text \<open>\<open>abs(d)\<close> and \<open>d.normalize()\<close> round to the context; \<open>normalize\<close> drops trailing zeros.\<close>

definition dabs :: "nat \<Rightarrow> decimal \<Rightarrow> decimal" where
  "dabs p d = dfix p (copy_abs d)"

definition dnormalize :: "nat \<Rightarrow> decimal \<Rightarrow> decimal" where
  "dnormalize p d =
     (let r = dfix p d
      in if dcoef r = 0 then Dec (dneg r) 0 0
         else let (c, e) = strip_zeros (ndigits (dcoef r)) (dcoef r) (dexp r) in Dec (dneg r) c e)"

text \<open>\<open>d == d.to_integral_value()\<close>.\<close>

definition is_integral_value :: "decimal \<Rightarrow> bool" where
  "is_integral_value d \<longleftrightarrow> 0 \<le> dexp d \<or> dcoef d mod 10 ^ nat (- dexp d) = 0"

text \<open>The builtin \<open>max\<close> and \<open>min\<close> of a non-empty sequence.\<close>

fun dec_max_list :: "decimal list \<Rightarrow> decimal" where
  "dec_max_list [] = dzero"
| "dec_max_list (d # ds) = fold (\<lambda>x acc. dmax acc x) ds d"

fun dec_min_list :: "decimal list \<Rightarrow> decimal" where
  "dec_min_list [] = dzero"
| "dec_min_list (d # ds) = fold (\<lambda>x acc. dmin acc x) ds d"

section \<open>Text\<close>

definition is_digit :: "char \<Rightarrow> bool" where
  "is_digit c \<longleftrightarrow> 48 \<le> (of_char c :: nat) \<and> (of_char c :: nat) \<le> 57"

text \<open>A special value is a NaN or an infinity; the engine only asks which.\<close>

datatype dec_literal = FiniteDec decimal | SpecialDec (is_nan: bool)

definition parse_exponent :: "string \<Rightarrow> int option" where
  "parse_exponent s =
     (case s of
        [] \<Rightarrow> Some 0
      | c # t \<Rightarrow>
          if c \<noteq> CHR ''E'' \<and> c \<noteq> CHR ''e'' then None
          else let neg = (case t of d # _ \<Rightarrow> d = CHR ''-'' | [] \<Rightarrow> False);
                   u = (case t of d # v \<Rightarrow> if d = CHR ''-'' \<or> d = CHR ''+'' then v else t | [] \<Rightarrow> [])
               in if u = [] \<or> \<not> list_all is_digit u then None
                  else Some (if neg then - int (str_nat u) else int (str_nat u)))"

definition parse_number :: "bool \<Rightarrow> string \<Rightarrow> decimal option" where
  "parse_number neg s =
     (let i = takeWhile is_digit s; r = dropWhile is_digit s;
          pointed = (case r of c # _ \<Rightarrow> c = CHR ''.'' | [] \<Rightarrow> False);
          f = (if pointed then takeWhile is_digit (tl r) else []);
          rest = (if pointed then dropWhile is_digit (tl r) else r)
      in if i = [] \<and> f = [] then None
         else map_option (\<lambda>e. Dec neg (str_nat (i @ f)) (e - int (length f))) (parse_exponent rest))"

definition is_special :: "string \<Rightarrow> bool" where
  "is_special s =
     (let l = py_lower s
      in l = ''inf'' \<or> l = ''infinity'' \<or>
         (case drop_prefix ''nan'' l of Some t \<Rightarrow> list_all is_digit t | None \<Rightarrow> False) \<or>
         (case drop_prefix ''snan'' l of Some t \<Rightarrow> list_all is_digit t | None \<Rightarrow> False))"

text \<open>\<open>Decimal(text)\<close>; \<open>None\<close> is \<open>InvalidOperation\<close>.\<close>

definition parse_decimal :: "string \<Rightarrow> dec_literal option" where
  "parse_decimal s =
     (let t = filter (\<lambda>c. c \<noteq> CHR ''_'') (py_strip s);
          neg = (case t of c # _ \<Rightarrow> c = CHR ''-'' | [] \<Rightarrow> False);
          u = (case t of c # v \<Rightarrow> if c = CHR ''-'' \<or> c = CHR ''+'' then v else t | [] \<Rightarrow> [])
      in if is_special u then Some (SpecialDec (py_lower (take 1 u) \<noteq> ''i'')) else map_option FiniteDec (parse_number neg u))"

text \<open>Digits with a decimal point after the first \<open>dot\<close> of them, filled with zeros.\<close>

definition place_point :: "int \<Rightarrow> string \<Rightarrow> string" where
  "place_point dot ds =
     (if dot \<le> 0 then ''0.'' @ replicate (nat (- dot)) CHR ''0'' @ ds
      else if int (length ds) \<le> dot then ds @ replicate (nat dot - length ds) CHR ''0''
      else take (nat dot) ds @ ''.'' @ drop (nat dot) ds)"

definition sign_text :: "bool \<Rightarrow> string" where
  "sign_text neg = (if neg then ''-'' else [])"

definition exponent_text :: "int \<Rightarrow> string" where
  "exponent_text e = ''E'' @ (if e < 0 then ''-'' else ''+'') @ nat_str (nat \<bar>e\<bar>)"

text \<open>\<open>str(d)\<close>: plain notation for small negative exponents, scientific otherwise.\<close>

definition dec_str :: "decimal \<Rightarrow> string" where
  "dec_str d =
     (let ds = nat_str (dcoef d); left = dexp d + int (length ds)
      in if dexp d \<le> 0 \<and> - 6 < left then sign_text (dneg d) @ place_point left ds
         else sign_text (dneg d) @ place_point 1 ds @ exponent_text (left - 1))"

text \<open>\<open>format(d, "f")\<close>.\<close>

definition dec_plain :: "decimal \<Rightarrow> string" where
  "dec_plain d =
     (let ds = nat_str (dcoef d); e = (if dcoef d = 0 \<and> 0 < dexp d then 0 else dexp d)
      in sign_text (dneg d) @ place_point (e + int (length ds)) ds)"

section \<open>Reading what was written\<close>

lemma is_digit_digit_char: "n < 10 \<Longrightarrow> is_digit (digit_char n)"
  by (simp add: is_digit_def digit_char_def)

lemma is_digit_nat_str: "c \<in> set (nat_str n) \<Longrightarrow> is_digit c"
proof (induction n rule: nat_str.induct)
  case (1 n)
  show ?case
  proof (cases "n < 10")
    case True
    with "1.prems" show ?thesis by (simp add: nat_str.simps [of n] is_digit_digit_char)
  next
    case False
    with "1.prems" have "c \<in> set (nat_str (n div 10)) \<or> c = digit_char (n mod 10)"
      by (auto simp add: nat_str.simps [of n])
    with "1.IH" False show ?thesis by (auto simp: is_digit_digit_char)
  qed
qed

lemma nat_str_nonempty [simp]: "nat_str n \<noteq> []"
  by (simp add: nat_str.simps [of n])

lemma str_nat_append: "str_nat (s @ t) = str_nat s * 10 ^ length t + str_nat t"
proof (induction t rule: rev_induct)
  case (snoc c t)
  have "str_nat (s @ t @ [c]) = 10 * str_nat (s @ t) + char_digit c"
    by (metis append_assoc str_nat_snoc)
  with snoc show ?case by (simp add: algebra_simps)
qed simp

lemma str_nat_zeros [simp]: "str_nat (replicate k CHR ''0'') = 0"
proof (induction k)
  case (Suc k)
  have "replicate (Suc k) CHR ''0'' = replicate k CHR ''0'' @ [CHR ''0'']"
    by (simp add: replicate_append_same)
  with Suc show ?case by (simp add: char_digit_def del: replicate_Suc)
qed simp

lemma takeWhile_digits:
  assumes "list_all is_digit i"
  shows "takeWhile is_digit (i @ s) = i @ takeWhile is_digit s"
    "dropWhile is_digit (i @ s) = dropWhile is_digit s"
    "takeWhile is_digit i = i" "dropWhile is_digit i = []"
  using assms by (induction i) simp_all

lemma not_digit [simp]: "\<not> is_digit CHR ''.''" "\<not> is_digit CHR ''E''" "\<not> is_digit CHR ''-''"
  "\<not> is_digit CHR ''+''" "\<not> is_digit CHR ''_''"
  by (simp_all add: is_digit_def)

lemma digit_not_letter:
  assumes "is_digit c"
  shows "lower_char c = c" "c \<notin> set py_whitespace"
  using assms by (auto simp: is_digit_def lower_char_def Let_def whitespace_code)

lemma parse_exponent_text: "parse_exponent (exponent_text e) = Some e"
proof -
  have d: "list_all is_digit (nat_str k)" for k using is_digit_nat_str by (simp add: list_all_iff)
  show ?thesis by (simp add: parse_exponent_def exponent_text_def d)
qed

lemma parse_number_pointed:
  assumes "list_all is_digit i" "list_all is_digit f" "i \<noteq> []"
    and "s = [] \<or> hd s = CHR ''E''"
  shows "parse_number neg (i @ ''.'' @ f @ s)
    = map_option (\<lambda>e. Dec neg (str_nat (i @ f)) (e - int (length f))) (parse_exponent s)"
proof -
  have "takeWhile is_digit s = []" "dropWhile is_digit s = s" using assms(4) by (cases s; auto)+
  with assms show ?thesis by (simp add: parse_number_def takeWhile_digits Let_def)
qed

lemma parse_number_whole:
  assumes "list_all is_digit i" "i \<noteq> []" and "s = [] \<or> hd s = CHR ''E''"
  shows "parse_number neg (i @ s) = map_option (\<lambda>e. Dec neg (str_nat i) e) (parse_exponent s)"
proof -
  have "takeWhile is_digit s = []" "dropWhile is_digit s = s" using assms(3) by (cases s; auto)+
  with assms show ?thesis
    by (cases s) (auto simp add: parse_number_def takeWhile_digits Let_def)
qed

lemma parse_number_dec_str_plain:
  assumes "dexp d \<le> 0"
  shows "parse_number neg (place_point (dexp d + int (length (nat_str (dcoef d)))) (nat_str (dcoef d)))
    = Some (Dec neg (dcoef d) (dexp d))"
proof -
  let ?ds = "nat_str (dcoef d)" and ?dot = "dexp d + int (length (nat_str (dcoef d)))"
  have dig: "list_all is_digit ?ds" using is_digit_nat_str by (simp add: list_all_iff)
  consider "?dot \<le> 0" | "dexp d = 0" | "0 < ?dot" "?dot < int (length ?ds)" using assms by linarith
  then show ?thesis
  proof cases
    case 1
    let ?f = "replicate (nat (- ?dot)) CHR ''0'' @ ?ds"
    have f: "list_all is_digit ?f" using dig by (auto simp: list_all_iff is_digit_def)
    have len: "int (length ?f) = - dexp d" using 1 by simp
    have "str_nat ''0'' = 0" by (simp add: str_nat_def char_digit_def)
    then have "str_nat (''0'' @ ?f) = dcoef d"
      unfolding str_nat_append [of "''0''"] str_nat_append [of "replicate _ _"] by simp
    with parse_number_pointed [of "''0''" ?f "[]" neg] f len 1 show ?thesis
      by (simp add: place_point_def is_digit_def parse_exponent_def)
  next
    case 2
    with parse_number_whole [OF dig, of "[]" neg] show ?thesis
      by (simp add: place_point_def parse_exponent_def)
  next
    case 3
    let ?i = "take (nat ?dot) ?ds" and ?f = "drop (nat ?dot) ?ds"
    have "list_all is_digit ?i" "list_all is_digit ?f"
      using dig by (auto simp: list_all_iff dest: in_set_takeD in_set_dropD)
    moreover have "?i \<noteq> []" using 3 by (simp add: take_eq_Nil)
    moreover have "int (length ?f) = - dexp d" using 3 by simp
    ultimately show ?thesis
      using parse_number_pointed [of ?i ?f "[]" neg] 3 by (simp add: place_point_def parse_exponent_def)
  qed
qed

lemma parse_number_dec_str_scientific:
  "parse_number neg (place_point 1 (nat_str c) @ exponent_text (e + int (length (nat_str c)) - 1))
    = Some (Dec neg c e)"
proof -
  let ?ds = "nat_str c" and ?x = "exponent_text (e + int (length (nat_str c)) - 1)"
  have dig: "list_all is_digit ?ds" using is_digit_nat_str by (simp add: list_all_iff)
  have x: "hd ?x = CHR ''E''" by (simp add: exponent_text_def)
  show ?thesis
  proof (cases "length ?ds \<le> 1")
    case True
    then have one: "length ?ds = 1" by (cases ?ds) auto
    with parse_number_whole [OF dig, of ?x neg] x show ?thesis
      by (simp add: place_point_def parse_exponent_text)
  next
    case False
    have "list_all is_digit (take 1 ?ds)" "list_all is_digit (drop 1 ?ds)" "take 1 ?ds \<noteq> []"
      using dig by (auto simp: list_all_iff take_eq_Nil dest: in_set_takeD in_set_dropD)
    from parse_number_pointed [OF this, of ?x neg] x False show ?thesis
      by (simp add: place_point_def parse_exponent_text of_nat_diff)
  qed
qed

text \<open>The characters of a rendered number: neither blanks, underscores nor letters but \<open>E\<close>.\<close>

definition number_char :: "char \<Rightarrow> bool" where
  "number_char c \<longleftrightarrow> is_digit c \<or> c \<in> set ''.E+-''"

lemma place_point_chars: "list_all is_digit ds \<Longrightarrow> c \<in> set (place_point dot ds) \<Longrightarrow> is_digit c \<or> c = CHR ''.''"
  by (auto simp: place_point_def list_all_iff is_digit_def split: if_splits dest: in_set_takeD in_set_dropD)

lemma exponent_text_chars: "c \<in> set (exponent_text e) \<Longrightarrow> number_char c"
  using is_digit_nat_str by (auto simp: exponent_text_def number_char_def split: if_splits)

lemma number_char_facts:
  assumes "number_char c"
  shows "c \<notin> set py_whitespace" "c \<noteq> CHR ''_''" "c \<noteq> CHR '',''"
  using assms digit_not_letter(2) [of c] by (auto simp: number_char_def whitespace_code is_digit_def)

lemma place_point_hd:
  assumes "list_all is_digit ds" "ds \<noteq> []"
  shows "place_point dot ds \<noteq> []" "is_digit (hd (place_point dot ds))"
proof -
  have "is_digit (hd ds)" using assms by (cases ds) simp_all
  moreover have "hd (take (nat dot) ds) = hd ds" "take (nat dot) ds \<noteq> []" if "0 < dot"
    using assms(2) that by (cases ds; cases "nat dot"; simp)+
  ultimately show "place_point dot ds \<noteq> []" "is_digit (hd (place_point dot ds))"
    using assms(2) by (auto simp: place_point_def is_digit_def)
qed

lemma not_special: "s \<noteq> [] \<Longrightarrow> is_digit (hd s) \<Longrightarrow> \<not> is_special s"
proof (cases s)
  case (Cons c t)
  assume "is_digit (hd s)"
  then have c: "is_digit c" "lower_char c = c" using Cons digit_not_letter(1) by simp_all
  then have "c \<noteq> CHR ''i''" "c \<noteq> CHR ''n''" "c \<noteq> CHR ''s''" by (auto simp: is_digit_def)
  with c Cons show ?thesis by (auto simp: is_special_def Let_def py_lower_def split: option.splits if_splits)
qed simp

lemma parse_decimal_signed:
  assumes "s \<noteq> []" "is_digit (hd s)" "\<forall>c\<in>set s. number_char c"
  shows "parse_decimal (sign_text neg @ s) = map_option FiniteDec (parse_number neg s)"
proof -
  let ?t = "sign_text neg @ s"
  have all: "\<forall>c\<in>set ?t. number_char c"
    using assms(3) by (auto simp: sign_text_def number_char_def)
  have "py_strip ?t = ?t"
    using all number_char_facts(1) unfolding py_strip_def by (intro strip_chars_absent) blast
  moreover have "filter (\<lambda>c. c \<noteq> CHR ''_'') ?t = ?t"
    using all number_char_facts(2) by (intro filter_True) blast
  moreover have "hd s \<noteq> CHR ''-''" "hd s \<noteq> CHR ''+''" using assms(2) by (auto simp: is_digit_def)
  ultimately show ?thesis
    using assms(1) not_special [OF assms(1,2)]
    by (cases s) (auto simp: parse_decimal_def sign_text_def Let_def)
qed

lemma dec_str_number:
  obtains s where "dec_str d = sign_text (dneg d) @ s" "s \<noteq> []" "is_digit (hd s)"
    "\<forall>c\<in>set s. number_char c" "parse_number (dneg d) s = Some d"
proof (cases "dexp d \<le> 0 \<and> - 6 < dexp d + int (length (nat_str (dcoef d)))")
  case True
  let ?s = "place_point (dexp d + int (length (nat_str (dcoef d)))) (nat_str (dcoef d))"
  have dig: "list_all is_digit (nat_str (dcoef d))" using is_digit_nat_str by (simp add: list_all_iff)
  have "dec_str d = sign_text (dneg d) @ ?s" using True by (simp add: dec_str_def Let_def)
  moreover have "\<forall>c\<in>set ?s. number_char c" using place_point_chars [OF dig] by (auto simp: number_char_def)
  moreover have "parse_number (dneg d) ?s = Some d" using True by (simp add: parse_number_dec_str_plain)
  ultimately show ?thesis using that place_point_hd [OF dig nat_str_nonempty] by blast
next
  case False
  let ?p = "place_point 1 (nat_str (dcoef d))"
  let ?s = "?p @ exponent_text (dexp d + int (length (nat_str (dcoef d))) - 1)"
  have dig: "list_all is_digit (nat_str (dcoef d))" using is_digit_nat_str by (simp add: list_all_iff)
  have "dec_str d = sign_text (dneg d) @ ?s"
    using False by (auto simp add: dec_str_def Let_def)
  moreover have "\<forall>c\<in>set ?s. number_char c"
    using place_point_chars [OF dig] exponent_text_chars by (auto simp: number_char_def)
  moreover have "parse_number (dneg d) ?s = Some d" by (simp add: parse_number_dec_str_scientific)
  moreover have "?s \<noteq> []" "is_digit (hd ?s)" using place_point_hd [OF dig] by simp_all
  ultimately show ?thesis using that by blast
qed

theorem parse_decimal_dec_str: "parse_decimal (dec_str d) = Some (FiniteDec d)"
proof -
  obtain s where "dec_str d = sign_text (dneg d) @ s" "s \<noteq> []" "is_digit (hd s)"
    "\<forall>c\<in>set s. number_char c" "parse_number (dneg d) s = Some d"
    by (rule dec_str_number)
  then show ?thesis using parse_decimal_signed by simp
qed

lemma dec_str_chars: "\<forall>c\<in>set (dec_str d). number_char c" "dec_str d \<noteq> []"
proof -
  obtain s where s: "dec_str d = sign_text (dneg d) @ s" "s \<noteq> []" "\<forall>c\<in>set s. number_char c"
    using dec_str_number [of d] by metis
  then show "\<forall>c\<in>set (dec_str d). number_char c" "dec_str d \<noteq> []"
    by (auto simp: sign_text_def number_char_def)
qed

end
