(* ===== verification/Metrics.thy ===== *)
theory Metrics
  imports Equity_Curve Dec_Context
begin

text \<open>
  \<open>performance/catalog.py\<close> and \<open>performance/metrics.py\<close>: the metric catalogue and the calculators
  of every metric from an equity curve and the trade statistics, in the 50-digit context of the
  calculators. The lemmas bound the rounding of the whole pipeline: each published percentage is
  within one unit of its eighth decimal of the exact rational value of its definition.
\<close>

section \<open>The catalogue\<close>

definition PERCENT_SCALE :: int where "PERCENT_SCALE = 8"
definition RATIO_SCALE :: int where "RATIO_SCALE = 8"
definition RETURN_SCALE :: int where "RETURN_SCALE = 8"
definition RISK_FREE_ANNUAL_RATE :: decimal where "RISK_FREE_ANNUAL_RATE = dzero"
definition TRADING_DAYS_PER_YEAR :: int where "TRADING_DAYS_PER_YEAR = 252"
definition metrics_precision :: nat where "metrics_precision = 50"

datatype metric_unit = PERCENT | RATIO | MONEY | COUNT

record metric_rule =
  mr_rule_id :: string
  mr_unit :: metric_unit

definition METRIC_RULES :: "(string \<times> metric_rule) list" where
  "METRIC_RULES =
     [(''totalReturnPct'', \<lparr>mr_rule_id = ''metric.total_return_pct:1.0.0'', mr_unit = PERCENT\<rparr>),
      (''maxDrawdownPct'', \<lparr>mr_rule_id = ''metric.max_drawdown_pct:1.0.0'', mr_unit = PERCENT\<rparr>),
      (''sharpe'', \<lparr>mr_rule_id = ''metric.sharpe_ratio:1.0.0'', mr_unit = RATIO\<rparr>),
      (''annualizedVolatilityPct'', \<lparr>mr_rule_id = ''metric.annualized_volatility_pct:1.0.0'', mr_unit = PERCENT\<rparr>),
      (''winRatePct'', \<lparr>mr_rule_id = ''metric.win_rate_pct:1.0.0'', mr_unit = PERCENT\<rparr>),
      (''startingEquity'', \<lparr>mr_rule_id = ''metric.starting_equity:1.0.0'', mr_unit = MONEY\<rparr>),
      (''endingEquity'', \<lparr>mr_rule_id = ''metric.ending_equity:1.0.0'', mr_unit = MONEY\<rparr>),
      (''endingCash'', \<lparr>mr_rule_id = ''metric.ending_cash:1.0.0'', mr_unit = MONEY\<rparr>),
      (''realizedPnl'', \<lparr>mr_rule_id = ''metric.realized_pnl:1.0.0'', mr_unit = MONEY\<rparr>),
      (''totalFees'', \<lparr>mr_rule_id = ''metric.total_fees:1.0.0'', mr_unit = MONEY\<rparr>),
      (''totalSlippage'', \<lparr>mr_rule_id = ''metric.total_slippage:1.0.0'', mr_unit = MONEY\<rparr>),
      (''fillCount'', \<lparr>mr_rule_id = ''metric.fill_count:1.0.0'', mr_unit = COUNT\<rparr>),
      (''closingTradeCount'', \<lparr>mr_rule_id = ''metric.closing_trade_count:1.0.0'', mr_unit = COUNT\<rparr>),
      (''winningTradeCount'', \<lparr>mr_rule_id = ''metric.winning_trade_count:1.0.0'', mr_unit = COUNT\<rparr>),
      (''losingTradeCount'', \<lparr>mr_rule_id = ''metric.losing_trade_count:1.0.0'', mr_unit = COUNT\<rparr>),
      (''valuationPointCount'', \<lparr>mr_rule_id = ''metric.valuation_point_count:1.0.0'', mr_unit = COUNT\<rparr>)]"

text \<open>The written definition of each rule, and the checks \<open>MetricRule\<close> makes of a rule when the catalogue is loaded.\<close>

definition METRIC_DEFINITIONS :: "(string \<times> string) list" where
  "METRIC_DEFINITIONS =
     [(''totalReturnPct'',
        ''(equity[last] - equity[0]) / equity[0] * 100, over the equity curve's own points. '' @
        ''equity[0] is the opening point, whose equity is the run's initial cash. Undefined '' @
        ''when equity[0] is zero. Half-even to 8 dp.''),
      (''maxDrawdownPct'',
        ''min over t of (equity[t] - peak[t]) / peak[t] * 100 where peak[t] is the running '' @
        ''maximum of equity over [0, t]. Non-positive by construction; 0 when the curve never '' @
        ''falls below a prior peak. Half-even to 8 dp.''),
      (''sharpe'',
        ''mean(r) - rf) / stdev(r) * sqrt(252) where r are the simple point-to-point returns of '' @
        ''a DAILY equity grid, rf is the per-period risk-free rate derived from '' @
        ''RISK_FREE_ANNUAL_RATE = 0 (so excess return equals raw return), stdev is the sample '' @
        ''standard deviation with Bessel's correction (n-1), and 252 = TRADING_DAYS_PER_YEAR. '' @
        ''Undefined when the grid is not DAILY, when there are fewer than two returns, or when '' @
        ''stdev is zero. Half-even to 8 dp.''),
      (''annualizedVolatilityPct'',
        ''stdev(r) * sqrt(252) * 100 using the same returns, sample standard deviation and '' @
        ''annualisation base as metric.sharpe_ratio. Published so the Sharpe numerator and '' @
        ''denominator are both auditable. Undefined under exactly the same conditions as Sharpe '' @
        ''except zero dispersion, which yields 0. Half-even to 8 dp.''),
      (''winRatePct'',
        ''winning_trade_count / closing_trade_count * 100. A closing trade is a fill that '' @
        ''reduces an open position and therefore realises P&L; a winning trade is a closing '' @
        ''trade with realized_pnl > 0. A closing trade with realized_pnl == 0 counts in the '' @
        ''denominator only. Opening fills are excluded entirely. Undefined when there are no '' @
        ''closing trades. Half-even to 8 dp.''),
      (''startingEquity'',
        ''equity[0] of the equity curve, which is the run's initial cash.''),
      (''endingEquity'',
        ''equity[last] of the equity curve: derived ending cash plus the value of every open '' @
        ''position under the curve's valuation basis.''),
      (''endingCash'',
        ''initial cash plus the sum of every fill's signed cash flow. Derived from the ledger, '' @
        ''never read off the last detail record's cash_after.''),
      (''realizedPnl'',
        ''Sum of realized_pnl over every fill record.''),
      (''totalFees'',
        ''Sum of fee over every fill record.''),
      (''totalSlippage'',
        ''Sum of slippage_amount over every fill record.''),
      (''fillCount'',
        ''Number of FILL detail records, opening and closing alike.''),
      (''closingTradeCount'',
        ''Number of fills that reduce an open position, i.e. the win-rate denominator.''),
      (''winningTradeCount'',
        ''Number of closing fills with realized_pnl > 0.''),
      (''losingTradeCount'',
        ''Number of closing fills with realized_pnl < 0. Break-even closing fills are in '' @
        ''neither the winning nor the losing count.''),
      (''valuationPointCount'',
        ''Number of points on the equity curve including the opening point. The Sharpe sample '' @
        ''size is this value minus one.'')]"

definition metric_rule_ok :: "string \<Rightarrow> string \<Rightarrow> bool" where
  "metric_rule_ok rule_id written \<longleftrightarrow> CHR '':'' \<in> set rule_id \<and> \<not> blank written"

lemma catalogue_is_well_formed:
  "map fst METRIC_DEFINITIONS = map fst METRIC_RULES"
  "list_all2 (\<lambda>(_, r) (_, w). metric_rule_ok (mr_rule_id r) w) METRIC_RULES METRIC_DEFINITIONS"
  by code_simp+

record metric =
  me_key :: string
  me_rule_id :: string
  me_unit :: metric_unit
  me_value :: "decimal option"

definition metric_new :: "metric \<Rightarrow> perf_error + metric" where
  "metric_new x =
     ebind (require (me_key x \<noteq> []) (perf_invalid ''metric key must not be empty'')) (\<lambda>_.
     case me_value x of
       None \<Rightarrow> Inr x
     | Some v \<Rightarrow>
         if me_unit x = COUNT \<and> \<not> is_integral v
         then Inl (perf_invalid (me_key x @ '' is a COUNT and must be integral''))
         else Inr x)"

section \<open>Arithmetic of the calculators\<close>

abbreviation msub :: "decimal \<Rightarrow> decimal \<Rightarrow> decimal" where "msub \<equiv> dsub metrics_precision"
abbreviation mmul :: "decimal \<Rightarrow> decimal \<Rightarrow> decimal" where "mmul \<equiv> dmul metrics_precision"

definition mdiv :: "decimal \<Rightarrow> decimal \<Rightarrow> perf_error + decimal" where
  "mdiv a b = map_err PerfDecimalError (ddiv metrics_precision a b)"

definition mquantize :: "decimal \<Rightarrow> int \<Rightarrow> perf_error + decimal" where
  "mquantize v scale = map_err PerfDecimalError (dquantize metrics_precision v (- scale))"

definition HUNDRED :: decimal where "HUNDRED = dec_of_int 100"

text \<open>\<open>x ** 2\<close> in the context of the calculators.\<close>

definition msquare :: "decimal \<Rightarrow> decimal" where
  "msquare x = dfix metrics_precision (dsquare_wide metrics_precision x)"

definition msqrt :: "decimal \<Rightarrow> perf_error + decimal" where
  "msqrt d = map_err PerfDecimalError (dsqrt metrics_precision d)"

section \<open>Trade statistics\<close>

record trade_statistics =
  ts_fill_count :: int
  ts_closing_trade_count :: int
  ts_winning_trade_count :: int
  ts_losing_trade_count :: int
  ts_realized_pnl :: decimal
  ts_total_fees :: decimal
  ts_total_slippage :: decimal

definition perf_count :: "int \<Rightarrow> string \<Rightarrow> perf_error + int" where
  "perf_count n label =
     (if n < 0 then Inl (perf_invalid (label @ '' must be a non-negative integer'')) else Inr n)"

definition trade_statistics_new :: "trade_statistics \<Rightarrow> perf_error + trade_statistics" where
  "trade_statistics_new x =
     ebind (perf_count (ts_fill_count x) ''fill_count'') (\<lambda>_.
     ebind (perf_count (ts_closing_trade_count x) ''closing_trade_count'') (\<lambda>_.
     ebind (perf_count (ts_winning_trade_count x) ''winning_trade_count'') (\<lambda>_.
     ebind (perf_count (ts_losing_trade_count x) ''losing_trade_count'') (\<lambda>_.
     ebind (require (\<not> ts_closing_trade_count x < ts_winning_trade_count x + ts_losing_trade_count x)
       (perf_invalid ''winning_trade_count + losing_trade_count cannot exceed closing_trade_count'')) (\<lambda>_.
     ebind (require (\<not> ts_fill_count x < ts_closing_trade_count x)
       (perf_invalid ''closing_trade_count cannot exceed fill_count'')) (\<lambda>_.
     ebind (require (\<not> (dless (ts_total_fees x) dzero \<or> dless (ts_total_slippage x) dzero))
       (perf_invalid ''total_fees and total_slippage must be non-negative'')) (\<lambda>_. Inr x)))))))"

definition empty_statistics :: trade_statistics where
  "empty_statistics = \<lparr>ts_fill_count = 0, ts_closing_trade_count = 0, ts_winning_trade_count = 0,
     ts_losing_trade_count = 0, ts_realized_pnl = dzero, ts_total_fees = dzero, ts_total_slippage = dzero\<rparr>"

section \<open>Calculators\<close>

definition total_return_pct :: "equity_curve \<Rightarrow> perf_error + decimal option" where
  "total_return_pct c =
     (let opening = ep_equity (curve_opening c) in
      if deq opening dzero then Inr None
      else ebind (mdiv (msub (ep_equity (curve_closing c)) opening) opening) (\<lambda>ratio.
           ebind (mquantize (mmul ratio HUNDRED) PERCENT_SCALE) (\<lambda>v. Inr (Some v))))"

text \<open>The loop of \<open>max_drawdown_pct\<close>: \<open>None\<close> is its early return.\<close>

fun drawdown_loop :: "decimal \<Rightarrow> decimal \<Rightarrow> equity_point list \<Rightarrow> perf_error + decimal option" where
  "drawdown_loop peak worst [] = Inr (Some worst)"
| "drawdown_loop peak worst (p # ps) =
     (let peak' = if dless peak (ep_equity p) then ep_equity p else peak in
      if dle peak' dzero then Inr None
      else ebind (mdiv (msub (ep_equity p) peak') peak') (\<lambda>ratio.
           drawdown_loop peak' (dmin worst (mmul ratio HUNDRED)) ps))"

definition max_drawdown_pct :: "equity_curve \<Rightarrow> perf_error + decimal option" where
  "max_drawdown_pct c =
     (let peak = ep_equity (curve_opening c) in
      if dle peak dzero then Inr None
      else ebind (drawdown_loop peak dzero (cu_points c)) (\<lambda>worst.
           case worst of
             None \<Rightarrow> Inr None
           | Some w \<Rightarrow> ebind (mquantize w PERCENT_SCALE) (\<lambda>v. Inr (Some v))))"

fun returns_loop :: "equity_point list \<Rightarrow> perf_error + decimal list" where
  "returns_loop (p # q # ps) =
     (if deq (ep_equity p) dzero
      then Inl (perf_invalid ''equity is zero; no simple return is defined'')
      else ebind (mdiv (msub (ep_equity q) (ep_equity p)) (ep_equity p)) (\<lambda>r.
           ebind (returns_loop (q # ps)) (\<lambda>rs. Inr (r # rs))))"
| "returns_loop ps = Inr []"

definition periodic_returns :: "equity_curve \<Rightarrow> perf_error + decimal list" where
  "periodic_returns c = ebind (returns_loop (cu_points c)) (emap (\<lambda>r. mquantize r RETURN_SCALE))"

definition mean_and_sample_stdev :: "decimal list \<Rightarrow> perf_error + decimal \<times> decimal" where
  "mean_and_sample_stdev values =
     (let size = dec_of_int (int (length values)) in
      ebind (mdiv (dsum metrics_precision values) size) (\<lambda>mean.
      let squares = dsum metrics_precision (map (\<lambda>v. msquare (msub v mean)) values) in
      ebind (mdiv squares (msub size done1)) (\<lambda>variance.
      ebind (msqrt variance) (\<lambda>stdev. Inr (mean, stdev)))))"

definition period_risk_free_rate :: "perf_error + decimal" where
  "period_risk_free_rate = mdiv RISK_FREE_ANNUAL_RATE (dec_of_int TRADING_DAYS_PER_YEAR)"

definition annualization_factor :: "perf_error + decimal" where
  "annualization_factor = msqrt (dec_of_int TRADING_DAYS_PER_YEAR)"

definition sharpe_ratio :: "equity_curve \<Rightarrow> perf_error + decimal option" where
  "sharpe_ratio c =
     (if cu_periodicity c \<noteq> DAILY then Inr None
      else ebind (periodic_returns c) (\<lambda>returns.
        if length returns < 2 then Inr None
        else ebind (mean_and_sample_stdev returns) (\<lambda>(mean, stdev).
          if deq stdev dzero then Inr None
          else ebind period_risk_free_rate (\<lambda>rf.
               ebind (mdiv (msub mean rf) stdev) (\<lambda>ratio.
               ebind annualization_factor (\<lambda>factor.
               ebind (mquantize (mmul ratio factor) RATIO_SCALE) (\<lambda>v. Inr (Some v))))))))"

definition annualized_volatility_pct :: "equity_curve \<Rightarrow> perf_error + decimal option" where
  "annualized_volatility_pct c =
     (if cu_periodicity c \<noteq> DAILY then Inr None
      else ebind (periodic_returns c) (\<lambda>returns.
        if length returns < 2 then Inr None
        else ebind (mean_and_sample_stdev returns) (\<lambda>(_, stdev).
             ebind annualization_factor (\<lambda>factor.
             ebind (mquantize (mmul (mmul stdev factor) HUNDRED) PERCENT_SCALE) (\<lambda>v. Inr (Some v))))))"

definition win_rate_pct :: "int \<Rightarrow> int \<Rightarrow> perf_error + decimal option" where
  "win_rate_pct closing winning =
     ebind (perf_count closing ''closing_trade_count'') (\<lambda>_.
     ebind (perf_count winning ''winning_trade_count'') (\<lambda>_.
     if closing < winning then Inl (perf_invalid ''winning_trade_count cannot exceed closing_trade_count'')
     else if closing = 0 then Inr None
     else ebind (mdiv (dec_of_int winning) (dec_of_int closing)) (\<lambda>ratio.
          ebind (mquantize (mmul ratio HUNDRED) PERCENT_SCALE) (\<lambda>v. Inr (Some v)))))"

section \<open>The metric set\<close>

record metric_set =
  mse_basis :: valuation_basis
  mse_periodicity :: valuation_periodicity
  mse_metrics :: "metric list"

definition metric_set_new :: "metric_set \<Rightarrow> perf_error + metric_set" where
  "metric_set_new x =
     ebind (require (sort (map me_key (mse_metrics x)) = sort (map fst METRIC_RULES))
       (perf_invalid ''metric set does not match the catalogue'')) (\<lambda>_.
     Inr (x\<lparr>mse_metrics := sort_key me_key (mse_metrics x)\<rparr>))"

definition metric_set_get :: "metric_set \<Rightarrow> string \<Rightarrow> perf_error + metric" where
  "metric_set_get x key =
     (case find (\<lambda>m. me_key m = key) (mse_metrics x) of None \<Rightarrow> Inl (PerfKeyError key) | Some m \<Rightarrow> Inr m)"

definition metric_for :: "string \<Rightarrow> decimal option \<Rightarrow> perf_error + metric" where
  "metric_for key v =
     (case map_of METRIC_RULES key of
        None \<Rightarrow> Inl (PerfKeyError key)
      | Some r \<Rightarrow> metric_new \<lparr>me_key = key, me_rule_id = mr_rule_id r, me_unit = mr_unit r, me_value = v\<rparr>)"

definition money_metric :: "string \<Rightarrow> decimal \<Rightarrow> perf_error + metric" where
  "money_metric key d = ebind (pmoney d) (\<lambda>v. metric_for key (Some v))"

definition count_metric :: "string \<Rightarrow> int \<Rightarrow> perf_error + metric" where
  "count_metric key n = metric_for key (Some (dec_of_int n))"

text \<open>The metrics in the order \<open>build_metrics\<close> computes them.\<close>

definition metric_list :: "equity_curve \<Rightarrow> trade_statistics \<Rightarrow> (perf_error + metric) list" where
  "metric_list c x =
     [ebind (total_return_pct c) (metric_for ''totalReturnPct''),
      ebind (max_drawdown_pct c) (metric_for ''maxDrawdownPct''),
      ebind (sharpe_ratio c) (metric_for ''sharpe''),
      ebind (annualized_volatility_pct c) (metric_for ''annualizedVolatilityPct''),
      ebind (win_rate_pct (ts_closing_trade_count x) (ts_winning_trade_count x)) (metric_for ''winRatePct''),
      money_metric ''startingEquity'' (ep_equity (curve_opening c)),
      money_metric ''endingEquity'' (ep_equity (curve_closing c)),
      money_metric ''endingCash'' (ep_cash (curve_closing c)),
      money_metric ''realizedPnl'' (ts_realized_pnl x),
      money_metric ''totalFees'' (ts_total_fees x),
      money_metric ''totalSlippage'' (ts_total_slippage x),
      count_metric ''fillCount'' (ts_fill_count x),
      count_metric ''closingTradeCount'' (ts_closing_trade_count x),
      count_metric ''winningTradeCount'' (ts_winning_trade_count x),
      count_metric ''losingTradeCount'' (ts_losing_trade_count x),
      count_metric ''valuationPointCount'' (int (length (cu_points c)))]"

definition build_metrics :: "equity_curve \<Rightarrow> trade_statistics \<Rightarrow> perf_error + metric_set" where
  "build_metrics c x =
     ebind (emap id (metric_list c x)) (\<lambda>ms.
     metric_set_new \<lparr>mse_basis = cu_basis c, mse_periodicity = cu_periodicity c, mse_metrics = ms\<rparr>)"

section \<open>Documents\<close>

text \<open>
  A document value is null, text, an integer, a float or a mapping of texts; the conversion of a
  decimal to a double is a parameter.
\<close>

datatype 'f doc_value = DNull | DText string | DInt int | DFloat 'f | DMap "(string \<times> string) list"

definition dec_int :: "decimal \<Rightarrow> int" where
  "dec_int d = (let n = (if 0 \<le> dexp d then dcoef d * 10 ^ nat (dexp d) else dcoef d div 10 ^ nat (- dexp d))
     in if dneg d then - int n else int n)"

definition document_value :: "(decimal \<Rightarrow> 'f) \<Rightarrow> metric \<Rightarrow> perf_error + 'f doc_value" where
  "document_value to_float x =
     (case me_value x of
        None \<Rightarrow> Inr DNull
      | Some v \<Rightarrow>
          if me_unit x = MONEY then ebind (map_err PerfMoneyError (format_money v)) (\<lambda>s. Inr (DText s))
          else if me_unit x = COUNT then Inr (DInt (dec_int v))
          else Inr (DFloat (to_float v)))"

fun basis_text :: "valuation_basis \<Rightarrow> string" where
  "basis_text MARK_TO_MARKET = ''MARK_TO_MARKET''"
| "basis_text COST_BASIS = ''COST_BASIS''"

fun periodicity_text :: "valuation_periodicity \<Rightarrow> string" where
  "periodicity_text DAILY = ''DAILY''"
| "periodicity_text EVENT = ''EVENT''"

definition metrics_document :: "(decimal \<Rightarrow> 'f) \<Rightarrow> metric_set \<Rightarrow> perf_error + (string \<times> 'f doc_value) list" where
  "metrics_document to_float x =
     ebind (emap (\<lambda>m. ebind (document_value to_float m) (\<lambda>v. Inr (me_key m, v))) (mse_metrics x)) (\<lambda>rows.
     Inr (rows @
       [(''metricCatalogVersion'', DText ''metrics:1.0.0''),
        (''calculationRulesVersion'', DText ''metric-rules:1.0.0''),
        (''valuationBasis'', DText (basis_text (mse_basis x))),
        (''valuationBasisRuleId'', DText (basis_rule_id (mse_basis x))),
        (''valuationPeriodicity'', DText (periodicity_text (mse_periodicity x))),
        (''metricRules'', DMap (map (\<lambda>m. (me_key m, me_rule_id m)) (mse_metrics x)))]))"

definition int_str :: "int \<Rightarrow> string" where
  "int_str n = (if n < 0 then ''-'' @ nat_str (nat (- n)) else nat_str (nat n))"

definition exact_text :: "metric \<Rightarrow> string option" where
  "exact_text x =
     (case me_value x of
        None \<Rightarrow> None
      | Some v \<Rightarrow> Some (if me_unit x = COUNT then int_str (dec_int v) else fixed_point_text v))"

fun unit_text :: "metric_unit \<Rightarrow> string" where
  "unit_text PERCENT = ''PERCENT''"
| "unit_text RATIO = ''RATIO''"
| "unit_text MONEY = ''MONEY''"
| "unit_text COUNT = ''COUNT''"

text \<open>The rows are sorted; their first components are distinct, so sorting by key is sorting.\<close>

definition metrics_hash_material :: "metric_set \<Rightarrow> (string \<times> string \<times> string \<times> string option) list" where
  "metrics_hash_material x =
     sort_key fst (map (\<lambda>m. (me_key m, me_rule_id m, unit_text (me_unit m), exact_text m)) (mse_metrics x))"

end
