(* ===== verification/Metric_Rules.thy ===== *)
theory Metric_Rules
  imports Metrics
begin

text \<open>
  The calculators of \<open>performance/metrics.py\<close> against the written rules of the catalogue: every
  percentage of a built curve is computed without error and lies within \<open>1E-8\<close> of the exact
  rational value of its rule, although the pipeline rounds at every operation.
\<close>

section \<open>Rounding of the pipeline\<close>

lemma copy_abs_value [simp]: "dval (copy_abs d) = \<bar>dval d\<bar>"
  by (simp add: dval_abs)

text \<open>The sign of an operand does not enter the digits.\<close>

definition with_sign :: "bool \<Rightarrow> decimal \<Rightarrow> decimal" where
  "with_sign s d = Dec s (dcoef d) (dexp d)"

lemma with_sign_value: "dval (with_sign s (copy_abs d)) = (if s then - \<bar>dval d\<bar> else \<bar>dval d\<bar>)"
  by (simp add: with_sign_def copy_abs_def dval_abs) (simp add: dval_def dsigned_def)

lemma dfix_sign: "dfix p (Dec s c e) = with_sign s (dfix p (Dec False c e))"
  by (simp add: dfix_def with_sign_def Let_def)

lemma ddiv_sign:
  "ddiv p (Dec s c e) (Dec t d f) =
     (case ddiv p (Dec False c e) (Dec False d f) of Inl x \<Rightarrow> Inl x | Inr q \<Rightarrow> Inr (with_sign (s \<noteq> t) q))"
proof -
  show ?thesis
  proof (cases "d = 0 \<or> c = 0")
    case True
    then show ?thesis using dfix_sign [of p "s = (\<not> t)" 0 "e - f"] by (auto simp: ddiv_def Let_def)
  next
    case False
    define shift where "shift = int (ndigits d) - int (ndigits c) + int p + 1"
    define num where "num = c * 10 ^ nat shift"
    define den where "den = d * 10 ^ nat (- shift)"
    have eq: "ddiv p (Dec s' c e) (Dec t' d f) =
       (if num mod den \<noteq> 0 then Inr (dfix p (Dec (s' \<noteq> t') (if num div den mod 5 = 0 then num div den + 1 else num div den) (e - f - shift)))
        else (let (c', e') = strip_zeros (nat (e - f - (e - f - shift))) (num div den) (e - f - shift) in Inr (dfix p (Dec (s' \<noteq> t') c' e'))))" for s' t'
      using False unfolding ddiv_def Let_def num_def den_def shift_def by simp
    have w': "dfix p (Dec (s = (\<not> t)) x y) = with_sign (s = (\<not> t)) (dfix p (Dec False x y))" for x y by (rule dfix_sign)
    show ?thesis unfolding eq by (simp add: w' split: prod.split)
  qed
qed

lemma with_sign_self: "dval d \<noteq> 0 \<Longrightarrow> dneg d \<longleftrightarrow> dval d < 0"
  using dval_nonpos [of d] dval_nonneg [of d] by fastforce

lemma ddiv_error_signed:
  assumes q: "ddiv p a b = Inr q" and p: "2 \<le> p"
  shows "\<bar>dval q - dval a / dval b\<bar> \<le> \<bar>dval a / dval b\<bar> * 10 powi (1 - int p)"
proof -
  have s: "ddiv p a b = (case ddiv p (copy_abs a) (copy_abs b) of Inl x \<Rightarrow> Inl x | Inr q \<Rightarrow> Inr (with_sign (dneg a \<noteq> dneg b) q))"
    using ddiv_sign [of p "dneg a" "dcoef a" "dexp a" "dneg b" "dcoef b" "dexp b"] by (simp add: copy_abs_def)
  then obtain q' where q': "ddiv p (copy_abs a) (copy_abs b) = Inr q'" "q = with_sign (dneg a \<noteq> dneg b) q'"
    using q by (auto split: sum.splits)
  have "q' = with_sign (False \<noteq> False) q'"
    using q'(1) ddiv_sign [of p False "dcoef a" "dexp a" False "dcoef b" "dexp b"] by (simp add: copy_abs_def)
  then have nn: "\<not> dneg q'" by (metis decimal.sel(1) with_sign_def)
  then have abs: "dval q = (if dneg a \<noteq> dneg b then - dval q' else dval q')"
    unfolding q'(2) by (simp add: with_sign_def dval_def dsigned_def)
  have b: "dval b \<noteq> 0"
  proof
    assume "dval b = 0"
    then have "dcoef b = 0" by (simp add: dval_zero_iff)
    then have "\<exists>x. ddiv p a b = Inl x" by (simp add: ddiv_def)
    with q show False by simp
  qed
  show ?thesis
  proof (cases "dval a = 0")
    case True
    then have "dcoef a = 0" by (simp add: dval_zero_iff)
    then have "dcoef q = 0"
      using q b by (auto simp: ddiv_def Let_def dval_zero_iff dfix_def div_half_even_def split: if_splits)
    then show ?thesis using True by (simp add: dval_zero_iff [THEN iffD2])
  next
    case False
    have e: "\<bar>dval q' - \<bar>dval a\<bar> / \<bar>dval b\<bar>\<bar> \<le> \<bar>dval a\<bar> / \<bar>dval b\<bar> * 10 powi (1 - int p)"
      using ddiv_error [OF q'(1) _ _ p] False b by simp
    show ?thesis
    proof (cases "dneg a = dneg b")
      case True
      then have "dval a / dval b = \<bar>dval a\<bar> / \<bar>dval b\<bar>"
        using with_sign_self [OF False] with_sign_self [OF b] by (simp add: abs_if)
      then show ?thesis using e abs True by (simp only: simp_thms if_False abs_divide abs_abs)
    next
      case neq: False
      then have v: "dval a / dval b = - (\<bar>dval a\<bar> / \<bar>dval b\<bar>)"
        using with_sign_self [OF False] with_sign_self [OF b] by (auto simp: abs_if)
      have "\<bar>dval q - dval a / dval b\<bar> = \<bar>dval q' - \<bar>dval a\<bar> / \<bar>dval b\<bar>\<bar>"
        using neq abs unfolding v by simp
      also have "\<dots> \<le> \<bar>dval a / dval b\<bar> * 10 powi (1 - int p)" using e by (simp only: abs_divide)
      finally show ?thesis .
    qed
  qed
qed

lemma scaled_abs: "0 \<le> c \<Longrightarrow> \<bar>x * c - y * c\<bar> = \<bar>x - y\<bar> * c" for c :: rat
  by (metis abs_mult abs_of_nonneg left_diff_distrib)

lemma msub_money:
  assumes "is_money a" "is_money b"
  shows "dval (msub a b) = dval a - dval b"
proof -
  have "\<bar>dval a + dval (copy_negate b)\<bar> < 10 ^ 50 * 10 powi min (dexp a) (dexp (copy_negate b))"
    using is_money_dval_bound [OF assms(1)] is_money_dval_bound [OF assms(2)] assms
    by (simp add: is_money_def power_int_minus abs_if split: if_splits)
  from dadd_is_exact(1) [OF _ this] show ?thesis by (simp add: dsub_def metrics_precision_def dval_dadd_exact)
qed

lemma mquantize_facts:
  assumes "\<bar>dval v\<bar> < 10 ^ 40"
  shows "\<exists>r. mquantize v 8 = Inr r \<and> \<bar>dval r - dval v\<bar> \<le> 1 / (2 * 10 ^ 8) \<and> (dval v \<le> 0 \<longrightarrow> dval r \<le> 0) \<and> (0 \<le> dval v \<longrightarrow> 0 \<le> dval r)
     \<and> dval r * 10 ^ 8 = of_int (rhe (dval v * 10 ^ 8))"
proof -
  define c where "c = rescale_coef (dcoef v) (dexp v) (- 8)"
  define u where "u = rhe (dval v * 10 ^ 8)"
  have zero: "rhe 0 = 0" using rhe_of_int [of 0] by simp
  have u: "u = (if dneg v then - int c else int c)"
    using rhe_quanta [of v "- 8"] by (simp add: powi_minus8 c_def u_def)
  have err: "\<bar>of_int u - dval v * 10 ^ 8\<bar> \<le> 1 / 2" unfolding u_def by (rule rhe_error)
  have "\<bar>dval v * 10 ^ 8\<bar> < 10 ^ 48" using assms by (simp add: abs_mult)
  then have "\<bar>of_int u :: rat\<bar> < of_int (10 ^ 49)" using err by (simp add: abs_if split: if_splits)
  then have "\<bar>u\<bar> < 10 ^ 49" by linarith
  then have "int c < 10 ^ 49" by (auto simp: u split: if_splits)
  then have "int c < int (10 ^ 49)" by simp
  then have "c < 10 ^ 49" by (simp only: of_nat_less_iff)
  then have "ndigits c \<le> metrics_precision" by (simp add: ndigits_le metrics_precision_def)
  then have r: "mquantize v 8 = Inr (Dec (dneg v) c (- 8))"
    by (simp add: mquantize_def dquantize_def Let_def flip: c_def)
  have val: "dval (Dec (dneg v) c (- 8)) * 10 ^ 8 = of_int u"
    by (simp add: dval_def dsigned_def u powi_minus8)
  have "\<bar>dval (Dec (dneg v) c (- 8)) - dval v\<bar> * 10 ^ 8 = \<bar>of_int u - dval v * 10 ^ 8\<bar>"
    unfolding val [symmetric] by (rule scaled_abs [symmetric]) simp
  then have "\<bar>dval (Dec (dneg v) c (- 8)) - dval v\<bar> \<le> 1 / (2 * 10 ^ 8)" using err by simp
  moreover have "dval (Dec (dneg v) c (- 8)) \<le> 0" if "dval v \<le> 0"
  proof -
    have "u \<le> 0" unfolding u_def by (rule order_trans [OF rhe_mono [of _ 0]]) (use that zero in simp_all)
    then have "dval (Dec (dneg v) c (- 8)) * 10 ^ 8 \<le> 0" unfolding val by (simp only: of_int_le_0_iff)
    then show ?thesis by simp
  qed
  moreover have "0 \<le> dval (Dec (dneg v) c (- 8))" if "0 \<le> dval v"
  proof -
    have "0 \<le> u" unfolding u_def by (rule order_trans [OF _ rhe_mono [of 0]]) (use that zero in simp_all)
    then have "0 \<le> dval (Dec (dneg v) c (- 8)) * 10 ^ 8" unfolding val by (simp only: of_int_0_le_iff)
    then show ?thesis by simp
  qed
  ultimately show ?thesis using r val by (auto simp: u_def)
qed

section \<open>A percentage change\<close>

text \<open>\<open>(a - b) / b * 100\<close> as the calculators compute it.\<close>

definition percent_change :: "rat \<Rightarrow> rat \<Rightarrow> rat" where
  "percent_change a b = (a - b) / b * 100"

lemma mmul_hundred: "\<bar>dval (mmul r HUNDRED) - dval r * 100\<bar> \<le> \<bar>dval r * 100\<bar> * 10 powi (- 49)"
proof -
  let ?d = "Dec (dneg r \<noteq> dneg HUNDRED) (dcoef r * dcoef HUNDRED) (dexp r + dexp HUNDRED)"
  have v: "dval ?d = dval r * 100"
    by (simp add: HUNDRED_def dec_of_int_def dval_def dsigned_def)
  have "\<bar>dval (mmul r HUNDRED) - dval r * 100\<bar> \<le> \<bar>dval r * 100\<bar> * 10 powi (- 49) / 2"
    using dfix_error [of metrics_precision ?d] unfolding v by (simp add: dmul_def metrics_precision_def)
  moreover have "0 \<le> \<bar>dval r * 100\<bar> * 10 powi (- 49)" by simp
  ultimately show ?thesis by linarith
qed

lemma relative_error_chain:
  fixes x y z \<epsilon> :: rat
  assumes "\<bar>y - x\<bar> \<le> \<bar>x\<bar> * \<epsilon>" "\<bar>z - y\<bar> \<le> \<bar>y\<bar> * \<epsilon>" "0 \<le> \<epsilon>" "\<epsilon> \<le> 1"
  shows "\<bar>z - x\<bar> \<le> \<bar>x\<bar> * (3 * \<epsilon>)"
proof -
  have "\<bar>y\<bar> \<le> \<bar>x\<bar> + \<bar>x\<bar> * \<epsilon>" using assms(1) by linarith
  moreover have "\<bar>x\<bar> * \<epsilon> \<le> \<bar>x\<bar> * 1" using assms(4) by (intro mult_left_mono) simp_all
  ultimately have "\<bar>y\<bar> \<le> 2 * \<bar>x\<bar>" by linarith
  then have "\<bar>y\<bar> * \<epsilon> \<le> 2 * \<bar>x\<bar> * \<epsilon>" using assms(3) by (intro mult_right_mono)
  then show ?thesis using assms(1,2) by (simp add: algebra_simps)
qed

lemma percent_change_bound:
  assumes "is_money a" "is_money b" "dval b \<noteq> 0"
  shows "\<bar>percent_change (dval a) (dval b)\<bar> \<le> 2 * 10 ^ 26"
proof -
  have b: "1 / 10 ^ 8 \<le> \<bar>dval b\<bar>"
    using on_grid_pos [of "\<bar>dval b\<bar>"] on_grid_minus [OF is_money_on_grid [OF assms(2)]] is_money_on_grid [OF assms(2)] assms(3)
    by (simp add: abs_if split: if_splits)
  have "\<bar>dval a - dval b\<bar> \<le> 2 * 10 ^ 16"
    using is_money_dval_bound [OF assms(1)] is_money_dval_bound [OF assms(2)] by (simp add: abs_if split: if_splits)
  then have "\<bar>dval a - dval b\<bar> / \<bar>dval b\<bar> \<le> 2 * 10 ^ 16 / (1 / 10 ^ 8)"
    using b by (intro frac_le) simp_all
  moreover define y where "y = \<bar>dval a - dval b\<bar> / \<bar>dval b\<bar>"
  ultimately have "y \<le> 2 * 10 ^ 24" by simp
  moreover have "\<bar>percent_change (dval a) (dval b)\<bar> = y * 100"
    unfolding percent_change_def abs_mult abs_divide y_def by simp
  ultimately show ?thesis by simp
qed

lemma percent_change_computed:
  assumes "is_money a" "is_money b" "dval b \<noteq> 0"
  obtains r where "mdiv (msub a b) b = Inr r"
    "\<bar>dval (mmul r HUNDRED) - percent_change (dval a) (dval b)\<bar> \<le> 1 / 10 ^ 20"
proof -
  define \<epsilon> where "\<epsilon> = (10::rat) powi (- 49)"
  have e: "0 \<le> \<epsilon>" "\<epsilon> \<le> 1" by (simp_all add: \<epsilon>_def power_int_minus field_simps)
  have "dcoef b \<noteq> 0" using assms(3) by (simp add: dval_zero_iff)
  then obtain r where r: "ddiv metrics_precision (msub a b) b = Inr r" using ddiv_total by blast
  define x where "x = (dval a - dval b) / dval b"
  have "\<bar>dval r - x\<bar> \<le> \<bar>x\<bar> * \<epsilon>"
    using ddiv_error_signed [OF r] msub_money [OF assms(1,2)] by (simp add: metrics_precision_def \<epsilon>_def x_def)
  then have "\<bar>dval r * 100 - x * 100\<bar> \<le> \<bar>x * 100\<bar> * \<epsilon>"
    using scaled_abs [of 100 "dval r" x] scaled_abs [of 100 x 0] by simp
  from relative_error_chain [OF this mmul_hundred [folded \<epsilon>_def] e]
  have "\<bar>dval (mmul r HUNDRED) - percent_change (dval a) (dval b)\<bar> \<le> \<bar>percent_change (dval a) (dval b)\<bar> * (3 * \<epsilon>)"
    by (simp add: percent_change_def x_def)
  also have "\<dots> \<le> 2 * 10 ^ 26 * (3 * \<epsilon>)"
    using percent_change_bound [OF assms] e by (intro mult_right_mono) simp_all
  also have "\<dots> \<le> 1 / 10 ^ 20" by (simp add: \<epsilon>_def power_int_minus)
  finally show thesis using that [of r] r by (simp add: mdiv_def)
qed

section \<open>Total return\<close>

lemma curve_money:
  assumes "build_equity_curve ic es s = Inr c"
  shows "cu_points c \<noteq> []" "p \<in> set (cu_points c) \<Longrightarrow> is_money (ep_equity p)"
proof -
  show "cu_points c \<noteq> []" by (rule build_calls [OF assms]) auto
  show "is_money (ep_equity p)" if "p \<in> set (cu_points c)"
    by (rule build_points [OF assms that]) (use qmoney_Inr(1) sample_point_amounts(3) in \<open>auto simp: pmoney_qmoney\<close>)
qed

text \<open>
  On every built curve the total return is defined exactly when the opening equity is not
  zero, its computation never raises, and it is within \<open>1E-8\<close> of the exact percentage change from
  the opening to the closing equity.
\<close>

lemma total_return_follows_its_rule:
  assumes "build_equity_curve ic es s = Inr c"
  shows "if dval (ep_equity (curve_opening c)) = 0 then total_return_pct c = Inr None
    else \<exists>v. total_return_pct c = Inr (Some v) \<and>
      \<bar>dval v - percent_change (dval (ep_equity (curve_closing c))) (dval (ep_equity (curve_opening c)))\<bar> \<le> 1 / 10 ^ 8"
proof (cases "dval (ep_equity (curve_opening c)) = 0")
  case False
  let ?a = "ep_equity (curve_closing c)" and ?b = "ep_equity (curve_opening c)"
  have m: "is_money ?a" "is_money ?b" using curve_money [OF assms] by simp_all
  obtain r where r: "mdiv (msub ?a ?b) ?b = Inr r"
    "\<bar>dval (mmul r HUNDRED) - percent_change (dval ?a) (dval ?b)\<bar> \<le> 1 / 10 ^ 20"
    by (rule percent_change_computed [OF m False])
  have "\<bar>dval (mmul r HUNDRED)\<bar> \<le> 2 * 10 ^ 26 + 1 / 10 ^ 20" using r(2) percent_change_bound [OF m False] by linarith
  also have "\<dots> < 10 ^ 40" by simp
  finally have "\<bar>dval (mmul r HUNDRED)\<bar> < 10 ^ 40" .
  from mquantize_facts [OF this] obtain v where v: "mquantize (mmul r HUNDRED) 8 = Inr v"
    "\<bar>dval v - dval (mmul r HUNDRED)\<bar> \<le> 1 / (2 * 10 ^ 8)" by blast
  have "\<bar>dval v - percent_change (dval ?a) (dval ?b)\<bar> \<le> 1 / (2 * 10 ^ 8) + 1 / 10 ^ 20" using v(2) r(2) by linarith
  also have "\<dots> \<le> 1 / 10 ^ 8" by simp
  finally show ?thesis
    using False r(1) v(1) by (simp add: total_return_pct_def deq_iff PERCENT_SCALE_def)
qed (simp add: total_return_pct_def deq_iff)

section \<open>Drawdown\<close>

text \<open>The rule of the catalogue: the least change from the running maximum.\<close>

definition drawdown_rule :: "rat list \<Rightarrow> rat" where
  "drawdown_rule es = Min ((\<lambda>t. percent_change (es ! t) (Max (set (take (Suc t) es)))) ` {..<length es})"

text \<open>The loop in exact arithmetic.\<close>

fun exact_drawdown :: "rat \<Rightarrow> rat \<Rightarrow> rat list \<Rightarrow> rat" where
  "exact_drawdown peak worst [] = worst"
| "exact_drawdown peak worst (e # es) =
     exact_drawdown (max peak e) (min worst (percent_change e (max peak e))) es"

lemma Max_insert2_assoc: "finite A \<Longrightarrow> A \<noteq> {} \<Longrightarrow> max (a::rat) (max b (Max A)) = max (max a b) (Max A)"
  by (rule max.assoc [symmetric])

lemma exact_drawdown_Min:
  "exact_drawdown peak worst es =
     Min (insert worst ((\<lambda>t. percent_change (es ! t) (Max (insert peak (set (take (Suc t) es))))) ` {..<length es}))"
proof (induction es arbitrary: peak worst)
  case (Cons e es)
  let ?f = "\<lambda>peak es t. percent_change (es ! t) (Max (insert peak (set (take (Suc t) es))))"
  have step: "?f peak (e # es) (Suc t) = ?f (max peak e) es t" for t
    by (cases "set (take (Suc t) es) = {}") (simp_all add: Max_insert2_assoc)
  have "?f peak (e # es) ` {..<length (e # es)} = insert (?f peak (e # es) 0) (?f (max peak e) es ` {..<length es})"
    by (simp only: length_Cons lessThan_Suc_eq_insert_0 image_insert image_image step)
  moreover have "?f peak (e # es) 0 = percent_change e (max peak e)" by (simp add: max.commute)
  ultimately have "Min (insert worst (?f peak (e # es) ` {..<length (e # es)})) =
      Min (insert worst (insert (percent_change e (max peak e)) (?f (max peak e) es ` {..<length es})))"
    by (simp only:)
  also have "\<dots> = Min (insert (min worst (percent_change e (max peak e))) (?f (max peak e) es ` {..<length es}))"
    by (cases "{..<length es} = {}") (simp_all add: min.assoc)
  finally show ?case using Cons.IH by simp
qed simp

lemma exact_drawdown_rule:
  assumes "es \<noteq> []" "0 < hd es"
  shows "exact_drawdown (hd es) 0 es = drawdown_rule es"
proof -
  let ?f = "\<lambda>t. percent_change (es ! t) (Max (set (take (Suc t) es)))"
  obtain e l where es: "es = e # l" using assms(1) by (cases es) auto
  have same: "insert (hd es) (set (take (Suc t) es)) = set (take (Suc t) es)" for t
    by (auto simp: es)
  have "0 \<in> ?f ` {..<length es}" by (rule image_eqI [of _ _ 0]) (simp_all add: es percent_change_def)
  then have "insert 0 (?f ` {..<length es}) = ?f ` {..<length es}" by (rule insert_absorb)
  then show ?thesis unfolding exact_drawdown_Min drawdown_rule_def same by simp
qed

lemma min_close:
  fixes a b c d \<delta> :: rat
  assumes "\<bar>a - c\<bar> \<le> \<delta>" "\<bar>b - d\<bar> \<le> \<delta>"
  shows "\<bar>min a b - min c d\<bar> \<le> \<delta>"
  using assms by (simp add: min_def) linarith

lemma drawdown_loop_close:
  assumes "is_money peak" "0 < dval peak" "\<forall>p\<in>set ps. is_money (ep_equity p)"
    "\<bar>dval worst - x\<bar> \<le> 1 / 10 ^ 20" "\<bar>dval worst\<bar> \<le> 3 * 10 ^ 26" "dval worst \<le> 0"
  shows "\<exists>w. drawdown_loop peak worst ps = Inr (Some w) \<and>
    \<bar>dval w - exact_drawdown (dval peak) x (map (dval \<circ> ep_equity) ps)\<bar> \<le> 1 / 10 ^ 20 \<and>
    \<bar>dval w\<bar> \<le> 3 * 10 ^ 26 \<and> dval w \<le> 0"
  using assms
proof (induction ps arbitrary: peak worst x)
  case (Cons p ps)
  let ?e = "ep_equity p"
  let ?peak = "if dless peak ?e then ?e else peak"
  have e: "is_money ?e" and pk: "is_money ?peak" "0 < dval ?peak" and pv: "dval ?peak = max (dval peak) (dval ?e)"
    using Cons.prems by (auto simp: dless_iff max_def)
  have nz: "dval ?peak \<noteq> 0" using pk(2) by linarith
  obtain r where r: "mdiv (msub ?e ?peak) ?peak = Inr r"
    "\<bar>dval (mmul r HUNDRED) - percent_change (dval ?e) (dval ?peak)\<bar> \<le> 1 / 10 ^ 20"
    by (rule percent_change_computed [OF e pk(1) nz])
  let ?w = "dmin worst (mmul r HUNDRED)" and ?x = "min x (percent_change (dval ?e) (dval ?peak))"
  have wv: "dval ?w = min (dval worst) (dval (mmul r HUNDRED))" by (rule dval_dmin)
  have c1: "\<bar>dval ?w - ?x\<bar> \<le> 1 / 10 ^ 20" unfolding wv by (rule min_close [OF Cons.prems(4) r(2)])
  have "\<bar>dval (mmul r HUNDRED)\<bar> \<le> 2 * 10 ^ 26 + 1 / 10 ^ 20" using r(2) percent_change_bound [OF e pk(1) nz] by linarith
  also have "\<dots> \<le> 3 * 10 ^ 26" by simp
  finally have c2: "\<bar>dval ?w\<bar> \<le> 3 * 10 ^ 26" using Cons.prems(5) unfolding wv by (simp add: min_def)
  have c3: "dval ?w \<le> 0" using Cons.prems(6) unfolding wv by simp
  have "drawdown_loop peak worst (p # ps) = drawdown_loop ?peak ?w ps"
    using pk(2) r(1) by (simp add: Let_def dle_iff)
  moreover have "exact_drawdown (dval peak) x (map (dval \<circ> ep_equity) (p # ps)) =
      exact_drawdown (dval ?peak) ?x (map (dval \<circ> ep_equity) ps)" by (simp add: pv)
  moreover have ps: "\<forall>q\<in>set ps. is_money (ep_equity q)" using Cons.prems(3) by simp
  moreover note Cons.IH [OF pk ps c1 c2 c3]
  ultimately show ?case by (simp only:)
qed simp

text \<open>
  C22. On every built curve with a positive opening equity the maximum drawdown is computed
  without error, is never positive, and is within \<open>1E-8\<close> of the rule of the catalogue: the
  least, over all points, of the percentage change from the running maximum of the equity.
\<close>

theorem max_drawdown_follows_its_rule:
  assumes "build_equity_curve ic es s = Inr c" "0 < dval (ep_equity (curve_opening c))"
  shows "\<exists>v. max_drawdown_pct c = Inr (Some v) \<and> dval v \<le> 0 \<and>
    \<bar>dval v - drawdown_rule (map (dval \<circ> ep_equity) (cu_points c))\<bar> \<le> 1 / 10 ^ 8"
proof -
  let ?es = "map (dval \<circ> ep_equity) (cu_points c)" and ?o = "ep_equity (curve_opening c)"
  note cm = curve_money [OF assms(1)]
  have o: "is_money ?o" using cm by simp
  have "\<exists>w. drawdown_loop ?o dzero (cu_points c) = Inr (Some w) \<and>
    \<bar>dval w - exact_drawdown (dval ?o) 0 ?es\<bar> \<le> 1 / 10 ^ 20 \<and> \<bar>dval w\<bar> \<le> 3 * 10 ^ 26 \<and> dval w \<le> 0"
    by (rule drawdown_loop_close [OF o assms(2)]) (use cm(2) in simp_all)
  then obtain w where w: "drawdown_loop ?o dzero (cu_points c) = Inr (Some w)"
    "\<bar>dval w - exact_drawdown (dval ?o) 0 ?es\<bar> \<le> 1 / 10 ^ 20" "\<bar>dval w\<bar> \<le> 3 * 10 ^ 26" "dval w \<le> 0" by blast
  have h: "?es \<noteq> []" "hd ?es = dval ?o" using cm(1) by (simp_all add: hd_map)
  have x: "exact_drawdown (dval ?o) 0 ?es = drawdown_rule ?es"
    using exact_drawdown_rule [OF h(1)] assms(2) h(2) by simp
  have "(3::rat) * 10 ^ 26 < 10 ^ 40" by simp
  with w(3) have "\<bar>dval w\<bar> < 10 ^ 40" by linarith
  from mquantize_facts [OF this] obtain v where v: "mquantize w 8 = Inr v" "\<bar>dval v - dval w\<bar> \<le> 1 / (2 * 10 ^ 8)"
    "dval v \<le> 0" using w(4) by blast
  have "\<bar>dval v - drawdown_rule ?es\<bar> \<le> 1 / (2 * 10 ^ 8) + 1 / 10 ^ 20" using v(2) w(2) x by linarith
  also have "\<dots> \<le> 1 / 10 ^ 8" by simp
  finally have "\<bar>dval v - drawdown_rule ?es\<bar> \<le> 1 / 10 ^ 8" .
  moreover have "max_drawdown_pct c = Inr (Some v)"
    using assms(2) w(1) v(1) by (simp add: max_drawdown_pct_def dle_iff PERCENT_SCALE_def)
  ultimately show ?thesis using v(3) by blast
qed

lemma curve_demo_drawdown: "drawdown_rule (map (dval \<circ> ep_equity) (cu_points curve_demo)) = - 400 / 102"
proof -
  have "{..<Suc (Suc (Suc 0))} = {0, Suc 0, Suc (Suc 0)}" by auto
  then show ?thesis
    by (simp add: drawdown_rule_def curve_demo_def demo_point_def percent_change_def dval_scaled_Dec powi_minus8 del: lessThan_Suc)
qed

theorem max_drawdown_follows_its_rule_witness:
  "\<exists>v. max_drawdown_pct curve_demo = Inr (Some v) \<and> dval v \<le> 0 \<and> \<bar>dval v - (- 400 / 102)\<bar> \<le> 1 / 10 ^ 8"
proof -
  have "0 < dval (ep_equity (curve_opening curve_demo))" by (simp add: curve_demo_def dval_scaled_Dec)
  from max_drawdown_follows_its_rule [OF curve_demo_built this] show ?thesis unfolding curve_demo_drawdown .
qed

section \<open>Win rate\<close>

lemma win_rate_is_a_percentage:
  assumes "0 \<le> winning" "winning \<le> closing" "0 < closing"
  shows "\<exists>v. win_rate_pct closing winning = Inr (Some v) \<and> 0 \<le> dval v \<and> dval v \<le> 100 \<and>
    \<bar>dval v - of_int winning / of_int closing * 100\<bar> \<le> 1 / 10 ^ 8"
proof -
  define \<epsilon> where "\<epsilon> = (10::rat) powi (- 49)"
  have e: "0 \<le> \<epsilon>" "\<epsilon> \<le> 1" by (simp_all add: \<epsilon>_def power_int_minus field_simps)
  define x where "x = (of_int winning / of_int closing :: rat)"
  have x: "0 \<le> x" "x \<le> 1" using assms by (simp_all add: x_def)
  have "dcoef (dec_of_int closing) \<noteq> 0" using assms by (simp add: dec_of_int_def)
  then obtain r where r: "ddiv metrics_precision (dec_of_int winning) (dec_of_int closing) = Inr r" using ddiv_total by blast
  have "\<bar>dval r - x\<bar> \<le> \<bar>x\<bar> * \<epsilon>"
    using ddiv_error_signed [OF r] by (simp add: metrics_precision_def \<epsilon>_def x_def)
  then have "\<bar>dval r * 100 - x * 100\<bar> \<le> \<bar>x * 100\<bar> * \<epsilon>"
    using scaled_abs [of 100 "dval r" x] scaled_abs [of 100 x 0] by simp
  from relative_error_chain [OF this mmul_hundred [folded \<epsilon>_def] e]
  have "\<bar>dval (mmul r HUNDRED) - x * 100\<bar> \<le> \<bar>x * 100\<bar> * (3 * \<epsilon>)" .
  also have "\<dots> \<le> 100 * (3 * \<epsilon>)" using x e by (intro mult_right_mono) simp_all
  also have "\<dots> \<le> 1 / 10 ^ 20" by (simp add: \<epsilon>_def power_int_minus)
  finally have c: "\<bar>dval (mmul r HUNDRED) - x * 100\<bar> \<le> 1 / 10 ^ 20" .
  have nn: "0 \<le> dval (mmul r HUNDRED)"
  proof -
    have "ddiv metrics_precision (Dec False (nat winning) 0) (Dec False (nat closing) 0) = Inr r"
      using r assms by (simp add: dec_of_int_def)
    then have "r = with_sign False r"
      using ddiv_sign [of metrics_precision False "nat winning" 0 False "nat closing" 0] by simp
    then have "\<not> dneg r" by (metis decimal.sel(1) with_sign_def)
    then have "0 \<le> dval r" by (rule dval_nonneg)
    then show ?thesis by (rule dmul_nonneg) (simp add: HUNDRED_def)
  qed
  have "\<bar>dval (mmul r HUNDRED)\<bar> \<le> 100 + 1 / 10 ^ 20" using c x by linarith
  also have "\<dots> < 10 ^ 40" by simp
  finally obtain v where v: "mquantize (mmul r HUNDRED) 8 = Inr v" "\<bar>dval v - dval (mmul r HUNDRED)\<bar> \<le> 1 / (2 * 10 ^ 8)" "0 \<le> dval v"
    "dval v * 10 ^ 8 = of_int (rhe (dval (mmul r HUNDRED) * 10 ^ 8))"
    using mquantize_facts [of "mmul r HUNDRED"] nn by blast
  have close: "\<bar>dval v - x * 100\<bar> \<le> 1 / (2 * 10 ^ 8) + 1 / 10 ^ 20" using v(2) c by linarith
  have half: "(1::rat) / (2 * 10 ^ 8) + 1 / 10 ^ 20 < 1 / 10 ^ 8" by simp
  have "dval v \<le> 100"
  proof (rule ccontr)
    assume "\<not> dval v \<le> 100"
    moreover have "on_grid (dval v - 100)"
      using on_grid_diff [OF on_gridI [OF v(4)] on_grid_of_int [of 100]] by simp
    ultimately have "1 / 10 ^ 8 \<le> dval v - 100" by (intro on_grid_pos) simp_all
    with close half x show False by linarith
  qed
  moreover have "\<bar>dval v - x * 100\<bar> \<le> 1 / 10 ^ 8" using close half by linarith
  moreover have "win_rate_pct closing winning = Inr (Some v)"
    using assms r v(1) by (simp add: win_rate_pct_def perf_count_def mdiv_def PERCENT_SCALE_def)
  ultimately show ?thesis using v(3) by (auto simp: x_def)
qed

section \<open>The integer square root\<close>

lemma isqrt_correct: "isqrt n * isqrt n \<le> n \<and> n < (isqrt n + 1) * (isqrt n + 1)"
proof (induction n rule: isqrt.induct)
  case (1 n)
  show ?case
  proof (cases "n = 0")
    case False
    define m where "m = isqrt (n div 4)"
    have m: "m * m \<le> n div 4" "n div 4 < (m + 1) * (m + 1)" using 1 [OF False] by (simp_all add: m_def)
    have "4 * (m * m) \<le> n" using m(1) by linarith
    then have lo: "(2 * m) * (2 * m) \<le> n" by simp
    have "n < 4 * (n div 4 + 1)" by presburger
    also have "\<dots> \<le> 4 * ((m + 1) * (m + 1))" using m(2) by simp
    finally have hi: "n < (2 * m + 2) * (2 * m + 2)" by (simp add: algebra_simps)
    show ?thesis using lo hi False by (auto simp: isqrt.simps [of n] Let_def m_def [symmetric] algebra_simps)
  qed (simp add: isqrt.simps)
qed

section \<open>The hash material\<close>

definition canonical_metric :: "metric \<Rightarrow> bool" where
  "canonical_metric m \<longleftrightarrow> (\<exists>r. map_of METRIC_RULES (me_key m) = Some r \<and> me_rule_id m = mr_rule_id r \<and> me_unit m = mr_unit r) \<and>
     (\<forall>v. me_value m = Some v \<longrightarrow> (if me_unit m = COUNT then \<exists>n. v = dec_of_int n else dexp v = - 8))"

lemma metric_for_canonical:
  assumes "metric_for key v = Inr m" "\<And>x. v = Some x \<Longrightarrow> (if mr_unit (the (map_of METRIC_RULES key)) = COUNT then \<exists>n. x = dec_of_int n else dexp x = - 8)"
  shows "canonical_metric m \<and> me_key m = key"
  using assms by (auto simp: metric_for_def metric_new_def err_simps canonical_metric_def split: option.splits if_splits)

lemma dexp_mquantize: "mquantize v 8 = Inr r \<Longrightarrow> dexp r = - 8"
  by (auto simp: mquantize_def dquantize_def err_simps Let_def split: if_splits)

lemma percentages_scaled:
  "total_return_pct c = Inr (Some v) \<Longrightarrow> dexp v = - 8"
  "max_drawdown_pct c = Inr (Some v) \<Longrightarrow> dexp v = - 8"
  "sharpe_ratio c = Inr (Some v) \<Longrightarrow> dexp v = - 8"
  "annualized_volatility_pct c = Inr (Some v) \<Longrightarrow> dexp v = - 8"
  "win_rate_pct n k = Inr (Some v) \<Longrightarrow> dexp v = - 8"
  using dexp_mquantize
  by (auto simp: total_return_pct_def max_drawdown_pct_def sharpe_ratio_def annualized_volatility_pct_def win_rate_pct_def
      err_simps Let_def PERCENT_SCALE_def RATIO_SCALE_def split: if_splits option.splits)

lemma built_metrics_canonical:
  assumes "build_metrics c x = Inr ms"
  shows "\<forall>m\<in>set (mse_metrics ms). canonical_metric m" "distinct (map me_key (mse_metrics ms))"
    "sorted (map me_key (mse_metrics ms))" "mset (map me_key (mse_metrics ms)) = mset (map fst METRIC_RULES)"
proof -
  from assms obtain l where l: "emap id (metric_list c x) = Inr l"
    and n: "sort (map me_key l) = sort (map fst METRIC_RULES)" and ms: "mse_metrics ms = sort_key me_key l"
    by (auto simp: build_metrics_def metric_set_new_def err_simps)
  have money: "canonical_metric m" if "money_metric key d = Inr m" "mr_unit (the (map_of METRIC_RULES key)) \<noteq> COUNT" for m key d
  proof -
    from that obtain v where v: "pmoney d = Inr v" "metric_for key (Some v) = Inr m" by (auto simp: money_metric_def err_simps)
    then have "dexp v = - 8" using qmoney_Inr(1) by (auto simp: pmoney_qmoney is_money_def)
    with metric_for_canonical [OF v(2)] that(2) show ?thesis by simp
  qed
  have counts: "canonical_metric m" if "count_metric key n = Inr m" "mr_unit (the (map_of METRIC_RULES key)) = COUNT" for m key n
    using that metric_for_canonical [of key "Some (dec_of_int n)" m] by (auto simp: count_metric_def)
  have pct: "canonical_metric m" if "ebind f (metric_for key) = Inr m" "\<And>v. f = Inr (Some v) \<Longrightarrow> dexp v = - 8"
    "mr_unit (the (map_of METRIC_RULES key)) \<noteq> COUNT" for m key f
  proof -
    from that(1) obtain o' where "f = Inr o'" "metric_for key o' = Inr m" by (auto simp: err_simps)
    with that(2,3) metric_for_canonical [of key o' m] show ?thesis by simp
  qed
  have "list_all (\<lambda>f. \<forall>m. f = Inr m \<longrightarrow> canonical_metric m) (metric_list c x)"
    unfolding metric_list_def list.pred_inject
    by (intro conjI allI impI; (simp; fail)?; (erule pct | erule money | erule counts);
        simp add: METRIC_RULES_def percentages_scaled)
  then have "canonical_metric m" if "m \<in> set l" for m
    using emap_set [OF l that] by (auto simp: list_all_iff)
  then show "\<forall>m\<in>set (mse_metrics ms). canonical_metric m" by (simp add: ms)
  have keys: "mset (map me_key l) = mset (map fst METRIC_RULES)" using n by (metis mset_sort)
  show "mset (map me_key (mse_metrics ms)) = mset (map fst METRIC_RULES)" unfolding ms using keys by simp
  have "distinct (map fst METRIC_RULES)" by (simp add: METRIC_RULES_def)
  then show "distinct (map me_key (mse_metrics ms))"
    using keys unfolding ms by (metis mset_eq_imp_distinct_iff mset_map mset_sort)
  show "sorted (map me_key (mse_metrics ms))" unfolding ms by simp
qed

lemma int_str_inject: "int_str a = int_str b \<Longrightarrow> a = b"
proof -
  assume e: "int_str a = int_str b"
  have hd: "hd (int_str n) = CHR ''-'' \<longleftrightarrow> n < 0" for n
    using hd_nat_str [of "nat n" "[]"] by (simp add: int_str_def)
  have "a < 0 \<longleftrightarrow> b < 0" using hd [of a] hd [of b] e by simp
  then show "a = b" using e by (auto simp: int_str_def nat_str_inject split: if_splits)
qed

lemma exact_text_inject:
  assumes "canonical_metric m" "canonical_metric m'" "me_unit m' = me_unit m" "exact_text m = exact_text m'"
  shows "me_value m = me_value m'"
proof (cases "me_value m")
  case None
  then show ?thesis using assms(4) by (auto simp: exact_text_def split: option.splits)
next
  case (Some v)
  then obtain v' where v': "me_value m' = Some v'" using assms(4) by (auto simp: exact_text_def split: option.splits)
  have "v = v'"
  proof (cases "me_unit m = COUNT")
    case True
    obtain n n' where n: "v = dec_of_int n" "v' = dec_of_int n'"
      using assms(1-3) Some v' True by (auto simp: canonical_metric_def)
    have "dec_int (dec_of_int k) = k" for k by (auto simp: dec_int_def dec_of_int_def Let_def)
    then have "int_str n = int_str n'" using assms(3,4) Some v' True by (simp add: exact_text_def n)
    then have "n = n'" by (rule int_str_inject)
    then show ?thesis by (simp add: n)
  next
    case False
    then have "dexp v = - 8" "dexp v' = - 8" using assms(1-3) Some v' by (auto simp: canonical_metric_def)
    moreover have "fixed_point_text v = fixed_point_text v'" using assms(3,4) Some v' False by (simp add: exact_text_def)
    ultimately show ?thesis using fixed_point_text_inject by simp
  qed
  then show ?thesis using Some v' by simp
qed

text \<open>
  The hash material identifies the metrics: if two built metric sets have the same
  material, they are the same list of metrics, with the same rules, units and exact values; the
  text forms lose nothing.
\<close>

theorem hash_material_identifies_metrics:
  assumes "build_metrics c x = Inr ms" "build_metrics c' x' = Inr ms'"
    and "metrics_hash_material ms = metrics_hash_material ms'"
  shows "mse_metrics ms = mse_metrics ms'"
proof -
  let ?row = "\<lambda>m. (me_key m, me_rule_id m, unit_text (me_unit m), exact_text m)"
  note b = built_metrics_canonical [OF assms(1)] and b' = built_metrics_canonical [OF assms(2)]
  have "sort_key fst (map ?row (mse_metrics ms)) = map ?row (mse_metrics ms)"
    "sort_key fst (map ?row (mse_metrics ms')) = map ?row (mse_metrics ms')"
    using b(3) b'(3) by (auto intro!: sort_key_id_if_sorted simp: comp_def)
  then have rows: "map ?row (mse_metrics ms) = map ?row (mse_metrics ms')"
    using assms(3) by (simp add: metrics_hash_material_def)
  have eq: "m = m'" if "canonical_metric m" "canonical_metric m'" "?row m = ?row m'" for m m'
  proof -
    have u: "me_unit m' = me_unit m" using that by (auto simp: canonical_metric_def)
    have "me_value m = me_value m'" by (rule exact_text_inject [OF that(1,2) u]) (use that(3) in simp)
    then show ?thesis by (intro metric.equality) (use that(3) u in simp_all)
  qed
  have len: "length (mse_metrics ms) = length (mse_metrics ms')" using rows by (rule map_eq_imp_length_eq)
  show ?thesis
  proof (rule nth_equalityI [OF len])
    fix i assume i: "i < length (mse_metrics ms)"
    have "?row (mse_metrics ms ! i) = ?row (mse_metrics ms' ! i)"
      using arg_cong [OF rows, of "\<lambda>l. l ! i"] i len by simp
    then show "mse_metrics ms ! i = mse_metrics ms' ! i"
      by (intro eq) (use b(1) b'(1) i len in auto)
  qed
qed

text \<open>A curve with its opening point only, at any instant.\<close>

definition flat_curve :: "instant \<Rightarrow> equity_curve" where
  "flat_curve t = \<lparr>cu_basis = COST_BASIS, cu_periodicity = EVENT,
     cu_points = [\<lparr>ep_as_of = t, ep_cash = Dec False 10000000000 (- 8), ep_holdings = [],
       ep_position_value = Dec False 0 (- 8), ep_equity = Dec False 10000000000 (- 8)\<rparr>]\<rparr>"

lemma flat_metrics: "\<exists>ms. build_metrics (flat_curve t) empty_statistics = Inr ms"
proof -
  have d: "mdiv (msub (Dec False 10000000000 (- 8)) (Dec False 10000000000 (- 8))) (Dec False 10000000000 (- 8)) = Inr dzero"
    by (simp add: mdiv_def metrics_precision_def dec_eval)
  have m: "mmul dzero HUNDRED = dzero" by (simp add: metrics_precision_def HUNDRED_def dec_eval)
  have q: "mquantize dzero 8 = Inr (Dec False 0 (- 8))" by (simp add: mquantize_def metrics_precision_def dec_eval)
  have p: "pmoney (Dec False 10000000000 (- 8)) = Inr (Dec False 10000000000 (- 8))" "pmoney dzero = Inr (Dec False 0 (- 8))"
    by (simp_all add: curve_eval cong: ebind_weak_cong)
  have cmp: "deq (Dec False 10000000000 (- 8)) dzero = False" "dle (Dec False 10000000000 (- 8)) dzero = False"
    "dless (Dec False 10000000000 (- 8)) (Dec False 10000000000 (- 8)) = False" "dmin dzero dzero = dzero"
    by (simp_all add: dec_eval)
  have r: "total_return_pct (flat_curve t) = Inr (Some (Dec False 0 (- 8)))"
    "max_drawdown_pct (flat_curve t) = Inr (Some (Dec False 0 (- 8)))"
    "sharpe_ratio (flat_curve t) = Inr None" "annualized_volatility_pct (flat_curve t) = Inr None"
    "win_rate_pct 0 0 = Inr None"
    by (simp_all add: flat_curve_def total_return_pct_def max_drawdown_pct_def sharpe_ratio_def
        annualized_volatility_pct_def win_rate_pct_def perf_count_def PERCENT_SCALE_def d m q cmp)
  have i: "is_integral (dec_of_int n)" for n
    by (simp add: is_integral_def to_integral_floor_def deq_iff dec_of_int_def)
  have "\<exists>l. emap id (metric_list (flat_curve t) empty_statistics) = Inr l \<and> map me_key l = map fst METRIC_RULES"
    by (simp add: metric_list_def r empty_statistics_def money_metric_def count_metric_def metric_for_def METRIC_RULES_def
        metric_new_def i) (simp add: flat_curve_def p)
  then show ?thesis by (auto simp: build_metrics_def metric_set_new_def)
qed

theorem hash_material_identifies_metrics_witness:
  "\<exists>ms ms'. build_metrics (flat_curve 0) empty_statistics = Inr ms \<and>
     build_metrics (flat_curve 1) empty_statistics = Inr ms' \<and> mse_metrics ms = mse_metrics ms'"
proof -
  obtain ms ms' where m: "build_metrics (flat_curve 0) empty_statistics = Inr ms"
    "build_metrics (flat_curve 1) empty_statistics = Inr ms'" using flat_metrics by blast
  have "metric_list (flat_curve 0) empty_statistics = metric_list (flat_curve 1) empty_statistics"
    by (simp add: metric_list_def flat_curve_def total_return_pct_def max_drawdown_pct_def sharpe_ratio_def
        annualized_volatility_pct_def Let_def)
  then have "ms = ms'" using m by (simp add: build_metrics_def flat_curve_def)
  then have "metrics_hash_material ms = metrics_hash_material ms'" by simp
  from hash_material_identifies_metrics [OF m this] m show ?thesis by blast
qed

end
