(* ===== verification/Event_Clock.thy ===== *)
theory Event_Clock
  imports Py_Text "HOL-Library.Product_Lexorder" "HOL-Library.Char_ord" "HOL-Library.List_Lexorder"
begin

text \<open>
  \<open>event_clock.py\<close>: official trading sessions, the pinned session schedule with its queries,
  and the monotonic market-event clock. The ET calendar date of an instant comes from the
  time-zone database and is the parameter \<open>et_date\<close>; dates are day numbers. Event payloads
  are opaque. The lemmas show that the schedule is a unique index by trading date, that the
  status classifies instants correctly, and that the clock reveals exactly the events
  available by its instant, whatever the order in which they were supplied.
\<close>

section \<open>Sessions\<close>

datatype clock_error = EventClockValidationError string

datatype market_session_status =
  PRE_MARKET | REGULAR_OPEN | POST_MARKET | MARKET_CLOSED | CALENDAR_UNAVAILABLE

type_synonym date = int

definition clock_utc :: "py_datetime \<Rightarrow> string \<Rightarrow> clock_error + instant" where
  "clock_utc d label = utc_or (EventClockValidationError (label @ '' must be timezone-aware'')) d"

record 't trading_session =
  ts_date :: date
  ts_opens_at :: 't
  ts_closes_at :: 't

type_synonym session = "instant trading_session"

definition trading_session_new ::
  "(instant \<Rightarrow> date) \<Rightarrow> py_datetime trading_session \<Rightarrow> clock_error + session" where
  "trading_session_new et_date s =
     ebind (clock_utc (ts_opens_at s) ''opens_at'') (\<lambda>opens.
     ebind (clock_utc (ts_closes_at s) ''closes_at'') (\<lambda>closes.
     ebind (require (opens < closes) (EventClockValidationError ''opens_at must precede closes_at'')) (\<lambda>_.
     ebind (require (et_date opens = ts_date s \<and> et_date closes = ts_date s)
       (EventClockValidationError ''session boundaries must match trading_date_et'')) (\<lambda>_.
     Inr \<lparr>ts_date = ts_date s, ts_opens_at = opens, ts_closes_at = closes\<rparr>))))"

definition session_contains :: "session \<Rightarrow> instant \<Rightarrow> bool" where
  "session_contains s t = (ts_opens_at s \<le> t \<and> t < ts_closes_at s)"

section \<open>The schedule\<close>

record schedule =
  sch_from :: date
  sch_through :: date
  sch_sessions :: "session list"
  sch_by_date :: "(date \<times> session) list"

text \<open>The indexing loop over the sessions ordered by opening; \<open>previous\<close> is the last one.\<close>

fun index_sessions ::
  "date \<Rightarrow> date \<Rightarrow> session list \<Rightarrow> session option \<Rightarrow> (date \<times> session) list
     \<Rightarrow> clock_error + (date \<times> session) list" where
  "index_sessions lo hi [] previous index = Inr index"
| "index_sessions lo hi (s # ss) previous index =
     (if map_of index (ts_date s) \<noteq> None
      then Inl (EventClockValidationError ''official sessions must have unique trading_date_et values'')
      else if \<not> (lo \<le> ts_date s \<and> ts_date s \<le> hi)
      then Inl (EventClockValidationError ''official session is outside calendar coverage'')
      else if (case previous of None \<Rightarrow> False | Some p \<Rightarrow> ts_opens_at s < ts_closes_at p)
      then Inl (EventClockValidationError ''official sessions must not overlap'')
      else index_sessions lo hi ss (Some s) (dict_put (ts_date s) s index))"

definition schedule_new :: "date \<Rightarrow> date \<Rightarrow> session list \<Rightarrow> clock_error + schedule" where
  "schedule_new lo hi sessions =
     ebind (require (lo \<le> hi)
       (EventClockValidationError ''covered_from_et must not follow covered_through_et'')) (\<lambda>_.
     let ordered = sort_key ts_opens_at sessions in
     ebind (index_sessions lo hi ordered None []) (\<lambda>index.
     Inr \<lparr>sch_from = lo, sch_through = hi, sch_sessions = ordered, sch_by_date = index\<rparr>))"

definition covers :: "(instant \<Rightarrow> date) \<Rightarrow> schedule \<Rightarrow> instant \<Rightarrow> bool" where
  "covers et_date c t = (sch_from c \<le> et_date t \<and> et_date t \<le> sch_through c)"

definition session_on :: "schedule \<Rightarrow> date \<Rightarrow> session option" where
  "session_on c d = map_of (sch_by_date c) d"

definition session_at :: "(instant \<Rightarrow> date) \<Rightarrow> schedule \<Rightarrow> instant \<Rightarrow> session option" where
  "session_at et_date c t = map_of (sch_by_date c) (et_date t)"

definition next_session_after :: "schedule \<Rightarrow> instant \<Rightarrow> session option" where
  "next_session_after c t = find (\<lambda>s. t < ts_opens_at s) (sch_sessions c)"

definition status_at ::
  "(instant \<Rightarrow> date) \<Rightarrow> schedule \<Rightarrow> instant \<Rightarrow> session option \<times> market_session_status" where
  "status_at et_date c t =
     (if \<not> covers et_date c t then (None, CALENDAR_UNAVAILABLE)
      else case session_at et_date c t of
        None \<Rightarrow> (None, MARKET_CLOSED)
      | Some s \<Rightarrow>
          if t < ts_opens_at s then (Some s, PRE_MARKET)
          else if t < ts_closes_at s then (Some s, REGULAR_OPEN)
          else (Some s, POST_MARKET))"

section \<open>Events\<close>

record ('t, 'p) market_data_event =
  ev_event_id :: string
  ev_instrument_id :: string
  ev_occurred_at :: 't
  ev_available_at :: 't
  ev_source_sequence :: int
  ev_event_type :: string
  ev_payload :: 'p

type_synonym 'p event = "(instant, 'p) market_data_event"

definition clock_text :: "string \<Rightarrow> string \<Rightarrow> clock_error + string" where
  "clock_text v label =
     (if v = [] then Inl (EventClockValidationError (label @ '' must be a non-empty string'')) else Inr v)"

definition market_data_event_new ::
  "(py_datetime, 'p) market_data_event \<Rightarrow> clock_error + 'p event" where
  "market_data_event_new e =
     ebind (clock_text (ev_event_id e) ''event_id'') (\<lambda>_.
     ebind (clock_text (ev_instrument_id e) ''instrument_id'') (\<lambda>raw.
     case uuid_parse raw of
       None \<Rightarrow> Inl (EventClockValidationError ''instrument_id must be a UUID'')
     | Some iid \<Rightarrow>
         ebind (clock_text (ev_event_type e) ''event_type'') (\<lambda>_.
         ebind (require (1 \<le> ev_source_sequence e)
           (EventClockValidationError ''source_sequence must be positive'')) (\<lambda>_.
         ebind (clock_utc (ev_occurred_at e) ''occurred_at'') (\<lambda>occurred.
         ebind (clock_utc (ev_available_at e) ''available_at'') (\<lambda>available.
         Inr \<lparr>ev_event_id = ev_event_id e, ev_instrument_id = iid, ev_occurred_at = occurred,
           ev_available_at = available, ev_source_sequence = ev_source_sequence e,
           ev_event_type = ev_event_type e, ev_payload = ev_payload e\<rparr>))))))"

definition event_key :: "'p event \<Rightarrow> instant \<times> int \<times> string" where
  "event_key e = (ev_available_at e, ev_source_sequence e, ev_event_id e)"

text \<open>\<open>event.occurred_at\<close> lies in an official session, or closes its last bar.\<close>

definition in_official_session :: "(instant \<Rightarrow> date) \<Rightarrow> schedule \<Rightarrow> 'p event \<Rightarrow> bool" where
  "in_official_session et_date c e =
     (case session_at et_date c (ev_occurred_at e) of
        None \<Rightarrow> False
      | Some s \<Rightarrow> session_contains s (ev_occurred_at e) \<or>
          (ev_event_type e = ''BAR_CLOSED'' \<and> ev_occurred_at e = ts_closes_at s))"

fun validate_events ::
  "(instant \<Rightarrow> date) \<Rightarrow> schedule \<Rightarrow> 'p event list \<Rightarrow> string list \<Rightarrow> (instant \<times> int) list
     \<Rightarrow> clock_error + unit" where
  "validate_events et_date c [] ids order = Inr ()"
| "validate_events et_date c (e # es) ids order =
     (if ev_event_id e \<in> set ids
      then Inl (EventClockValidationError ''event_id values must be unique'')
      else if ev_available_at e < ev_occurred_at e
      then Inl (EventClockValidationError ''available_at must not precede occurred_at'')
      else if (ev_available_at e, ev_source_sequence e) \<in> set order
      then Inl (EventClockValidationError ''events must have a unique official order'')
      else if \<not> in_official_session et_date c e
      then Inl (EventClockValidationError ''event occurred_at is outside an official regular session'')
      else validate_events et_date c es (ev_event_id e # ids)
             ((ev_available_at e, ev_source_sequence e) # order))"

section \<open>The clock\<close>

record 'p market_clock =
  clk_schedule :: schedule
  clk_events :: "'p event list"
  clk_cursor :: nat
  clk_now :: "instant option"
  clk_visible :: "'p event list"

record 'p clock_snapshot =
  snap_now :: instant
  snap_status :: market_session_status
  snap_session :: "session option"
  snap_released :: "'p event list"
  snap_visible :: "'p event list"

definition market_clock_new ::
  "(instant \<Rightarrow> date) \<Rightarrow> schedule \<Rightarrow> 'p event list \<Rightarrow> clock_error + 'p market_clock" where
  "market_clock_new et_date c events =
     ebind (validate_events et_date c events [] []) (\<lambda>_.
     Inr \<lparr>clk_schedule = c, clk_events = sort_key event_key events, clk_cursor = 0,
       clk_now = None, clk_visible = []\<rparr>)"

text \<open>The release loop: the cursor moves while the next event is available by the target.\<close>

function release_loop ::
  "instant \<Rightarrow> 'p event list \<Rightarrow> nat \<Rightarrow> 'p event list \<Rightarrow> nat \<times> 'p event list" where
  "release_loop target events cursor released =
     (if cursor < length events \<and> ev_available_at (events ! cursor) \<le> target
      then release_loop target events (cursor + 1) (released @ [events ! cursor])
      else (cursor, released))"
  by pat_completeness auto
termination by (relation "measure (\<lambda>(_, events, cursor, _). length events - cursor)") auto

declare release_loop.simps [simp del]

definition advance_to ::
  "(instant \<Rightarrow> date) \<Rightarrow> py_datetime \<Rightarrow> 'p market_clock
     \<Rightarrow> clock_error + 'p market_clock \<times> 'p clock_snapshot" where
  "advance_to et_date instant k =
     ebind (clock_utc instant ''instant'') (\<lambda>target.
     ebind (require (case clk_now k of None \<Rightarrow> True | Some n \<Rightarrow> \<not> target < n)
       (EventClockValidationError ''simulation clock must not move backward'')) (\<lambda>_.
     let (cursor, released) = release_loop target (clk_events k) (clk_cursor k) [];
         k' = k\<lparr>clk_cursor := cursor, clk_visible := clk_visible k @ released, clk_now := Some target\<rparr>;
         (session, status) = status_at et_date (clk_schedule k) target
     in Inr (k', \<lparr>snap_now = target, snap_status = status, snap_session = session,
          snap_released = released, snap_visible = clk_visible k'\<rparr>)))"

definition advance_to_next_event ::
  "(instant \<Rightarrow> date) \<Rightarrow> 'p market_clock \<Rightarrow> clock_error + ('p market_clock \<times> 'p clock_snapshot) option" where
  "advance_to_next_event et_date k =
     (if length (clk_events k) \<le> clk_cursor k then Inr None
      else ebind (advance_to et_date (Aware (ev_available_at (clk_events k ! clk_cursor k))) k)
             (\<lambda>r. Inr (Some r)))"

definition pending_event_count :: "'p market_clock \<Rightarrow> int" where
  "pending_event_count k = int (length (clk_events k)) - int (clk_cursor k)"

section \<open>The schedule is a unique index\<close>

definition chained :: "session list \<Rightarrow> bool" where
  "chained ss \<longleftrightarrow> sorted_wrt (\<lambda>a b. ts_closes_at a \<le> ts_opens_at b) ss"

lemma index_sessions_Inr:
  assumes "index_sessions lo hi ss prev index = Inr index'"
    and "index = map (\<lambda>s. (ts_date s, s)) ps" "distinct (map ts_date ps)"
  shows "index' = map (\<lambda>s. (ts_date s, s)) (ps @ ss) \<and> distinct (map ts_date (ps @ ss)) \<and>
    (\<forall>s\<in>set ss. lo \<le> ts_date s \<and> ts_date s \<le> hi)"
  using assms
proof (induction ss arbitrary: prev index ps)
  case Nil
  then show ?case by simp
next
  case (Cons s ss)
  have fresh: "ts_date s \<notin> ts_date ` set ps"
    using Cons.prems by (auto simp: map_of_eq_None_iff image_image split: if_splits)
  then have put: "dict_put (ts_date s) s index = map (\<lambda>s. (ts_date s, s)) (ps @ [s])"
    unfolding Cons.prems(2) by (subst dict_put_new) (auto simp: image_image)
  have "index_sessions lo hi ss (Some s) (dict_put (ts_date s) s index) = Inr index'"
    and r: "lo \<le> ts_date s \<and> ts_date s \<le> hi"
    using Cons.prems(1) by (auto split: if_splits)
  from Cons.IH [OF this(1) put] r fresh Cons.prems(3) show ?case by simp
qed

lemma index_sessions_chain:
  assumes "index_sessions lo hi ss prev index = Inr index'"
    and "\<forall>s\<in>set ss. ts_opens_at s < ts_closes_at s"
  shows "chained ss \<and> (\<forall>p. prev = Some p \<longrightarrow> (\<forall>s\<in>set ss. ts_closes_at p \<le> ts_opens_at s))"
  using assms
proof (induction ss arbitrary: prev index)
  case Nil
  then show ?case by (simp add: chained_def)
next
  case (Cons s ss)
  from Cons.prems have "index_sessions lo hi ss (Some s) (dict_put (ts_date s) s index) = Inr index'"
    and le: "\<forall>p. prev = Some p \<longrightarrow> ts_closes_at p \<le> ts_opens_at s"
    by (auto split: if_splits option.splits)
  with Cons.IH Cons.prems(2) have "chained ss" "\<forall>t\<in>set ss. ts_closes_at s \<le> ts_opens_at t"
    by auto
  with le Cons.prems(2) show ?case by (fastforce simp: chained_def)
qed

lemma schedule_new_Inr:
  assumes "schedule_new lo hi sessions = Inr c"
  shows "sch_by_date c = map (\<lambda>s. (ts_date s, s)) (sch_sessions c)"
    "distinct (map ts_date (sch_sessions c))" "sch_sessions c = sort_key ts_opens_at sessions"
    "\<forall>s\<in>set sessions. sch_from c \<le> ts_date s \<and> ts_date s \<le> sch_through c"
proof -
  from assms obtain index where i: "index_sessions lo hi (sort_key ts_opens_at sessions) None [] = Inr index"
    and c: "c = \<lparr>sch_from = lo, sch_through = hi, sch_sessions = sort_key ts_opens_at sessions,
      sch_by_date = index\<rparr>"
    by (auto simp: schedule_new_def err_simps Let_def)
  from index_sessions_Inr [OF i, of "[]"]
  show "sch_by_date c = map (\<lambda>s. (ts_date s, s)) (sch_sessions c)"
    "distinct (map ts_date (sch_sessions c))" "sch_sessions c = sort_key ts_opens_at sessions"
    "\<forall>s\<in>set sessions. sch_from c \<le> ts_date s \<and> ts_date s \<le> sch_through c"
    by (simp_all add: c)
qed

lemma map_of_keyed_by:
  "distinct (map key xs) \<Longrightarrow> map_of (map (\<lambda>x. (key x, x)) xs) k = Some x \<longleftrightarrow> x \<in> set xs \<and> key x = k"
  by (subst map_of_eq_Some_iff) (auto simp: o_def)

interpretation by_date: unique_index ts_date "schedule_new lo hi" session_on for lo hi
proof
  fix xs c k x
  assume "schedule_new lo hi xs = Inr c"
  note c = schedule_new_Inr [OF this]
  show "session_on c k = Some x \<longleftrightarrow> x \<in> set xs \<and> ts_date x = k"
    using map_of_keyed_by [OF c(2)] by (simp add: session_on_def c(1,3))
qed

section \<open>Release in order\<close>

lemma release_loop_takeWhile:
  "release_loop t es n out =
     (n + length (takeWhile (\<lambda>e. ev_available_at e \<le> t) (drop n es)),
      out @ takeWhile (\<lambda>e. ev_available_at e \<le> t) (drop n es))"
proof (induction t es n out rule: release_loop.induct)
  case (1 t es n out)
  show ?case
  proof (cases "n < length es \<and> ev_available_at (es ! n) \<le> t")
    case True
    then have "drop n es = es ! n # drop (n + 1) es" by (simp add: Cons_nth_drop_Suc)
    with 1 True show ?thesis by (subst release_loop.simps) simp
  next
    case False
    then have "takeWhile (\<lambda>e. ev_available_at e \<le> t) (drop n es) = []"
      by (cases "n < length es") (simp_all flip: Cons_nth_drop_Suc)
    moreover have "release_loop t es n out = (n, out)"
      using False by (simp only: release_loop.simps [of t es n out] if_False)
    ultimately show ?thesis by simp
  qed
qed

text \<open>
  The state of a running clock: the events are sorted by availability, and the visible
  ones are the prefix before the cursor, exactly those available by the current instant.
\<close>

definition clock_ok :: "'p market_clock \<Rightarrow> bool" where
  "clock_ok k \<longleftrightarrow>
     sorted (map ev_available_at (clk_events k)) \<and> clk_cursor k \<le> length (clk_events k) \<and>
     clk_visible k = take (clk_cursor k) (clk_events k) \<and>
     clk_visible k = (case clk_now k of None \<Rightarrow> []
       | Some n \<Rightarrow> filter (\<lambda>e. ev_available_at e \<le> n) (clk_events k))"

lemma clock_ok_visible:
  assumes "clock_ok k" "clk_now k = Some n"
  shows "clk_visible k = filter (\<lambda>e. ev_available_at e \<le> n) (clk_events k)"
proof -
  have "clk_visible k = (case clk_now k of None \<Rightarrow> []
      | Some n \<Rightarrow> filter (\<lambda>e. ev_available_at e \<le> n) (clk_events k))"
    using assms(1) unfolding clock_ok_def by blast
  then show ?thesis by (simp only: assms(2) option.case)
qed

lemma sorted_event_key: "sorted (map ev_available_at (sort_key event_key es))"
proof -
  have "sorted (map event_key (sort_key event_key es))" by (rule sorted_sort_key)
  then have "sorted (map fst (map event_key (sort_key event_key es)))"
    by (auto simp: sorted_map less_eq_prod_def elim!: sorted_wrt_mono_rel [rotated])
  then show ?thesis by (simp add: o_def event_key_def)
qed

lemma market_clock_new_ok: "market_clock_new et_date c es = Inr k \<Longrightarrow> clock_ok k"
  by (auto simp: market_clock_new_def err_simps clock_ok_def sorted_event_key)

text \<open>The prefix of available events grows with the instant.\<close>

lemma take_filter_sorted:
  fixes f :: "'a \<Rightarrow> 'k::linorder"
  assumes "sorted (map f xs)" "take n xs = filter (\<lambda>x. f x \<le> s) xs" "s \<le> t" "n \<le> length xs"
  shows "take n xs @ takeWhile (\<lambda>x. f x \<le> t) (drop n xs) = filter (\<lambda>x. f x \<le> t) xs"
proof -
  have "sorted (map f (drop n xs))" using sorted_wrt_drop [OF assms(1), of n] by (simp add: drop_map)
  then have tw: "takeWhile (\<lambda>x. f x \<le> t) (drop n xs) = filter (\<lambda>x. f x \<le> t) (drop n xs)"
    by (rule sorted_takeWhile_filter)
  have "filter (\<lambda>x. f x \<le> t) (take n xs) = take n xs"
    using assms(2,3) by (intro filter_True) (auto dest!: arg_cong [of _ _ set])
  then have "filter (\<lambda>x. f x \<le> t) xs = take n xs @ filter (\<lambda>x. f x \<le> t) (drop n xs)"
    by (metis append_take_drop_id filter_append)
  with tw show ?thesis by simp
qed

lemma take_cursor:
  "take (n + length (takeWhile P (drop n xs))) xs = take n xs @ takeWhile P (drop n xs)"
  unfolding take_add by (rule arg_cong, rule takeWhile_eq_take [symmetric])

lemma advance_to_Inr:
  assumes "advance_to et_date d k = Inr (k', snap)"
  obtains t where "d = Aware t" "case clk_now k of None \<Rightarrow> True | Some n \<Rightarrow> n \<le> t"
    "k' = k\<lparr>clk_cursor := clk_cursor k + length (takeWhile (\<lambda>e. ev_available_at e \<le> t) (drop (clk_cursor k) (clk_events k))),
       clk_visible := clk_visible k @ takeWhile (\<lambda>e. ev_available_at e \<le> t) (drop (clk_cursor k) (clk_events k)),
       clk_now := Some t\<rparr>"
    "snap_now snap = t" "(snap_session snap, snap_status snap) = status_at et_date (clk_schedule k) t"
    "snap_released snap = takeWhile (\<lambda>e. ev_available_at e \<le> t) (drop (clk_cursor k) (clk_events k))"
    "snap_visible snap = clk_visible k'"
  using assms unfolding advance_to_def
  by (cases d) (auto simp: clock_utc_def err_simps release_loop_takeWhile Let_def not_less intro: that
      split: prod.splits option.splits)

lemma advance_to_ok:
  assumes ok: "clock_ok k" and adv: "advance_to et_date d k = Inr (k', snap)"
  shows "clock_ok k'" "clk_events k' = clk_events k" "clk_schedule k' = clk_schedule k"
proof -
  from adv obtain t where fwd: "case clk_now k of None \<Rightarrow> True | Some n \<Rightarrow> n \<le> t"
    and k': "k' = k\<lparr>clk_cursor := clk_cursor k + length (takeWhile (\<lambda>e. ev_available_at e \<le> t) (drop (clk_cursor k) (clk_events k))),
       clk_visible := clk_visible k @ takeWhile (\<lambda>e. ev_available_at e \<le> t) (drop (clk_cursor k) (clk_events k)),
       clk_now := Some t\<rparr>"
    by (rule advance_to_Inr)
  let ?w = "takeWhile (\<lambda>e. ev_available_at e \<le> t) (drop (clk_cursor k) (clk_events k))"
  have st: "sorted (map ev_available_at (clk_events k))" "clk_cursor k \<le> length (clk_events k)"
    "clk_visible k = take (clk_cursor k) (clk_events k)"
    using ok by (simp_all add: clock_ok_def)
  have vis: "clk_visible k @ ?w = filter (\<lambda>e. ev_available_at e \<le> t) (clk_events k)"
  proof (cases "clk_now k")
    case None
    with ok have "clk_cursor k = 0 \<or> clk_events k = []" "clk_visible k = []"
      by (auto simp: clock_ok_def)
    then show ?thesis using sorted_takeWhile_filter [OF st(1)] by auto
  next
    case (Some n)
    with ok fwd st show ?thesis
      using take_filter_sorted [OF st(1), of "clk_cursor k" n t] by (simp add: clock_ok_def)
  qed
  have len: "clk_cursor k + length ?w \<le> length (clk_events k)"
    using st(2) length_takeWhile_le [of "\<lambda>e. ev_available_at e \<le> t" "drop (clk_cursor k) (clk_events k)"]
    by simp
  show "clock_ok k'" using st len vis take_cursor [of "clk_cursor k" _ "clk_events k"] by (simp add: k' clock_ok_def)
  show "clk_events k' = clk_events k" "clk_schedule k' = clk_schedule k" by (simp_all add: k')
qed

interpretation market_clock: monotone_clock clk_now
  "\<lambda>t k. ebind (advance_to et_date (Aware t) k) (\<lambda>(k', _). Inr k')" for et_date
  by unfold_locales (auto simp: err_simps elim!: advance_to_Inr)

section \<open>Validation does not depend on the order of the events\<close>

lemma validate_events_iff:
  "validate_events et_date c es ids ord = Inr () \<longleftrightarrow>
     distinct (map ev_event_id es) \<and> set (map ev_event_id es) \<inter> set ids = {} \<and>
     distinct (map (\<lambda>e. (ev_available_at e, ev_source_sequence e)) es) \<and>
     set (map (\<lambda>e. (ev_available_at e, ev_source_sequence e)) es) \<inter> set ord = {} \<and>
     (\<forall>e\<in>set es. ev_occurred_at e \<le> ev_available_at e \<and> in_official_session et_date c e)"
  by (induction es arbitrary: ids ord) (auto simp: not_less)

lemma validate_events_perm:
  assumes "mset es = mset es'" "validate_events et_date c es [] [] = Inr ()"
  shows "validate_events et_date c es' [] [] = Inr ()"
proof -
  have "mset (map ev_event_id es) = mset (map ev_event_id es')"
    "mset (map (\<lambda>e. (ev_available_at e, ev_source_sequence e)) es)
       = mset (map (\<lambda>e. (ev_available_at e, ev_source_sequence e)) es')"
    using assms(1) by simp_all
  note mset_eq_imp_distinct_iff [OF this(1)] mset_eq_imp_distinct_iff [OF this(2)]
  with mset_eq_setD [OF assms(1)] assms(2) show ?thesis
    by (simp add: validate_events_iff)
qed

lemma distinct_event_key:
  "distinct (map ev_event_id es) \<Longrightarrow> distinct (map event_key es)"
  by (induction es) (auto simp: event_key_def image_iff)

section \<open>Classification of instants\<close>

text \<open>A schedule of sessions that their constructor accepted, over a calendar whose date
  never runs backwards.\<close>

lemma trading_session_new_Inr:
  assumes "trading_session_new et_date r = Inr s"
  shows "ts_opens_at s < ts_closes_at s" "et_date (ts_opens_at s) = ts_date s"
    "et_date (ts_closes_at s) = ts_date s"
  using assms by (auto simp: trading_session_new_def err_simps)

lemma session_at_of_contains:
  assumes "mono et_date" "schedule_new lo hi ss = Inr c"
    and built: "trading_session_new et_date r = Inr s" and "s \<in> set ss" "session_contains s t"
  shows "session_at et_date c t = Some s"
proof -
  have "ts_date s \<le> et_date t" "et_date t \<le> ts_date s"
    using monoD [OF assms(1), of "ts_opens_at s" t] monoD [OF assms(1), of t "ts_closes_at s"]
      assms(5) trading_session_new_Inr [OF built]
    by (simp_all add: session_contains_def)
  then have "et_date t = ts_date s" by simp
  with by_date.find_member [OF assms(2,4)] show ?thesis
    by (simp add: session_at_def session_on_def)
qed

lemma status_regular_open:
  assumes "mono et_date" "schedule_new lo hi ss = Inr c"
    and built: "\<forall>s\<in>set ss. \<exists>r. trading_session_new et_date r = Inr s"
  shows "snd (status_at et_date c t) = REGULAR_OPEN \<longleftrightarrow> (\<exists>s\<in>set ss. session_contains s t)"
proof
  assume "snd (status_at et_date c t) = REGULAR_OPEN"
  then obtain s where s: "session_at et_date c t = Some s" "session_contains s t"
    by (auto simp: status_at_def session_contains_def split: if_splits option.splits)
  then have "s \<in> set ss"
    using by_date.build_find [OF assms(2), of "et_date t" s] by (simp add: session_at_def session_on_def)
  with s show "\<exists>s\<in>set ss. session_contains s t" by blast
next
  assume "\<exists>s\<in>set ss. session_contains s t"
  then obtain s r where s: "s \<in> set ss" "session_contains s t" "trading_session_new et_date r = Inr s"
    using built by blast
  have at: "session_at et_date c t = Some s"
    by (rule session_at_of_contains [OF assms(1,2) s(3,1,2)])
  then have "et_date t = ts_date s"
    using by_date.build_find [OF assms(2), of "et_date t" s] by (simp add: session_at_def session_on_def)
  then have "covers et_date c t" using schedule_new_Inr(4) [OF assms(2)] s(1) by (simp add: covers_def)
  with at s(2) show "snd (status_at et_date c t) = REGULAR_OPEN"
    by (simp add: status_at_def session_contains_def)
qed

lemma find_sorted_min:
  fixes f :: "'a \<Rightarrow> 'k::linorder"
  assumes "sorted (map f xs)" "find P xs = Some x"
  shows "x \<in> set xs \<and> P x \<and> (\<forall>y\<in>set xs. P y \<longrightarrow> f x \<le> f y)"
  using assms by (induction xs) (auto split: if_splits)

section \<open>Properties\<close>

definition demo_date :: "instant \<Rightarrow> date" where
  "demo_date t = t div 100"

definition demo_session :: session where
  "demo_session = \<lparr>ts_date = 1, ts_opens_at = 110, ts_closes_at = 150\<rparr>"

definition demo_schedule :: schedule where
  "demo_schedule = \<lparr>sch_from = 0, sch_through = 9, sch_sessions = [demo_session],
     sch_by_date = [(1, demo_session)]\<rparr>"

definition demo_event :: "string \<Rightarrow> instant \<Rightarrow> unit event" where
  "demo_event i t = \<lparr>ev_event_id = i, ev_instrument_id = ''i'', ev_occurred_at = t,
     ev_available_at = t, ev_source_sequence = 1, ev_event_type = ''TRADE'', ev_payload = ()\<rparr>"

lemma demo_mono: "mono demo_date"
  by (simp add: mono_def demo_date_def zdiv_mono1)

lemma demo_session_new:
  "trading_session_new demo_date \<lparr>ts_date = 1, ts_opens_at = Aware 110, ts_closes_at = Aware 150\<rparr>
     = Inr demo_session"
  by (simp add: trading_session_new_def clock_utc_def demo_date_def demo_session_def)

lemma demo_schedule_new: "schedule_new 0 9 [demo_session] = Inr demo_schedule"
  by (simp add: schedule_new_def demo_schedule_def demo_session_def)

lemma demo_clock_new:
  "\<exists>k. market_clock_new demo_date demo_schedule [demo_event ''b'' 130, demo_event ''a'' 120] = Inr k"
  by (simp add: market_clock_new_def demo_event_def in_official_session_def session_at_def
      demo_schedule_def demo_date_def session_contains_def demo_session_def)

text \<open>
  C7. The market clock reveals exactly the events that are available by its instant: after
  any run of advances the visible events are the supplied ones with \<open>available_at\<close> at most
  now, in official order; the events released by an advance are those that became available
  since the previous instant; and the instants of the run never decrease.
\<close>

theorem clock_reveals_exactly_available:
  assumes "market_clock_new et_date c es = Inr k"
    "efold (\<lambda>t k. ebind (advance_to et_date (Aware t) k) (\<lambda>(k', _). Inr k')) ts k = Inr k1"
    "advance_to et_date (Aware t) k1 = Inr (k2, snap)"
  shows "snap_visible snap = filter (\<lambda>e. ev_available_at e \<le> t) (sort_key event_key es) \<and>
    snap_visible snap = clk_visible k1 @ snap_released snap \<and>
    (\<forall>n. clk_now k1 = Some n \<longrightarrow> n \<le> t \<and> (\<forall>e\<in>set (snap_released snap). n < ev_available_at e))"
proof -
  have "clock_ok k1 \<and> clk_events k1 = sort_key event_key es"
  proof (rule efold_invariant [OF assms(2), where P = "\<lambda>k. clock_ok k \<and> clk_events k = sort_key event_key es"])
    show "clock_ok k \<and> clk_events k = sort_key event_key es"
      using market_clock_new_ok [OF assms(1)] assms(1) by (auto simp: market_clock_new_def err_simps)
    show "clock_ok s' \<and> clk_events s' = sort_key event_key es"
      if "clock_ok s \<and> clk_events s = sort_key event_key es"
        "ebind (advance_to et_date (Aware x) s) (\<lambda>(k', _). Inr k') = Inr s'" for x s s'
    proof -
      from that(2) obtain sn where "advance_to et_date (Aware x) s = Inr (s', sn)"
        by (auto simp: err_simps)
      from advance_to_ok(1,2) [OF _ this] that(1) show ?thesis by simp
    qed
  qed
  then have ok: "clock_ok k1" and ev: "clk_events k1 = sort_key event_key es" by simp_all
  from assms(3) obtain r where t: "r = t" and
    fwd: "case clk_now k1 of None \<Rightarrow> True | Some n \<Rightarrow> n \<le> r" and
    vis: "snap_visible snap = clk_visible k2" "clk_visible k2 = clk_visible k1 @ snap_released snap"
    "clk_now k2 = Some r"
    by (rule advance_to_Inr) auto
  have all: "snap_visible snap = filter (\<lambda>e. ev_available_at e \<le> t) (sort_key event_key es)"
  proof -
    have "clk_visible k2 = filter (\<lambda>e. ev_available_at e \<le> t) (clk_events k2)"
      using clock_ok_visible [OF advance_to_ok(1) [OF ok assms(3)] vis(3)] t by simp
    then show ?thesis using vis(1) ev advance_to_ok(2) [OF ok assms(3)] by simp
  qed
  have "n < ev_available_at e" if n: "clk_now k1 = Some n" and e: "e \<in> set (snap_released snap)" for n e
  proof (rule ccontr)
    let ?v = "clk_visible k1" and ?w = "snap_released snap"
    assume "\<not> n < ev_available_at e"
    have "?v = filter (\<lambda>e. ev_available_at e \<le> n) (clk_events k1)"
      by (rule clock_ok_visible [OF ok n])
    also have "\<dots> = filter (\<lambda>e. ev_available_at e \<le> n) (filter (\<lambda>e. ev_available_at e \<le> t) (clk_events k1))"
      using fwd n t by (auto intro!: filter_cong simp: filter_filter)
    also have "\<dots> = filter (\<lambda>e. ev_available_at e \<le> n) (?v @ ?w)"
      using all vis ev by simp
    finally have "?v = filter (\<lambda>e. ev_available_at e \<le> n) ?v @ filter (\<lambda>e. ev_available_at e \<le> n) ?w"
      by simp
    then have "length (filter (\<lambda>e. ev_available_at e \<le> n) ?w) \<le> length ?v - length (filter (\<lambda>e. ev_available_at e \<le> n) ?v)"
      by (metis diff_add_inverse length_append order_refl)
    moreover have "filter (\<lambda>e. ev_available_at e \<le> n) ?v = ?v"
      by (simp add: clock_ok_visible [OF ok n])
    ultimately have "filter (\<lambda>e. ev_available_at e \<le> n) ?w = []" by simp
    with e \<open>\<not> n < ev_available_at e\<close> show False by (simp add: filter_empty_conv not_less)
  qed
  with all vis fwd t show ?thesis by (auto split: option.splits)
qed

text \<open>
  The order in which events are supplied is irrelevant: a clock built from any
  permutation of an accepted event list is the same clock.
\<close>

theorem clock_ignores_supply_order:
  assumes "mset es = mset es'" "market_clock_new et_date c es = Inr k"
  shows "market_clock_new et_date c es' = Inr k"
proof -
  have v: "validate_events et_date c es [] [] = Inr ()"
    and k: "k = \<lparr>clk_schedule = c, clk_events = sort_key event_key es, clk_cursor = 0,
      clk_now = None, clk_visible = []\<rparr>"
    using assms(2) by (auto simp: market_clock_new_def err_simps)
  have "sort_key event_key es = sort_key event_key es'"
    using v by (intro sort_key_perm_unique assms(1) distinct_event_key) (simp add: validate_events_iff)
  with validate_events_perm [OF assms(1) v] k show ?thesis by (simp add: market_clock_new_def)
qed

text \<open>
  The status of an instant is REGULAR_OPEN exactly when some official session contains it,
  provided the calendar date never runs backwards.
\<close>

theorem status_is_regular_open_iff_in_session:
  assumes "mono et_date" "schedule_new lo hi ss = Inr c"
    "\<forall>s\<in>set ss. \<exists>r. trading_session_new et_date r = Inr s"
  shows "snd (status_at et_date c t) = REGULAR_OPEN \<longleftrightarrow> (\<exists>s\<in>set ss. session_contains s t)"
  using assms by (rule status_regular_open)

theorem status_is_regular_open_iff_in_session_witness:
  "snd (status_at demo_date demo_schedule 120) = REGULAR_OPEN \<and>
   snd (status_at demo_date demo_schedule 150) \<noteq> REGULAR_OPEN"
  using status_is_regular_open_iff_in_session [OF demo_mono demo_schedule_new, of 120]
    status_is_regular_open_iff_in_session [OF demo_mono demo_schedule_new, of 150] demo_session_new
  by (auto simp: session_contains_def demo_session_def)

text \<open>
  \<open>next_session_after\<close> returns the session with the earliest opening strictly after the
  instant, and nothing only when no session opens later.
\<close>

theorem next_session_is_earliest:
  assumes "schedule_new lo hi ss = Inr c"
  shows "case next_session_after c t of
      None \<Rightarrow> \<not> (\<exists>s\<in>set ss. t < ts_opens_at s)
    | Some s \<Rightarrow> s \<in> set ss \<and> t < ts_opens_at s \<and>
        (\<forall>r\<in>set ss. t < ts_opens_at r \<longrightarrow> ts_opens_at s \<le> ts_opens_at r)"
proof (cases "next_session_after c t")
  case None
  then have "find (\<lambda>s. t < ts_opens_at s) (sch_sessions c) = None"
    by (simp add: next_session_after_def)
  then have "\<not> (\<exists>s\<in>set ss. t < ts_opens_at s)"
    by (auto simp: find_None_iff schedule_new_Inr(3) [OF assms])
  with None show ?thesis by simp
next
  case (Some s)
  have "sorted (map ts_opens_at (sch_sessions c))" by (simp add: schedule_new_Inr(3) [OF assms])
  from find_sorted_min [OF this] Some schedule_new_Inr(3) [OF assms] show ?thesis
    by (auto simp: next_session_after_def)
qed

theorem next_session_is_earliest_witness:
  "next_session_after demo_schedule 100 = Some demo_session \<and> demo_session \<in> set [demo_session] \<and>
   100 < ts_opens_at demo_session"
  using next_session_is_earliest [OF demo_schedule_new, of 100]
  by (simp add: next_session_after_def demo_schedule_def demo_session_def)

theorem clock_ignores_supply_order_witness:
  "\<exists>k. market_clock_new demo_date demo_schedule [demo_event ''b'' 130, demo_event ''a'' 120] = Inr k \<and>
       market_clock_new demo_date demo_schedule [demo_event ''a'' 120, demo_event ''b'' 130] = Inr k"
proof -
  obtain k where k: "market_clock_new demo_date demo_schedule [demo_event ''b'' 130, demo_event ''a'' 120] = Inr k"
    using demo_clock_new by blast
  with clock_ignores_supply_order [OF _ k, of "[demo_event ''a'' 120, demo_event ''b'' 130]"]
  show ?thesis by (auto simp: add_mset_commute)
qed

theorem clock_reveals_exactly_available_witness:
  "\<exists>k k1 k2 snap. market_clock_new demo_date demo_schedule [demo_event ''b'' 130, demo_event ''a'' 120] = Inr k \<and>
     advance_to demo_date (Aware 120) k = Inr (k1, snap) \<and>
     snap_visible snap = filter (\<lambda>e. ev_available_at e \<le> 120)
       (sort_key event_key [demo_event ''b'' 130, demo_event ''a'' 120])"
proof -
  obtain k where k: "market_clock_new demo_date demo_schedule [demo_event ''b'' 130, demo_event ''a'' 120] = Inr k"
    using demo_clock_new by blast
  then have "clk_now k = None" by (auto simp: market_clock_new_def err_simps)
  then obtain k1 snap where a: "advance_to demo_date (Aware 120) k = Inr (k1, snap)"
    by (simp add: advance_to_def clock_utc_def Let_def case_prod_beta)
  from clock_reveals_exactly_available [OF k, of "[]", OF _ a] k a show ?thesis by auto
qed

end
