(* ===== verification/Py_Date.thy ===== *)
theory Py_Date
  imports Py_Text
begin

text \<open>
  Calendar dates of the standard library's \<open>datetime\<close> module. A \<open>date\<close> is its proleptic
  Gregorian ordinal (\<open>date.toordinal()\<close>); year, month and day, the weekday, the ISO week and the
  ISO texts are computed as the library does. Years are between 1 and 9999, as the library
  requires.
\<close>

type_synonym ordinal = int

definition is_leap :: "int \<Rightarrow> bool" where
  "is_leap y \<longleftrightarrow> y mod 4 = 0 \<and> (y mod 100 \<noteq> 0 \<or> y mod 400 = 0)"

definition days_before_year :: "int \<Rightarrow> int" where
  "days_before_year y = (let z = y - 1 in z * 365 + z div 4 - z div 100 + z div 400)"

definition days_in_month :: "int \<Rightarrow> int \<Rightarrow> int" where
  "days_in_month y m =
     (if m = 2 then (if is_leap y then 29 else 28) else if m \<in> {4, 6, 9, 11} then 30 else 31)"

definition days_before_month_table :: "int list" where
  "days_before_month_table = [0, 31, 59, 90, 120, 151, 181, 212, 243, 273, 304, 334]"

definition days_before_month :: "int \<Rightarrow> int \<Rightarrow> int" where
  "days_before_month y m = days_before_month_table ! nat (m - 1) + (if 2 < m \<and> is_leap y then 1 else 0)"

definition ymd_ord :: "int \<Rightarrow> int \<Rightarrow> int \<Rightarrow> ordinal" where
  "ymd_ord y m d = days_before_year y + days_before_month y m + d"

text \<open>\<open>_ord2ymd\<close>.\<close>

definition ord_ymd :: "ordinal \<Rightarrow> int \<times> int \<times> int" where
  "ord_ymd ord =
     (let n0 = ord - 1; n400 = n0 div 146097; r400 = n0 mod 146097;
          n100 = r400 div 36524; r100 = r400 mod 36524;
          n4 = r100 div 1461; r4 = r100 mod 1461;
          n1 = r4 div 365; n = r4 mod 365;
          year = n400 * 400 + 1 + n100 * 100 + n4 * 4 + n1
      in if n1 = 4 \<or> n100 = 4 then (year - 1, 12, 31)
         else let leap = (n1 = 3 \<and> (n4 \<noteq> 24 \<or> n100 = 3));
                  guess = (n + 50) div 32;
                  preceding = days_before_month_table ! nat (guess - 1) + (if 2 < guess \<and> leap then 1 else 0)
              in if n < preceding
                 then let m = guess - 1; b = preceding - days_in_month year m in (year, m, n - b + 1)
                 else (year, guess, n - preceding + 1))"

definition year_of :: "ordinal \<Rightarrow> int" where
  "year_of ord = fst (ord_ymd ord)"

definition month_of :: "ordinal \<Rightarrow> int" where
  "month_of ord = fst (snd (ord_ymd ord))"

text \<open>Monday is 0.\<close>

definition weekday :: "ordinal \<Rightarrow> int" where
  "weekday ord = (ord + 6) mod 7"

definition isoweek1monday :: "int \<Rightarrow> ordinal" where
  "isoweek1monday y =
     (let firstday = ymd_ord y 1 1; firstweekday = (firstday + 6) mod 7; monday = firstday - firstweekday
      in if 3 < firstweekday then monday + 7 else monday)"

text \<open>\<open>isocalendar()[:2]\<close>: the ISO year and week.\<close>

definition iso_week :: "ordinal \<Rightarrow> int \<times> int" where
  "iso_week ord =
     (let y = year_of ord; week = (ord - isoweek1monday y) div 7
      in if week < 0 then (y - 1, (ord - isoweek1monday (y - 1)) div 7 + 1)
         else if 52 \<le> week \<and> isoweek1monday (y + 1) \<le> ord then (y + 1, 1)
         else (y, week + 1))"

definition date_text :: "ordinal \<Rightarrow> string" where
  "date_text ord =
     (let (y, m, d) = ord_ymd ord
      in fixed_str 4 (nat y) @ ''-'' @ fixed_str 2 (nat m) @ ''-'' @ fixed_str 2 (nat d))"

text \<open>\<open>date.fromisoformat\<close> of a text \<open>YYYY-MM-DD\<close>.\<close>

definition date_of_text :: "string \<Rightarrow> ordinal" where
  "date_of_text s =
     ymd_ord (int (str_nat (take 4 s))) (int (str_nat (take 2 (drop 5 s)))) (int (str_nat (drop 8 s)))"

definition EPOCH_ORDINAL :: ordinal where
  "EPOCH_ORDINAL = 719163"

text \<open>\<open>isoformat()\<close> of a UTC datetime.\<close>

definition instant_text :: "instant \<Rightarrow> string" where
  "instant_text t =
     (let us = t mod microseconds_per_day; s = us div 1000000; f = us mod 1000000
      in date_text (t div microseconds_per_day + EPOCH_ORDINAL) @ ''T'' @
         fixed_str 2 (nat (s div 3600)) @ '':'' @ fixed_str 2 (nat (s div 60 mod 60)) @ '':'' @
         fixed_str 2 (nat (s mod 60)) @ (if f = 0 then [] else ''.'' @ fixed_str 6 (nat f)) @ ''+00:00'')"

section \<open>Weeks\<close>

lemma weekday_range: "0 \<le> weekday d" "weekday d \<le> 6"
  by (simp_all add: weekday_def)

lemma weekday_Suc: "weekday (d + 1) = (if weekday d = 6 then 0 else weekday d + 1)"
  by (simp add: weekday_def) presburger

end
