(* ===== verification/Session_Calendar.thy ===== *)
theory Session_Calendar
  imports Event_Clock Py_Date
begin

text \<open>
  \<open>calendar/sessions.py\<close> and \<open>calendar/xnys.py\<close>: pinned exchange calendars and the XNYS
  instance. Local wall-clock times are microseconds since midnight. The IANA zone is a
  parameter: \<open>zone_known\<close> says which names the database has, \<open>to_utc\<close> converts a local date and
  time of a zone to an instant. The lemmas show that a date outside the pinned coverage is
  never answered, and that the schedule handed to the event clock has exactly one session for
  each open date, with the pinned hours.
\<close>

section \<open>Sessions\<close>

datatype calendar_error =
    CalendarValidationError string
  | CalendarCoverageError string
  | ZoneInfoNotFoundError string
  | CalendarClockError clock_error

definition CALENDAR_VERSION_MAX_LENGTH :: nat where
  "CALENDAR_VERSION_MAX_LENGTH = 40"

datatype session_type = REGULAR | EARLY_CLOSE | CLOSED

fun session_type_text :: "session_type \<Rightarrow> string" where
  "session_type_text REGULAR = ''REGULAR''"
| "session_type_text EARLY_CLOSE = ''EARLY_CLOSE''"
| "session_type_text CLOSED = ''CLOSED''"

datatype py_time = NaiveTime int | AwareTime int

type_synonym wall_time = int

definition naive_time :: "py_time \<Rightarrow> string \<Rightarrow> calendar_error + wall_time" where
  "naive_time t label =
     (case t of
        NaiveTime w \<Rightarrow> Inr w
      | AwareTime _ \<Rightarrow> Inl (CalendarValidationError
          (''SessionHours.'' @ label @ '' must be a naive local wall-clock time'')))"

record session_hours =
  sh_opens :: wall_time
  sh_closes :: wall_time

definition session_hours_new :: "py_time \<Rightarrow> py_time \<Rightarrow> calendar_error + session_hours" where
  "session_hours_new opens closes =
     ebind (naive_time opens ''opens'') (\<lambda>a.
     ebind (naive_time closes ''closes'') (\<lambda>b.
     ebind (require (a < b) (CalendarValidationError ''SessionHours.opens must precede closes'')) (\<lambda>_.
     Inr \<lparr>sh_opens = a, sh_closes = b\<rparr>)))"

record session_record =
  sr_exchange_mic :: string
  sr_session_date :: date
  sr_opens_at :: "instant option"
  sr_closes_at :: "instant option"
  sr_session_type :: session_type
  sr_calendar_version :: string

definition session_record_new :: "session_record \<Rightarrow> calendar_error + session_record" where
  "session_record_new r =
     (let closed = (sr_session_type r = CLOSED) in
      ebind (require (closed = (sr_opens_at r = None))
        (CalendarValidationError ''opens_at must be NULL exactly on a CLOSED session_date'')) (\<lambda>_.
      ebind (require (closed = (sr_closes_at r = None))
        (CalendarValidationError ''closes_at must be NULL exactly on a CLOSED session_date'')) (\<lambda>_.
      Inr r)))"

datatype session_cell = CellText string | CellDate date | CellInstant "instant option"

definition session_row :: "session_record \<Rightarrow> (string \<times> session_cell) list" where
  "session_row r =
     [(''exchange_mic'', CellText (sr_exchange_mic r)),
      (''session_date'', CellDate (sr_session_date r)),
      (''opens_at'', CellInstant (sr_opens_at r)),
      (''closes_at'', CellInstant (sr_closes_at r)),
      (''session_type'', CellText (session_type_text (sr_session_type r))),
      (''calendar_version'', CellText (sr_calendar_version r))]"

definition to_official_session ::
  "(instant \<Rightarrow> date) \<Rightarrow> session_record \<Rightarrow> calendar_error + session option" where
  "to_official_session et_date r =
     (case (sr_opens_at r, sr_closes_at r) of
        (Some opens, Some closes) \<Rightarrow>
          ebind (map_err CalendarClockError (trading_session_new et_date
            \<lparr>ts_date = sr_session_date r, ts_opens_at = Aware opens, ts_closes_at = Aware closes\<rparr>)) (\<lambda>s.
          Inr (Some s))
      | _ \<Rightarrow> Inr None)"

text \<open>\<open>_dates\<close>: every date from the first to the last.\<close>

function dates :: "date \<Rightarrow> date \<Rightarrow> date list" where
  "dates current final = (if current \<le> final then current # dates (current + 1) final else [])"
  by pat_completeness auto
termination by (relation "measure (\<lambda>(current, final). nat (final + 1 - current))") auto

declare dates.simps [simp del]

section \<open>Pinned calendars\<close>

record session_calendar =
  cal_exchange_mic :: string
  cal_version :: string
  cal_timezone_name :: string
  cal_covered_from :: date
  cal_covered_through :: date
  cal_regular_hours :: session_hours
  cal_early_close_hours :: session_hours
  cal_closed_dates :: "date list"
  cal_early_close_dates :: "date list"

definition join_dates :: "date list \<Rightarrow> string" where
  "join_dates ds =
     (case map date_text (sort (remdups ds)) of [] \<Rightarrow> [] | t # ts \<Rightarrow> t @ concat (map (\<lambda>u. '', '' @ u) ts))"

definition pinned_dates_check ::
  "session_calendar \<Rightarrow> string \<Rightarrow> date list \<Rightarrow> calendar_error + unit" where
  "pinned_dates_check c label values =
     (let outside = filter (\<lambda>d. \<not> (cal_covered_from c \<le> d \<and> d \<le> cal_covered_through c)) values;
          weekend = filter (\<lambda>d. 5 \<le> weekday d) values
      in ebind (require (outside = [])
           (CalendarValidationError (label @ '' outside the pinned coverage: '' @ join_dates outside))) (\<lambda>_.
         require (weekend = [])
           (CalendarValidationError (label @ '' must not list weekend dates: '' @ join_dates weekend))))"

definition session_calendar_new ::
  "(string \<Rightarrow> bool) \<Rightarrow> session_calendar \<Rightarrow> calendar_error + session_calendar" where
  "session_calendar_new zone_known c =
     (let overlap = filter (\<lambda>d. d \<in> set (cal_early_close_dates c)) (cal_closed_dates c) in
      ebind (require (length (cal_exchange_mic c) = 4)
        (CalendarValidationError ''exchange_mic must be a 4-character MIC'')) (\<lambda>_.
      ebind (require (cal_version c \<noteq> [] \<and> length (cal_version c) \<le> CALENDAR_VERSION_MAX_LENGTH)
        (CalendarValidationError ''calendar_version must be 1-40 characters'')) (\<lambda>_.
      ebind (require (cal_covered_from c \<le> cal_covered_through c)
        (CalendarValidationError ''calendar coverage must not end before it starts'')) (\<lambda>_.
      ebind (require (sh_closes (cal_early_close_hours c) < sh_closes (cal_regular_hours c))
        (CalendarValidationError ''an early close must precede the regular close'')) (\<lambda>_.
      ebind (require (sh_opens (cal_early_close_hours c) = sh_opens (cal_regular_hours c))
        (CalendarValidationError ''an early-closing session must open at the regular open'')) (\<lambda>_.
      ebind (require (overlap = [])
        (CalendarValidationError (''dates cannot be both closed and early-closing: '' @ join_dates overlap))) (\<lambda>_.
      ebind (pinned_dates_check c ''closed_dates'' (cal_closed_dates c)) (\<lambda>_.
      ebind (pinned_dates_check c ''early_close_dates'' (cal_early_close_dates c)) (\<lambda>_.
      ebind (require (zone_known (cal_timezone_name c)) (ZoneInfoNotFoundError (cal_timezone_name c))) (\<lambda>_.
      Inr c))))))))))"

definition cal_covers :: "session_calendar \<Rightarrow> date \<Rightarrow> bool" where
  "cal_covers c d \<longleftrightarrow> cal_covered_from c \<le> d \<and> d \<le> cal_covered_through c"

text \<open>\<open>_require_covered\<close>; its first check rejects a \<open>datetime\<close>, which is not a value of type \<open>date\<close>.\<close>

definition require_covered :: "session_calendar \<Rightarrow> date \<Rightarrow> calendar_error + unit" where
  "require_covered c d =
     require (cal_covers c d)
       (CalendarCoverageError (date_text d @ '' is outside the pinned '' @ cal_exchange_mic c @ '' coverage '' @
          date_text (cal_covered_from c) @ ''..'' @ date_text (cal_covered_through c) @
          '' ('' @ cal_version c @ '')''))"

definition session_type_on :: "session_calendar \<Rightarrow> date \<Rightarrow> calendar_error + session_type" where
  "session_type_on c d =
     ebind (require_covered c d) (\<lambda>_.
     Inr (if 5 \<le> weekday d \<or> d \<in> set (cal_closed_dates c) then CLOSED
          else if d \<in> set (cal_early_close_dates c) then EARLY_CLOSE
          else REGULAR))"

definition calendar_session_on ::
  "(string \<Rightarrow> date \<Rightarrow> wall_time \<Rightarrow> instant) \<Rightarrow> session_calendar \<Rightarrow> date \<Rightarrow> calendar_error + session_record" where
  "calendar_session_on to_utc c d =
     ebind (session_type_on c d) (\<lambda>ty.
     if ty = CLOSED
     then session_record_new \<lparr>sr_exchange_mic = cal_exchange_mic c, sr_session_date = d, sr_opens_at = None,
       sr_closes_at = None, sr_session_type = ty, sr_calendar_version = cal_version c\<rparr>
     else let hours = (if ty = EARLY_CLOSE then cal_early_close_hours c else cal_regular_hours c) in
       session_record_new \<lparr>sr_exchange_mic = cal_exchange_mic c, sr_session_date = d,
         sr_opens_at = Some (to_utc (cal_timezone_name c) d (sh_opens hours)),
         sr_closes_at = Some (to_utc (cal_timezone_name c) d (sh_closes hours)),
         sr_session_type = ty, sr_calendar_version = cal_version c\<rparr>)"

definition calendar_range ::
  "session_calendar \<Rightarrow> date option \<Rightarrow> date option \<Rightarrow> calendar_error + date \<times> date" where
  "calendar_range c first through =
     (let lo = (case first of None \<Rightarrow> cal_covered_from c | Some d \<Rightarrow> d);
          hi = (case through of None \<Rightarrow> cal_covered_through c | Some d \<Rightarrow> d)
      in ebind (require (lo \<le> hi)
           (CalendarCoverageError (''requested range ends before it starts: '' @ date_text lo @ '' > '' @ date_text hi))) (\<lambda>_.
         ebind (require_covered c lo) (\<lambda>_.
         ebind (require_covered c hi) (\<lambda>_.
         Inr (lo, hi)))))"

definition calendar_records ::
  "(string \<Rightarrow> date \<Rightarrow> wall_time \<Rightarrow> instant) \<Rightarrow> session_calendar \<Rightarrow> date option \<Rightarrow> date option
     \<Rightarrow> calendar_error + session_record list" where
  "calendar_records to_utc c first through =
     ebind (calendar_range c first through) (\<lambda>(lo, hi). emap (calendar_session_on to_utc c) (dates lo hi))"

definition trading_sessions ::
  "(instant \<Rightarrow> date) \<Rightarrow> (string \<Rightarrow> date \<Rightarrow> wall_time \<Rightarrow> instant) \<Rightarrow> session_calendar
     \<Rightarrow> date option \<Rightarrow> date option \<Rightarrow> calendar_error + session list" where
  "trading_sessions et_date to_utc c first through =
     ebind (calendar_range c first through) (\<lambda>(lo, hi).
     ebind (emap (\<lambda>d. ebind (calendar_session_on to_utc c d) (to_official_session et_date)) (dates lo hi)) (\<lambda>ss.
     Inr (List.map_filter id ss)))"

definition session_schedule ::
  "(instant \<Rightarrow> date) \<Rightarrow> (string \<Rightarrow> date \<Rightarrow> wall_time \<Rightarrow> instant) \<Rightarrow> session_calendar
     \<Rightarrow> date option \<Rightarrow> date option \<Rightarrow> calendar_error + schedule" where
  "session_schedule et_date to_utc c first through =
     ebind (calendar_range c first through) (\<lambda>(lo, hi).
     ebind (trading_sessions et_date to_utc c (Some lo) (Some hi)) (\<lambda>ss.
     map_err CalendarClockError (schedule_new lo hi ss)))"

section \<open>XNYS\<close>

definition XNYS_CALENDAR_VERSION :: string where
  "XNYS_CALENDAR_VERSION = ''xnys-2016-2026:1.0.0''"

definition XNYS_COVERED_FROM :: date where
  "XNYS_COVERED_FROM = ymd_ord 2016 1 1"

definition XNYS_COVERED_THROUGH :: date where
  "XNYS_COVERED_THROUGH = ymd_ord 2026 12 31"

definition wall :: "int \<Rightarrow> int \<Rightarrow> wall_time" where
  "wall h m = (h * 60 + m) * 60000000"

definition XNYS_REGULAR_HOURS :: session_hours where
  "XNYS_REGULAR_HOURS = \<lparr>sh_opens = wall 9 30, sh_closes = wall 16 0\<rparr>"

definition XNYS_EARLY_CLOSE_HOURS :: session_hours where
  "XNYS_EARLY_CLOSE_HOURS = \<lparr>sh_opens = wall 9 30, sh_closes = wall 13 0\<rparr>"

definition XNYS_CLOSED_DATES :: "date list" where
  "XNYS_CLOSED_DATES = map (\<lambda>(y, m, d). ymd_ord y m d)
    [(2016, 1, 1), (2016, 1, 18), (2016, 2, 15), (2016, 3, 25), (2016, 5, 30), (2016, 7, 4),
     (2016, 9, 5), (2016, 11, 24), (2016, 12, 26), (2017, 1, 2), (2017, 1, 16), (2017, 2, 20),
     (2017, 4, 14), (2017, 5, 29), (2017, 7, 4), (2017, 9, 4), (2017, 11, 23), (2017, 12, 25),
     (2018, 1, 1), (2018, 1, 15), (2018, 2, 19), (2018, 3, 30), (2018, 5, 28), (2018, 7, 4),
     (2018, 9, 3), (2018, 11, 22), (2018, 12, 5), (2018, 12, 25), (2019, 1, 1), (2019, 1, 21),
     (2019, 2, 18), (2019, 4, 19), (2019, 5, 27), (2019, 7, 4), (2019, 9, 2), (2019, 11, 28),
     (2019, 12, 25), (2020, 1, 1), (2020, 1, 20), (2020, 2, 17), (2020, 4, 10), (2020, 5, 25),
     (2020, 7, 3), (2020, 9, 7), (2020, 11, 26), (2020, 12, 25), (2021, 1, 1), (2021, 1, 18),
     (2021, 2, 15), (2021, 4, 2), (2021, 5, 31), (2021, 7, 5), (2021, 9, 6), (2021, 11, 25),
     (2021, 12, 24), (2022, 1, 17), (2022, 2, 21), (2022, 4, 15), (2022, 5, 30), (2022, 6, 20),
     (2022, 7, 4), (2022, 9, 5), (2022, 11, 24), (2022, 12, 26), (2023, 1, 2), (2023, 1, 16),
     (2023, 2, 20), (2023, 4, 7), (2023, 5, 29), (2023, 6, 19), (2023, 7, 4), (2023, 9, 4),
     (2023, 11, 23), (2023, 12, 25), (2024, 1, 1), (2024, 1, 15), (2024, 2, 19), (2024, 3, 29),
     (2024, 5, 27), (2024, 6, 19), (2024, 7, 4), (2024, 9, 2), (2024, 11, 28), (2024, 12, 25),
     (2025, 1, 1), (2025, 1, 9), (2025, 1, 20), (2025, 2, 17), (2025, 4, 18), (2025, 5, 26),
     (2025, 6, 19), (2025, 7, 4), (2025, 9, 1), (2025, 11, 27), (2025, 12, 25), (2026, 1, 1),
     (2026, 1, 19), (2026, 2, 16), (2026, 4, 3), (2026, 5, 25), (2026, 6, 19), (2026, 7, 3),
     (2026, 9, 7), (2026, 11, 26), (2026, 12, 25)]"

definition XNYS_EARLY_CLOSE_DATES :: "date list" where
  "XNYS_EARLY_CLOSE_DATES = map (\<lambda>(y, m, d). ymd_ord y m d)
    [(2016, 11, 25), (2017, 7, 3), (2017, 11, 24), (2018, 7, 3), (2018, 11, 23), (2018, 12, 24),
     (2019, 7, 3), (2019, 11, 29), (2019, 12, 24), (2020, 11, 27), (2020, 12, 24), (2021, 11, 26),
     (2022, 11, 25), (2023, 7, 3), (2023, 11, 24), (2024, 7, 3), (2024, 11, 29), (2024, 12, 24),
     (2025, 7, 3), (2025, 11, 28), (2025, 12, 24), (2026, 11, 27), (2026, 12, 24)]"

definition XNYS_CALENDAR :: session_calendar where
  "XNYS_CALENDAR =
     \<lparr>cal_exchange_mic = ''XNYS'', cal_version = XNYS_CALENDAR_VERSION,
      cal_timezone_name = ''America/New_York'',
      cal_covered_from = XNYS_COVERED_FROM, cal_covered_through = XNYS_COVERED_THROUGH,
      cal_regular_hours = XNYS_REGULAR_HOURS, cal_early_close_hours = XNYS_EARLY_CLOSE_HOURS,
      cal_closed_dates = XNYS_CLOSED_DATES, cal_early_close_dates = XNYS_EARLY_CLOSE_DATES\<rparr>"

section \<open>The schedule of a calendar\<close>

lemma dates_upto: "dates lo hi = [lo..hi]"
  by (induction lo hi rule: dates.induct) (simp add: dates.simps upto.simps)

lemma calendar_range_Inr:
  "calendar_range c first through = Inr (lo, hi) \<longleftrightarrow>
     lo = (case first of None \<Rightarrow> cal_covered_from c | Some d \<Rightarrow> d) \<and>
     hi = (case through of None \<Rightarrow> cal_covered_through c | Some d \<Rightarrow> d) \<and>
     lo \<le> hi \<and> cal_covers c lo \<and> cal_covers c hi"
  by (auto simp: calendar_range_def require_covered_def Let_def err_simps)

definition open_on :: "session_calendar \<Rightarrow> date \<Rightarrow> bool" where
  "open_on c d \<longleftrightarrow> weekday d < 5 \<and> d \<notin> set (cal_closed_dates c)"

definition hours_on :: "session_calendar \<Rightarrow> date \<Rightarrow> session_hours" where
  "hours_on c d = (if d \<in> set (cal_early_close_dates c) then cal_early_close_hours c else cal_regular_hours c)"

definition pinned_session ::
  "(string \<Rightarrow> date \<Rightarrow> wall_time \<Rightarrow> instant) \<Rightarrow> session_calendar \<Rightarrow> date \<Rightarrow> session" where
  "pinned_session to_utc c d =
     \<lparr>ts_date = d, ts_opens_at = to_utc (cal_timezone_name c) d (sh_opens (hours_on c d)),
      ts_closes_at = to_utc (cal_timezone_name c) d (sh_closes (hours_on c d))\<rparr>"

text \<open>
  What the code relies on of the zone database: local dates do not run backwards, and the
  pinned boundaries of a covered open date lie on that date, the opening before the close.
\<close>

definition zone_law ::
  "(instant \<Rightarrow> date) \<Rightarrow> (string \<Rightarrow> date \<Rightarrow> wall_time \<Rightarrow> instant) \<Rightarrow> session_calendar \<Rightarrow> bool" where
  "zone_law et_date to_utc c \<longleftrightarrow>
     mono et_date \<and>
     (\<forall>d. cal_covers c d \<and> open_on c d \<longrightarrow>
        et_date (ts_opens_at (pinned_session to_utc c d)) = d \<and>
        et_date (ts_closes_at (pinned_session to_utc c d)) = d \<and>
        ts_opens_at (pinned_session to_utc c d) < ts_closes_at (pinned_session to_utc c d))"

lemma ts_date_pinned [simp]: "ts_date (pinned_session to_utc c d) = d"
  by (simp add: pinned_session_def)

lemma open_session_on:
  assumes "cal_covers c d" "zone_law et_date to_utc c"
  shows "ebind (calendar_session_on to_utc c d) (to_official_session et_date)
    = Inr (if open_on c d then Some (pinned_session to_utc c d) else None)"
proof (cases "open_on c d")
  case True
  with assms have "trading_session_new et_date \<lparr>ts_date = d,
      ts_opens_at = Aware (ts_opens_at (pinned_session to_utc c d)),
      ts_closes_at = Aware (ts_closes_at (pinned_session to_utc c d))\<rparr> = Inr (pinned_session to_utc c d)"
    by (simp add: trading_session_new_def clock_utc_def zone_law_def pinned_session_def)
  with True assms(1) show ?thesis
    by (cases "d \<in> set (cal_early_close_dates c)")
      (simp_all add: calendar_session_on_def session_type_on_def require_covered_def open_on_def hours_on_def
        session_record_new_def to_official_session_def pinned_session_def Let_def not_le)
next
  case False
  with assms(1) show ?thesis
    by (auto simp: calendar_session_on_def session_type_on_def require_covered_def open_on_def
        session_record_new_def to_official_session_def Let_def not_le)
qed

lemma emap_Inr: "(\<And>x. x \<in> set xs \<Longrightarrow> f x = Inr (g x)) \<Longrightarrow> emap f xs = Inr (map g xs)"
  by (induction xs) simp_all

lemma map_filter_if: "List.map_filter id (map (\<lambda>x. if P x then Some (f x) else None) xs) = map f (filter P xs)"
  by (induction xs) (simp_all add: List.map_filter_simps)

lemma trading_sessions_pinned:
  assumes "calendar_range c first through = Inr (lo, hi)" "zone_law et_date to_utc c"
  shows "trading_sessions et_date to_utc c first through
    = Inr (map (pinned_session to_utc c) (filter (open_on c) [lo..hi]))"
proof -
  have "cal_covers c d" if "d \<in> set [lo..hi]" for d
    using assms(1) that by (auto simp: calendar_range_Inr cal_covers_def)
  then have "emap (\<lambda>d. ebind (calendar_session_on to_utc c d) (to_official_session et_date)) (dates lo hi)
      = Inr (map (\<lambda>d. if open_on c d then Some (pinned_session to_utc c d) else None) [lo..hi])"
    unfolding dates_upto by (intro emap_Inr open_session_on assms(2))
  then show ?thesis by (simp add: trading_sessions_def assms(1) map_filter_if)
qed

lemma index_sessions_ok:
  assumes "sorted_wrt (\<lambda>a b. ts_closes_at a \<le> ts_opens_at b) ss" "distinct (map ts_date ss)"
    and "\<forall>s\<in>set ss. lo \<le> ts_date s \<and> ts_date s \<le> hi \<and> map_of index (ts_date s) = None"
    and "\<forall>p. previous = Some p \<longrightarrow> (\<forall>s\<in>set ss. ts_closes_at p \<le> ts_opens_at s)"
  shows "\<exists>index'. index_sessions lo hi ss previous index = Inr index'"
  using assms
proof (induction ss arbitrary: previous index)
  case Nil
  then show ?case by simp
next
  case (Cons s ss)
  have "\<exists>index'. index_sessions lo hi ss (Some s) (dict_put (ts_date s) s index) = Inr index'"
    using Cons.prems by (intro Cons.IH) (auto simp: image_iff)
  with Cons.prems(3,4) show ?case by (cases previous) (auto simp: not_less)
qed

lemma pinned_chain:
  assumes "zone_law et_date to_utc c" "cal_covers c d" "cal_covers c d'" "open_on c d" "open_on c d'" "d < d'"
  shows "ts_closes_at (pinned_session to_utc c d) \<le> ts_opens_at (pinned_session to_utc c d')"
proof (rule ccontr)
  assume "\<not> ?thesis"
  then have "et_date (ts_opens_at (pinned_session to_utc c d')) \<le> et_date (ts_closes_at (pinned_session to_utc c d))"
    using assms(1) by (intro monoD [of et_date]) (simp_all add: zone_law_def)
  with assms show False by (simp add: zone_law_def)
qed

lemma pinned_sorted:
  assumes "zone_law et_date to_utc c" "\<And>d. d \<in> set ds \<Longrightarrow> cal_covers c d \<and> open_on c d"
    and "sorted_wrt (<) ds"
  shows "sorted_wrt (\<lambda>a b. ts_closes_at a \<le> ts_opens_at b) (map (pinned_session to_utc c) ds)"
  using assms(2,3) by (induction ds) (auto intro!: pinned_chain [OF assms(1)])

lemma schedule_new_pinned:
  assumes zone: "zone_law et_date to_utc c" and ds: "\<And>d. d \<in> set ds \<Longrightarrow> cal_covers c d \<and> open_on c d \<and> lo \<le> d \<and> d \<le> hi"
    and s: "sorted_wrt (<) ds" and "lo \<le> hi"
  shows "\<exists>sch. schedule_new lo hi (map (pinned_session to_utc c) ds) = Inr sch \<and> sch_from sch = lo \<and> sch_through sch = hi"
proof -
  let ?ss = "map (pinned_session to_utc c) ds"
  have chain: "sorted_wrt (\<lambda>a b. ts_closes_at a \<le> ts_opens_at b) ?ss"
    using ds by (intro pinned_sorted [OF zone _ s]) blast
  have pos: "ts_opens_at x \<le> ts_closes_at x" if "x \<in> set ?ss" for x
    using that zone ds by (force simp: zone_law_def)
  have "sorted_wrt (\<lambda>a b. ts_opens_at a \<le> ts_opens_at b) ?ss"
    by (rule sorted_wrt_mono_rel [OF _ chain]) (use pos in fastforce)
  then have sorted: "sort_key ts_opens_at ?ss = ?ss"
    by (intro sort_key_id_if_sorted) (simp add: sorted_map sorted_wrt_map)
  have "distinct ds" using s by (simp add: strict_sorted_iff)
  then have "\<exists>index'. index_sessions lo hi ?ss None [] = Inr index'"
    using ds chain by (intro index_sessions_ok) (auto simp: o_def)
  then show ?thesis using \<open>lo \<le> hi\<close> sorted by (auto simp: schedule_new_def Let_def)
qed

text \<open>C27. The schedule of a valid calendar can always be built for a covered range, and it has a
  session on a date exactly when the date is in the range, a weekday and not pinned as closed, with
  the pinned hours of that date.\<close>

theorem calendar_schedule_is_exact:
  assumes "calendar_range c first through = Inr (lo, hi)" "zone_law et_date to_utc c"
  shows "\<exists>sch. session_schedule et_date to_utc c first through = Inr sch \<and>
    sch_from sch = lo \<and> sch_through sch = hi \<and>
    (\<forall>d. session_on sch d =
       (if lo \<le> d \<and> d \<le> hi \<and> session_type_on c d \<noteq> Inr CLOSED then Some (pinned_session to_utc c d) else None))"
proof -
  let ?ds = "filter (open_on c) [lo..hi]" and ?ss = "map (pinned_session to_utc c) (filter (open_on c) [lo..hi])"
  have range: "lo \<le> hi" "cal_covers c lo" "cal_covers c hi" using assms(1) by (auto simp: calendar_range_Inr)
  then have cov: "cal_covers c d" if "lo \<le> d" "d \<le> hi" for d using that by (auto simp: cal_covers_def)
  have "sorted_wrt (<) ?ds" by (intro sorted_wrt_filter) (simp add: strict_sorted_iff)
  then obtain sch where sch: "schedule_new lo hi ?ss = Inr sch" "sch_from sch = lo" "sch_through sch = hi"
    using schedule_new_pinned [OF assms(2), of ?ds lo hi] cov range(1) by auto
  have on: "session_on sch d = (if d \<in> set ?ds then Some (pinned_session to_utc c d) else None)" for d
    using by_date.find_member [OF sch(1), of "pinned_session to_utc c d"] by_date.find_none [OF sch(1), of d]
    by (auto simp: image_image)
  have open_type: "open_on c d \<longleftrightarrow> session_type_on c d \<noteq> Inr CLOSED" if "lo \<le> d" "d \<le> hi" for d
    using cov [OF that] by (auto simp: session_type_on_def require_covered_def open_on_def)
  have "calendar_range c (Some lo) (Some hi) = Inr (lo, hi)" using range by (simp add: calendar_range_Inr)
  then have "session_schedule et_date to_utc c first through = Inr sch"
    using trading_sessions_pinned [OF _ assms(2)] by (simp add: session_schedule_def assms(1) sch(1))
  moreover have "session_on sch d = (if lo \<le> d \<and> d \<le> hi \<and> session_type_on c d \<noteq> Inr CLOSED
      then Some (pinned_session to_utc c d) else None)" for d
    using on [of d] open_type [of d] by auto
  ultimately show ?thesis using sch(2,3) by blast
qed

section \<open>The XNYS calendar\<close>

lemmas ymd_eval = ymd_ord_def days_before_year_def days_before_month_def days_before_month_table_def is_leap_def

lemma xnys_closed_ordinals:
  "XNYS_CLOSED_DATES =
     [735964, 735981, 736009, 736048, 736114, 736149, 736212, 736292, 736324, 736331, 736345,
      736380, 736433, 736478, 736514, 736576, 736656, 736688, 736695, 736709, 736744, 736783,
      736842, 736879, 736940, 737020, 737033, 737053, 737060, 737080, 737108, 737168, 737206,
      737244, 737304, 737391, 737418, 737425, 737444, 737472, 737525, 737570, 737609, 737675,
      737755, 737784, 737791, 737808, 737836, 737882, 737941, 737976, 738039, 738119, 738148,
      738172, 738207, 738260, 738305, 738326, 738340, 738403, 738483, 738515, 738522, 738536,
      738571, 738617, 738669, 738690, 738705, 738767, 738847, 738879, 738886, 738900, 738935,
      738974, 739033, 739056, 739071, 739131, 739218, 739245, 739252, 739260, 739271, 739299,
      739359, 739397, 739421, 739436, 739495, 739582, 739610, 739617, 739635, 739663, 739709,
      739761, 739786, 739800, 739866, 739946, 739975]"
  by (simp add: XNYS_CLOSED_DATES_def ymd_eval)

lemma xnys_early_close_ordinals:
  "XNYS_EARLY_CLOSE_DATES =
     [736293, 736513, 736657, 736878, 737021, 737052, 737243, 737392, 737417, 737756, 737783,
      738120, 738484, 738704, 738848, 739070, 739219, 739244, 739435, 739583, 739609, 739947,
      739974]"
  by (simp add: XNYS_EARLY_CLOSE_DATES_def ymd_eval)

lemma xnys_fields [simp]:
  "cal_exchange_mic XNYS_CALENDAR = ''XNYS''" "cal_version XNYS_CALENDAR = ''xnys-2016-2026:1.0.0''"
  "cal_timezone_name XNYS_CALENDAR = ''America/New_York''"
  "cal_covered_from XNYS_CALENDAR = 735964" "cal_covered_through XNYS_CALENDAR = 739981"
  "cal_regular_hours XNYS_CALENDAR = \<lparr>sh_opens = 34200000000, sh_closes = 57600000000\<rparr>"
  "cal_early_close_hours XNYS_CALENDAR = \<lparr>sh_opens = 34200000000, sh_closes = 46800000000\<rparr>"
  "cal_closed_dates XNYS_CALENDAR = XNYS_CLOSED_DATES"
  "cal_early_close_dates XNYS_CALENDAR = XNYS_EARLY_CLOSE_DATES"
  by (simp_all add: XNYS_CALENDAR_def XNYS_CALENDAR_VERSION_def XNYS_COVERED_FROM_def XNYS_COVERED_THROUGH_def
      XNYS_REGULAR_HOURS_def XNYS_EARLY_CLOSE_HOURS_def wall_def ymd_eval)

lemma pinned_dates_check_Inr:
  "pinned_dates_check c label ds = Inr u \<longleftrightarrow> (\<forall>d\<in>set ds. cal_covers c d \<and> weekday d < 5)"
  by (auto simp: pinned_dates_check_def cal_covers_def err_simps filter_empty_conv not_le)

text \<open>The pinned XNYS data pass every check of the calendar's constructor.\<close>

lemma xnys_calendar_is_valid:
  "session_calendar_new (\<lambda>z. z = ''America/New_York'') XNYS_CALENDAR = Inr XNYS_CALENDAR"
proof -
  have "\<forall>d\<in>set XNYS_CLOSED_DATES. cal_covers XNYS_CALENDAR d \<and> weekday d < 5"
    by (simp add: xnys_closed_ordinals cal_covers_def weekday_def)
  then have closed: "pinned_dates_check XNYS_CALENDAR l XNYS_CLOSED_DATES = Inr ()" for l
    by (simp add: pinned_dates_check_Inr)
  have "\<forall>d\<in>set XNYS_EARLY_CLOSE_DATES. cal_covers XNYS_CALENDAR d \<and> weekday d < 5"
    by (simp add: xnys_early_close_ordinals cal_covers_def weekday_def)
  then have early: "pinned_dates_check XNYS_CALENDAR l XNYS_EARLY_CLOSE_DATES = Inr ()" for l
    by (simp add: pinned_dates_check_Inr)
  have "filter (\<lambda>d. d \<in> set XNYS_EARLY_CLOSE_DATES) XNYS_CLOSED_DATES = []"
    by (simp add: xnys_closed_ordinals xnys_early_close_ordinals)
  with closed early show ?thesis
    by (simp add: session_calendar_new_def CALENDAR_VERSION_MAX_LENGTH_def)
qed

text \<open>A zone at offset zero, for concrete schedules.\<close>

definition utc_date :: "instant \<Rightarrow> date" where
  "utc_date t = t div microseconds_per_day + EPOCH_ORDINAL"

definition utc_zone :: "string \<Rightarrow> date \<Rightarrow> wall_time \<Rightarrow> instant" where
  "utc_zone z d w = (d - EPOCH_ORDINAL) * microseconds_per_day + w"

lemma utc_date_utc_zone:
  "0 \<le> w \<Longrightarrow> w < microseconds_per_day \<Longrightarrow> utc_date (utc_zone z d w) = d"
  by (simp add: utc_date_def utc_zone_def microseconds_per_day_def)

lemma mono_utc_date: "mono utc_date"
  by (rule monoI) (simp add: utc_date_def microseconds_per_day_def zdiv_mono1)

lemma utc_zone_law: "zone_law utc_date utc_zone XNYS_CALENDAR"
proof -
  have "utc_zone z d (sh_opens (hours_on XNYS_CALENDAR d)) < utc_zone z d (sh_closes (hours_on XNYS_CALENDAR d))"
    "utc_date (utc_zone z d (sh_opens (hours_on XNYS_CALENDAR d))) = d"
    "utc_date (utc_zone z d (sh_closes (hours_on XNYS_CALENDAR d))) = d" for z d
    by (cases "d \<in> set XNYS_EARLY_CLOSE_DATES";
        simp add: hours_on_def utc_date_utc_zone microseconds_per_day_def; simp add: utc_zone_def)+
  then show ?thesis by (simp add: zone_law_def mono_utc_date pinned_session_def)
qed

lemma july_2026:
  "calendar_range XNYS_CALENDAR (Some 739798) (Some 739803) = Inr (739798, 739803)"
  "session_type_on XNYS_CALENDAR 739799 = Inr REGULAR"
  "session_type_on XNYS_CALENDAR 739800 = Inr CLOSED"
  "pinned_session utc_zone XNYS_CALENDAR 739799
     = \<lparr>ts_date = 739799, ts_opens_at = 1782984600000000, ts_closes_at = 1783008000000000\<rparr>"
  by (simp_all add: calendar_range_Inr cal_covers_def session_type_on_def require_covered_def weekday_def
      xnys_closed_ordinals xnys_early_close_ordinals pinned_session_def hours_on_def utc_zone_def
      EPOCH_ORDINAL_def microseconds_per_day_def)

text \<open>1 to 6 July 2026: Friday the third is a holiday, Thursday the second a full session.\<close>

theorem calendar_schedule_is_exact_witness:
  "\<exists>sch. session_schedule utc_date utc_zone XNYS_CALENDAR (Some 739798) (Some 739803) = Inr sch \<and>
     session_on sch 739800 = None \<and>
     session_on sch 739799 =
       Some \<lparr>ts_date = 739799, ts_opens_at = 1782984600000000, ts_closes_at = 1783008000000000\<rparr>"
proof -
  obtain sch where sch: "session_schedule utc_date utc_zone XNYS_CALENDAR (Some 739798) (Some 739803) = Inr sch"
    and on: "\<forall>d. session_on sch d =
       (if 739798 \<le> d \<and> d \<le> 739803 \<and> session_type_on XNYS_CALENDAR d \<noteq> Inr CLOSED
        then Some (pinned_session utc_zone XNYS_CALENDAR d) else None)"
    using calendar_schedule_is_exact [OF july_2026(1) utc_zone_law] by blast
  have "session_on sch 739800 = None" using on july_2026(3) by simp
  moreover have "session_on sch 739799 = Some (pinned_session utc_zone XNYS_CALENDAR 739799)"
    using on july_2026(2) by simp
  ultimately show ?thesis using sch july_2026(4) by auto
qed

text \<open>
  The pinned dates are not exactly those of the rules the module's documentation states: New
  Year's Day 2022 is a Saturday and the Friday before it is a regular session, and there is a
  second single closure, 5 December 2018.
\<close>

lemma xnys_beyond_the_stated_rules:
  "weekday (ymd_ord 2022 1 1) = 5"
  "session_type_on XNYS_CALENDAR (ymd_ord 2021 12 31) = Inr REGULAR"
  "session_type_on XNYS_CALENDAR (ymd_ord 2018 12 5) = Inr CLOSED"
  by (simp_all add: ymd_eval weekday_def session_type_on_def require_covered_def cal_covers_def
      xnys_closed_ordinals xnys_early_close_ordinals)

end
