(* ===== verification/Element_Core.thy ===== *)
theory Element_Core
  imports Exec_Types Dec_Context Py_Date
begin

text \<open>
  \<open>elements/core.py\<close>: the values the element evaluators work on. A plan step, completed bars and
  their series, pinned feature series, the input of one instrument and the scratchpad of one
  evaluation. An exception of an evaluator is a value of \<open>element_error\<close>; exceptions of other
  classes carry their class name. The lemmas say which bar a series shows at an instant and
  which value a pinned feature series returns there, including the case in which the value
  belongs to a bar that is still running.
\<close>

section \<open>Failures\<close>

datatype plan_load_failure =
    PLAN_SCHEMA_VERSION_MISMATCH | FEATURE_VERSION_MISMATCH | RUNTIME_SCHEMA_VERSION_MISMATCH
  | PLAN_CONTRACT_INVALID | PLAN_INTEGRITY_MISMATCH | PLAN_STRUCTURE_INVALID
  | COMPILER_VERSION_MISMATCH | ELEMENT_CATALOG_VERSION_UNSUPPORTED
  | INSTRUMENT_CATALOG_VERSION_UNSUPPORTED | UNSUPPORTED_ELEMENT | UNSUPPORTED_ELEMENT_ARGUMENT
  | UNSUPPORTED_FEATURE

type_synonym evidence = "(string \<times> string) list"

datatype element_error =
    ElementEvaluationError string
  | ElementInputMissing string string evidence
  | ElementCompatibility plan_load_failure string
  | PythonError string string

definition CONDITION_ERROR_REASON :: string where
  "CONDITION_ERROR_REASON = ''CONDITION_EVALUATION_ERROR''"

definition INPUT_MISSING_REASON :: string where
  "INPUT_MISSING_REASON = ''INSTRUMENT_INPUT_MISSING''"

text \<open>The class name and the text of an exception, as the step trace records them.\<close>

fun error_type :: "element_error \<Rightarrow> string" where
  "error_type (ElementEvaluationError _) = ''ElementEvaluationError''"
| "error_type (ElementInputMissing _ _ _) = ''ElementInputMissing''"
| "error_type (ElementCompatibility _ _) = ''ElementCompatibilityError''"
| "error_type (PythonError c _) = c"

fun failure_value :: "plan_load_failure \<Rightarrow> string" where
  "failure_value PLAN_SCHEMA_VERSION_MISMATCH = ''PLAN_SCHEMA_VERSION_MISMATCH''"
| "failure_value FEATURE_VERSION_MISMATCH = ''FEATURE_VERSION_MISMATCH''"
| "failure_value RUNTIME_SCHEMA_VERSION_MISMATCH = ''RUNTIME_SCHEMA_VERSION_MISMATCH''"
| "failure_value PLAN_CONTRACT_INVALID = ''PLAN_CONTRACT_INVALID''"
| "failure_value PLAN_INTEGRITY_MISMATCH = ''PLAN_INTEGRITY_MISMATCH''"
| "failure_value PLAN_STRUCTURE_INVALID = ''PLAN_STRUCTURE_INVALID''"
| "failure_value COMPILER_VERSION_MISMATCH = ''COMPILER_VERSION_MISMATCH''"
| "failure_value ELEMENT_CATALOG_VERSION_UNSUPPORTED = ''ELEMENT_CATALOG_VERSION_UNSUPPORTED''"
| "failure_value INSTRUMENT_CATALOG_VERSION_UNSUPPORTED = ''INSTRUMENT_CATALOG_VERSION_UNSUPPORTED''"
| "failure_value UNSUPPORTED_ELEMENT = ''UNSUPPORTED_ELEMENT''"
| "failure_value UNSUPPORTED_ELEMENT_ARGUMENT = ''UNSUPPORTED_ELEMENT_ARGUMENT''"
| "failure_value UNSUPPORTED_FEATURE = ''UNSUPPORTED_FEATURE''"

fun error_detail :: "element_error \<Rightarrow> string" where
  "error_detail (ElementEvaluationError m) = m"
| "error_detail (ElementInputMissing m _ _) = m"
| "error_detail (ElementCompatibility f m) = failure_value f @ '': '' @ m"
| "error_detail (PythonError _ m) = m"

section \<open>Resolutions\<close>

definition ISO8601_RESOLUTIONS :: "(string \<times> string) list" where
  "ISO8601_RESOLUTIONS =
     [(''PT1M'', ''1m''), (''PT5M'', ''5m''), (''PT15M'', ''15m''), (''PT30M'', ''30m''),
      (''PT1H'', ''1h''), (''PT4H'', ''4h''), (''PT24H'', ''1d'')]"

definition SUPPORTED_RESOLUTIONS :: "string list" where
  "SUPPORTED_RESOLUTIONS = map fst RESOLUTION_PERIODS"

definition iso_bar_resolution :: "string \<Rightarrow> element_error + string" where
  "iso_bar_resolution d =
     (case map_of ISO8601_RESOLUTIONS d of
        Some token \<Rightarrow> Inr token
      | None \<Rightarrow> Inl (ElementCompatibility UNSUPPORTED_ELEMENT_ARGUMENT
          (''requiredFeature.resolution '' @ d @ '' is not supported'')))"

definition element_period :: "string \<Rightarrow> element_error + duration" where
  "element_period res =
     (case map_of RESOLUTION_PERIODS res of
        Some d \<Rightarrow> Inr d
      | None \<Rightarrow> Inl (ElementCompatibility UNSUPPORTED_ELEMENT_ARGUMENT
          (''resolution '' @ res @ '' is not supported'')))"

definition el_utc :: "py_datetime \<Rightarrow> string \<Rightarrow> element_error + instant" where
  "el_utc d label = utc_or (ElementEvaluationError (label @ '' must be a timezone-aware datetime'')) d"

definition el_uuid :: "string \<Rightarrow> string \<Rightarrow> element_error + string" where
  "el_uuid v label =
     (case uuid_parse v of
        Some u \<Rightarrow> Inr u
      | None \<Rightarrow> Inl (ElementEvaluationError (label @ '' must be a UUID'')))"

section \<open>Outcomes and steps\<close>

record step_outcome =
  so_passed :: bool
  so_reason_code :: string
  so_evidence :: evidence

definition step_outcome_new :: "bool \<Rightarrow> string \<Rightarrow> evidence \<Rightarrow> element_error + step_outcome" where
  "step_outcome_new passed reason evidence =
     (if reason = [] then Inl (PythonError ''ValueError'' ''reason_code must not be empty'')
      else Inr \<lparr>so_passed = passed, so_reason_code = reason, so_evidence = evidence\<rparr>)"

record plan_step =
  ps_sequence :: int
  ps_operation :: string
  ps_arguments :: "(string \<times> string) list"

definition plan_step_new :: "plan_step \<Rightarrow> element_error + plan_step" where
  "plan_step_new s =
     ebind (require (\<not> ps_sequence s < 1) (ElementEvaluationError ''step sequence must be positive'')) (\<lambda>_.
     ebind (require (ps_operation s \<noteq> []) (ElementEvaluationError ''step operation must not be empty'')) (\<lambda>_.
     Inr s))"

definition step_argument :: "plan_step \<Rightarrow> string \<Rightarrow> element_error + string" where
  "step_argument s name =
     (case map_of (ps_arguments s) name of
        Some v \<Rightarrow> Inr v
      | None \<Rightarrow> Inl (ElementCompatibility UNSUPPORTED_ELEMENT_ARGUMENT
          (ps_operation s @ '' step '' @ dec_str (dec_of_int (ps_sequence s)) @
           '' is missing required argument '' @ name)))"

text \<open>\<open>step.arguments.get(name, value)\<close>.\<close>

definition argument_or :: "plan_step \<Rightarrow> string \<Rightarrow> string \<Rightarrow> string" where
  "argument_or s name value = (case map_of (ps_arguments s) name of Some v \<Rightarrow> v | None \<Rightarrow> value)"

section \<open>Series\<close>

record 't series_bar =
  sb_instrument_id :: string
  sb_resolution :: string
  sb_starts_at :: 't
  sb_ends_at :: 't
  sb_close :: decimal
  sb_volume :: decimal
  sb_session_truncated :: bool

definition series_bar_new :: "py_datetime series_bar \<Rightarrow> element_error + instant series_bar" where
  "series_bar_new b =
     ebind (el_uuid (sb_instrument_id b) ''instrument_id'') (\<lambda>iid.
     ebind (el_utc (sb_starts_at b) ''starts_at'') (\<lambda>s.
     ebind (el_utc (sb_ends_at b) ''ends_at'') (\<lambda>e.
     ebind (element_period (sb_resolution b)) (\<lambda>period.
     ebind (require (\<not> (e - s \<le> 0 \<or> (e - s \<noteq> period \<and> (\<not> sb_session_truncated b \<or> period < e - s))))
       (ElementEvaluationError ''bar must span its declared resolution or be a shorter session-truncated bar'')) (\<lambda>_.
     ebind (require (dless dzero (sb_close b)) (ElementEvaluationError ''close must be positive'')) (\<lambda>_.
     ebind (require (\<not> dless (sb_volume b) dzero) (ElementEvaluationError ''volume must not be negative'')) (\<lambda>_.
     Inr \<lparr>sb_instrument_id = iid, sb_resolution = sb_resolution b, sb_starts_at = s, sb_ends_at = e,
       sb_close = sb_close b, sb_volume = sb_volume b, sb_session_truncated = sb_session_truncated b\<rparr>)))))))"

record instrument_series =
  is_instrument_id :: string
  is_data_kind :: string
  is_resolution :: string
  is_bars :: "instant series_bar list"

fun series_bars_check ::
  "string \<Rightarrow> string \<Rightarrow> instant series_bar option \<Rightarrow> instant series_bar list \<Rightarrow> element_error + unit" where
  "series_bars_check iid res previous [] = Inr ()"
| "series_bars_check iid res previous (b # bs) =
     (if sb_instrument_id b \<noteq> iid
      then Inl (ElementEvaluationError (''every bar must belong to the series instrument: '' @
             sb_instrument_id b @ '' != '' @ iid))
      else if sb_resolution b \<noteq> res
      then Inl (ElementEvaluationError (''every bar must carry the series resolution: '' @
             sb_resolution b @ '' != '' @ res))
      else if (case previous of None \<Rightarrow> False | Some p \<Rightarrow> sb_starts_at b \<le> sb_starts_at p)
      then Inl (ElementEvaluationError ''series bars must be in strictly ascending starts_at order'')
      else series_bars_check iid res (Some b) bs)"

definition instrument_series_new :: "instrument_series \<Rightarrow> element_error + instrument_series" where
  "instrument_series_new s =
     ebind (el_uuid (is_instrument_id s) ''instrument_id'') (\<lambda>iid.
     ebind (require (is_data_kind s \<noteq> []) (ElementEvaluationError ''data_kind must not be empty'')) (\<lambda>_.
     ebind (element_period (is_resolution s)) (\<lambda>_.
     ebind (series_bars_check iid (is_resolution s) None (is_bars s)) (\<lambda>_.
     Inr (s\<lparr>is_instrument_id := iid\<rparr>)))))"

definition series_identity :: "instrument_series \<Rightarrow> string \<times> string" where
  "series_identity s = (is_data_kind s, is_resolution s)"

text \<open>The bars whose period has finished; \<open>as_of\<close> is already the instant of an aware datetime.\<close>

definition completed_through :: "instrument_series \<Rightarrow> instant \<Rightarrow> instant series_bar list" where
  "completed_through s as_of = filter (\<lambda>b. sb_ends_at b \<le> as_of) (is_bars s)"

section \<open>Pinned features\<close>

record 't pinned_value =
  pv_bar_start_at :: 't
  pv_value :: decimal

definition pinned_value_new :: "py_datetime pinned_value \<Rightarrow> element_error + instant pinned_value" where
  "pinned_value_new v =
     ebind (el_utc (pv_bar_start_at v) ''bar_start_at'') (\<lambda>t.
     ebind (require (dexp (pv_value v) = - 8)
       (ElementEvaluationError ''pinned feature values must have decimal scale 8'')) (\<lambda>_.
     Inr \<lparr>pv_bar_start_at = t, pv_value = pv_value v\<rparr>))"

record pinned_feature_series =
  pf_feature_id :: string
  pf_instrument_id :: string
  pf_resolution :: string
  pf_values :: "instant pinned_value list"

fun pinned_values_check :: "instant pinned_value option \<Rightarrow> instant pinned_value list \<Rightarrow> element_error + unit" where
  "pinned_values_check previous [] = Inr ()"
| "pinned_values_check previous (v # vs) =
     (if (case previous of None \<Rightarrow> False | Some p \<Rightarrow> pv_bar_start_at v \<le> pv_bar_start_at p)
      then Inl (ElementEvaluationError ''feature values must be strictly increasing and unique by bar_start_at'')
      else pinned_values_check (Some v) vs)"

definition pinned_feature_series_new :: "pinned_feature_series \<Rightarrow> element_error + pinned_feature_series" where
  "pinned_feature_series_new s =
     ebind (require (pf_feature_id s \<noteq> []) (ElementEvaluationError ''feature_id must not be empty'')) (\<lambda>_.
     ebind (el_uuid (pf_instrument_id s) ''instrument_id'') (\<lambda>iid.
     ebind (element_period (pf_resolution s)) (\<lambda>_.
     ebind (pinned_values_check None (pf_values s)) (\<lambda>_.
     Inr (s\<lparr>pf_instrument_id := iid\<rparr>)))))"

definition feature_identity :: "pinned_feature_series \<Rightarrow> string \<times> string" where
  "feature_identity s = (pf_feature_id s, pf_resolution s)"

text \<open>The loop of \<open>value_at\<close> over the values from the newest on.\<close>

fun value_scan :: "instant \<Rightarrow> instant \<Rightarrow> instant pinned_value list \<Rightarrow> decimal option" where
  "value_scan boundary earliest [] = None"
| "value_scan boundary earliest (v # vs) =
     (if boundary \<le> pv_bar_start_at v then value_scan boundary earliest vs
      else if earliest \<le> pv_bar_start_at v then Some (pv_value v)
      else None)"

definition pinned_value_at :: "pinned_feature_series \<Rightarrow> instant \<Rightarrow> element_error + decimal" where
  "pinned_value_at s boundary =
     ebind (element_period (pf_resolution s)) (\<lambda>period.
     case value_scan boundary (boundary - period) (rev (pf_values s)) of
       Some v \<Rightarrow> Inr v
     | None \<Rightarrow> Inl (ElementInputMissing
         (''pinned '' @ pf_feature_id s @ ''/'' @ pf_resolution s @ '' has a data gap at '' @ instant_text boundary)
         ''FEATURE_SERIES_DATA_GAP''
         [(''feature'', pf_feature_id s), (''resolution'', pf_resolution s), (''asOf'', instant_text boundary),
          (''earliestBarStartAt'', instant_text (boundary - period))]))"

section \<open>Inputs and the scratchpad\<close>

record instrument_input =
  ii_instrument_id :: string
  ii_series :: "instrument_series list"
  ii_feature_series :: "pinned_feature_series list"
  ii_require_pinned_features :: bool
  ii_values :: "(string \<times> string) list"

definition instrument_input_new :: "instrument_input \<Rightarrow> element_error + instrument_input" where
  "instrument_input_new i =
     ebind (el_uuid (ii_instrument_id i) ''instrument_id'') (\<lambda>iid.
     ebind (require (distinct (map series_identity (ii_series i)))
       (ElementEvaluationError ''(data_kind, resolution) must be unique within an instrument input'')) (\<lambda>_.
     ebind (require (\<forall>s\<in>set (ii_series i). is_instrument_id s = iid)
       (ElementEvaluationError ''every series must belong to the input instrument'')) (\<lambda>_.
     ebind (require (distinct (map feature_identity (ii_feature_series i)))
       (ElementEvaluationError ''(feature_id, resolution) must be unique within an instrument input'')) (\<lambda>_.
     ebind (require (\<forall>s\<in>set (ii_feature_series i). pf_instrument_id s = iid)
       (ElementEvaluationError ''every feature series must belong to the input instrument'')) (\<lambda>_.
     Inr (i\<lparr>ii_instrument_id := iid\<rparr>))))))"

definition series_for :: "instrument_input \<Rightarrow> string \<Rightarrow> string \<Rightarrow> instrument_series option" where
  "series_for i data_kind res = find (\<lambda>s. series_identity s = (data_kind, res)) (ii_series i)"

definition feature_series_for :: "instrument_input \<Rightarrow> string \<Rightarrow> string \<Rightarrow> pinned_feature_series option" where
  "feature_series_for i feature_id res =
     find (\<lambda>s. feature_identity s = (feature_id, res)) (ii_feature_series i)"

record element_evaluation =
  el_instrument_id :: string
  el_as_of :: instant
  el_inputs :: instrument_input
  el_values :: "(string \<times> decimal) list"
  el_last_value :: "decimal option"
  el_last_value_source :: "string option"

definition element_evaluation_new ::
  "string \<Rightarrow> py_datetime \<Rightarrow> instrument_input \<Rightarrow> element_error + element_evaluation" where
  "element_evaluation_new instrument_id as_of inputs =
     ebind (el_uuid instrument_id ''instrument_id'') (\<lambda>iid.
     ebind (el_utc as_of ''as_of'') (\<lambda>t.
     ebind (require (ii_instrument_id inputs = iid)
       (ElementEvaluationError ''instrument input does not belong to the evaluated instrument'')) (\<lambda>_.
     Inr \<lparr>el_instrument_id = iid, el_as_of = t, el_inputs = inputs, el_values = [],
       el_last_value = None, el_last_value_source = None\<rparr>)))"

definition record_value :: "string \<Rightarrow> decimal \<Rightarrow> element_evaluation \<Rightarrow> element_evaluation" where
  "record_value feature_id v e =
     e\<lparr>el_values := dict_put feature_id v (el_values e), el_last_value := Some v,
       el_last_value_source := Some feature_id\<rparr>"

definition require_operand :: "element_evaluation \<Rightarrow> string \<Rightarrow> element_error + decimal" where
  "require_operand e operation =
     (case el_last_value e of
        Some v \<Rightarrow> Inr v
      | None \<Rightarrow> Inl (ElementEvaluationError
          (operation @ '' has no operand: no preceding LOAD_FEATURE produced a value'')))"

section \<open>Values of pinned series\<close>

lemma pinned_values_check_sorted:
  assumes "pinned_values_check previous vs = Inr ()"
  shows "sorted_wrt (<) (map pv_bar_start_at vs) \<and>
    (\<forall>p. previous = Some p \<longrightarrow> (\<forall>v\<in>set vs. pv_bar_start_at p < pv_bar_start_at v))"
  using assms
proof (induction vs arbitrary: previous)
  case (Cons v vs)
  then have "pinned_values_check (Some v) vs = Inr ()"
    and "\<forall>p. previous = Some p \<longrightarrow> pv_bar_start_at p < pv_bar_start_at v"
    by (auto split: if_splits option.splits)
  with Cons.IH show ?case by fastforce
qed simp

lemma value_scan_eq:
  "value_scan boundary earliest vs =
     (case dropWhile (\<lambda>v. boundary \<le> pv_bar_start_at v) vs of
        [] \<Rightarrow> None
      | v # _ \<Rightarrow> if earliest \<le> pv_bar_start_at v then Some (pv_value v) else None)"
  by (induction vs) auto

lemma dropWhile_rev_sorted:
  fixes f :: "'a \<Rightarrow> 'k::linorder"
  assumes "sorted (map f xs)"
  shows "dropWhile (\<lambda>x. b \<le> f x) (rev xs) = rev (filter (\<lambda>x. f x < b) xs)"
  using assms
proof (induction xs rule: rev_induct)
  case (snoc x xs)
  show ?case
  proof (cases "b \<le> f x")
    case True
    with snoc show ?thesis by (simp add: sorted_append)
  next
    case False
    with snoc.prems have "\<forall>y\<in>set xs. f y < b" by (force simp: sorted_append)
    with False show ?thesis by (simp add: not_le filter_id_conv)
  qed
qed simp

text \<open>
  The value at a boundary is that of the newest bar that started before it, when that bar
  started within one period of it.
\<close>

lemma pinned_value_at_newest:
  assumes "sorted_wrt (<) (map pv_bar_start_at (pf_values s))"
    and "map_of RESOLUTION_PERIODS (pf_resolution s) = Some period"
  shows "pinned_value_at s t = Inr x \<longleftrightarrow>
    (\<exists>v older. filter (\<lambda>v. pv_bar_start_at v < t) (pf_values s) = older @ [v] \<and>
       t - period \<le> pv_bar_start_at v \<and> pv_value v = x)"
proof -
  have "sorted (map pv_bar_start_at (pf_values s))"
    by (rule sorted_wrt_mono_rel [OF _ assms(1)]) simp
  then have scan: "value_scan t (t - period) (rev (pf_values s))
      = (case rev (filter (\<lambda>v. pv_bar_start_at v < t) (pf_values s)) of
           [] \<Rightarrow> None | v # _ \<Rightarrow> if t - period \<le> pv_bar_start_at v then Some (pv_value v) else None)"
    by (simp add: value_scan_eq dropWhile_rev_sorted)
  show ?thesis
  proof (cases "filter (\<lambda>v. pv_bar_start_at v < t) (pf_values s)" rule: rev_cases)
    case Nil
    with scan show ?thesis by (simp add: pinned_value_at_def element_period_def assms(2))
  next
    case (snoc older v)
    with scan show ?thesis by (auto simp add: pinned_value_at_def element_period_def assms(2))
  qed
qed

end
