(* ===== verification/Dec_Rounding.thy ===== *)
theory Dec_Rounding
  imports Money
begin

text \<open>
  The decimal operations of a context with \<open>ROUND_HALF_EVEN\<close> are correctly rounded: the value of a
  sum, difference or quotient is the exact rational result rounded once, half-even, to the
  precision's number of significant digits. \<open>rounds\<close> states that on rationals, without reference to
  coefficients or exponents.
\<close>

definition rounds :: "nat \<Rightarrow> rat \<Rightarrow> rat \<Rightarrow> bool" where
  "rounds p x y \<longleftrightarrow> x = 0 \<and> y = 0 \<or>
     (\<exists>e. 10 powi (e + int p - 1) \<le> \<bar>x\<bar> \<and> \<bar>x\<bar> < 10 powi (e + int p) \<and>
        y = of_int (rhe (x / 10 powi e)) * 10 powi e)"

lemma powi10_less: "(10::rat) powi a < 10 powi b \<longleftrightarrow> a < b"
  using power_int_strict_increasing [of a b "10::rat"] power_int_increasing [of b a "10::rat"]
  by (cases "a < b") (auto simp: not_less)

text \<open>The rounded value is determined.\<close>

lemma rounds_unique:
  assumes "rounds p x y" "rounds p x z"
  shows "y = z"
proof (cases "x = 0")
  case True
  have "\<not> (10::rat) powi a \<le> \<bar>x\<bar>" for a :: int using True powi10_pos [of a] by (simp only: abs_zero not_le)
  with assms show ?thesis by (auto simp: rounds_def)
next
  case False
  with assms obtain e f where
    e: "10 powi (e + int p - 1) \<le> \<bar>x\<bar>" "\<bar>x\<bar> < 10 powi (e + int p)" "y = of_int (rhe (x / 10 powi e)) * 10 powi e"
    and f: "10 powi (f + int p - 1) \<le> \<bar>x\<bar>" "\<bar>x\<bar> < 10 powi (f + int p)" "z = of_int (rhe (x / 10 powi f)) * 10 powi f"
    by (auto simp: rounds_def)
  from e(1) f(2) have "e + int p - 1 < f + int p" unfolding powi10_less [symmetric] by (rule le_less_trans)
  moreover from f(1) e(2) have "f + int p - 1 < e + int p" unfolding powi10_less [symmetric] by (rule le_less_trans)
  ultimately have "e = f" by simp
  with e(3) f(3) show ?thesis by simp
qed

lemma dfix_rounds:
  assumes "0 < p"
  shows "rounds p (dval d) (dval (dfix p d))"
proof (cases "dcoef d = 0")
  case True
  then have "dfix p d = d" using assms by (intro dfix_small) simp_all
  with True show ?thesis by (simp add: rounds_def dval_zero_iff)
next
  case False
  define n where "n = ndigits (dcoef d)"
  define e where "e = dexp d + int n - int p"
  have n: "0 < n" by (simp add: n_def)
  have lo: "10 powi (e + int p - 1) \<le> \<bar>dval d\<bar>"
  proof -
    have "(of_nat (10 ^ (n - 1)) :: rat) \<le> of_nat (dcoef d)"
      using ndigits_lower [of "dcoef d"] False unfolding n_def of_nat_le_iff by simp
    moreover have "e + int p - 1 = int (n - 1) + dexp d" using n by (simp add: e_def)
    ultimately show ?thesis
      by (simp add: dval_abs powi10_add mult_right_mono del: of_nat_diff)
  qed
  have hi: "\<bar>dval d\<bar> < 10 powi (e + int p)"
  proof -
    have "(of_nat (dcoef d) :: rat) < of_nat (10 ^ n)"
      using ndigits_upper [of "dcoef d"] unfolding n_def of_nat_less_iff .
    moreover have "e + int p = int n + dexp d" by (simp add: e_def)
    ultimately show ?thesis by (simp add: dval_abs powi10_add)
  qed
  have val: "of_int (rhe (dval d / 10 powi e)) * 10 powi e = dval (Dec (dneg d) (rescale_coef (dcoef d) (dexp d) e) e)"
    unfolding rhe_quanta by (simp add: dval_def dsigned_def)
  have "dval (dfix p d) = of_int (rhe (dval d / 10 powi e)) * 10 powi e"
  proof (cases "n \<le> p")
    case True
    then have "dfix p d = d" by (simp add: n_def)
    moreover have "of_nat (dcoef d * 10 ^ nat (dexp d - e)) * 10 powi e = (of_nat (dcoef d) * 10 powi dexp d :: rat)"
    proof -
      have "(10::rat) powi dexp d = 10 powi (dexp d - e) * 10 powi e" by (simp flip: powi10_add)
      then show ?thesis using True by (simp add: e_def powi10_nat)
    qed
    moreover have "rescale_coef (dcoef d) (dexp d) e = dcoef d * 10 ^ nat (dexp d - e)"
      using True by (simp add: rescale_coef_def e_def)
    ultimately show ?thesis unfolding val by (auto simp: dval_def dsigned_def)
  next
    case False
    then have "e = dexp d + int (ndigits (dcoef d) - p)" by (simp add: e_def n_def)
    with dfix_rescaled [OF assms] False show ?thesis unfolding val by (simp add: n_def)
  qed
  with lo hi show ?thesis unfolding rounds_def by blast
qed

lemma dadd_rounds: "0 < p \<Longrightarrow> rounds p (dval a + dval b) (dval (dadd p a b))"
  using dfix_rounds [of p "dadd_exact a b"] by (simp add: dadd_dfix dval_dadd_exact)

lemma dsub_rounds: "0 < p \<Longrightarrow> rounds p (dval a - dval b) (dval (dsub p a b))"
  using dadd_rounds [of p a "copy_negate b"] by (simp add: dsub_def)

section \<open>Division\<close>

lemma rhe_near: "\<bar>x - of_int n\<bar> < 1 / 2 \<Longrightarrow> rhe x = n"
proof -
  assume "\<bar>x - of_int n\<bar> < 1 / 2"
  with rhe_error [of x] have "\<bar>of_int (rhe x) - of_int n :: rat\<bar> < 1" by linarith
  then show ?thesis by linarith
qed

text \<open>An inexact quotient lies on the same side of every multiple of five as its sticky digit.\<close>

lemma sticky_sides:
  assumes "0 < den" "num mod den \<noteq> 0" "5 dvd b"
  defines "x \<equiv> of_nat num / of_nat den :: rat" and "s \<equiv> int (sticky_div num den)"
  shows "s \<noteq> b" "s < b \<Longrightarrow> x < of_int b" "b < s \<Longrightarrow> of_int b < x"
proof -
  define c where "c = num div den"
  have s: "s = (if c mod 5 = 0 then int c + 1 else int c)"
    using assms(2) by (simp add: s_def sticky_div_def c_def)
  have "num = den * c + num mod den" by (simp add: c_def)
  then have "(of_nat num :: rat) = of_nat den * of_nat c + of_nat (num mod den)" by (metis of_nat_add of_nat_mult)
  then have x: "x = of_nat c + of_nat (num mod den) / of_nat den"
    using assms(1) by (simp add: x_def field_simps)
  have frac: "0 < (of_nat (num mod den) :: rat) / of_nat den" "(of_nat (num mod den) :: rat) / of_nat den < 1"
    using assms(1,2) mod_less_divisor [OF assms(1), of num] by (simp_all add: field_simps)
  have "int c mod 5 = 0 \<longleftrightarrow> c mod 5 = 0" by (metis of_nat_0_eq_iff of_nat_mod of_nat_numeral)
  then have ns: "\<not> 5 dvd s" unfolding s by (auto simp: dvd_eq_mod_eq_0)
  then show "s \<noteq> b" using assms(3) by auto
  show "x < of_int b" if "s < b"
  proof -
    have "int c + 1 \<le> b"
      using that ns assms(3) by (auto simp: s split: if_splits)
    then have "(of_int (int c + 1) :: rat) \<le> of_int b" by (simp only: of_int_le_iff)
    with x frac show ?thesis by simp
  qed
  show "of_int b < x" if "b < s"
  proof -
    have "b \<le> int c" using that by (auto simp: s split: if_splits)
    then have "(of_int b :: rat) \<le> of_int (int c)" by (simp only: of_int_le_iff)
    with x frac show ?thesis by simp
  qed
qed

lemma sticky_rounds:
  assumes "0 < den" "num mod den \<noteq> 0" "2 \<le> p" "10 ^ p * den \<le> num"
    and r: "rounds p (of_nat (sticky_div num den) * 10 powi e) y"
  shows "rounds p (of_nat num / of_nat den * 10 powi e) y"
proof -
  define s where "s = int (sticky_div num den)"
  define x where "x = (of_nat num / of_nat den :: rat)"
  note side = sticky_sides [OF assms(1,2), folded s_def x_def]
  have "10 ^ p \<le> num div den" using assms(1,4) by (simp add: less_eq_div_iff_mult_less_eq)
  then have "10 ^ p \<le> sticky_div num den" by (simp add: sticky_div_def Let_def)
  then have big: "(10::int) ^ p \<le> s" unfolding s_def by (metis of_nat_le_iff of_nat_numeral of_nat_power)
  then have pos: "0 < s" by (rule less_le_trans [rotated]) simp
  have sr: "of_nat (sticky_div num den) = (of_int s :: rat)" by (simp add: s_def)
  have "of_int s * 10 powi e \<noteq> (0::rat)" using pos by simp
  with r obtain E where E: "10 powi (E + int p - 1) \<le> of_int s * (10 powi e :: rat)" "of_int s * 10 powi e < (10::rat) powi (E + int p)"
    "y = of_int (rhe (of_int s * 10 powi e / 10 powi E)) * 10 powi E"
    using pos unfolding rounds_def sr by (auto simp: abs_mult)
  have "(10::rat) powi (e + int p) \<le> of_int s * 10 powi e"
  proof -
    have "(of_int (10 ^ p) :: rat) \<le> of_int s" using big by (simp only: of_int_le_iff)
    then show ?thesis by (simp add: powi10_add mult.commute mult_right_mono)
  qed
  then have "e + int p < E + int p" unfolding powi10_less [symmetric] using E(2) by (rule le_less_trans)
  then obtain m where m: "E = e + int (Suc m)" by (metis add_less_cancel_right zless_iff_Suc_zadd)
  have scale: "10 powi (E + k) = (10::rat) powi (int (Suc m) + k) * 10 powi e" for k
    by (simp add: m flip: powi10_add) (simp add: algebra_simps)
  have lo: "(10::rat) ^ (m + p) \<le> of_int s" and hi: "of_int s < (10::rat) ^ (Suc m + p)"
  proof -
    have "int (Suc m) + (int p - 1) = int (m + p)" by simp
    then have "(10::rat) powi (E + int p - 1) = 10 ^ (m + p) * 10 powi e"
      using scale [of "int p - 1"] by (simp only: add_diff_eq power_int_of_nat)
    with E(1) show "(10::rat) ^ (m + p) \<le> of_int s" by simp
    have "int (Suc m) + int p = int (Suc m + p)" by simp
    then have "(10::rat) powi (E + int p) = 10 ^ (Suc m + p) * 10 powi e"
      using scale [of "int p"] by (simp only: power_int_of_nat)
    with E(2) show "of_int s < (10::rat) ^ (Suc m + p)" by simp
  qed
  have five: "5 dvd (10::int) ^ Suc k" for k by simp
  obtain j where j: "m + p = Suc j" using assms(3) by (cases "m + p") auto
  have "(10::int) ^ (m + p) \<le> s" using lo by (metis of_int_le_iff of_int_numeral of_int_power)
  then have lo': "(10::rat) ^ (m + p) \<le> x"
    using side(1,3) [of "10 ^ (m + p)"] five [of j] unfolding j by fastforce
  have "s < (10::int) ^ (Suc m + p)" using hi by (metis of_int_less_iff of_int_numeral of_int_power)
  then have hi': "x < (10::rat) ^ (Suc m + p)" using side(2) [of "10 ^ (Suc m + p)"] by simp
  define n where "n = rhe (of_int s / 10 ^ Suc m)"
  have n: "\<bar>of_int n - of_int s / 10 ^ Suc m :: rat\<bar> \<le> 1 / 2" unfolding n_def by (rule rhe_error)
  have half: "(10::rat) ^ Suc m / 2 = of_int (5 * 10 ^ m)" by simp
  have "of_int ((2 * n - 1) * (5 * 10 ^ m)) \<le> (of_int s :: rat)" "(of_int s :: rat) \<le> of_int ((2 * n + 1) * (5 * 10 ^ m))"
    using n by (simp_all add: field_simps abs_le_iff)
  then have "(2 * n - 1) * (5 * 10 ^ m) \<le> s" "s \<le> (2 * n + 1) * (5 * 10 ^ m)" by (simp_all only: of_int_le_iff)
  then have "of_int ((2 * n - 1) * (5 * 10 ^ m)) < x" "x < of_int ((2 * n + 1) * (5 * 10 ^ m))"
    using side [of "(2 * n - 1) * (5 * 10 ^ m)"] side [of "(2 * n + 1) * (5 * 10 ^ m)"] by (simp_all add: order_less_le)
  then have "\<bar>x / 10 ^ Suc m - of_int n\<bar> < 1 / 2" by (simp add: field_simps abs_less_iff)
  then have rx: "rhe (x / 10 ^ Suc m) = n" by (rule rhe_near)
  have quot: "z * 10 powi e / 10 powi E = z / (10::rat) ^ Suc m" for z
    using scale [of 0, unfolded add_0_right power_int_of_nat] by simp
  have "0 \<le> x" by (simp add: x_def)
  have "10 powi (E + int p - 1) \<le> \<bar>x * 10 powi e\<bar> \<and> \<bar>x * 10 powi e\<bar> < 10 powi (E + int p)"
  proof -
    have "int (Suc m) + (int p - 1) = int (m + p)" "int (Suc m) + int p = int (Suc m + p)" by simp_all
    then have "(10::rat) powi (E + int p - 1) = 10 ^ (m + p) * 10 powi e" "(10::rat) powi (E + int p) = 10 ^ (Suc m + p) * 10 powi e"
      using scale [of "int p - 1"] scale [of "int p"] by (simp_all only: add_diff_eq power_int_of_nat)
    with lo' hi' \<open>0 \<le> x\<close> show ?thesis by (simp add: abs_mult)
  qed
  moreover have "y = of_int (rhe (x * 10 powi e / 10 powi E)) * 10 powi E"
    unfolding E(3) quot rx by (simp only: n_def)
  ultimately show ?thesis unfolding x_def [symmetric] rounds_def by blast
qed

lemma ddiv_rounds:
  assumes q: "ddiv p a b = Inr q" and pos: "0 \<le> dval a" "0 < dval b" and p: "2 \<le> p"
  shows "rounds p (dval a / dval b) (dval q)"
proof (cases "dval a = 0")
  case True
  then have "dcoef a = 0" by (simp add: dval_zero_iff)
  moreover have "dcoef b \<noteq> 0" using pos(2) dval_zero_iff [of b] by auto
  ultimately have "dval q = 0" using q p by (auto simp: ddiv_def Let_def dfix_small dval_zero_iff)
  with True show ?thesis by (simp add: rounds_def)
next
  case False
  then have a: "0 < dval a" using pos(1) by simp
  have c: "0 < dcoef a" "0 < dcoef b" using a pos(2) by (metis dval_zero_iff gr0I less_irrefl)+
  define shift where "shift = int (ndigits (dcoef b)) - int (ndigits (dcoef a)) + int p + 1"
  define num where "num = dcoef a * 10 ^ nat shift"
  define den where "den = dcoef b * 10 ^ nat (- shift)"
  define e where "e = dexp a - dexp b - shift"
  note defs = shift_def num_def den_def e_def
  obtain v where qv: "q = dfix p v" and vv: "dval v = of_nat (sticky_div num den) * 10 powi e"
    using ddiv_unrounded(1) [OF q a pos(2)] unfolding defs by blast
  have t: "dval a / dval b = of_nat num / of_nat den * 10 powi e"
    using ddiv_unrounded(2) [OF q a pos(2)] unfolding defs by blast
  have den: "0 < den" using c by (simp add: den_def)
  have big: "10 ^ p * den \<le> num" using quotient_digits [OF c shift_def] by (simp add: num_def den_def)
  have r: "rounds p (of_nat (sticky_div num den) * 10 powi e) (dval q)"
    using dfix_rounds [of p v] p by (simp add: qv vv)
  show ?thesis
  proof (cases "num mod den = 0")
    case True
    then have "(of_nat (sticky_div num den) :: rat) = of_nat num / of_nat den"
      using den by (auto simp: sticky_div_def elim!: dvdE simp flip: dvd_eq_mod_eq_0)
    with r show ?thesis by (simp add: t)
  next
    case False
    from sticky_rounds [OF den False p big r] show ?thesis by (simp add: t)
  qed
qed

end
