(* ===== verification/Features.thy ===== *)
theory Features
  imports Element_Core Dec_Rounding
begin

text \<open>
  \<open>elements/features.py\<close>: the versioned feature definitions and the arithmetic of \<open>RSI_14\<close> in
  the 34-digit context. The main result: on exact rationals the computed value is the documented
  sequence of correctly rounded operations, quantized once, and it is close to the rule itself.
\<close>

definition FEATURE_CATALOG_VERSION :: string where
  "FEATURE_CATALOG_VERSION = ''features:1.0.0''"

definition FEATURE_VALUE_SCALE :: int where
  "FEATURE_VALUE_SCALE = 8"

definition FEATURE_WORKING_PRECISION :: nat where
  "FEATURE_WORKING_PRECISION = 34"

definition RSI_14_PERIODS :: nat where
  "RSI_14_PERIODS = 14"

fun decimal_exception :: "dec_error \<Rightarrow> element_error" where
  "decimal_exception DivisionByZero = PythonError ''DivisionByZero'' ''[<class 'decimal.DivisionByZero'>]''"
| "decimal_exception DivisionUndefined = PythonError ''InvalidOperation'' ''[<class 'decimal.DivisionUndefined'>]''"
| "decimal_exception InvalidOperation = PythonError ''InvalidOperation'' ''[<class 'decimal.InvalidOperation'>]''"

text \<open>\<open>_quantize\<close>, in the default context; a zero is rendered without a sign.\<close>

definition feature_quantize :: "decimal \<Rightarrow> element_error + decimal" where
  "feature_quantize v =
     ebind (map_err decimal_exception (dquantize default_prec v (- FEATURE_VALUE_SCALE))) (\<lambda>q.
     Inr (if deq q dzero then copy_abs q else q))"

text \<open>The loop over neighbouring closes: the sums of the gains and of the losses.\<close>

fun rsi_totals :: "decimal \<Rightarrow> decimal \<Rightarrow> decimal list \<Rightarrow> decimal \<times> decimal" where
  "rsi_totals gain loss (previous # current # cs) =
     (let change = dsub FEATURE_WORKING_PRECISION current previous in
      if dless dzero change then rsi_totals (dadd FEATURE_WORKING_PRECISION gain change) loss (current # cs)
      else if dless change dzero then rsi_totals gain (dsub FEATURE_WORKING_PRECISION loss change) (current # cs)
      else rsi_totals gain loss (current # cs))"
| "rsi_totals gain loss cs = (gain, loss)"

definition fdiv :: "decimal \<Rightarrow> decimal \<Rightarrow> element_error + decimal" where
  "fdiv a b = map_err decimal_exception (ddiv FEATURE_WORKING_PRECISION a b)"

definition rsi_of_totals :: "decimal \<Rightarrow> decimal \<Rightarrow> element_error + decimal" where
  "rsi_of_totals gain loss =
     (let periods = dec_of_int (int RSI_14_PERIODS); hundred = dec_of_int 100 in
      ebind (fdiv gain periods) (\<lambda>average_gain.
      ebind (fdiv loss periods) (\<lambda>average_loss.
      if deq average_loss dzero
      then Inr (if deq average_gain dzero then dec_of_int 50 else hundred)
      else ebind (fdiv average_gain average_loss) (\<lambda>relative_strength.
           ebind (fdiv hundred (dadd FEATURE_WORKING_PRECISION done1 relative_strength)) (\<lambda>q.
           Inr (dsub FEATURE_WORKING_PRECISION hundred q))))))"

definition compute_rsi_14 :: "instant series_bar list \<Rightarrow> element_error + decimal" where
  "compute_rsi_14 window =
     (if length window \<noteq> RSI_14_PERIODS + 1
      then Inl (ElementEvaluationError (''RSI_14 requires exactly 15 bars, got '' @ nat_str (length window)))
      else let (gain, loss) = rsi_totals dzero dzero (map sb_close window) in
           ebind (rsi_of_totals gain loss) feature_quantize)"

record feature_def =
  fd_feature_id :: string
  fd_definition_version :: string
  fd_method :: string
  fd_data_kind :: string
  fd_periods :: nat
  fd_value_scale :: int
  fd_compute :: "instant series_bar list \<Rightarrow> element_error + decimal"

definition required_bars :: "feature_def \<Rightarrow> nat" where
  "required_bars f = fd_periods f + 1"

definition feature_slug :: "feature_def \<Rightarrow> string" where
  "feature_slug f = takeWhile (\<lambda>c. c \<noteq> CHR '':'') (fd_definition_version f)"

definition semantic_version :: "feature_def \<Rightarrow> string" where
  "semantic_version f = tl (dropWhile (\<lambda>c. c \<noteq> CHR '':'') (fd_definition_version f))"

definition RSI_14_DEFINITION :: feature_def where
  "RSI_14_DEFINITION =
     \<lparr>fd_feature_id = ''RSI_14'', fd_definition_version = ''rsi:1.0.0'',
      fd_method = ''SIMPLE_AVERAGE_BOUNDED_WINDOW'', fd_data_kind = ''ADJUSTED_BAR'',
      fd_periods = RSI_14_PERIODS, fd_value_scale = FEATURE_VALUE_SCALE, fd_compute = compute_rsi_14\<rparr>"

definition FEATURE_REGISTRY :: "(string \<times> feature_def) list" where
  "FEATURE_REGISTRY = [(fd_feature_id RSI_14_DEFINITION, RSI_14_DEFINITION)]"

definition feature_definition :: "string \<Rightarrow> feature_def option" where
  "feature_definition feature_id = map_of FEATURE_REGISTRY feature_id"

section \<open>The rule on rationals\<close>

fun changes :: "rat list \<Rightarrow> rat list" where
  "changes (a # b # cs) = (b - a) # changes (b # cs)"
| "changes cs = []"

definition gains :: "rat list \<Rightarrow> rat" where
  "gains cs = (\<Sum>d\<leftarrow>changes cs. max d 0)"

definition losses :: "rat list \<Rightarrow> rat" where
  "losses cs = (\<Sum>d\<leftarrow>changes cs. max (- d) 0)"

definition rsi_rule :: "rat list \<Rightarrow> rat" where
  "rsi_rule cs =
     (let u = gains cs / 14; v = losses cs / 14
      in if v = 0 \<and> u = 0 then 50 else if v = 0 then 100 else 100 - 100 / (1 + u / v))"

text \<open>
  The documented computation: every operation correctly rounded to 34 significant digits,
  half-even, from the exact sums of the gains and of the losses.
\<close>

definition rsi_decimal128 :: "rat \<Rightarrow> rat \<Rightarrow> rat \<Rightarrow> bool" where
  "rsi_decimal128 g l v \<longleftrightarrow>
     (\<exists>average_gain average_loss.
        rounds 34 (g / 14) average_gain \<and> rounds 34 (l / 14) average_loss \<and>
        (if average_loss = 0 then v = (if average_gain = 0 then 50 else 100)
         else \<exists>strength total q. rounds 34 (average_gain / average_loss) strength \<and>
           rounds 34 (1 + strength) total \<and> rounds 34 (100 / total) q \<and> rounds 34 (100 - q) v))"

section \<open>Sums are exact\<close>

text \<open>At most \<open>s\<close> decimals.\<close>

definition scaled :: "nat \<Rightarrow> decimal \<Rightarrow> bool" where
  "scaled s d \<longleftrightarrow> - int s \<le> dexp d"

lemma working_scale: "- int s \<le> e \<Longrightarrow> s \<le> 34 \<Longrightarrow> (10::rat) ^ (34 - s) \<le> 10 ^ 34 * 10 powi e"
proof -
  assume "- int s \<le> e" "s \<le> 34"
  then have "(10::rat) powi (- int s) \<le> 10 powi e" by (intro power_int_increasing) simp_all
  then have "10 ^ 34 * 10 powi (- int s) \<le> (10::rat) ^ 34 * 10 powi e" by simp
  moreover have "10 ^ 34 * 10 powi (- int s) = (10::rat) ^ (34 - s)"
    using \<open>s \<le> 34\<close> power_diff [of "10::rat" s 34] by (simp add: power_int_minus divide_inverse)
  ultimately show ?thesis by simp
qed

lemma dadd34_scaled:
  assumes "scaled s a" "scaled s b" "s \<le> 34" "\<bar>dval a + dval b\<bar> < 10 ^ (34 - s)"
  shows "dval (dadd 34 a b) = dval a + dval b" "scaled s (dadd 34 a b)"
proof -
  have e: "- int s \<le> min (dexp a) (dexp b)" using assms by (simp add: scaled_def)
  have "dadd 34 a b = dadd_exact a b"
    using assms(4) working_scale [OF e assms(3)] by (intro dadd_is_exact) simp_all
  then show "dval (dadd 34 a b) = dval a + dval b" "scaled s (dadd 34 a b)"
    using e by (simp_all add: dval_dadd_exact scaled_def)
qed

lemma scaled_copy_negate [simp]: "scaled s (copy_negate d) = scaled s d"
  by (simp add: scaled_def)

lemma dsub34_scaled:
  assumes "scaled s a" "scaled s b" "s \<le> 34" "\<bar>dval a - dval b\<bar> < 10 ^ (34 - s)"
  shows "dval (dsub 34 a b) = dval a - dval b" "scaled s (dsub 34 a b)"
  using dadd34_scaled [of s a "copy_negate b"] assms by (simp_all add: dsub_def)

lemma rsi_totals_exact:
  assumes "\<forall>c\<in>set cs. scaled s c \<and> \<bar>dval c\<bar> < 10 ^ p" "s \<le> 34" "scaled s g" "scaled s l" "0 \<le> dval g" "0 \<le> dval l"
    and "dval g + of_nat (length cs) * (2 * 10 ^ p) < 10 ^ (34 - s)"
    and "dval l + of_nat (length cs) * (2 * 10 ^ p) < 10 ^ (34 - s)"
  shows "\<exists>g' l'. rsi_totals g l cs = (g', l') \<and> dval g' = dval g + gains (map dval cs) \<and>
    dval l' = dval l + losses (map dval cs) \<and> 0 \<le> dval g' \<and> 0 \<le> dval l'"
  using assms
proof (induction g l cs rule: rsi_totals.induct)
  case (1 g l a b cs)
  let ?d = "dsub 34 b a"
  define B where "B = (10::rat) ^ p"
  define M where "M = (10::rat) ^ (34 - s)"
  have B0: "0 \<le> B" by (simp add: B_def)
  have m: "\<bar>dval a\<bar> < B" "\<bar>dval b\<bar> < B" "scaled s a" "scaled s b" and s: "s \<le> 34"
    using "1.prems"(1,2) by (auto simp: B_def)
  have bound: "\<bar>dval b - dval a\<bar> < 2 * B" using m by linarith
  have len: "of_nat (length (a # b # cs)) * (2 * B) = (2 * B :: rat) + of_nat (length (b # cs)) * (2 * B)"
    by (simp add: algebra_simps)
  define K where "K = of_nat (length (b # cs)) * (2 * B)"
  have K: "0 \<le> K" using B0 by (simp add: K_def)
  have g6: "dval g + (2 * B + K) < M" and l6: "dval l + (2 * B + K) < M"
    using "1.prems"(7,8) unfolding B_def [symmetric] M_def [symmetric] len K_def by simp_all
  have d: "dval ?d = dval b - dval a" "scaled s ?d"
    using dsub34_scaled [OF m(4,3) s, folded M_def] bound g6 K "1.prems"(5) by simp_all
  have closes: "\<forall>c\<in>set (b # cs). scaled s c \<and> \<bar>dval c\<bar> < 10 ^ p" using "1.prems"(1) by simp
  note fold = B_def [symmetric] M_def [symmetric] K_def [symmetric]
  have gl: "gains (map dval (a # b # cs)) = max (dval b - dval a) 0 + gains (map dval (b # cs))"
    "losses (map dval (a # b # cs)) = max (dval a - dval b) 0 + losses (map dval (b # cs))"
    by (simp_all add: gains_def losses_def)
  consider "0 < dval b - dval a" | "dval b - dval a < 0" | "dval b - dval a = 0" by linarith
  then show ?case
  proof cases
    case 1
    have s1: "dval (dadd 34 g ?d) = dval g + (dval b - dval a)" "scaled s (dadd 34 g ?d)"
      using dadd34_scaled [OF "1.prems"(3) d(2) s, folded M_def] d(1) 1 bound g6 K "1.prems"(5) by simp_all
    have "\<exists>g' l'. rsi_totals (dadd 34 g ?d) l (b # cs) = (g', l') \<and>
        dval g' = dval (dadd 34 g ?d) + gains (map dval (b # cs)) \<and>
        dval l' = dval l + losses (map dval (b # cs)) \<and> 0 \<le> dval g' \<and> 0 \<le> dval l'"
      by (rule "1.IH"(1) [unfolded FEATURE_WORKING_PRECISION_def, OF refl _ closes s s1(2) "1.prems"(4)])
        (unfold fold, use 1 d s1 "1.prems"(5,6) bound g6 l6 K B0 in \<open>simp_all add: dless_iff\<close>)
    then show ?thesis using 1 d s1 gl by (simp add: FEATURE_WORKING_PRECISION_def Let_def dless_iff add.assoc)
  next
    case 2
    have s2: "dval (dsub 34 l ?d) = dval l + (dval a - dval b)" "scaled s (dsub 34 l ?d)"
      using dsub34_scaled [OF "1.prems"(4) d(2) s, folded M_def] d(1) 2 bound l6 K "1.prems"(6) by simp_all
    have "\<exists>g' l'. rsi_totals g (dsub 34 l ?d) (b # cs) = (g', l') \<and>
        dval g' = dval g + gains (map dval (b # cs)) \<and>
        dval l' = dval (dsub 34 l ?d) + losses (map dval (b # cs)) \<and> 0 \<le> dval g' \<and> 0 \<le> dval l'"
      by (rule "1.IH"(2) [unfolded FEATURE_WORKING_PRECISION_def, OF refl _ _ closes s "1.prems"(3) s2(2)])
        (unfold fold, use 2 d s2 "1.prems"(5,6) bound g6 l6 K B0 in \<open>simp_all add: dless_iff\<close>)
    then show ?thesis using 2 d s2 gl by (simp add: FEATURE_WORKING_PRECISION_def Let_def dless_iff add.assoc)
  next
    case 3
    have "\<exists>g' l'. rsi_totals g l (b # cs) = (g', l') \<and>
        dval g' = dval g + gains (map dval (b # cs)) \<and>
        dval l' = dval l + losses (map dval (b # cs)) \<and> 0 \<le> dval g' \<and> 0 \<le> dval l'"
      by (rule "1.IH"(3) [unfolded FEATURE_WORKING_PRECISION_def, OF refl _ _ closes s "1.prems"(3,4)])
        (unfold fold, use 3 d "1.prems"(5,6) g6 l6 K B0 in \<open>simp_all add: dless_iff\<close>)
    then show ?thesis using 3 d gl by (simp add: FEATURE_WORKING_PRECISION_def Let_def dless_iff)
  qed
qed (simp_all add: gains_def losses_def)

section \<open>The quotient\<close>

lemma relative_quotient:
  fixes a b a' b' \<delta> :: rat
  assumes "\<bar>a' - a\<bar> \<le> a * \<delta>" "\<bar>b' - b\<bar> \<le> b * \<delta>" "0 \<le> a" "0 < b" "0 \<le> \<delta>" "\<delta> \<le> 1 / 4"
  shows "\<bar>a' / b' - a / b\<bar> \<le> a / b * (3 * \<delta>)" "0 < b'"
proof -
  have "b * \<delta> \<le> b * (1 / 4)" using assms(4,6) by (intro mult_left_mono) simp_all
  then have b': "b * (3 / 4) \<le> b'" using assms(2) by linarith
  then show "0 < b'" using assms(4) by linarith
  have "\<bar>a' * b - a * b'\<bar> = \<bar>(a' - a) * b + a * (b - b')\<bar>" by (simp add: algebra_simps)
  also have "\<dots> \<le> \<bar>a' - a\<bar> * b + a * \<bar>b - b'\<bar>"
    using assms(3,4) abs_triangle_ineq [of "(a' - a) * b" "a * (b - b')"] by (simp add: abs_mult)
  also have "\<dots> \<le> a * \<delta> * b + a * (b * \<delta>)"
    using assms(1-4) by (intro add_mono mult_right_mono mult_left_mono) (simp_all add: abs_minus_commute)
  finally have num: "\<bar>a' * b - a * b'\<bar> \<le> 2 * (a * b * \<delta>)" by (simp add: algebra_simps)
  have "a / b * (3 * \<delta>) * (b * b') = 3 * (a * \<delta>) * b'" using assms(4) by (simp add: field_simps)
  moreover have "2 * (a * b * \<delta>) \<le> 3 * (a * \<delta>) * b'"
  proof -
    have "3 * (a * \<delta>) * (b * (3 / 4)) \<le> 3 * (a * \<delta>) * b'"
      using b' assms(3,5) by (intro mult_left_mono) simp_all
    moreover have "2 * (a * b * \<delta>) \<le> 3 * (a * \<delta>) * (b * (3 / 4))"
      using assms(3,4,5) by (simp add: field_simps mult_nonneg_nonneg)
    ultimately show ?thesis by linarith
  qed
  ultimately have "\<bar>a' * b - a * b'\<bar> \<le> a / b * (3 * \<delta>) * (b * b')" using num by linarith
  moreover have "\<bar>a' / b' - a / b\<bar> = \<bar>a' * b - a * b'\<bar> / (b * b')"
  proof -
    have "a' / b' - a / b = (a' * b - a * b') / (b * b')" using assms(4) \<open>0 < b'\<close> by (simp add: field_simps)
    then show ?thesis using assms(4) \<open>0 < b'\<close> by (simp add: abs_divide abs_mult)
  qed
  ultimately show "\<bar>a' / b' - a / b\<bar> \<le> a / b * (3 * \<delta>)"
    using assms(4) \<open>0 < b'\<close> by (simp add: pos_divide_le_eq)
qed

lemma weaken_relative:
  fixes x y \<delta> \<epsilon> :: rat
  shows "\<bar>y - x\<bar> \<le> x * \<delta> \<Longrightarrow> 0 \<le> x \<Longrightarrow> \<delta> \<le> \<epsilon> \<Longrightarrow> \<bar>y - x\<bar> \<le> x * \<epsilon>"
  by (erule order_trans) (rule mult_left_mono)

lemma chain_relative:
  fixes x y z \<delta> \<epsilon> :: rat
  assumes "\<bar>y - x\<bar> \<le> x * \<delta>" "\<bar>z - y\<bar> \<le> y * \<epsilon>" "0 \<le> x" "0 \<le> \<delta>" "\<delta> \<le> 1" "0 \<le> \<epsilon>"
  shows "\<bar>z - x\<bar> \<le> x * (\<delta> + 2 * \<epsilon>)"
proof -
  have "x * \<delta> \<le> x * 1" using assms by (intro mult_left_mono) simp_all
  then have "y \<le> 2 * x" using assms(1) by linarith
  then have "y * \<epsilon> \<le> 2 * x * \<epsilon>" using assms(6) by (rule mult_right_mono)
  with assms(1,2) have "\<bar>z - x\<bar> \<le> x * \<delta> + 2 * x * \<epsilon>" by linarith
  then show ?thesis by (simp add: algebra_simps)
qed

definition \<epsilon>34 :: rat where "\<epsilon>34 = 10 powi (- 33)"

lemma eps34: "0 \<le> \<epsilon>34" "\<epsilon>34 \<le> 1 / 10 ^ 30"
  by (simp_all add: \<epsilon>34_def power_int_minus)

lemma fdiv_close:
  assumes "0 \<le> dval a" "0 < dval b"
  obtains q where "fdiv a b = Inr q" "\<bar>dval q - dval a / dval b\<bar> \<le> dval a / dval b * \<epsilon>34" "0 \<le> dval q"
    "dval q = 0 \<longleftrightarrow> dval a = 0"
proof -
  have "dcoef b \<noteq> 0" using assms(2) dval_zero_iff [of b] by auto
  then obtain q where q: "ddiv 34 a b = Inr q" using ddiv_total by blast
  then have fdiv: "fdiv a b = Inr q" by (simp add: fdiv_def FEATURE_WORKING_PRECISION_def)
  show ?thesis
  proof (cases "dval a = 0")
    case True
    then have "dcoef a = 0" by (simp add: dval_zero_iff)
    with q \<open>dcoef b \<noteq> 0\<close> have "dval q = 0" by (auto simp: ddiv_def Let_def ndigits.simps [of 0])
    with True fdiv that show ?thesis by simp
  next
    case False
    then have pos: "0 < dval a" using assms(1) by simp
    have close: "\<bar>dval q - dval a / dval b\<bar> \<le> dval a / dval b * \<epsilon>34"
      using ddiv_error [OF q pos assms(2)] by (simp add: \<epsilon>34_def)
    define w where "w = dval a / dval b"
    have "0 < w" using pos assms(2) by (simp add: w_def)
    moreover have "w * \<epsilon>34 \<le> w * (1 / 2)" using calculation eps34 by (intro mult_left_mono) simp_all
    moreover have "\<bar>dval q - w\<bar> \<le> w * \<epsilon>34" using close by (simp only: w_def)
    ultimately have "0 < dval q" by linarith
    with close fdiv that pos show ?thesis by simp
  qed
qed

lemma dadd34_close:
  assumes "0 \<le> dval a + dval b"
  shows "\<bar>dval (dadd 34 a b) - (dval a + dval b)\<bar> \<le> (dval a + dval b) * \<epsilon>34"
proof -
  have "\<bar>dval (dadd 34 a b) - (dval a + dval b)\<bar> \<le> \<bar>dval a + dval b\<bar> * \<epsilon>34 / 2"
    using dfix_error [of 34 "dadd_exact a b"] by (simp add: dadd_dfix dval_dadd_exact \<epsilon>34_def)
  moreover have "0 \<le> (dval a + dval b) * \<epsilon>34" using assms eps34 by simp
  ultimately show ?thesis using assms by simp
qed

lemma dsub34_close: "\<bar>dval (dsub 34 a b) - (dval a - dval b)\<bar> \<le> \<bar>dval a - dval b\<bar> * \<epsilon>34"
proof -
  have "\<bar>dval (dsub 34 a b) - (dval a - dval b)\<bar> \<le> \<bar>dval a - dval b\<bar> * \<epsilon>34 / 2"
    using dfix_error [of 34 "dadd_exact a (copy_negate b)"]
    by (simp add: dsub_def dadd_dfix dval_dadd_exact \<epsilon>34_def)
  moreover have "0 \<le> \<bar>dval a - dval b\<bar> * \<epsilon>34" using eps34 by simp
  ultimately show ?thesis by simp
qed

lemma average_close:
  assumes "0 \<le> dval a"
  obtains q where "fdiv a (dec_of_int (int RSI_14_PERIODS)) = Inr q" "\<bar>dval q - dval a / 14\<bar> \<le> dval a / 14 * \<epsilon>34"
    "0 \<le> dval q" "dval q = 0 \<longleftrightarrow> dval a = 0"
proof -
  have n: "dval (dec_of_int (int RSI_14_PERIODS)) = 14" by (simp add: RSI_14_PERIODS_def)
  then have "0 < dval (dec_of_int (int RSI_14_PERIODS))" by (simp only: zero_less_numeral)
  from assms this show ?thesis
    by (rule fdiv_close) (rule that, unfold n)
qed

lemma rsi_of_totals_close:
  assumes "0 \<le> dval gain" "0 \<le> dval loss"
  defines "u \<equiv> dval gain / 14" and "v \<equiv> dval loss / 14"
  shows "\<exists>r. rsi_of_totals gain loss = Inr r \<and>
    \<bar>dval r - (if v = 0 \<and> u = 0 then 50 else if v = 0 then 100 else 100 - 100 / (1 + u / v))\<bar> \<le> 1 / 10 ^ 20"
proof -
  obtain ag where ag: "fdiv gain (dec_of_int (int RSI_14_PERIODS)) = Inr ag" "\<bar>dval ag - u\<bar> \<le> u * \<epsilon>34"
    "0 \<le> dval ag" "dval ag = 0 \<longleftrightarrow> dval gain = 0"
    using average_close [OF assms(1)] unfolding u_def .
  obtain al where al: "fdiv loss (dec_of_int (int RSI_14_PERIODS)) = Inr al" "\<bar>dval al - v\<bar> \<le> v * \<epsilon>34"
    "0 \<le> dval al" "dval al = 0 \<longleftrightarrow> dval loss = 0"
    using average_close [OF assms(2)] unfolding v_def .
  have u: "0 \<le> u" "u = 0 \<longleftrightarrow> dval gain = 0" and v: "0 \<le> v" "v = 0 \<longleftrightarrow> dval loss = 0"
    using assms(1,2) by (simp_all add: u_def v_def)
  show ?thesis
  proof (cases "v = 0")
    case True
    with ag al u v show ?thesis by (simp add: rsi_of_totals_def Let_def deq_iff)
  next
    case False
    then have vpos: "0 < v" using v(1) by simp
    have alpos: "0 < dval al" using al(3,4) v False by simp
    have rel: "\<bar>dval ag / dval al - u / v\<bar> \<le> u / v * (3 * \<epsilon>34)"
      using relative_quotient(1) [OF ag(2) al(2) u(1) vpos] eps34 by simp
    obtain rs where rs: "fdiv ag al = Inr rs" "\<bar>dval rs - dval ag / dval al\<bar> \<le> dval ag / dval al * \<epsilon>34" "0 \<le> dval rs"
      using fdiv_close [OF ag(3) alpos] by metis
    define x where "x = u / v"
    have x: "0 \<le> x" using u(1) vpos by (simp add: x_def)
    have rsx: "\<bar>dval rs - x\<bar> \<le> x * (5 * \<epsilon>34)"
      using chain_relative [OF rel rs(2)] x eps34 by (simp add: x_def)
    define t where "t = dadd 34 done1 rs"
    have t: "\<bar>dval t - (1 + dval rs)\<bar> \<le> (1 + dval rs) * \<epsilon>34"
      unfolding t_def using dadd34_close [of done1 rs, unfolded dval_done1] rs(3) by simp
    have "x * (5 * \<epsilon>34) \<le> (1 + x) * (5 * \<epsilon>34)" using x eps34 by (intro mult_right_mono) simp_all
    with rsx have "\<bar>(1 + dval rs) - (1 + x)\<bar> \<le> (1 + x) * (5 * \<epsilon>34)" by simp
    from chain_relative [OF this t] have tx: "\<bar>dval t - (1 + x)\<bar> \<le> (1 + x) * (7 * \<epsilon>34)"
      using x eps34 by simp
    have "\<bar>100 - 100\<bar> \<le> (100::rat) * (7 * \<epsilon>34)" using eps34 by simp
    from relative_quotient [OF this tx] x eps34
    have inv: "\<bar>100 / dval t - 100 / (1 + x)\<bar> \<le> 100 / (1 + x) * (21 * \<epsilon>34)" and tpos: "0 < dval t"
      by simp_all
    obtain q where q: "fdiv (dec_of_int 100) t = Inr q" "\<bar>dval q - 100 / dval t\<bar> \<le> 100 / dval t * \<epsilon>34" "0 \<le> dval q"
      using fdiv_close [of "dec_of_int 100" t] tpos by (metis dval_dec_of_int of_int_numeral zero_le_numeral)
    have qx: "\<bar>dval q - 100 / (1 + x)\<bar> \<le> 100 / (1 + x) * (23 * \<epsilon>34)"
      using chain_relative [OF inv q(2)] x eps34 by simp
    have h: "100 / (1 + x) \<le> 100" "0 \<le> 100 / (1 + x)" using x by (simp_all add: divide_le_eq)
    have "100 / (1 + x) * (23 * \<epsilon>34) \<le> 100 * (23 * (1 / 10 ^ 30))"
      using h eps34 by (intro mult_mono) simp_all
    with qx have qx': "\<bar>dval q - 100 / (1 + x)\<bar> \<le> 1 / 10 ^ 25" by simp
    define r where "r = dsub 34 (dec_of_int 100) q"
    have r: "\<bar>dval r - (100 - dval q)\<bar> \<le> \<bar>100 - dval q\<bar> * \<epsilon>34"
      using dsub34_close [of "dec_of_int 100" q] by (simp add: r_def)
    have "\<bar>dval q - 100 / (1 + x)\<bar> \<le> 1" using qx' by (rule order_trans) simp
    then have "\<bar>100 - dval q\<bar> \<le> 200" using h by linarith
    then have "\<bar>100 - dval q\<bar> * \<epsilon>34 \<le> 200 * (1 / 10 ^ 30)" using eps34 by (intro mult_mono) simp_all
    then have "\<bar>100 - dval q\<bar> * \<epsilon>34 \<le> 1 / 10 ^ 25" by (rule order_trans) simp
    then have r': "\<bar>dval r - (100 - dval q)\<bar> \<le> 1 / 10 ^ 25" by (rule order_trans [OF r])
    have "\<bar>dval r - (100 - 100 / (1 + x))\<bar> \<le> 1 / 10 ^ 25 + 1 / 10 ^ 25"
      using abs_triangle_ineq [of "dval r - (100 - dval q)" "100 / (1 + x) - dval q"] r' qx'
      by (simp only: abs_minus_commute [of "100 / (1 + x)" "dval q"])
    then have "\<bar>dval r - (100 - 100 / (1 + x))\<bar> \<le> 1 / 10 ^ 20" by (rule order_trans) simp
    moreover have "rsi_of_totals gain loss = Inr r"
      using ag(1) al rs(1) q(1) alpos
      by (simp add: rsi_of_totals_def Let_def deq_iff FEATURE_WORKING_PRECISION_def t_def r_def)
    ultimately show ?thesis using False by (simp add: x_def)
  qed
qed

lemma fdiv_rounds: "fdiv a b = Inr q \<Longrightarrow> 0 \<le> dval a \<Longrightarrow> 0 < dval b \<Longrightarrow> rounds 34 (dval a / dval b) (dval q)"
  using ddiv_rounds [of 34 a b q] by (cases "ddiv 34 a b") (simp_all add: fdiv_def FEATURE_WORKING_PRECISION_def)

lemma half_away_positive: "\<bar>x - (1 + r)\<bar> \<le> (1 + r) * (1 / 2) \<Longrightarrow> 0 \<le> r \<Longrightarrow> 0 < (x::rat)"
  by (cases "0 \<le> x - (1 + r)") (simp_all add: abs_if)

lemma rsi_of_totals_rounds:
  assumes "rsi_of_totals gain loss = Inr v" "0 \<le> dval gain" "0 \<le> dval loss"
  shows "rsi_decimal128 (dval gain) (dval loss) (dval v)"
proof -
  obtain ag where ag: "fdiv gain (dec_of_int (int RSI_14_PERIODS)) = Inr ag" "0 \<le> dval ag"
    by (rule average_close [OF assms(2)])
  obtain al where al: "fdiv loss (dec_of_int (int RSI_14_PERIODS)) = Inr al" "0 \<le> dval al"
    by (rule average_close [OF assms(3)])
  have n: "dval (dec_of_int (int RSI_14_PERIODS)) = 14" by (simp add: RSI_14_PERIODS_def)
  have rag: "rounds 34 (dval gain / 14) (dval ag)" and ral: "rounds 34 (dval loss / 14) (dval al)"
    using fdiv_rounds [OF ag(1) assms(2)] fdiv_rounds [OF al(1) assms(3)] unfolding n by simp_all
  show ?thesis
  proof (cases "dval al = 0")
    case True
    then have "dval v = (if dval ag = 0 then 50 else 100)"
      using assms(1) ag(1) al(1) by (auto simp: rsi_of_totals_def Let_def deq_iff)
    with True rag ral show ?thesis unfolding rsi_decimal128_def by auto
  next
    case False
    then have alpos: "0 < dval al" using al(2) by simp
    from assms(1) ag(1) al(1) False obtain rs q where
      rs: "fdiv ag al = Inr rs" and q: "fdiv (dec_of_int 100) (dadd 34 done1 rs) = Inr q"
      and v: "v = dsub 34 (dec_of_int 100) q"
      by (auto simp: rsi_of_totals_def Let_def deq_iff FEATURE_WORKING_PRECISION_def err_simps)
    have rs0: "0 \<le> dval rs" using fdiv_close [OF ag(2) alpos] rs by (metis sum.inject(2))
    have t: "rounds 34 (1 + dval rs) (dval (dadd 34 done1 rs))" using dadd_rounds [of 34 done1 rs, unfolded dval_done1] by simp
    have "(1 + dval rs) * \<epsilon>34 \<le> (1 + dval rs) * (1 / 10 ^ 30)"
      using mult_left_mono [OF eps34(2), of "1 + dval rs"] rs0 by linarith
    also have "\<dots> \<le> (1 + dval rs) * (1 / 2)" by (rule mult_left_mono) (use rs0 in simp_all)
    finally have "\<bar>dval (dadd 34 done1 rs) - (1 + dval rs)\<bar> \<le> (1 + dval rs) * (1 / 2)"
      using dadd34_close [of done1 rs, unfolded dval_done1] rs0 by linarith
    then have "0 < dval (dadd 34 done1 rs)" using rs0 by (rule half_away_positive)
    from fdiv_rounds [OF q _ this] have "rounds 34 (100 / dval (dadd 34 done1 rs)) (dval q)" by simp
    moreover have "rounds 34 (100 - dval q) (dval v)" using dsub_rounds [of 34 "dec_of_int 100" q] by (simp add: v)
    ultimately have "\<exists>strength total q. rounds 34 (dval ag / dval al) strength \<and>
        rounds 34 (1 + strength) total \<and> rounds 34 (100 / total) q \<and> rounds 34 (100 - q) (dval v)"
      using fdiv_rounds [OF rs ag(2) alpos] t by blast
    with False rag ral show ?thesis
      unfolding rsi_decimal128_def by (intro exI [of _ "dval ag"] exI [of _ "dval al"]) simp
  qed
qed

section \<open>Quantizing\<close>

lemma feature_quantize_percent:
  assumes "\<bar>dval v - x\<bar> \<le> 1 / 10 ^ 20" "0 \<le> x" "x \<le> 100"
  shows "\<exists>q. feature_quantize v = Inr q \<and> dexp q = - 8 \<and> dval q = of_int (rhe (dval v * 10 ^ 8)) / 10 ^ 8 \<and>
    0 \<le> dval q \<and> dval q \<le> 100"
proof -
  define c where "c = rescale_coef (dcoef v) (dexp v) (- 8)"
  define k where "k = of_nat c * (10::rat) powi (- 8)"
  have "\<bar>k - \<bar>dval v\<bar>\<bar> \<le> (10::rat) powi (- 8) / 2"
    using rescale_coef_error [of "dcoef v" "dexp v" "- 8"] by (simp add: k_def c_def dval_abs)
  then have "\<bar>k - \<bar>dval v\<bar>\<bar> \<le> 1" by (rule order_trans) (simp add: powi_minus8)
  moreover have "\<bar>dval v - x\<bar> \<le> 1" using assms(1) by (rule order_trans) simp
  then have "\<bar>dval v\<bar> \<le> 101" using assms(2,3) by linarith
  ultimately have "k \<le> 102" by linarith
  then have "(of_nat c :: rat) \<le> of_nat (102 * 10 ^ 8)" by (simp add: k_def powi_minus8)
  then have "c \<le> 102 * 10 ^ 8" by (simp only: of_nat_le_iff)
  then have "ndigits c \<le> default_prec" by (simp add: ndigits_le default_prec_def)
  then have dq: "dquantize default_prec v (- 8) = Inr (Dec (dneg v) c (- 8))"
    by (simp add: dquantize_def Let_def flip: c_def)
  define q where "q = Dec (dneg v) c (- 8)"
  define j where "j = dsigned q"
  have qj: "dval q = of_int j / 10 ^ 8" by (simp add: dval_def j_def q_def powi_minus8)
  have close: "\<bar>dval q - dval v\<bar> \<le> 1 / (2 * 10 ^ 8)"
    using dquantize_Inr(4) [OF dq] by (simp add: q_def powi_minus8)
  have small: "1 / (2 * 10 ^ 8) + 1 / 10 ^ 20 \<le> (6 / 10 ^ 9 :: rat)" by simp
  have near: "\<bar>dval q - x\<bar> \<le> 6 / 10 ^ 9"
    using abs_triangle_ineq [of "dval q - dval v" "dval v - x"] close assms(1) small by simp
  have "5 * \<bar>of_int j - x * 100000000\<bar> \<le> (3::rat)" using near by (simp add: qj field_simps)
  then have jx: "\<bar>of_int j - x * 100000000\<bar> < (1::rat)" by simp
  then have "- 1 < (of_int j :: rat)" using assms(2) by (simp add: abs_less_iff)
  moreover have "(of_int j :: rat) < 10000000001" using jx assms(3) by (simp add: abs_less_iff)
  ultimately have "0 \<le> j" "j \<le> 100 * 10 ^ 8" by simp_all
  then have "(of_int 0 :: rat) \<le> of_int j" "(of_int j :: rat) \<le> of_int (100 * 10 ^ 8)" unfolding of_int_le_iff .
  then have range: "0 \<le> dval q" "dval q \<le> 100" by (simp_all add: qj)
  let ?r = "if deq q dzero then copy_abs q else q"
  have "feature_quantize v = Inr ?r"
    using dq by (simp add: feature_quantize_def FEATURE_VALUE_SCALE_def flip: q_def)
  moreover have "dval ?r = dval q" using range by simp
  moreover have "dexp ?r = - 8" by (simp add: q_def)
  moreover have "dval q = of_int (rhe (dval v * 10 ^ 8)) / 10 ^ 8"
    using rhe_quanta [of v "- 8"] unfolding qj j_def q_def c_def
    by (cases "dneg v") (simp_all add: dval_def dsigned_def powi_minus8)
  ultimately show ?thesis using range by auto
qed

lemma gains_losses_nonneg: "0 \<le> gains cs" "0 \<le> losses cs"
  by (auto simp: gains_def losses_def intro!: sum_list_nonneg)

lemma rsi_rule_range: "0 \<le> rsi_rule cs" "rsi_rule cs \<le> 100"
proof -
  have x: "0 \<le> gains cs / losses cs" using gains_losses_nonneg by simp
  then have "100 / (1 + gains cs / losses cs) \<le> 100" "0 \<le> 100 / (1 + gains cs / losses cs)"
    by (simp_all add: divide_le_eq)
  then show "0 \<le> rsi_rule cs" "rsi_rule cs \<le> 100" by (simp_all add: rsi_rule_def Let_def)
qed

text \<open>C26. \<open>RSI_14\<close> is the documented computation, rounded once. On any fifteen bars whose closes use
  together at most 32 digits before and after the point (every binary double between \<open>1E-8\<close> and
  \<open>1E7\<close> does), the sums of gains and losses are exact, every later operation is the exact rational
  result correctly rounded to 34 significant digits, half-even, and the result is that value
  quantized once, half-even, to eight decimals. It lies between 0 and 100, and the value before
  quantization is within \<open>1E-20\<close> of the rule itself, conventions for flat and loss-free windows
  included.\<close>

theorem rsi_follows_its_rule:
  assumes "length window = 15" "\<forall>b\<in>set window. - int s \<le> dexp (sb_close b) \<and> \<bar>dval (sb_close b)\<bar> < 10 ^ p" "s + p \<le> 32"
  shows "\<exists>r v. compute_rsi_14 window = Inr r \<and> dexp r = - 8 \<and> 0 \<le> dval r \<and> dval r \<le> 100 \<and>
    rsi_decimal128 (gains (map (dval \<circ> sb_close) window)) (losses (map (dval \<circ> sb_close) window)) v \<and>
    dval r = of_int (rhe (v * 10 ^ 8)) / 10 ^ 8 \<and> \<bar>v - rsi_rule (map (dval \<circ> sb_close) window)\<bar> \<le> 1 / 10 ^ 20"
proof -
  let ?cs = "map sb_close window"
  have "(30::rat) * 10 ^ p < 10 ^ (p + 2)" by simp
  also have "\<dots> \<le> 10 ^ (34 - s)" using assms(3) by (intro power_increasing) simp_all
  finally have room: "(15::rat) * (2 * 10 ^ p) < 10 ^ (34 - s)" by simp
  have "\<exists>g l. rsi_totals dzero dzero ?cs = (g, l) \<and> dval g = dval dzero + gains (map dval ?cs) \<and>
      dval l = dval dzero + losses (map dval ?cs) \<and> 0 \<le> dval g \<and> 0 \<le> dval l"
    by (rule rsi_totals_exact [where s = s and p = p]) (use assms room in \<open>simp_all add: scaled_def\<close>)
  then obtain g l where gl: "rsi_totals dzero dzero ?cs = (g, l)" "dval g = gains (map dval ?cs)"
    "dval l = losses (map dval ?cs)" "0 \<le> dval g" "0 \<le> dval l" by auto
  obtain v where v: "rsi_of_totals g l = Inr v" "\<bar>dval v - rsi_rule (map dval ?cs)\<bar> \<le> 1 / 10 ^ 20"
    using rsi_of_totals_close [OF gl(4,5)] unfolding rsi_rule_def Let_def gl(2,3) by blast
  obtain r where r: "feature_quantize v = Inr r" "dexp r = - 8" "dval r = of_int (rhe (dval v * 10 ^ 8)) / 10 ^ 8"
    "0 \<le> dval r" "dval r \<le> 100"
    using feature_quantize_percent [OF v(2) rsi_rule_range] by blast
  have "compute_rsi_14 window = Inr r"
    using gl(1) v(1) r(1) assms(1) by (simp add: compute_rsi_14_def RSI_14_PERIODS_def)
  with r v(2) rsi_of_totals_rounds [OF v(1) gl(4,5)] gl(2,3) show ?thesis
    by (intro exI [of _ r] exI [of _ "dval v"]) (simp add: o_def)
qed

text \<open>Windows of whole closes, and the worked vectors of the module's documentation.\<close>

definition demo_window :: "int list \<Rightarrow> instant series_bar list" where
  "demo_window cs =
     map (\<lambda>c. \<lparr>sb_instrument_id = uuid_text 1, sb_resolution = ''1m'', sb_starts_at = 0, sb_ends_at = 60000000,
       sb_close = dec_of_int c, sb_volume = dzero, sb_session_truncated = False\<rparr>) cs"

lemma rsi_rule_worked_vectors:
  "rsi_rule [100, 101, 102, 103, 104, 105, 106, 107, 108, 109, 110, 111, 112, 113, 114] = 100"
  "rsi_rule [114, 113, 112, 111, 110, 109, 108, 107, 106, 105, 104, 103, 102, 101, 100] = 0"
  "rsi_rule [100, 100, 100, 100, 100, 100, 100, 100, 100, 100, 100, 100, 100, 100, 100] = 50"
  "rsi_rule [100, 102, 101, 103, 102, 104, 103, 105, 104, 106, 105, 107, 106, 108, 107] = 200 / 3"
  "rsi_rule [100, 101, 99, 99, 99, 99, 99, 99, 99, 99, 99, 99, 99, 99, 99] = 100 / 3"
  by (simp_all add: rsi_rule_def gains_def losses_def)

theorem rsi_follows_its_rule_witness:
  "\<exists>r v. compute_rsi_14 (demo_window [100, 101, 99, 99, 99, 99, 99, 99, 99, 99, 99, 99, 99, 99, 99]) = Inr r \<and>
     dval r = of_int (rhe (v * 10 ^ 8)) / 10 ^ 8 \<and> \<bar>v - 100 / 3\<bar> \<le> 1 / 10 ^ 20"
proof -
  let ?w = "demo_window [100, 101, 99, 99, 99, 99, 99, 99, 99, 99, 99, 99, 99, 99, 99]"
  have len: "length ?w = 15" by (simp add: demo_window_def)
  have small: "\<forall>b\<in>set ?w. - int 0 \<le> dexp (sb_close b) \<and> \<bar>dval (sb_close b)\<bar> < 10 ^ 3"
    by (simp add: demo_window_def) (simp add: dec_of_int_def)
  have closes: "map (dval \<circ> sb_close) ?w = [100, 101, 99, 99, 99, 99, 99, 99, 99, 99, 99, 99, 99, 99, 99]"
    by (simp add: demo_window_def)
  have "rsi_rule (map (dval \<circ> sb_close) ?w) = 100 / 3"
    unfolding closes by (rule rsi_rule_worked_vectors)
  with rsi_follows_its_rule [OF len small] show ?thesis by auto
qed

end
