(* ===== verification/Element_Catalog.thy ===== *)
theory Element_Catalog
  imports Features
begin

text \<open>
  \<open>elements/catalog.py\<close>: the evaluators of the plan operations and the four versioned element
  catalogs. An evaluator takes a step and the scratchpad and returns the outcome with the new
  scratchpad, or the exception; only \<open>LOAD_FEATURE\<close> changes the scratchpad, as its last action.
  The unused helper \<open>_rsi\<close> is left out. Korean literals are their UTF-8 bytes.
\<close>

section \<open>Python sequences\<close>

text \<open>Indexing and slicing with negative positions.\<close>

definition py_index :: "'a list \<Rightarrow> int \<Rightarrow> element_error + 'a" where
  "py_index xs i =
     (let j = (if i < 0 then i + int (length xs) else i)
      in if 0 \<le> j \<and> j < int (length xs) then Inr (xs ! nat j)
         else Inl (PythonError ''IndexError'' ''list index out of range''))"

definition slice_position :: "nat \<Rightarrow> int \<Rightarrow> nat" where
  "slice_position n i = (if i < 0 then nat (i + int n) else min (nat i) n)"

definition py_slice :: "'a list \<Rightarrow> int \<Rightarrow> int \<Rightarrow> 'a list" where
  "py_slice xs a b =
     (let i = slice_position (length xs) a; j = slice_position (length xs) b in take (j - i) (drop i xs))"

definition int_text :: "int \<Rightarrow> string" where
  "int_text n = sign_text (n < 0) @ nat_str (nat \<bar>n\<bar>)"

section \<open>Vocabulary\<close>

type_synonym comparison = "decimal \<Rightarrow> decimal \<Rightarrow> bool"

definition COMPARISON_OPERATORS :: "(string \<times> comparison) list" where
  "COMPARISON_OPERATORS =
     [(''LT'', dless), (''LTE'', dle), (''GT'', \<lambda>a b. dless b a), (''GTE'', \<lambda>a b. dle b a),
      (''EQ'', deq), (''NEQ'', \<lambda>a b. \<not> deq a b)]"

definition TERMINAL_SIDES :: "string list" where
  "TERMINAL_SIDES = [''BUY'', ''SELL'']"

definition TERMINAL_ALLOCATIONS :: "string list" where
  "TERMINAL_ALLOCATIONS = [''EQUAL'']"

definition TERMINAL_ORDER_TYPES :: "string list" where
  "TERMINAL_ORDER_TYPES = [''MARKET'']"

definition PRODUCTION_RESOLUTIONS :: "string list" where
  "PRODUCTION_RESOLUTIONS = [''30m'', ''1h'', ''4h'', ''1d'']"

definition ONCE :: string where
  "ONCE =
     [CHR 0x31, CHR 0xED, CHR 0x9A, CHR 0x8C, CHR 0xEB, CHR 0xA7, CHR 0x8C]"

definition EVERY_CYCLE :: string where
  "EVERY_CYCLE =
     [CHR 0xEC, CHR 0xA3, CHR 0xBC, CHR 0xEA, CHR 0xB8, CHR 0xB0, CHR 0xEB, CHR 0xA7, CHR 0x88,
      CHR 0xEB, CHR 0x8B, CHR 0xA4]"

definition WAIT_REENTER :: string where
  "WAIT_REENTER =
     [CHR 0xEB, CHR 0x8C, CHR 0x80, CHR 0xEA, CHR 0xB8, CHR 0xB0, CHR 0x20, CHR 0xED, CHR 0x9B,
      CHR 0x84, CHR 0x20, CHR 0xEC, CHR 0x9E, CHR 0xAC, CHR 0xEC, CHR 0xA7, CHR 0x84, CHR 0xEC,
      CHR 0x9E, CHR 0x85]"

definition WAIT_RERUN :: string where
  "WAIT_RERUN =
     [CHR 0xEB, CHR 0x8C, CHR 0x80, CHR 0xEA, CHR 0xB8, CHR 0xB0, CHR 0x20, CHR 0xED, CHR 0x9B,
      CHR 0x84, CHR 0x20, CHR 0xEC, CHR 0x9E, CHR 0xAC, CHR 0xEC, CHR 0x8B, CHR 0xA4, CHR 0xED,
      CHR 0x96, CHR 0x89]"

definition CONDITION_REMET :: string where
  "CONDITION_REMET =
     [CHR 0xEC, CHR 0xA1, CHR 0xB0, CHR 0xEA, CHR 0xB1, CHR 0xB4, CHR 0x20, CHR 0xEC, CHR 0x9E,
      CHR 0xAC, CHR 0xEC, CHR 0xB6, CHR 0xA9, CHR 0xEC, CHR 0xA1, CHR 0xB1]"

definition AFTER_N_BARS :: string where
  "AFTER_N_BARS =
     [CHR 0x4E, CHR 0xEB, CHR 0xB4, CHR 0x89, CHR 0x20, CHR 0xEC, CHR 0x9D, CHR 0xB4, CHR 0xED,
      CHR 0x9B, CHR 0x84]"

definition AFTER_N_DAYS :: string where
  "AFTER_N_DAYS =
     [CHR 0x4E, CHR 0xEA, CHR 0xB1, CHR 0xB0, CHR 0xEB, CHR 0x9E, CHR 0x98, CHR 0xEC, CHR 0x9D,
      CHR 0xBC, CHR 0x20, CHR 0xEC, CHR 0x9D, CHR 0xB4, CHR 0xED, CHR 0x9B, CHR 0x84]"

definition EXECUTION_MODES :: "string list" where
  "EXECUTION_MODES = [ONCE, EVERY_CYCLE, WAIT_REENTER, WAIT_RERUN]"

definition WAIT_MODES :: "string list" where
  "WAIT_MODES = [CONDITION_REMET, AFTER_N_BARS, AFTER_N_DAYS]"

text \<open>The context \<open>_MATH\<close>: eighteen digits, rounded half-up.\<close>

definition math_prec :: nat where
  "math_prec = 18"

definition math_div :: "decimal \<Rightarrow> decimal \<Rightarrow> element_error + decimal" where
  "math_div a b = map_err decimal_exception (ddiv_up math_prec a b)"

definition math_mul :: "decimal \<Rightarrow> decimal \<Rightarrow> decimal" where
  "math_mul a b = dmul_up math_prec a b"

definition math_add :: "decimal \<Rightarrow> decimal \<Rightarrow> decimal" where
  "math_add a b = dadd_up math_prec a b"

definition math_square :: "decimal \<Rightarrow> decimal" where
  "math_square a = dfix_up math_prec (dsquare_wide math_prec a)"

definition math_sqrt :: "decimal \<Rightarrow> element_error + decimal" where
  "math_sqrt a = map_err decimal_exception (dsqrt math_prec a)"

section \<open>Reading arguments and inputs\<close>

definition argument_error :: "plan_step \<Rightarrow> string \<Rightarrow> string \<Rightarrow> element_error" where
  "argument_error s name text =
     ElementCompatibility UNSUPPORTED_ELEMENT_ARGUMENT (ps_operation s @ '' argument '' @ name @ text)"

definition parse_decimal_argument :: "plan_step \<Rightarrow> string \<Rightarrow> element_error + decimal" where
  "parse_decimal_argument s name =
     ebind (step_argument s name) (\<lambda>raw.
     case parse_decimal raw of
       None \<Rightarrow> Inl (argument_error s name '' must be a decimal number'')
     | Some (SpecialDec _) \<Rightarrow> Inl (argument_error s name '' must be finite'')
     | Some (FiniteDec d) \<Rightarrow> Inr d)"

definition int_argument :: "plan_step \<Rightarrow> string \<Rightarrow> element_error + int" where
  "int_argument s name =
     ebind (step_argument s name) (\<lambda>raw.
     case py_int raw of
       None \<Rightarrow> Inl (PythonError ''ValueError'' (int_literal_message raw))
     | Some n \<Rightarrow> Inr n)"

definition input_value :: "element_evaluation \<Rightarrow> string \<Rightarrow> string \<Rightarrow> element_error + string" where
  "input_value e key operation =
     (case map_of (ii_values (el_inputs e)) key of
        Some raw \<Rightarrow>
          if \<not> blank raw then Inr raw
          else Inl (ElementInputMissing (operation @ '' needs runtime input '' @ key) ''FEATURE_WARMUP_INCOMPLETE''
                 [(''operation'', operation), (''source'', key), (''requiredBars'', ''1'')])
      | None \<Rightarrow> Inl (ElementInputMissing (operation @ '' needs runtime input '' @ key) ''FEATURE_WARMUP_INCOMPLETE''
                 [(''operation'', operation), (''source'', key), (''requiredBars'', ''1'')]))"

text \<open>\<open>inputs.values.get(key, "false").lower() == "true"\<close>.\<close>

definition input_flag :: "element_evaluation \<Rightarrow> string \<Rightarrow> bool" where
  "input_flag e key =
     (py_lower (case map_of (ii_values (el_inputs e)) key of Some raw \<Rightarrow> raw | None \<Rightarrow> ''false'') = ''true'')"

definition decimal_value :: "element_evaluation \<Rightarrow> string \<Rightarrow> string \<Rightarrow> element_error + decimal" where
  "decimal_value e key operation =
     ebind (input_value e key operation) (\<lambda>raw.
     case parse_decimal raw of
       None \<Rightarrow> Inl (ElementEvaluationError (operation @ '' runtime input '' @ key @ '' must be a decimal number''))
     | Some (SpecialDec _) \<Rightarrow> Inl (ElementEvaluationError (operation @ '' runtime input '' @ key @ '' must be finite''))
     | Some (FiniteDec d) \<Rightarrow> Inr d)"

fun series_items :: "string \<Rightarrow> string \<Rightarrow> string list \<Rightarrow> element_error + decimal list" where
  "series_items key operation [] = Inr []"
| "series_items key operation (item # items) =
     (if item = [] then series_items key operation items
      else case parse_decimal item of
        None \<Rightarrow> Inl (ElementEvaluationError (operation @ '' runtime input '' @ key @ '' must contain decimal numbers''))
      | Some (SpecialDec _) \<Rightarrow>
          Inl (ElementEvaluationError (operation @ '' runtime input '' @ key @ '' must contain finite numbers''))
      | Some (FiniteDec d) \<Rightarrow> ebind (series_items key operation items) (\<lambda>ds. Inr (d # ds)))"

definition series_values ::
  "element_evaluation \<Rightarrow> string \<Rightarrow> int \<Rightarrow> string \<Rightarrow> element_error + decimal list" where
  "series_values e key required operation =
     ebind (input_value e key operation) (\<lambda>raw.
     ebind (series_items key operation (split_char CHR '','' raw)) (\<lambda>values.
     if int (length values) < required
     then Inl (ElementInputMissing
       (operation @ '' needs '' @ int_text required @ '' values from '' @ key @ '', got '' @ nat_str (length values))
       ''FEATURE_WARMUP_INCOMPLETE''
       [(''operation'', operation), (''source'', key), (''requiredBars'', int_text required),
        (''availableBars'', nat_str (length values))])
     else Inr values))"

section \<open>Arithmetic helpers\<close>

definition plain_text :: "decimal \<Rightarrow> string" where
  "plain_text d = dec_plain (dnormalize default_prec d)"

definition average :: "decimal list \<Rightarrow> element_error + decimal" where
  "average values = math_div (dsum default_prec values) (dec_of_int (int (length values)))"

definition trailing_average :: "decimal list \<Rightarrow> int \<Rightarrow> int \<Rightarrow> element_error + decimal" where
  "trailing_average values period offset =
     (let final = int (length values) - offset in average (py_slice values (final - period) final))"

definition percent_of :: "decimal \<Rightarrow> decimal \<Rightarrow> element_error + decimal" where
  "percent_of numerator denominator =
     (if deq denominator dzero then Inl (ElementEvaluationError ''percentage denominator must not be zero'')
      else math_div (math_mul numerator (dec_of_int 100)) denominator)"

definition outcome_of :: "string \<Rightarrow> bool \<Rightarrow> evidence \<Rightarrow> element_error + step_outcome" where
  "outcome_of operation passed evidence =
     step_outcome_new passed (operation @ (if passed then ''_TRUE'' else ''_FALSE'')) evidence"

definition compared ::
  "string \<Rightarrow> string \<Rightarrow> decimal \<Rightarrow> decimal \<Rightarrow> evidence \<Rightarrow> element_error + step_outcome" where
  "compared operation operator_name l r evidence =
     (case map_of COMPARISON_OPERATORS operator_name of
        None \<Rightarrow> Inl (PythonError ''KeyError'' operator_name)
      | Some comparison \<Rightarrow> outcome_of operation (comparison l r)
          (evidence @ [(''operator'', operator_name), (''left'', plain_text l), (''right'', plain_text r)]))"

definition named_reference_price ::
  "plan_step \<Rightarrow> element_evaluation \<Rightarrow> string \<Rightarrow> element_error + decimal" where
  "named_reference_price s e reference =
     (let operation = ps_operation s;
          prefix = takeWhile (\<lambda>c. c \<noteq> CHR ''_'') reference;
          raw_period = tl (dropWhile (\<lambda>c. c \<noteq> CHR ''_'') reference) in
      case py_int raw_period of
        None \<Rightarrow> Inl (ElementEvaluationError (''unsupported price reference '' @ reference))
      | Some period \<Rightarrow>
          ebind (step_argument s ''resolution'') (\<lambda>res.
          ebind (series_values e (''closes.'' @ res)
            (period + (if prefix = ''HIGH'' \<or> prefix = ''LOW'' then 1 else 0)) operation) (\<lambda>values.
          if prefix = ''SMA'' then trailing_average values period 0
          else let window = py_slice values (- period - 1) (- 1) in
            if prefix = ''HIGH''
            then (if window = [] then Inl (PythonError ''ValueError'' ''max() arg is an empty sequence'')
                  else Inr (dec_max_list window))
            else if prefix = ''LOW''
            then (if window = [] then Inl (PythonError ''ValueError'' ''min() arg is an empty sequence'')
                  else Inr (dec_min_list window))
            else Inl (ElementEvaluationError (''unsupported price reference '' @ reference)))))"

definition reference_price ::
  "plan_step \<Rightarrow> element_evaluation \<Rightarrow> string \<Rightarrow> decimal list \<Rightarrow> element_error + decimal" where
  "reference_price s e reference closes =
     (let operation = ps_operation s in
      if reference = ''PREVIOUS_CLOSE''
      then (if length closes < 2
            then ebind (step_argument s ''resolution'') (\<lambda>res.
                 ebind (series_values e (''closes.'' @ res) 2 operation) (\<lambda>values. py_index values (- 2)))
            else py_index closes (- 2))
      else if reference = ''SESSION_OPEN'' then decimal_value e ''session.open'' operation
      else if reference = ''AVERAGE_ENTRY_PRICE'' then decimal_value e ''position.averageEntryPrice'' operation
      else named_reference_price s e reference)"

fun ema_from :: "decimal \<Rightarrow> decimal \<Rightarrow> decimal list \<Rightarrow> decimal list" where
  "ema_from alpha current [] = []"
| "ema_from alpha current (v # vs) =
     (let c = math_add (math_mul v alpha) (math_mul current (dsub default_prec done1 alpha))
      in c # ema_from alpha c vs)"

definition ema :: "decimal list \<Rightarrow> int \<Rightarrow> element_error + decimal list" where
  "ema values period =
     ebind (math_div (dec_of_int 2) (dec_of_int (period + 1))) (\<lambda>alpha.
     case values of
       [] \<Rightarrow> Inl (PythonError ''IndexError'' ''list index out of range'')
     | v # vs \<Rightarrow> Inr (v # ema_from alpha v vs))"

text \<open>The run of rising or falling closes, counted from the newest back.\<close>

fun streak_count :: "string \<Rightarrow> decimal list \<Rightarrow> nat" where
  "streak_count direction (current # previous # cs) =
     (if (direction = ''UP'' \<and> dless previous current) \<or> (direction = ''DOWN'' \<and> dless current previous)
      then Suc (streak_count direction (previous # cs)) else 0)"
| "streak_count direction cs = 0"

definition band :: "decimal list \<Rightarrow> int \<Rightarrow> decimal \<Rightarrow> int \<Rightarrow> element_error + decimal \<times> decimal" where
  "band closes period deviations offset =
     (let final = int (length closes) - offset; window = py_slice closes (final - period) final in
      ebind (average window) (\<lambda>mean.
      ebind (math_div (dsum default_prec (map (\<lambda>v. math_square (dsub default_prec v mean)) window))
        (dec_of_int period)) (\<lambda>variance.
      ebind (math_sqrt variance) (\<lambda>root.
      let width = math_mul root deviations in
      Inr (dsub default_prec mean width, dadd default_prec mean width)))))"

section \<open>Evaluators\<close>

definition evaluate_load_feature ::
  "plan_step \<Rightarrow> element_evaluation \<Rightarrow> element_error + step_outcome \<times> element_evaluation" where
  "evaluate_load_feature s e =
     ebind (step_argument s ''feature'') (\<lambda>feature_id.
     ebind (step_argument s ''resolution'') (\<lambda>res.
     case feature_definition feature_id of
       None \<Rightarrow> Inl (ElementCompatibility UNSUPPORTED_FEATURE (''feature '' @ feature_id @ '' is not implemented by this build''))
     | Some f \<Rightarrow>
         if ii_require_pinned_features (el_inputs e)
         then (case feature_series_for (el_inputs e) feature_id res of
             None \<Rightarrow> Inl (ElementInputMissing
               (''instrument '' @ el_instrument_id e @ '' has no pinned '' @ feature_id @ ''/'' @ res @ '' feature series'')
               ''FEATURE_SERIES_MISSING''
               [(''feature'', feature_id), (''resolution'', res), (''asOf'', instant_text (el_as_of e))])
           | Some pinned \<Rightarrow>
               ebind (pinned_value_at pinned (el_as_of e)) (\<lambda>v.
               ebind (step_outcome_new True ''FEATURE_LOADED''
                 [(''feature'', feature_id), (''featureVersion'', fd_definition_version f), (''resolution'', res),
                  (''value'', dec_plain v), (''asOf'', instant_text (el_as_of e)),
                  (''source'', ''PINNED_FEATURE_OUTPUT'')]) (\<lambda>o1.
               Inr (o1, record_value feature_id v e))))
         else (case series_for (el_inputs e) (fd_data_kind f) res of
             None \<Rightarrow> Inl (ElementInputMissing
               (''instrument '' @ el_instrument_id e @ '' has no '' @ fd_data_kind f @ ''/'' @ res @ '' series for '' @ feature_id)
               ''FEATURE_SERIES_MISSING''
               [(''feature'', feature_id), (''dataKind'', fd_data_kind f), (''resolution'', res)])
           | Some series \<Rightarrow>
               let completed = completed_through series (el_as_of e) in
               if length completed < required_bars f
               then Inl (ElementInputMissing
                 (feature_id @ '' needs '' @ nat_str (required_bars f) @ '' completed '' @ res @ '' bars at '' @
                  instant_text (el_as_of e) @ '', '' @ nat_str (length completed) @ '' are available'')
                 ''FEATURE_WARMUP_INCOMPLETE''
                 [(''feature'', feature_id), (''resolution'', res), (''requiredBars'', nat_str (required_bars f)),
                  (''availableBars'', nat_str (length completed)), (''asOf'', instant_text (el_as_of e))])
               else let window = drop (length completed - required_bars f) completed in
                 ebind (fd_compute f window) (\<lambda>v.
                 ebind (step_outcome_new True ''FEATURE_LOADED''
                   [(''feature'', feature_id), (''featureVersion'', fd_definition_version f), (''resolution'', res),
                    (''value'', dec_plain v), (''asOf'', instant_text (el_as_of e)),
                    (''windowFrom'', instant_text (sb_starts_at (hd window))),
                    (''windowThrough'', instant_text (sb_ends_at (last window)))]) (\<lambda>o1.
                 Inr (o1, record_value feature_id v e))))))"

definition evaluate_compare ::
  "plan_step \<Rightarrow> element_evaluation \<Rightarrow> element_error + step_outcome \<times> element_evaluation" where
  "evaluate_compare s e =
     ebind (step_argument s ''operator'') (\<lambda>name.
     case map_of COMPARISON_OPERATORS name of
       None \<Rightarrow> Inl (ElementCompatibility UNSUPPORTED_ELEMENT_ARGUMENT (''COMPARE operator '' @ name @ '' is not supported''))
     | Some comparison \<Rightarrow>
         ebind (parse_decimal_argument s ''threshold'') (\<lambda>threshold.
         ebind (require_operand e ''COMPARE'') (\<lambda>operand.
         ebind (step_argument s ''threshold'') (\<lambda>text.
         let evidence = [(''operator'', name), (''operand'', dec_plain operand), (''threshold'', text),
               (''source'', case el_last_value_source e of Some src \<Rightarrow> src | None \<Rightarrow> [])];
             passed = comparison operand threshold in
         ebind (step_outcome_new passed (if passed then ''COMPARE_TRUE'' else ''COMPARE_FALSE'') evidence) (\<lambda>o1.
         Inr (o1, e))))))"

text \<open>The resolution of a step in an f-string.\<close>

definition resolution_text :: "string option \<Rightarrow> string" where
  "resolution_text res = (case res of Some r \<Rightarrow> r | None \<Rightarrow> ''None'')"

definition resolution_or_empty :: "string option \<Rightarrow> string" where
  "resolution_or_empty res = (case res of Some r \<Rightarrow> r | None \<Rightarrow> [])"

definition op_price_compare :: "plan_step \<Rightarrow> element_evaluation \<Rightarrow> string option \<Rightarrow> element_error + step_outcome" where
  "op_price_compare s e res =
     ebind (series_values e (''closes.'' @ resolution_text res) 1 (ps_operation s)) (\<lambda>closes.
     ebind (step_argument s ''reference'') (\<lambda>reference.
     ebind (step_argument s ''operator'') (\<lambda>name.
     ebind (py_index closes (- 1)) (\<lambda>close.
     ebind (reference_price s e reference closes) (\<lambda>price.
     compared (ps_operation s) name close price
       [(''reference'', reference), (''resolution'', resolution_or_empty res)])))))"

definition op_price_change_percent ::
  "plan_step \<Rightarrow> element_evaluation \<Rightarrow> string option \<Rightarrow> element_error + step_outcome" where
  "op_price_change_percent s e res =
     ebind (series_values e (''closes.'' @ resolution_text res) 1 (ps_operation s)) (\<lambda>closes.
     ebind (step_argument s ''base'') (\<lambda>base.
     ebind (py_index closes (- 1)) (\<lambda>close.
     ebind (reference_price s e base closes) (\<lambda>price.
     ebind (percent_of (dsub default_prec close price) price) (\<lambda>change.
     ebind (parse_decimal_argument s ''thresholdPercent'') (\<lambda>threshold.
     ebind (step_argument s ''direction'') (\<lambda>direction.
     outcome_of (ps_operation s)
       (if direction = ''UP'' then dle threshold change else dle change (dminus default_prec threshold))
       [(''direction'', direction), (''changePercent'', plain_text change),
        (''thresholdPercent'', plain_text threshold), (''base'', base)])))))))"

definition op_volume_compare :: "plan_step \<Rightarrow> element_evaluation \<Rightarrow> string option \<Rightarrow> element_error + step_outcome" where
  "op_volume_compare s e res =
     ebind (step_argument s ''reference'') (\<lambda>reference.
     ebind (int_argument s ''period'') (\<lambda>period.
     ebind (series_values e (''volumes.'' @ resolution_text res)
       (if reference = ''PREVIOUS_VOLUME'' then 2 else period + 1) (ps_operation s)) (\<lambda>volumes.
     ebind (if reference = ''PREVIOUS_VOLUME'' then py_index volumes (- 2)
            else average (py_slice volumes (- period - 1) (- 1))) (\<lambda>base.
     ebind (parse_decimal_argument s ''multiplier'') (\<lambda>multiplier.
     ebind (step_argument s ''operator'') (\<lambda>name.
     ebind (py_index volumes (- 1)) (\<lambda>volume.
     ebind (step_argument s ''multiplier'') (\<lambda>text.
     compared (ps_operation s) name volume (math_mul base multiplier)
       [(''reference'', reference), (''period'', int_text period), (''multiplier'', text)]))))))))"

definition op_streak :: "plan_step \<Rightarrow> element_evaluation \<Rightarrow> string option \<Rightarrow> element_error + step_outcome" where
  "op_streak s e res =
     ebind (int_argument s ''bars'') (\<lambda>bars.
     ebind (series_values e (''closes.'' @ resolution_text res) (bars + 1) (ps_operation s)) (\<lambda>closes.
     ebind (step_argument s ''direction'') (\<lambda>direction.
     let count = streak_count direction (rev closes) in
     outcome_of (ps_operation s) (bars \<le> int count)
       [(''direction'', direction), (''streak'', nat_str count), (''requiredBars'', int_text bars)])))"

definition op_sma_cross :: "plan_step \<Rightarrow> element_evaluation \<Rightarrow> string option \<Rightarrow> element_error + step_outcome" where
  "op_sma_cross s e res =
     ebind (int_argument s ''shortPeriod'') (\<lambda>short.
     ebind (int_argument s ''longPeriod'') (\<lambda>long.
     ebind (series_values e (''closes.'' @ resolution_text res) (long + 1) (ps_operation s)) (\<lambda>closes.
     ebind (trailing_average closes short 1) (\<lambda>ps.
     ebind (trailing_average closes long 1) (\<lambda>pl.
     ebind (trailing_average closes short 0) (\<lambda>cs.
     ebind (trailing_average closes long 0) (\<lambda>cl.
     ebind (step_argument s ''direction'') (\<lambda>direction.
     outcome_of (ps_operation s)
       (if direction = ''UP'' then dle ps pl \<and> dless cl cs else dle pl ps \<and> dless cs cl)
       [(''direction'', direction), (''short'', plain_text cs), (''long'', plain_text cl)]))))))))"

definition op_rsi_cross :: "plan_step \<Rightarrow> element_evaluation \<Rightarrow> element_error + step_outcome" where
  "op_rsi_cross s e =
     ebind (step_argument s ''resolution'') (\<lambda>res.
     case feature_series_for (el_inputs e) ''RSI_14'' res of
       None \<Rightarrow> Inl (ElementInputMissing
         (''instrument '' @ el_instrument_id e @ '' has no pinned RSI_14/'' @ res @ '' feature series'')
         ''FEATURE_SERIES_MISSING''
         [(''feature'', ''RSI_14''), (''resolution'', res), (''asOf'', instant_text (el_as_of e))])
     | Some pinned \<Rightarrow>
         ebind (pinned_value_at pinned (el_as_of e)) (\<lambda>current.
         ebind (element_period res) (\<lambda>period.
         ebind (pinned_value_at pinned (el_as_of e - period)) (\<lambda>previous.
         ebind (parse_decimal_argument s ''threshold'') (\<lambda>threshold.
         ebind (step_argument s ''direction'') (\<lambda>direction.
         outcome_of (ps_operation s)
           (if direction = ''UP'' then dle previous threshold \<and> dless threshold current
            else dle threshold previous \<and> dless current threshold)
           [(''direction'', direction), (''previous'', plain_text previous), (''current'', plain_text current),
            (''threshold'', plain_text threshold), (''source'', ''PINNED_FEATURE_OUTPUT'')]))))))"

definition difference :: "decimal list \<Rightarrow> decimal list \<Rightarrow> decimal list" where
  "difference as bs = map (\<lambda>(a, b). dsub default_prec a b) (zip as bs)"

definition op_macd_cross :: "plan_step \<Rightarrow> element_evaluation \<Rightarrow> string option \<Rightarrow> element_error + step_outcome" where
  "op_macd_cross s e res =
     ebind (int_argument s ''fastPeriod'') (\<lambda>fast.
     ebind (int_argument s ''slowPeriod'') (\<lambda>slow.
     ebind (int_argument s ''signalPeriod'') (\<lambda>signal.
     ebind (series_values e (''closes.'' @ resolution_text res) (slow + signal + 2) (ps_operation s)) (\<lambda>closes.
     ebind (ema closes fast) (\<lambda>fast_ema.
     ebind (ema closes slow) (\<lambda>slow_ema.
     let macd = difference fast_ema slow_ema in
     ebind (ema macd signal) (\<lambda>signal_ema.
     let histogram = difference macd signal_ema in
     ebind (py_index histogram (- 2)) (\<lambda>previous.
     ebind (py_index histogram (- 1)) (\<lambda>current.
     ebind (step_argument s ''direction'') (\<lambda>direction.
     outcome_of (ps_operation s)
       (if direction = ''UP'' then dle previous dzero \<and> dless dzero current
        else dle dzero previous \<and> dless current dzero)
       [(''direction'', direction), (''previousHistogram'', plain_text previous),
        (''histogram'', plain_text current)]))))))))))"

definition op_bollinger_reversal :: "plan_step \<Rightarrow> element_evaluation \<Rightarrow> string option \<Rightarrow> element_error + step_outcome" where
  "op_bollinger_reversal s e res =
     ebind (int_argument s ''period'') (\<lambda>period.
     ebind (parse_decimal_argument s ''deviations'') (\<lambda>deviations.
     ebind (series_values e (''closes.'' @ resolution_text res) (period + 1) (ps_operation s)) (\<lambda>closes.
     ebind (band closes period deviations 1) (\<lambda>(previous_low, previous_high).
     ebind (band closes period deviations 0) (\<lambda>(current_low, current_high).
     ebind (py_index closes (- 2)) (\<lambda>previous.
     ebind (py_index closes (- 1)) (\<lambda>current.
     ebind (step_argument s ''direction'') (\<lambda>direction.
     outcome_of (ps_operation s)
       (if direction = ''UP'' then dle previous previous_low \<and> dless current_low current
        else dle previous_high previous \<and> dless current current_high)
       [(''direction'', direction), (''previous'', plain_text previous), (''current'', plain_text current)]))))))))"

definition op_position_return :: "plan_step \<Rightarrow> element_evaluation \<Rightarrow> element_error + step_outcome" where
  "op_position_return s e =
     ebind (decimal_value e ''position.returnPercent'' (ps_operation s)) (\<lambda>v.
     ebind (parse_decimal_argument s ''thresholdPercent'') (\<lambda>threshold.
     ebind (step_argument s ''direction'') (\<lambda>direction.
     outcome_of (ps_operation s)
       (if direction = ''PROFIT'' then dle threshold v else dle v (dminus default_prec threshold))
       [(''direction'', direction), (''returnPercent'', plain_text v), (''thresholdPercent'', plain_text threshold)])))"

definition op_holding_period :: "plan_step \<Rightarrow> element_evaluation \<Rightarrow> string option \<Rightarrow> element_error + step_outcome" where
  "op_holding_period s e res =
     ebind (step_argument s ''unit'') (\<lambda>unit.
     ebind (int_argument s ''amount'') (\<lambda>amount.
     ebind (if unit = ''SESSION_CLOSE'' then Inr (input_flag e ''session.close'')
            else ebind (decimal_value e
                   (if unit = ''BAR'' then ''position.holdingBars.'' @ resolution_text res
                    else ''position.holdingTradingDays'') (ps_operation s)) (\<lambda>held.
                 Inr (dle (dec_of_int amount) held))) (\<lambda>passed.
     outcome_of (ps_operation s) passed
       [(''unit'', unit), (''amount'', int_text amount), (''resolution'', resolution_or_empty res)])))"

definition op_peak :: "plan_step \<Rightarrow> element_evaluation \<Rightarrow> element_error + step_outcome" where
  "op_peak s e =
     ebind (step_argument s ''operator'') (\<lambda>name.
     ebind (decimal_value e
       (if ps_operation s = ''PEAK_RETURN'' then ''position.peakReturnPercent'' else ''position.drawdownPercent'')
       (ps_operation s)) (\<lambda>v.
     ebind (parse_decimal_argument s ''thresholdPercent'') (\<lambda>threshold.
     compared (ps_operation s) name v threshold [])))"

definition schedule_flags :: "element_evaluation \<Rightarrow> int \<Rightarrow> int \<Rightarrow> (string \<times> bool) list" where
  "schedule_flags e interval day_index =
     (let new_day = input_flag e ''schedule.newTradingDay'' in
      [(''EVERY_TRADING_DAY'', new_day),
       (''WEEK_FIRST_TRADING_DAY'', input_flag e ''schedule.weekFirstTradingDay''),
       (''MONTH_FIRST_TRADING_DAY'', input_flag e ''schedule.monthFirstTradingDay''),
       (''MONTH_LAST_TRADING_DAY'', input_flag e ''schedule.monthLastTradingDay''),
       (''EVERY_N_TRADING_DAYS'', new_day \<and> 0 < interval \<and> (day_index - 1) mod interval = 0)])"

definition op_schedule :: "plan_step \<Rightarrow> element_evaluation \<Rightarrow> element_error + step_outcome" where
  "op_schedule s e =
     ebind (step_argument s ''cycle'') (\<lambda>cycle.
     ebind (int_argument s ''interval'') (\<lambda>interval.
     let raw = (case map_of (ii_values (el_inputs e)) ''schedule.tradingDayIndex'' of Some v \<Rightarrow> v | None \<Rightarrow> ''0'') in
     case py_int raw of
       None \<Rightarrow> Inl (PythonError ''ValueError'' (int_literal_message raw))
     | Some day_index \<Rightarrow>
         (case map_of (schedule_flags e interval day_index) cycle of
            None \<Rightarrow> Inl (PythonError ''KeyError'' cycle)
          | Some passed \<Rightarrow> outcome_of (ps_operation s) passed
              [(''cycle'', cycle), (''interval'', int_text interval)])))"

definition catalog_operation :: "plan_step \<Rightarrow> element_evaluation \<Rightarrow> string option \<Rightarrow> element_error + step_outcome" where
  "catalog_operation s e res =
     (let op = ps_operation s in
      if op = ''PRICE_COMPARE'' then op_price_compare s e res
      else if op = ''PRICE_CHANGE_PERCENT'' then op_price_change_percent s e res
      else if op = ''VOLUME_COMPARE'' then op_volume_compare s e res
      else if op = ''STREAK'' then op_streak s e res
      else if op = ''SMA_CROSS'' then op_sma_cross s e res
      else if op = ''RSI_CROSS'' then op_rsi_cross s e
      else if op = ''MACD_CROSS'' then op_macd_cross s e res
      else if op = ''BOLLINGER_REVERSAL'' then op_bollinger_reversal s e res
      else if op = ''POSITION_RETURN'' then op_position_return s e
      else if op = ''HOLDING_PERIOD'' then op_holding_period s e res
      else if op = ''PEAK_RETURN'' \<or> op = ''DRAWDOWN_FROM_PEAK'' then op_peak s e
      else if op = ''SCHEDULE'' then op_schedule s e
      else Inl (ElementEvaluationError (''unsupported catalog operation '' @ op)))"

definition evaluate_catalog_operation ::
  "plan_step \<Rightarrow> element_evaluation \<Rightarrow> element_error + step_outcome \<times> element_evaluation" where
  "evaluate_catalog_operation s e =
     (let op = ps_operation s; res = map_of (ps_arguments s) ''resolution'' in
      ebind (if res \<noteq> None \<and> op \<noteq> ''HOLDING_PERIOD'' \<and> op \<noteq> ''SCHEDULE'' \<and>
                \<not> input_flag e (''bar.closed.'' @ resolution_text res)
             then step_outcome_new False ''WAITING_FOR_BAR_CLOSE''
               [(''operation'', op), (''resolution'', resolution_text res)]
             else catalog_operation s e res) (\<lambda>o1.
      Inr (o1, e)))"

definition evaluate_terminal ::
  "plan_step \<Rightarrow> element_evaluation \<Rightarrow> element_error + step_outcome \<times> element_evaluation" where
  "evaluate_terminal s e =
     Inl (ElementEvaluationError (ps_operation s @
       '' is a terminal element: the plan loader consumes it, it is never evaluated per instrument''))"

section \<open>Specifications and catalogs\<close>

type_synonym step_evaluator =
  "plan_step \<Rightarrow> element_evaluation \<Rightarrow> element_error + step_outcome \<times> element_evaluation"

record element_spec =
  es_operation :: string
  es_required_arguments :: "string list"
  es_enumerations :: "(string \<times> string list) list"
  es_decimal_arguments :: "string list"
  es_feature_arguments :: "string list"
  es_terminal :: bool
  es_produces_value :: bool
  es_consumes_value :: bool
  es_evaluator :: step_evaluator
  es_minimum_arguments :: "(string \<times> decimal) list"
  es_exclusive_minimum_arguments :: "(string \<times> decimal) list"
  es_maximum_arguments :: "(string \<times> decimal) list"
  es_integer_arguments :: "string list"

record element_catalog =
  ec_version :: string
  ec_specs :: "(string \<times> element_spec) list"
  ec_feature_versions :: "(string \<times> string) list"
  ec_canonical_feature_ids :: "(string \<times> string) list"
  ec_canonical_feature_resolutions :: "(string \<times> string) list"
  ec_execution_gate :: bool

definition catalog_operations :: "element_catalog \<Rightarrow> string list" where
  "catalog_operations c = map fst (ec_specs c)"

definition spec_of :: "element_catalog \<Rightarrow> string \<Rightarrow> element_error + element_spec" where
  "spec_of c operation =
     (case map_of (ec_specs c) operation of
        Some spec \<Rightarrow> Inr spec
      | None \<Rightarrow> Inl (ElementCompatibility UNSUPPORTED_ELEMENT
          (''operation '' @ operation @ '' is not in element catalog '' @ ec_version c)))"

definition require_feature :: "element_catalog \<Rightarrow> string \<Rightarrow> element_error + string" where
  "require_feature c feature_id =
     (case map_of (ec_feature_versions c) feature_id of
        Some v \<Rightarrow> Inr v
      | None \<Rightarrow> Inl (ElementCompatibility UNSUPPORTED_FEATURE
          (''feature '' @ feature_id @ '' is not in element catalog '' @ ec_version c)))"

definition require_canonical_feature :: "element_catalog \<Rightarrow> string \<Rightarrow> element_error + string" where
  "require_canonical_feature c canonical =
     (case map_of (ec_canonical_feature_ids c) canonical of
        Some v \<Rightarrow> Inr v
      | None \<Rightarrow> Inl (ElementCompatibility UNSUPPORTED_FEATURE
          (''requiredFeature.featureId '' @ canonical @ '' is not in element catalog '' @ ec_version c)))"

definition require_canonical_feature_resolution :: "element_catalog \<Rightarrow> string \<Rightarrow> string option" where
  "require_canonical_feature_resolution c canonical = map_of (ec_canonical_feature_resolutions c) canonical"

text \<open>The enumerations, the decimals and their bounds, each in the order of the specification.\<close>

fun check_enumerations :: "plan_step \<Rightarrow> (string \<times> string list) list \<Rightarrow> element_error + unit" where
  "check_enumerations s [] = Inr ()"
| "check_enumerations s ((name, allowed) # es) =
     (case map_of (ps_arguments s) name of
        None \<Rightarrow> Inl (PythonError ''KeyError'' name)
      | Some v \<Rightarrow> if v \<in> set allowed then check_enumerations s es
                else Inl (argument_error s name '' is not one of the allowed values''))"

definition check_bounds ::
  "plan_step \<Rightarrow> (string \<times> decimal) list \<Rightarrow> (decimal \<Rightarrow> decimal \<Rightarrow> bool) \<Rightarrow> string \<Rightarrow> (string \<times> decimal) list
     \<Rightarrow> element_error + unit" where
  "check_bounds s values bad text bounds =
     efold (\<lambda>(name, bound) _.
       case map_of values name of
         None \<Rightarrow> Inl (PythonError ''KeyError'' name)
       | Some v \<Rightarrow> if bad v bound then Inl (argument_error s name text) else Inr ()) bounds ()"

definition check_integers ::
  "plan_step \<Rightarrow> (string \<times> decimal) list \<Rightarrow> string list \<Rightarrow> element_error + unit" where
  "check_integers s values names =
     efold (\<lambda>name _.
       case map_of values name of
         None \<Rightarrow> Inl (PythonError ''KeyError'' name)
       | Some v \<Rightarrow> if is_integral_value v then Inr () else Inl (argument_error s name '' must be an integer'')) names ()"

definition validate_step :: "element_catalog \<Rightarrow> plan_step \<Rightarrow> element_error + element_spec" where
  "validate_step c s =
     ebind (spec_of c (ps_operation s)) (\<lambda>spec.
     ebind (require (set (es_required_arguments spec) \<subseteq> fst ` set (ps_arguments s))
       (argument_error s [] ''s missing'')) (\<lambda>_.
     ebind (require (fst ` set (ps_arguments s) \<subseteq> set (es_required_arguments spec))
       (argument_error s [] ''s this build does not implement'')) (\<lambda>_.
     ebind (check_enumerations s (es_enumerations spec)) (\<lambda>_.
     ebind (emap (\<lambda>name. ebind (parse_decimal_argument s name) (\<lambda>v. Inr (name, v))) (es_decimal_arguments spec)) (\<lambda>values.
     ebind (check_bounds s values dless '' is below its minimum'' (es_minimum_arguments spec)) (\<lambda>_.
     ebind (check_bounds s values dle '' must be greater than its minimum'' (es_exclusive_minimum_arguments spec)) (\<lambda>_.
     ebind (check_bounds s values (\<lambda>v m. dless m v) '' is above its maximum'' (es_maximum_arguments spec)) (\<lambda>_.
     ebind (check_integers s values (es_integer_arguments spec)) (\<lambda>_.
     ebind (efold (\<lambda>name _. case map_of (ps_arguments s) name of
         None \<Rightarrow> Inl (PythonError ''KeyError'' name)
       | Some v \<Rightarrow> ebind (require_feature c v) (\<lambda>_. Inr ())) (es_feature_arguments spec) ()) (\<lambda>_.
     Inr spec))))))))))"

definition catalog_evaluate ::
  "element_catalog \<Rightarrow> plan_step \<Rightarrow> element_evaluation \<Rightarrow> element_error + step_outcome \<times> element_evaluation" where
  "catalog_evaluate c s e = ebind (spec_of c (ps_operation s)) (\<lambda>spec. es_evaluator spec s e)"

definition operator_names :: "string list" where
  "operator_names = map fst COMPARISON_OPERATORS"

definition spec_new ::
  "string \<Rightarrow> string list \<Rightarrow> (string \<times> string list) list \<Rightarrow> string list \<Rightarrow> step_evaluator \<Rightarrow> element_spec" where
  "spec_new operation required enumerations decimals evaluator =
     \<lparr>es_operation = operation, es_required_arguments = required, es_enumerations = enumerations,
      es_decimal_arguments = decimals, es_feature_arguments = [], es_terminal = False,
      es_produces_value = False, es_consumes_value = False, es_evaluator = evaluator,
      es_minimum_arguments = [], es_exclusive_minimum_arguments = [], es_maximum_arguments = [],
      es_integer_arguments = []\<rparr>"

definition BASIC_ELEMENTS_2026_07_31 :: element_catalog where
  "BASIC_ELEMENTS_2026_07_31 =
     \<lparr>ec_version = ''basic-elements:2026-07-31'',
      ec_specs =
       [(''LOAD_FEATURE'', (spec_new ''LOAD_FEATURE'' [''feature'', ''resolution'']
           [(''resolution'', SUPPORTED_RESOLUTIONS)] [] evaluate_load_feature)
           \<lparr>es_feature_arguments := [''feature''], es_produces_value := True\<rparr>),
        (''COMPARE'', (spec_new ''COMPARE'' [''operator'', ''threshold'']
           [(''operator'', operator_names)] [''threshold''] evaluate_compare)
           \<lparr>es_consumes_value := True\<rparr>),
        (''EMIT_ORDER_CANDIDATE'', (spec_new ''EMIT_ORDER_CANDIDATE'' [''allocation'', ''orderType'', ''side'']
           [(''allocation'', TERMINAL_ALLOCATIONS), (''orderType'', TERMINAL_ORDER_TYPES), (''side'', TERMINAL_SIDES)]
           [] evaluate_terminal)\<lparr>es_terminal := True\<rparr>)],
      ec_feature_versions = [(''RSI_14'', fd_definition_version RSI_14_DEFINITION)],
      ec_canonical_feature_ids =
       [(''0f1b0000-0000-4000-8000-000000000001'', ''RSI_14''),
        (''00000000-0000-4000-8000-000000000401'', ''RSI_14'')],
      ec_canonical_feature_resolutions =
       [(''0f1b0000-0000-4000-8000-000000000001'', ''1m''),
        (''00000000-0000-4000-8000-000000000401'', ''1m'')],
      ec_execution_gate = False\<rparr>"

definition production_spec ::
  "string \<Rightarrow> string list \<Rightarrow> (string \<times> string list) list \<Rightarrow> string list \<Rightarrow> element_spec" where
  "production_spec operation required enumerations decimals =
     spec_new operation required enumerations decimals evaluate_catalog_operation"

definition terminal_enumerations :: "(string \<times> string list) list" where
  "terminal_enumerations =
     [(''allocation'', TERMINAL_ALLOCATIONS), (''orderType'', TERMINAL_ORDER_TYPES), (''timeInForce'', [''DAY'']),
      (''side'', TERMINAL_SIDES), (''executionMode'', EXECUTION_MODES), (''waitMode'', WAIT_MODES)]"

definition SPECS_2026_08_07 :: "(string \<times> element_spec) list" where
  "SPECS_2026_08_07 =
     [(''PRICE_COMPARE'', production_spec ''PRICE_COMPARE'' [''resolution'', ''operator'', ''reference'']
        [(''resolution'', PRODUCTION_RESOLUTIONS), (''operator'', operator_names),
         (''reference'', [''PREVIOUS_CLOSE'', ''SESSION_OPEN'', ''AVERAGE_ENTRY_PRICE'', ''SMA_5'', ''SMA_20'', ''SMA_60'',
           ''HIGH_5'', ''HIGH_20'', ''HIGH_60'', ''LOW_5'', ''LOW_20'', ''LOW_60''])] []),
      (''PRICE_CHANGE_PERCENT'', production_spec ''PRICE_CHANGE_PERCENT''
        [''resolution'', ''base'', ''direction'', ''thresholdPercent'']
        [(''resolution'', PRODUCTION_RESOLUTIONS), (''base'', [''PREVIOUS_CLOSE'', ''SESSION_OPEN'', ''AVERAGE_ENTRY_PRICE'']),
         (''direction'', [''UP'', ''DOWN''])] [''thresholdPercent'']),
      (''VOLUME_COMPARE'', production_spec ''VOLUME_COMPARE''
        [''resolution'', ''operator'', ''reference'', ''period'', ''multiplier'']
        [(''resolution'', PRODUCTION_RESOLUTIONS), (''operator'', operator_names),
         (''reference'', [''PREVIOUS_VOLUME'', ''AVERAGE_VOLUME'']), (''period'', [''1'', ''5'', ''20'', ''60'']),
         (''multiplier'', [''1'', ''2'', ''3''])] [''multiplier'']),
      (''STREAK'', production_spec ''STREAK'' [''resolution'', ''direction'', ''bars'']
        [(''resolution'', PRODUCTION_RESOLUTIONS), (''direction'', [''UP'', ''DOWN'']),
         (''bars'', [''2'', ''3'', ''5'', ''10'', ''20'', ''30''])] []),
      (''SMA_CROSS'', production_spec ''SMA_CROSS'' [''resolution'', ''direction'', ''shortPeriod'', ''longPeriod'']
        [(''resolution'', PRODUCTION_RESOLUTIONS), (''direction'', [''UP'', ''DOWN'']),
         (''shortPeriod'', [''5'', ''20'', ''60'']), (''longPeriod'', [''20'', ''60'', ''120''])] []),
      (''RSI_CROSS'', production_spec ''RSI_CROSS'' [''resolution'', ''direction'', ''period'', ''threshold'']
        [(''resolution'', PRODUCTION_RESOLUTIONS), (''direction'', [''UP'', ''DOWN'']), (''period'', [''14''])] [''threshold'']),
      (''MACD_CROSS'', production_spec ''MACD_CROSS''
        [''resolution'', ''direction'', ''fastPeriod'', ''slowPeriod'', ''signalPeriod'']
        [(''resolution'', PRODUCTION_RESOLUTIONS), (''direction'', [''UP'', ''DOWN'']), (''fastPeriod'', [''12'']),
         (''slowPeriod'', [''26'']), (''signalPeriod'', [''9''])] []),
      (''BOLLINGER_REVERSAL'', production_spec ''BOLLINGER_REVERSAL''
        [''resolution'', ''direction'', ''period'', ''deviations'']
        [(''resolution'', PRODUCTION_RESOLUTIONS), (''direction'', [''UP'', ''DOWN'']), (''period'', [''20'']),
         (''deviations'', [''2''])] [''deviations'']),
      (''POSITION_RETURN'', production_spec ''POSITION_RETURN'' [''direction'', ''thresholdPercent'']
        [(''direction'', [''PROFIT'', ''LOSS''])] [''thresholdPercent'']),
      (''HOLDING_PERIOD'', production_spec ''HOLDING_PERIOD'' [''unit'', ''amount'', ''resolution'']
        [(''unit'', [''SESSION_CLOSE'', ''BAR'', ''TRADING_DAY'']), (''amount'', [''0'', ''1'', ''5'', ''20'']),
         (''resolution'', PRODUCTION_RESOLUTIONS)] []),
      (''PEAK_RETURN'', production_spec ''PEAK_RETURN'' [''operator'', ''thresholdPercent'']
        [(''operator'', operator_names)] [''thresholdPercent'']),
      (''DRAWDOWN_FROM_PEAK'', production_spec ''DRAWDOWN_FROM_PEAK'' [''operator'', ''thresholdPercent'']
        [(''operator'', operator_names)] [''thresholdPercent'']),
      (''SCHEDULE'', production_spec ''SCHEDULE'' [''cycle'', ''interval'', ''resolution'']
        [(''cycle'', [''EVERY_TRADING_DAY'', ''WEEK_FIRST_TRADING_DAY'', ''MONTH_FIRST_TRADING_DAY'',
           ''MONTH_LAST_TRADING_DAY'', ''EVERY_N_TRADING_DAYS'']),
         (''resolution'', PRODUCTION_RESOLUTIONS)] [''interval'']),
      (''EMIT_ORDER_CANDIDATE'', (spec_new ''EMIT_ORDER_CANDIDATE''
        [''allocation'', ''orderType'', ''timeInForce'', ''side'', ''orderPercent'', ''executionMode'', ''waitMode'',
         ''waitInterval'', ''maxExecutions''] terminal_enumerations
        [''orderPercent'', ''waitInterval'', ''maxExecutions''] evaluate_terminal)\<lparr>es_terminal := True\<rparr>)]"

definition BASIC_ELEMENTS_2026_08_07 :: element_catalog where
  "BASIC_ELEMENTS_2026_08_07 =
     \<lparr>ec_version = ''basic-elements:2026-08-07'', ec_specs = SPECS_2026_08_07, ec_feature_versions = [],
      ec_canonical_feature_ids = [], ec_canonical_feature_resolutions = [], ec_execution_gate = True\<rparr>"

definition BASIC_ELEMENTS_2026_08_08 :: element_catalog where
  "BASIC_ELEMENTS_2026_08_08 =
     \<lparr>ec_version = ''basic-elements:2026-08-08'', ec_specs = ec_specs BASIC_ELEMENTS_2026_08_07,
      ec_feature_versions = [(''RSI_14'', fd_definition_version RSI_14_DEFINITION)],
      ec_canonical_feature_ids =
       [(''4b1c6801-0259-5176-a857-0e5ea923d898'', ''RSI_14''), (''2e18c093-5d4e-5d9a-bd22-b7e5679f1a3e'', ''RSI_14''),
        (''1b2785bd-20f0-50a2-ae96-6a1f7bad74b9'', ''RSI_14''), (''eddfb2d4-8586-5260-8fc9-9c8125990270'', ''RSI_14'')],
      ec_canonical_feature_resolutions =
       [(''4b1c6801-0259-5176-a857-0e5ea923d898'', ''30m''), (''2e18c093-5d4e-5d9a-bd22-b7e5679f1a3e'', ''1h''),
        (''1b2785bd-20f0-50a2-ae96-6a1f7bad74b9'', ''4h''), (''eddfb2d4-8586-5260-8fc9-9c8125990270'', ''1d'')],
      ec_execution_gate = True\<rparr>"

definition V2_HOLDING_PERIOD :: element_spec where
  "V2_HOLDING_PERIOD = (production_spec ''HOLDING_PERIOD'' [''unit'', ''amount'', ''resolution'']
     [(''unit'', [''SESSION_CLOSE'', ''BAR'', ''TRADING_DAY'']), (''resolution'', PRODUCTION_RESOLUTIONS)] [''amount''])
     \<lparr>es_minimum_arguments := [(''amount'', dzero)], es_integer_arguments := [''amount'']\<rparr>"

definition V2_EMIT_ORDER_CANDIDATE :: element_spec where
  "V2_EMIT_ORDER_CANDIDATE = (spec_new ''EMIT_ORDER_CANDIDATE''
     [''allocation'', ''orderType'', ''timeInForce'', ''side'', ''orderPercent'', ''maxPositionPercent'',
      ''executionMode'', ''waitMode'', ''waitInterval'', ''maxExecutions''] terminal_enumerations
     [''orderPercent'', ''maxPositionPercent'', ''waitInterval'', ''maxExecutions''] evaluate_terminal)
     \<lparr>es_terminal := True,
      es_exclusive_minimum_arguments := [(''orderPercent'', dzero), (''maxPositionPercent'', dzero),
        (''waitInterval'', dzero), (''maxExecutions'', dzero)],
      es_maximum_arguments := [(''orderPercent'', dec_of_int 100), (''maxPositionPercent'', dec_of_int 100)],
      es_integer_arguments := [''waitInterval'', ''maxExecutions'']\<rparr>"

text \<open>\<open>replace(specs[operation], ...)\<close> on a copy of the dictionary.\<close>

definition respec ::
  "string \<Rightarrow> (element_spec \<Rightarrow> element_spec) \<Rightarrow> (string \<times> element_spec) list \<Rightarrow> (string \<times> element_spec) list" where
  "respec operation f specs = map (\<lambda>(k, v). if k = operation then (k, f v) else (k, v)) specs"

definition v2_specs :: "(string \<times> element_spec) list" where
  "v2_specs =
     (let hundred = dec_of_int 100;
          percent_range = (\<lambda>s. s\<lparr>es_minimum_arguments := [(''thresholdPercent'', dzero)],
            es_maximum_arguments := [(''thresholdPercent'', hundred)]\<rparr>)
      in respec ''EMIT_ORDER_CANDIDATE'' (\<lambda>_. V2_EMIT_ORDER_CANDIDATE)
        (respec ''SCHEDULE'' (\<lambda>s. s\<lparr>es_exclusive_minimum_arguments := [(''interval'', dzero)],
           es_integer_arguments := [''interval'']\<rparr>)
        (respec ''DRAWDOWN_FROM_PEAK'' percent_range
        (respec ''PEAK_RETURN'' percent_range
        (respec ''HOLDING_PERIOD'' (\<lambda>_. V2_HOLDING_PERIOD)
        (respec ''POSITION_RETURN'' percent_range
        (respec ''RSI_CROSS'' (\<lambda>s. s\<lparr>es_minimum_arguments := [(''threshold'', dzero)],
           es_maximum_arguments := [(''threshold'', hundred)]\<rparr>)
        (respec ''PRICE_CHANGE_PERCENT'' (\<lambda>s. s\<lparr>es_minimum_arguments := [(''thresholdPercent'', dzero)]\<rparr>)
           (ec_specs BASIC_ELEMENTS_2026_08_08)))))))))"

definition BASIC_ELEMENTS_2026_08_25 :: element_catalog where
  "BASIC_ELEMENTS_2026_08_25 =
     \<lparr>ec_version = ''basic-elements:2026-08-25'', ec_specs = v2_specs,
      ec_feature_versions = ec_feature_versions BASIC_ELEMENTS_2026_08_08,
      ec_canonical_feature_ids =
       [(''ec37984b-6605-5560-8ea0-774c5b8e9626'', ''RSI_14''), (''85f4f80f-be4e-d9dc-bd52-d4781ba5f30f'', ''RSI_14''),
        (''65a5aaf5-f536-820f-119a-239b0aec0de7'', ''RSI_14''), (''647a5fd6-98ed-0617-d4b2-844748d54fac'', ''RSI_14'')],
      ec_canonical_feature_resolutions =
       [(''ec37984b-6605-5560-8ea0-774c5b8e9626'', ''30m''), (''85f4f80f-be4e-d9dc-bd52-d4781ba5f30f'', ''1h''),
        (''65a5aaf5-f536-820f-119a-239b0aec0de7'', ''4h''), (''647a5fd6-98ed-0617-d4b2-844748d54fac'', ''1d'')],
      ec_execution_gate = True\<rparr>"

definition ELEMENT_CATALOGS :: "(string \<times> element_catalog) list" where
  "ELEMENT_CATALOGS =
     map (\<lambda>c. (ec_version c, c))
       [BASIC_ELEMENTS_2026_07_31, BASIC_ELEMENTS_2026_08_07, BASIC_ELEMENTS_2026_08_08, BASIC_ELEMENTS_2026_08_25]"

definition catalog_of_version :: "string \<Rightarrow> element_error + element_catalog" where
  "catalog_of_version version =
     (case map_of ELEMENT_CATALOGS version of
        Some c \<Rightarrow> Inr c
      | None \<Rightarrow> Inl (ElementCompatibility ELEMENT_CATALOG_VERSION_UNSUPPORTED
          (''elementCatalogVersion '' @ version @ '' is not implemented by this build'')))"

definition supported_feature_versions :: "(string \<times> string) list" where
  "supported_feature_versions = map (\<lambda>(_, f). (fd_feature_id f, fd_definition_version f)) FEATURE_REGISTRY"

end
