(* ===== verification/Catalog_Rules.thy ===== *)
theory Catalog_Rules
  imports Element_Catalog
begin

text \<open>
  What the validation of a step buys: once \<open>validate_step\<close> accepted a step, its evaluation finds
  every argument it reads, of the form it needs. The exception of a missing or unsupported
  argument (\<open>ElementCompatibilityError\<close>) belongs to loading a plan and cannot come out of an
  evaluation.
\<close>

section \<open>Calls that raise no compatibility error\<close>

named_theorems compat

definition compatible :: "element_error + 'a \<Rightarrow> bool" where
  "compatible m \<longleftrightarrow> (\<forall>f d. m \<noteq> Inl (ElementCompatibility f d))"

lemma compatible_simps [simp]:
  "compatible (Inr x)" "compatible (Inl (ElementEvaluationError m))" "compatible (Inl (ElementInputMissing m r ev))"
  "compatible (Inl (PythonError c t))"
  by (simp_all add: compatible_def)

lemma compatible_ebind:
  "compatible m \<Longrightarrow> (\<And>x. m = Inr x \<Longrightarrow> compatible (f x)) \<Longrightarrow> compatible (ebind m f)"
  by (auto simp: compatible_def err_simps)

lemma compatible_if: "(b \<Longrightarrow> compatible m) \<Longrightarrow> (\<not> b \<Longrightarrow> compatible n) \<Longrightarrow> compatible (if b then m else n)"
  by simp

lemma compatible_case:
  "compatible n \<Longrightarrow> (\<And>y. x = Some y \<Longrightarrow> compatible (f y)) \<Longrightarrow> compatible (case x of None \<Rightarrow> n | Some y \<Rightarrow> f y)"
  by (cases x) simp_all

lemmas compatible_intros = compatible_ebind compatible_if compatible_case compatible_simps

lemma compatible_decimal [compat]: "compatible (map_err decimal_exception m)"
proof (cases m)
  case (Inl x)
  then show ?thesis by (cases x) simp_all
qed simp

lemma compatible_calls [compat]:
  "compatible (py_index xs i)" "compatible (step_outcome_new b r ev)" "compatible (outcome_of op b ev)"
  "compatible (input_value e key op)" "compatible (decimal_value e key op)"
  by (auto simp: compatible_def py_index_def step_outcome_new_def outcome_of_def input_value_def decimal_value_def
      Let_def err_simps split: option.splits dec_literal.splits if_splits)

lemma compatible_series_items: "compatible (series_items key op items)"
  by (induction items) (auto simp: compatible_def err_simps split: option.splits dec_literal.splits)

lemma compatible_series_values [compat]: "compatible (series_values e key n op)"
  unfolding series_values_def
  by (intro compatible_ebind compat compatible_series_items) simp

lemma compatible_math [compat]: "compatible (math_div a b)" "compatible (math_sqrt a)"
  by (simp_all add: math_div_def math_sqrt_def compat)

lemma compatible_average [compat]: "compatible (average xs)" "compatible (trailing_average xs n k)"
  by (simp_all add: average_def trailing_average_def Let_def compat)

lemma compatible_percent_of [compat]: "compatible (percent_of a b)"
  by (simp add: percent_of_def compat)

lemma compatible_compared [compat]: "compatible (compared op name l r ev)"
  by (simp add: compared_def compat split: option.splits)

lemma compatible_ema [compat]: "compatible (ema xs n)"
  unfolding ema_def by (intro compatible_ebind compat) (simp split: list.splits)

lemma compatible_band [compat]: "compatible (band xs n d k)"
  unfolding band_def Let_def by (intro compatible_ebind compat) simp

section \<open>Arguments\<close>

definition has_argument :: "plan_step \<Rightarrow> string \<Rightarrow> bool" where
  "has_argument s name \<longleftrightarrow> map_of (ps_arguments s) name \<noteq> None"

definition has_decimal :: "plan_step \<Rightarrow> string \<Rightarrow> bool" where
  "has_decimal s name \<longleftrightarrow> (\<exists>d. parse_decimal_argument s name = Inr d)"

lemma compatible_arguments [compat]:
  "has_argument s name \<Longrightarrow> compatible (step_argument s name)"
  "has_argument s name \<Longrightarrow> compatible (int_argument s name)"
  "has_decimal s name \<Longrightarrow> compatible (parse_decimal_argument s name)"
  by (auto simp: has_argument_def has_decimal_def step_argument_def int_argument_def compatible_def err_simps
      split: option.splits)

lemma compatible_named_reference [compat]:
  "has_argument s ''resolution'' \<Longrightarrow> compatible (named_reference_price s e reference)"
  unfolding named_reference_price_def Let_def
  by (intro compatible_intros compat)

lemma compatible_reference [compat]:
  "has_argument s ''resolution'' \<Longrightarrow> compatible (reference_price s e reference closes)"
  unfolding reference_price_def Let_def
  by (intro compatible_intros compat)

text \<open>The arguments each operation reads, and those it reads as decimals.\<close>

definition reads :: "string \<Rightarrow> string list \<times> string list" where
  "reads op =
     (case map_of
       [(''LOAD_FEATURE'', ([''feature'', ''resolution''], [])),
        (''COMPARE'', ([''operator'', ''threshold''], [''threshold''])),
        (''PRICE_COMPARE'', ([''resolution'', ''operator'', ''reference''], [])),
        (''PRICE_CHANGE_PERCENT'', ([''resolution'', ''base'', ''direction''], [''thresholdPercent''])),
        (''VOLUME_COMPARE'', ([''operator'', ''reference'', ''period'', ''multiplier''], [''multiplier''])),
        (''STREAK'', ([''direction'', ''bars''], [])),
        (''SMA_CROSS'', ([''direction'', ''shortPeriod'', ''longPeriod''], [])),
        (''RSI_CROSS'', ([''resolution'', ''direction''], [''threshold''])),
        (''MACD_CROSS'', ([''direction'', ''fastPeriod'', ''slowPeriod'', ''signalPeriod''], [])),
        (''BOLLINGER_REVERSAL'', ([''direction'', ''period''], [''deviations''])),
        (''POSITION_RETURN'', ([''direction''], [''thresholdPercent''])),
        (''HOLDING_PERIOD'', ([''unit'', ''amount''], [])),
        (''PEAK_RETURN'', ([''operator''], [''thresholdPercent''])),
        (''DRAWDOWN_FROM_PEAK'', ([''operator''], [''thresholdPercent''])),
        (''SCHEDULE'', ([''cycle'', ''interval''], []))] op of
        Some r \<Rightarrow> r | None \<Rightarrow> ([], []))"

definition well_argued :: "plan_step \<Rightarrow> bool" where
  "well_argued s \<longleftrightarrow> list_all (has_argument s) (fst (reads (ps_operation s))) \<and>
     list_all (has_decimal s) (snd (reads (ps_operation s)))"

lemma compatible_period [compat]: "res \<in> set SUPPORTED_RESOLUTIONS \<Longrightarrow> compatible (element_period res)"
  by (auto simp: element_period_def SUPPORTED_RESOLUTIONS_def compatible_def map_of_eq_None_iff image_iff
      split: option.splits)

lemma compatible_pinned [compat]:
  "pf_resolution ps \<in> set SUPPORTED_RESOLUTIONS \<Longrightarrow> compatible (pinned_value_at ps t)"
  unfolding pinned_value_at_def by (intro compatible_intros compat)

lemma feature_series_resolution: "feature_series_for i feature_id res = Some ps \<Longrightarrow> pf_resolution ps = res"
  by (auto simp: feature_series_for_def feature_identity_def find_Some_iff)

lemma compatible_operations:
  assumes "well_argued s"
  shows "ps_operation s = ''PRICE_COMPARE'' \<Longrightarrow> compatible (op_price_compare s e res)"
    "ps_operation s = ''PRICE_CHANGE_PERCENT'' \<Longrightarrow> compatible (op_price_change_percent s e res)"
    "ps_operation s = ''VOLUME_COMPARE'' \<Longrightarrow> compatible (op_volume_compare s e res)"
    "ps_operation s = ''STREAK'' \<Longrightarrow> compatible (op_streak s e res)"
    "ps_operation s = ''SMA_CROSS'' \<Longrightarrow> compatible (op_sma_cross s e res)"
    "ps_operation s = ''MACD_CROSS'' \<Longrightarrow> compatible (op_macd_cross s e res)"
    "ps_operation s = ''POSITION_RETURN'' \<Longrightarrow> compatible (op_position_return s e)"
    "ps_operation s = ''HOLDING_PERIOD'' \<Longrightarrow> compatible (op_holding_period s e res)"
    "ps_operation s = ''PEAK_RETURN'' \<or> ps_operation s = ''DRAWDOWN_FROM_PEAK'' \<Longrightarrow> compatible (op_peak s e)"
    "ps_operation s = ''SCHEDULE'' \<Longrightarrow> compatible (op_schedule s e)"
  unfolding op_price_compare_def op_price_change_percent_def op_volume_compare_def op_streak_def op_sma_cross_def
    op_macd_cross_def op_position_return_def op_holding_period_def op_peak_def op_schedule_def Let_def
  by (intro compatible_intros compat; use assms in \<open>force simp: well_argued_def reads_def\<close>)+

lemma compatible_bollinger:
  assumes "well_argued s" "ps_operation s = ''BOLLINGER_REVERSAL''"
  shows "compatible (op_bollinger_reversal s e res)"
  unfolding op_bollinger_reversal_def case_prod_unfold
  by (intro compatible_intros compat; use assms in \<open>simp add: well_argued_def reads_def\<close>)

lemma compatible_rsi_cross:
  assumes "well_argued s" "ps_operation s = ''RSI_CROSS''"
    and "\<And>res. step_argument s ''resolution'' = Inr res \<Longrightarrow> res \<in> set SUPPORTED_RESOLUTIONS"
  shows "compatible (op_rsi_cross s e)"
  unfolding op_rsi_cross_def
  by (intro compatible_intros compat; use assms in \<open>simp add: well_argued_def reads_def feature_series_resolution\<close>)

lemma compatible_catalog_operation:
  assumes "well_argued s" "\<And>res. ps_operation s = ''RSI_CROSS'' \<Longrightarrow> step_argument s ''resolution'' = Inr res \<Longrightarrow>
    res \<in> set SUPPORTED_RESOLUTIONS"
  shows "compatible (evaluate_catalog_operation s e)"
  unfolding evaluate_catalog_operation_def catalog_operation_def Let_def
  by (intro compatible_intros compat compatible_operations compatible_bollinger compatible_rsi_cross assms) simp_all

lemma compatible_compare:
  assumes "well_argued s" "ps_operation s = ''COMPARE''" "\<And>name. step_argument s ''operator'' = Inr name \<Longrightarrow> name \<in> set operator_names"
  shows "compatible (evaluate_compare s e)"
proof -
  have op: "compatible (require_operand e x)" for x by (simp add: require_operand_def split: option.splits)
  have a: "has_argument s ''operator''" "has_argument s ''threshold''" "has_decimal s ''threshold''"
    using assms(1,2) by (simp_all add: well_argued_def reads_def)
  then obtain name where name: "step_argument s ''operator'' = Inr name"
    by (auto simp: has_argument_def step_argument_def)
  with assms(3) obtain f where "map_of COMPARISON_OPERATORS name = Some f"
    by (cases "map_of COMPARISON_OPERATORS name") (auto simp: operator_names_def map_of_eq_None_iff)
  then show ?thesis
    unfolding evaluate_compare_def Let_def name ebind_simps
    by (simp only: option.case) (intro compatible_intros compat op a)
qed

lemma compatible_rsi: "compatible (compute_rsi_14 window)"
  unfolding compute_rsi_14_def rsi_of_totals_def feature_quantize_def fdiv_def Let_def case_prod_unfold
  by (intro compatible_intros compat)

lemma compatible_load_feature:
  assumes "well_argued s" "ps_operation s = ''LOAD_FEATURE''"
    and "\<And>res. step_argument s ''resolution'' = Inr res \<Longrightarrow> res \<in> set SUPPORTED_RESOLUTIONS"
    and "step_argument s ''feature'' = Inr ''RSI_14''"
  shows "compatible (evaluate_load_feature s e)"
proof -
  have a: "has_argument s ''resolution''"
    using assms(1,2) by (simp add: well_argued_def reads_def)
  have f: "feature_definition ''RSI_14'' = Some RSI_14_DEFINITION" "fd_compute RSI_14_DEFINITION = compute_rsi_14"
    by (simp_all add: feature_definition_def FEATURE_REGISTRY_def RSI_14_DEFINITION_def)
  show ?thesis
    unfolding evaluate_load_feature_def assms(4) ebind_simps f option.case Let_def
    by (intro compatible_intros compat compatible_rsi a) (simp add: assms(3) feature_series_resolution)
qed

section \<open>Validated steps\<close>

lemma check_enumerations_Inr:
  "check_enumerations s es = Inr () \<Longrightarrow> (name, allowed) \<in> set es \<Longrightarrow> \<exists>v\<in>set allowed. map_of (ps_arguments s) name = Some v"
  by (induction s es rule: check_enumerations.induct) (auto split: option.splits if_splits)

lemma efold_unit_Inr:
  "efold (\<lambda>x _. f x) xs u = Inr v \<Longrightarrow> x \<in> set xs \<Longrightarrow> \<exists>w. f x = Inr w"
  by (induction xs arbitrary: u) (auto simp: err_simps)

lemma validate_step_Inr:
  assumes "validate_step c s = Inr spec"
  shows "spec_of c (ps_operation s) = Inr spec"
    "name \<in> set (es_required_arguments spec) \<Longrightarrow> has_argument s name"
    "name \<in> set (es_decimal_arguments spec) \<Longrightarrow> has_decimal s name"
    "(name, allowed) \<in> set (es_enumerations spec) \<Longrightarrow> step_argument s name = Inr v \<Longrightarrow> v \<in> set allowed"
    "name \<in> set (es_feature_arguments spec) \<Longrightarrow> \<exists>v w. step_argument s name = Inr v \<and> require_feature c v = Inr w"
proof -
  from assms show "spec_of c (ps_operation s) = Inr spec"
    unfolding validate_step_def by (elim ebind_InrE) simp
  from assms have sub: "set (es_required_arguments spec) \<subseteq> fst ` set (ps_arguments s)"
    and enum: "check_enumerations s (es_enumerations spec) = Inr ()"
    and dec: "\<exists>values. emap (\<lambda>name. ebind (parse_decimal_argument s name) (\<lambda>v. Inr (name, v))) (es_decimal_arguments spec) = Inr values"
    and feat: "efold (\<lambda>name _. case map_of (ps_arguments s) name of
         None \<Rightarrow> Inl (PythonError ''KeyError'' name)
       | Some v \<Rightarrow> ebind (require_feature c v) (\<lambda>_. Inr ())) (es_feature_arguments spec) () = Inr ()"
    unfolding validate_step_def by (auto elim!: ebind_InrE)
  show "has_argument s name" if "name \<in> set (es_required_arguments spec)"
    using that sub by (auto simp: has_argument_def map_of_eq_None_iff)
  show "has_decimal s name" if "name \<in> set (es_decimal_arguments spec)"
    using that dec by (fastforce simp: has_decimal_def err_simps in_set_conv_nth dest: emap_nth)
  show "v \<in> set allowed" if "(name, allowed) \<in> set (es_enumerations spec)" "step_argument s name = Inr v"
    using check_enumerations_Inr [OF enum that(1)] that(2) by (auto simp: step_argument_def)
  show "\<exists>v w. step_argument s name = Inr v \<and> require_feature c v = Inr w" if "name \<in> set (es_feature_arguments spec)"
    using efold_unit_Inr [OF feat that] by (auto simp: step_argument_def err_simps split: option.splits)
qed

text \<open>Every specification of every catalog asks for what its evaluator reads.\<close>

definition spec_fits :: "string \<Rightarrow> element_spec \<Rightarrow> bool" where
  "spec_fits op spec \<longleftrightarrow>
     set (fst (reads op)) \<subseteq> set (es_required_arguments spec) \<and> set (snd (reads op)) \<subseteq> set (es_decimal_arguments spec) \<and>
     (es_evaluator spec = evaluate_terminal \<or>
      es_evaluator spec = evaluate_catalog_operation \<and>
        (op = ''RSI_CROSS'' \<longrightarrow> (''resolution'', PRODUCTION_RESOLUTIONS) \<in> set (es_enumerations spec)) \<or>
      es_evaluator spec = evaluate_compare \<and> op = ''COMPARE'' \<and> (''operator'', operator_names) \<in> set (es_enumerations spec) \<or>
      es_evaluator spec = evaluate_load_feature \<and> op = ''LOAD_FEATURE'' \<and> ''feature'' \<in> set (es_feature_arguments spec) \<and>
        (''resolution'', SUPPORTED_RESOLUTIONS) \<in> set (es_enumerations spec))"

lemma spec_fits_update [simp]:
  "spec_fits op (s\<lparr>es_minimum_arguments := m\<rparr>) = spec_fits op s"
  "spec_fits op (s\<lparr>es_exclusive_minimum_arguments := m\<rparr>) = spec_fits op s"
  "spec_fits op (s\<lparr>es_maximum_arguments := m\<rparr>) = spec_fits op s"
  "spec_fits op (s\<lparr>es_integer_arguments := ns\<rparr>) = spec_fits op s"
  by (simp_all add: spec_fits_def)

lemma respec_fits:
  assumes "\<And>s. spec_fits op s \<Longrightarrow> spec_fits op (f s)" "list_all (\<lambda>(k, s). spec_fits k s) specs"
  shows "list_all (\<lambda>(k, s). spec_fits k s) (respec op f specs)"
  using assms by (auto simp: respec_def list_all_iff split: if_splits)

lemma specs_fit:
  "list_all (\<lambda>(k, s). spec_fits k s) (ec_specs BASIC_ELEMENTS_2026_07_31)"
  "list_all (\<lambda>(k, s). spec_fits k s) SPECS_2026_08_07"
  "list_all (\<lambda>(k, s). spec_fits k s) v2_specs"
proof -
  show "list_all (\<lambda>(k, s). spec_fits k s) (ec_specs BASIC_ELEMENTS_2026_07_31)"
    by (simp add: BASIC_ELEMENTS_2026_07_31_def spec_fits_def spec_new_def reads_def)
  show *: "list_all (\<lambda>(k, s). spec_fits k s) SPECS_2026_08_07"
    by (simp add: SPECS_2026_08_07_def production_spec_def spec_fits_def spec_new_def reads_def)
  show "list_all (\<lambda>(k, s). spec_fits k s) v2_specs"
    unfolding v2_specs_def Let_def BASIC_ELEMENTS_2026_08_08_def BASIC_ELEMENTS_2026_08_07_def element_catalog.simps
    by (intro respec_fits *)
      (simp_all add: V2_EMIT_ORDER_CANDIDATE_def V2_HOLDING_PERIOD_def production_spec_def spec_fits_def spec_new_def reads_def)
qed

lemma catalog_cases:
  assumes "catalog_of_version v = Inr c"
  shows "c \<in> {BASIC_ELEMENTS_2026_07_31, BASIC_ELEMENTS_2026_08_07, BASIC_ELEMENTS_2026_08_08, BASIC_ELEMENTS_2026_08_25}"
  using assms by (auto simp: catalog_of_version_def ELEMENT_CATALOGS_def split: option.splits if_splits)

lemma catalog_spec_fits:
  assumes "catalog_of_version v = Inr c" "spec_of c op = Inr spec"
  shows "spec_fits op spec"
proof -
  from catalog_cases [OF assms(1)] have "list_all (\<lambda>(k, s). spec_fits k s) (ec_specs c)"
    using specs_fit
    by (auto simp: BASIC_ELEMENTS_2026_08_07_def BASIC_ELEMENTS_2026_08_08_def BASIC_ELEMENTS_2026_08_25_def)
  with assms(2) show ?thesis by (auto simp: spec_of_def list_all_iff split: option.splits dest: map_of_SomeD)
qed

lemma catalog_feature:
  assumes "catalog_of_version v = Inr c" "require_feature c feature = Inr w"
  shows "feature = ''RSI_14''"
  using catalog_cases [OF assms(1)] assms(2)
  by (auto simp: require_feature_def BASIC_ELEMENTS_2026_07_31_def BASIC_ELEMENTS_2026_08_07_def BASIC_ELEMENTS_2026_08_08_def
      BASIC_ELEMENTS_2026_08_25_def split: option.splits if_splits)

lemma validated_well_argued:
  assumes "catalog_of_version v = Inr c" "validate_step c s = Inr spec"
  shows "well_argued s"
  using catalog_spec_fits [OF assms(1) validate_step_Inr(1) [OF assms(2)]] validate_step_Inr(2,3) [OF assms(2)]
  by (auto simp: spec_fits_def well_argued_def list_all_iff)

lemma production_supported: "set PRODUCTION_RESOLUTIONS \<subseteq> set SUPPORTED_RESOLUTIONS"
  by (simp add: PRODUCTION_RESOLUTIONS_def SUPPORTED_RESOLUTIONS_def RESOLUTION_PERIODS_def)

lemma validated_evaluates:
  assumes cat: "catalog_of_version v = Inr c" and val: "validate_step c s = Inr spec"
  shows "compatible (catalog_evaluate c s e)"
proof -
  note val' = validate_step_Inr [OF val]
  note wa = validated_well_argued [OF cat val]
  note fits = catalog_spec_fits [OF cat val'(1)]
  have "compatible (es_evaluator spec s e)"
  proof -
    consider "es_evaluator spec = evaluate_terminal"
      | "es_evaluator spec = evaluate_catalog_operation"
        "ps_operation s = ''RSI_CROSS'' \<Longrightarrow> (''resolution'', PRODUCTION_RESOLUTIONS) \<in> set (es_enumerations spec)"
      | "es_evaluator spec = evaluate_compare" "ps_operation s = ''COMPARE''"
        "(''operator'', operator_names) \<in> set (es_enumerations spec)"
      | "es_evaluator spec = evaluate_load_feature" "ps_operation s = ''LOAD_FEATURE''"
        "''feature'' \<in> set (es_feature_arguments spec)" "(''resolution'', SUPPORTED_RESOLUTIONS) \<in> set (es_enumerations spec)"
      using fits unfolding spec_fits_def by blast
    then show ?thesis
    proof cases
      case 1
      then show ?thesis by (simp add: evaluate_terminal_def)
    next
      case 2
      with val'(4) production_supported have "compatible (evaluate_catalog_operation s e)"
        by (intro compatible_catalog_operation [OF wa]) blast
      with 2 show ?thesis by simp
    next
      case 3
      with val'(4) compatible_compare [OF wa] show ?thesis by simp
    next
      case 4
      from val'(5) [OF 4(3)] catalog_feature [OF cat] have "step_argument s ''feature'' = Inr ''RSI_14''" by blast
      with 4 val'(4) compatible_load_feature [OF wa] show ?thesis by simp
    qed
  qed
  with val'(1) show ?thesis by (simp add: catalog_evaluate_def)
qed

text \<open>
  C13. Validation makes evaluation type-safe. A step that any of the four catalogs accepts never
  raises the plan-compatibility error when it is evaluated, whatever the inputs of the
  instrument: every argument the evaluator reads is there, every decimal argument parses, every
  operator, resolution and feature is one that this build implements.
\<close>

theorem validated_step_stays_compatible:
  assumes "catalog_of_version v = Inr c" "validate_step c s = Inr spec"
  shows "catalog_evaluate c s e \<noteq> Inl (ElementCompatibility f d)"
  using validated_evaluates [OF assms] by (simp add: compatible_def)

definition holding_step :: "string \<Rightarrow> plan_step" where
  "holding_step amount = \<lparr>ps_sequence = 1, ps_operation = ''HOLDING_PERIOD'',
     ps_arguments = [(''unit'', ''BAR''), (''amount'', amount), (''resolution'', ''1d'')]\<rparr>"

lemma catalog_v2: "catalog_of_version ''basic-elements:2026-08-25'' = Inr BASIC_ELEMENTS_2026_08_25"
  by (simp add: catalog_of_version_def ELEMENT_CATALOGS_def)
    (simp add: BASIC_ELEMENTS_2026_07_31_def BASIC_ELEMENTS_2026_08_07_def BASIC_ELEMENTS_2026_08_08_def
      BASIC_ELEMENTS_2026_08_25_def)

lemma v2_holding: "spec_of BASIC_ELEMENTS_2026_08_25 ''HOLDING_PERIOD'' = Inr V2_HOLDING_PERIOD"
proof -
  have "map_of v2_specs ''HOLDING_PERIOD'' = Some V2_HOLDING_PERIOD"
    by (simp add: v2_specs_def respec_def BASIC_ELEMENTS_2026_08_08_def BASIC_ELEMENTS_2026_08_07_def
        SPECS_2026_08_07_def Let_def)
  then show ?thesis by (simp add: spec_of_def BASIC_ELEMENTS_2026_08_25_def)
qed

lemma holding_step_validates:
  assumes "parse_decimal amount = Some (FiniteDec a)" "\<not> dless a dzero" "is_integral_value a"
  shows "validate_step BASIC_ELEMENTS_2026_08_25 (holding_step amount) = Inr V2_HOLDING_PERIOD"
proof -
  have "ps_operation (holding_step amount) = ''HOLDING_PERIOD''" by (simp add: holding_step_def)
  then show ?thesis
    unfolding validate_step_def
    using assms
    by (simp add: v2_holding V2_HOLDING_PERIOD_def production_spec_def spec_new_def holding_step_def
        parse_decimal_argument_def step_argument_def check_bounds_def check_integers_def PRODUCTION_RESOLUTIONS_def)
qed

text \<open>
  C31. A step can be valid and still impossible to evaluate. The newest catalog checks that
  \<open>amount\<close> is a decimal with an integral value, so it accepts \<open>5.0\<close>; the evaluator reads the same
  text with \<open>int\<close>, which raises a \<open>ValueError\<close> at every evaluation of every instrument.
\<close>

theorem integral_decimal_amount_always_fails:
  "validate_step BASIC_ELEMENTS_2026_08_25 (holding_step ''5.0'') = Inr V2_HOLDING_PERIOD \<and>
   catalog_evaluate BASIC_ELEMENTS_2026_08_25 (holding_step ''5.0'') e =
     Inl (PythonError ''ValueError'' (''invalid literal for int() with base 10: '' @ repr_str ''5.0''))"
proof -
  have p: "parse_decimal ''5.0'' = Some (FiniteDec (Dec False 50 (- 1)))" by code_simp
  have i: "py_int ''5.0'' = None" by code_simp
  have d: "\<not> dless (Dec False 50 (- 1)) dzero" "is_integral_value (Dec False 50 (- 1))" by code_simp+
  have "catalog_evaluate BASIC_ELEMENTS_2026_08_25 (holding_step ''5.0'') e =
     Inl (PythonError ''ValueError'' (''invalid literal for int() with base 10: '' @ repr_str ''5.0''))"
    by (simp add: catalog_evaluate_def holding_step_def v2_holding)
      (simp add: V2_HOLDING_PERIOD_def production_spec_def spec_new_def evaluate_catalog_operation_def
        catalog_operation_def op_holding_period_def step_argument_def int_argument_def int_literal_message_def i)
  with holding_step_validates [OF p d] show ?thesis by blast
qed

definition empty_evaluation :: element_evaluation where
  "empty_evaluation = \<lparr>el_instrument_id = ''i'', el_as_of = 0, el_inputs = \<lparr>ii_instrument_id = ''i'', ii_series = [],
     ii_feature_series = [], ii_require_pinned_features = False, ii_values = []\<rparr>, el_values = [],
     el_last_value = None, el_last_value_source = None\<rparr>"

theorem validated_step_stays_compatible_witness:
  "catalog_evaluate BASIC_ELEMENTS_2026_08_25 (holding_step ''5'') empty_evaluation
     \<noteq> Inl (ElementCompatibility UNSUPPORTED_ELEMENT_ARGUMENT [])"
proof -
  have p: "parse_decimal ''5'' = Some (FiniteDec (Dec False 5 0))" by code_simp
  have d: "\<not> dless (Dec False 5 0) dzero" "is_integral_value (Dec False 5 0)" by code_simp+
  show ?thesis by (rule validated_step_stays_compatible [OF catalog_v2 holding_step_validates [OF p d]])
qed

section \<open>Values of running bars and short windows\<close>

text \<open>
  A pinned value is returned as soon as its bar has started, also while the bar is running: at
  \<open>t\<close> inside the bar, the bar that closed last is passed over.
\<close>

lemma running_bar_value_visible:
  assumes "pinned_feature_series_new s = Inr p" "pf_values p = older @ [v]"
    and "map_of RESOLUTION_PERIODS (pf_resolution p) = Some period"
    and "pv_bar_start_at v < t" "t < pv_bar_start_at v + period"
  shows "pinned_value_at p t = Inr (pv_value v)"
proof -
  have "pinned_values_check None (pf_values p) = Inr ()"
    using assms(1) by (auto simp: pinned_feature_series_new_def err_simps)
  from pinned_values_check_sorted [OF this]
  have st: "sorted_wrt (<) (map pv_bar_start_at (pf_values p))" by simp
  have "filter (\<lambda>v. pv_bar_start_at v < t) (pf_values p) = older @ [v]"
    using st assms(2,4) by (auto simp: sorted_wrt_append filter_id_conv)
  with pinned_value_at_newest [OF st assms(3), of t "pv_value v"] assms(5) show ?thesis by auto
qed

text \<open>
  A trailing average over more values than there are: the negative start of the slice counts from
  the end, and the average is taken over what is left.
\<close>

lemma trailing_average_of_short_series:
  assumes "int (length values) < period"
  shows "trailing_average values period 0 = average (drop (nat (2 * int (length values) - period)) values)"
  using assms by (simp add: trailing_average_def py_slice_def slice_position_def Let_def algebra_simps)

definition inverted_cross :: plan_step where
  "inverted_cross = \<lparr>ps_sequence = 1, ps_operation = ''SMA_CROSS'',
     ps_arguments = [(''resolution'', ''1d''), (''direction'', ''UP''), (''shortPeriod'', ''60''), (''longPeriod'', ''20'')]\<rparr>"

lemma inverted_cross_validates: "\<exists>spec. validate_step BASIC_ELEMENTS_2026_08_07 inverted_cross = Inr spec"
  by (simp add: validate_step_def inverted_cross_def spec_of_def BASIC_ELEMENTS_2026_08_07_def SPECS_2026_08_07_def
      production_spec_def spec_new_def PRODUCTION_RESOLUTIONS_def check_bounds_def check_integers_def)

end
