(* ===== verification/Order_Candidate.thy ===== *)
theory Order_Candidate
  imports Element_Catalog
begin

text \<open>
  \<open>elements/orders.py\<close>: the order candidate with its construction checks, and the terminal
  \<open>EMIT_ORDER_CANDIDATE\<close> element, which reads side, order type and allocation from the plan's own
  step. An allocation is an exact fraction, that is, a rational.
\<close>

definition TERMINAL_OPERATION :: string where
  "TERMINAL_OPERATION = ''EMIT_ORDER_CANDIDATE''"

definition SUPPORTED_SIDES :: "string list" where
  "SUPPORTED_SIDES = [''BUY'', ''SELL'']"

definition SUPPORTED_ORDER_TYPES :: "string list" where
  "SUPPORTED_ORDER_TYPES = [''MARKET'']"

definition SUPPORTED_ALLOCATION_MODES :: "string list" where
  "SUPPORTED_ALLOCATION_MODES = [''EQUAL'']"

definition BUDGET_CAP_BPS_MIN :: int where
  "BUDGET_CAP_BPS_MIN = 1"

definition BUDGET_CAP_BPS_MAX :: int where
  "BUDGET_CAP_BPS_MAX = 10000"

record 't order_candidate =
  oc_evaluation_id :: string
  oc_instrument_id :: string
  oc_partition_key :: string
  oc_flow_id :: string
  oc_side :: string
  oc_order_type :: string
  oc_allocation :: "rat option"
  oc_reference_price :: decimal
  oc_decided_at :: 't
  oc_eligible_at :: 't
  oc_session_date_et :: int
  oc_session_closes_at :: 't
  oc_budget_cap_bps :: int
  oc_max_position_percent :: dec_literal
  oc_order_percent :: dec_literal
  oc_execution_mode :: string
  oc_wait_mode :: string
  oc_wait_interval :: int
  oc_max_executions :: int

definition oc_text :: "string \<Rightarrow> string \<Rightarrow> element_error + unit" where
  "oc_text v label = require (v \<noteq> []) (ElementEvaluationError (label @ '' must be a non-empty string''))"

text \<open>\<open>0 < value <= 100\<close>: comparing a NaN raises.\<close>

definition percent_check :: "dec_literal \<Rightarrow> string \<Rightarrow> element_error + unit" where
  "percent_check v label =
     (case v of
        FiniteDec d \<Rightarrow> require (dless dzero d \<and> dle d (dec_of_int 100))
          (ElementEvaluationError (label @ '' must lie in (0, 100]''))
      | SpecialDec nan \<Rightarrow> Inl (if nan then decimal_exception InvalidOperation
          else ElementEvaluationError (label @ '' must lie in (0, 100]'')))"

definition candidate_identity_check :: "'t order_candidate \<Rightarrow> element_error + string" where
  "candidate_identity_check c =
     ebind (oc_text (oc_evaluation_id c) ''evaluation_id'') (\<lambda>_.
     ebind (oc_text (oc_partition_key c) ''partition_key'') (\<lambda>_.
     ebind (oc_text (oc_flow_id c) ''flow_id'') (\<lambda>_.
     ebind (oc_text (oc_instrument_id c) ''instrument_id'') (\<lambda>_.
     el_uuid (oc_instrument_id c) ''instrument_id''))))"

definition candidate_order_check :: "'t order_candidate \<Rightarrow> element_error + unit" where
  "candidate_order_check c =
     ebind (require (oc_side c \<in> set SUPPORTED_SIDES) (ElementEvaluationError ''side must be one of BUY, SELL'')) (\<lambda>_.
     ebind (require (oc_order_type c \<in> set SUPPORTED_ORDER_TYPES)
       (ElementEvaluationError ''order_type must be one of MARKET'')) (\<lambda>_.
     ebind (require (case oc_allocation c of None \<Rightarrow> True | Some a \<Rightarrow> 0 < a \<and> a \<le> 1)
       (ElementEvaluationError ''allocation must lie in (0, 1]'')) (\<lambda>_.
     ebind (require (is_quantized_money (PyDec (oc_reference_price c)))
       (ElementEvaluationError ''reference_price must be quantized under precision:1.0.0'')) (\<lambda>_.
     require (\<not> dle (oc_reference_price c) dzero) (ElementEvaluationError ''reference_price must be positive'')))))"

definition candidate_gate_check :: "'t order_candidate \<Rightarrow> element_error + unit" where
  "candidate_gate_check c =
     ebind (require (oc_execution_mode c \<in> {ONCE, EVERY_CYCLE, WAIT_REENTER, WAIT_RERUN})
       (ElementEvaluationError ''execution_mode is not supported'')) (\<lambda>_.
     ebind (require (oc_wait_mode c \<in> {CONDITION_REMET, AFTER_N_BARS, AFTER_N_DAYS})
       (ElementEvaluationError ''wait_mode is not supported'')) (\<lambda>_.
     ebind (require (oc_execution_mode c \<in>
         (if oc_side c = ''BUY'' then {ONCE, EVERY_CYCLE, WAIT_REENTER} else {ONCE, EVERY_CYCLE, WAIT_RERUN}))
       (ElementEvaluationError (''execution_mode is not valid for '' @ oc_side c))) (\<lambda>_.
     require (\<not> (oc_wait_interval c < 1 \<or> oc_max_executions c < 1))
       (ElementEvaluationError ''wait_interval and max_executions must be positive''))))"

definition order_candidate_new :: "py_datetime order_candidate \<Rightarrow> element_error + instant order_candidate" where
  "order_candidate_new c =
     ebind (candidate_identity_check c) (\<lambda>iid.
     ebind (candidate_order_check c) (\<lambda>_.
     ebind (el_utc (oc_decided_at c) ''decided_at'') (\<lambda>decided.
     ebind (el_utc (oc_eligible_at c) ''eligible_at'') (\<lambda>eligible.
     ebind (el_utc (oc_session_closes_at c) ''session_closes_at'') (\<lambda>closes.
     ebind (require (\<not> eligible < decided) (ElementEvaluationError ''eligible_at must not precede decided_at'')) (\<lambda>_.
     ebind (require (\<not> closes \<le> decided) (ElementEvaluationError ''decided_at must precede session_closes_at'')) (\<lambda>_.
     ebind (require (BUDGET_CAP_BPS_MIN \<le> oc_budget_cap_bps c \<and> oc_budget_cap_bps c \<le> BUDGET_CAP_BPS_MAX)
       (ElementEvaluationError ''budget_cap_bps must be an integer in [1, 10000]'')) (\<lambda>_.
     ebind (percent_check (oc_order_percent c) ''order_percent'') (\<lambda>_.
     ebind (percent_check (oc_max_position_percent c) ''max_position_percent'') (\<lambda>_.
     ebind (candidate_gate_check c) (\<lambda>_.
     Inr \<lparr>oc_evaluation_id = oc_evaluation_id c, oc_instrument_id = iid, oc_partition_key = oc_partition_key c,
       oc_flow_id = oc_flow_id c, oc_side = oc_side c, oc_order_type = oc_order_type c,
       oc_allocation = oc_allocation c, oc_reference_price = oc_reference_price c, oc_decided_at = decided,
       oc_eligible_at = eligible, oc_session_date_et = oc_session_date_et c, oc_session_closes_at = closes,
       oc_budget_cap_bps = oc_budget_cap_bps c, oc_max_position_percent = oc_max_position_percent c,
       oc_order_percent = oc_order_percent c, oc_execution_mode = oc_execution_mode c,
       oc_wait_mode = oc_wait_mode c, oc_wait_interval = oc_wait_interval c,
       oc_max_executions = oc_max_executions c\<rparr>)))))))))))"

definition literal_argument :: "plan_step \<Rightarrow> string \<Rightarrow> element_error \<Rightarrow> element_error + dec_literal" where
  "literal_argument s name err =
     (case parse_decimal (argument_or s name ''100'') of Some v \<Rightarrow> Inr v | None \<Rightarrow> Inl err)"

definition int_argument_or_one :: "plan_step \<Rightarrow> string \<Rightarrow> element_error + int" where
  "int_argument_or_one s name =
     (case py_int (argument_or s name ''1'') of
        Some n \<Rightarrow> Inr n
      | None \<Rightarrow> Inl (PythonError ''ValueError'' (int_literal_message (argument_or s name ''1''))))"

text \<open>What the caller supplies; the step supplies the rest.\<close>

record emission =
  em_evaluation_id :: string
  em_instrument_id :: string
  em_partition_key :: string
  em_flow_id :: string
  em_budget_cap_bps :: int
  em_allocation :: "rat option"
  em_reference_price :: decimal
  em_decided_at :: py_datetime
  em_eligible_at :: py_datetime
  em_session_date_et :: int
  em_session_closes_at :: py_datetime

definition emit_order_candidate :: "plan_step \<Rightarrow> emission \<Rightarrow> element_error + instant order_candidate" where
  "emit_order_candidate s x =
     ebind (require (ps_operation s = TERMINAL_OPERATION) (ElementEvaluationError
       (''only a EMIT_ORDER_CANDIDATE step can emit an order candidate, got '' @ ps_operation s))) (\<lambda>_.
     ebind (step_argument s ''allocation'') (\<lambda>allocation_mode.
     ebind (step_argument s ''orderType'') (\<lambda>order_type.
     ebind (step_argument s ''side'') (\<lambda>side.
     ebind (literal_argument s ''orderPercent'' (decimal_exception InvalidOperation)) (\<lambda>order_percent.
     ebind (int_argument_or_one s ''waitInterval'') (\<lambda>wait_interval.
     ebind (int_argument_or_one s ''maxExecutions'') (\<lambda>max_executions.
     ebind (literal_argument s ''maxPositionPercent'' (ElementEvaluationError ''maxPositionPercent must be a decimal'')) (\<lambda>max_position.
     ebind (require (allocation_mode \<in> set SUPPORTED_ALLOCATION_MODES) (argument_error s ''allocation'' '' is not one of EQUAL'')) (\<lambda>_.
     ebind (require (order_type \<in> set SUPPORTED_ORDER_TYPES) (argument_error s ''orderType'' '' is not one of MARKET'')) (\<lambda>_.
     ebind (require (side \<in> set SUPPORTED_SIDES) (argument_error s ''side'' '' is not one of BUY, SELL'')) (\<lambda>_.
     ebind (require (\<not> (side = ''BUY'' \<and> em_allocation x = None)) (ElementEvaluationError
       (''a '' @ allocation_mode @ ''-allocated BUY candidate requires an allocation share; emitting one without a share would invent a position size''))) (\<lambda>_.
     ebind (require (\<not> (side = ''SELL'' \<and> em_allocation x \<noteq> None)) (ElementEvaluationError
       ''a SELL candidate must not carry a buy allocation share: its size comes from the held position, not from the buy budget'')) (\<lambda>_.
     order_candidate_new \<lparr>oc_evaluation_id = em_evaluation_id x, oc_instrument_id = em_instrument_id x,
       oc_partition_key = em_partition_key x, oc_flow_id = em_flow_id x, oc_side = side, oc_order_type = order_type,
       oc_allocation = em_allocation x, oc_reference_price = em_reference_price x, oc_decided_at = em_decided_at x,
       oc_eligible_at = em_eligible_at x, oc_session_date_et = em_session_date_et x,
       oc_session_closes_at = em_session_closes_at x, oc_budget_cap_bps = em_budget_cap_bps x,
       oc_max_position_percent = max_position, oc_order_percent = order_percent,
       oc_execution_mode = argument_or s ''executionMode'' ONCE,
       oc_wait_mode = argument_or s ''waitMode'' CONDITION_REMET,
       oc_wait_interval = wait_interval, oc_max_executions = max_executions\<rparr>)))))))))))))"

section \<open>What a candidate carries\<close>

lemma order_candidate_new_calls:
  assumes "order_candidate_new c = Inr c'"
  obtains iid decided eligible closes where "candidate_identity_check c = Inr iid" "candidate_order_check c = Inr ()"
    "candidate_gate_check c = Inr ()" "oc_decided_at c = Aware decided" "oc_eligible_at c = Aware eligible"
    "decided \<le> eligible" "decided < closes"
    "\<lparr>oc_evaluation_id = oc_evaluation_id c, oc_instrument_id = iid, oc_partition_key = oc_partition_key c,
       oc_flow_id = oc_flow_id c, oc_side = oc_side c, oc_order_type = oc_order_type c,
       oc_allocation = oc_allocation c, oc_reference_price = oc_reference_price c, oc_decided_at = decided,
       oc_eligible_at = eligible, oc_session_date_et = oc_session_date_et c, oc_session_closes_at = closes,
       oc_budget_cap_bps = oc_budget_cap_bps c, oc_max_position_percent = oc_max_position_percent c,
       oc_order_percent = oc_order_percent c, oc_execution_mode = oc_execution_mode c,
       oc_wait_mode = oc_wait_mode c, oc_wait_interval = oc_wait_interval c,
       oc_max_executions = oc_max_executions c\<rparr> = c'"
proof -
  have *: "u = ()" for u :: unit by simp
  from assms show ?thesis
    unfolding order_candidate_new_def el_utc_def
    by (elim ebind_InrE) (rule that, simp_all only: require_eq_Inr utc_or_eq_Inr not_less not_le sum.inject *)
qed

lemma candidate_instrument:
  "candidate_identity_check c = Inr iid \<Longrightarrow> uuid_parse (oc_instrument_id c) = Some iid"
  by (auto simp: candidate_identity_check_def el_uuid_def err_simps split: option.splits)

lemma candidate_max_executions: "candidate_gate_check c = Inr u \<Longrightarrow> 1 \<le> oc_max_executions c"
  unfolding candidate_gate_check_def by (elim ebind_InrE) simp

lemma candidate_price: "candidate_order_check c = Inr u \<Longrightarrow> 0 < dval (oc_reference_price c)"
  unfolding candidate_order_check_def by (elim ebind_InrE) (simp add: dle_iff not_le)

lemma candidate_allocation:
  "candidate_order_check c = Inr u \<Longrightarrow> oc_allocation c = Some a \<Longrightarrow> 0 < a \<and> a \<le> 1"
  unfolding candidate_order_check_def by (elim ebind_InrE) simp

end
