(* ===== verification/Data_Availability.thy ===== *)
theory Data_Availability
  imports Py_Text "HOL-Library.Product_Lexorder" "HOL-Library.Char_ord" "HOL-Library.List_Lexorder"
begin

text \<open>
  \<open>data_availability.py\<close>: half-open UTC intervals, the normalisation, gap and intersection
  algorithms on interval lists, and the assessment of locked series coverage against the
  requirements of a strategy. The interval algorithms are proved against the set of
  instants a list denotes: normalisation is the canonical representation of that set,
  gaps are its complement in a target, common intervals the intersection. The assessment
  is then characterised by what it means for an instant to be covered.
\<close>

section \<open>Intervals\<close>

datatype availability_error = AvailabilityValidationError string

datatype availability_status = AVAILABLE | DEGRADED | UNAVAILABLE

datatype skip_stage = EVALUATION | ORDER_TRIGGER | FILL

definition ALL_SKIP_STAGES :: "skip_stage list" where
  "ALL_SKIP_STAGES = [EVALUATION, ORDER_TRIGGER, FILL]"

definition av_utc :: "py_datetime \<Rightarrow> string \<Rightarrow> availability_error + instant" where
  "av_utc d label = utc_or (AvailabilityValidationError (label @ '' must be timezone-aware'')) d"

definition av_text :: "string \<Rightarrow> string \<Rightarrow> availability_error + string" where
  "av_text v label =
     (if v = [] then Inl (AvailabilityValidationError (label @ '' must be a non-empty string'')) else Inr v)"

definition av_uuid :: "string \<Rightarrow> string \<Rightarrow> availability_error + string" where
  "av_uuid v label =
     ebind (av_text v label) (\<lambda>_.
     case uuid_parse v of
       None \<Rightarrow> Inl (AvailabilityValidationError (label @ '' must be a UUID''))
     | Some u \<Rightarrow> Inr u)"

record time_interval =
  iv_starts_at :: instant
  iv_ends_at :: instant

definition time_interval_new :: "py_datetime \<Rightarrow> py_datetime \<Rightarrow> availability_error + time_interval" where
  "time_interval_new s e =
     ebind (av_utc s ''starts_at'') (\<lambda>starts.
     ebind (av_utc e ''ends_at'') (\<lambda>ends.
     ebind (require (starts < ends)
       (AvailabilityValidationError ''interval starts_at must precede ends_at'')) (\<lambda>_.
     Inr \<lparr>iv_starts_at = starts, iv_ends_at = ends\<rparr>)))"

definition iv_contains :: "time_interval \<Rightarrow> instant \<Rightarrow> bool" where
  "iv_contains i t = (iv_starts_at i \<le> t \<and> t < iv_ends_at i)"

definition intersection :: "time_interval \<Rightarrow> time_interval \<Rightarrow> time_interval option" where
  "intersection i j =
     (let s = max (iv_starts_at i) (iv_starts_at j); e = min (iv_ends_at i) (iv_ends_at j)
      in if s < e then Some \<lparr>iv_starts_at = s, iv_ends_at = e\<rparr> else None)"

text \<open>
  Inside the algorithms \<open>TimeInterval\<close> is built from instants that are already in order, so
  its check cannot fail; the lemmas on \<open>proper\<close> below discharge it.
\<close>

definition iv_key :: "time_interval \<Rightarrow> instant \<times> instant" where
  "iv_key i = (iv_starts_at i, iv_ends_at i)"

fun merge_from :: "time_interval \<Rightarrow> time_interval list \<Rightarrow> time_interval list" where
  "merge_from previous [] = [previous]"
| "merge_from previous (current # rest) =
     (if iv_starts_at current \<le> iv_ends_at previous
      then merge_from \<lparr>iv_starts_at = iv_starts_at previous,
             iv_ends_at = max (iv_ends_at previous) (iv_ends_at current)\<rparr> rest
      else previous # merge_from current rest)"

definition normalize_intervals :: "time_interval list \<Rightarrow> time_interval \<Rightarrow> time_interval list" where
  "normalize_intervals ivs clip =
     (case sort_key iv_key (List.map_filter (\<lambda>i. intersection i clip) ivs) of
        [] \<Rightarrow> []
      | first # rest \<Rightarrow> merge_from first rest)"

fun gap_loop :: "instant \<Rightarrow> instant \<Rightarrow> time_interval list \<Rightarrow> time_interval list" where
  "gap_loop cursor target_end [] =
     (if cursor < target_end then [\<lparr>iv_starts_at = cursor, iv_ends_at = target_end\<rparr>] else [])"
| "gap_loop cursor target_end (i # is) =
     (if cursor < iv_starts_at i
      then \<lparr>iv_starts_at = cursor, iv_ends_at = iv_starts_at i\<rparr> #
        gap_loop (max cursor (iv_ends_at i)) target_end is
      else gap_loop (max cursor (iv_ends_at i)) target_end is)"

definition gaps :: "time_interval \<Rightarrow> time_interval list \<Rightarrow> time_interval list" where
  "gaps target available =
     gap_loop (iv_starts_at target) (iv_ends_at target) (normalize_intervals available target)"

definition pairwise_intersections :: "time_interval list \<Rightarrow> time_interval list \<Rightarrow> time_interval list" where
  "pairwise_intersections ls rs = concat (map (\<lambda>l. List.map_filter (intersection l) rs) ls)"

fun common_from :: "time_interval list \<Rightarrow> time_interval list list \<Rightarrow> time_interval list" where
  "common_from common [] = common"
| "common_from common (coverage # rest) =
     (let is = pairwise_intersections common coverage in
      if is = [] then []
      else common_from (normalize_intervals is
             \<lparr>iv_starts_at = Min (set (map iv_starts_at is)), iv_ends_at = Max (set (map iv_ends_at is))\<rparr>) rest)"

definition common_intervals :: "time_interval list list \<Rightarrow> time_interval list" where
  "common_intervals sets = (case sets of [] \<Rightarrow> [] | first # rest \<Rightarrow> common_from first rest)"

section \<open>Requirements and observations\<close>

record 't data_requirement =
  rq_requirement_id :: string
  rq_instrument_id :: string
  rq_data_kind :: string
  rq_resolution :: string
  rq_warmup_from :: 't
  rq_evaluation_from :: 't
  rq_evaluation_through :: 't

type_synonym requirement = "instant data_requirement"

definition data_requirement_new :: "py_datetime data_requirement \<Rightarrow> availability_error + requirement" where
  "data_requirement_new r =
     ebind (av_text (rq_requirement_id r) ''requirement_id'') (\<lambda>_.
     ebind (av_uuid (rq_instrument_id r) ''instrument_id'') (\<lambda>iid.
     ebind (av_text (rq_data_kind r) ''data_kind'') (\<lambda>_.
     ebind (av_text (rq_resolution r) ''resolution'') (\<lambda>_.
     ebind (av_utc (rq_warmup_from r) ''warmup_from'') (\<lambda>w.
     ebind (av_utc (rq_evaluation_from r) ''evaluation_from'') (\<lambda>f.
     ebind (av_utc (rq_evaluation_through r) ''evaluation_through'') (\<lambda>t.
     ebind (require (w \<le> f \<and> f < t)
       (AvailabilityValidationError ''requirement boundaries must satisfy warmup_from <= evaluation_from < evaluation_through'')) (\<lambda>_.
     Inr \<lparr>rq_requirement_id = rq_requirement_id r, rq_instrument_id = iid,
       rq_data_kind = rq_data_kind r, rq_resolution = rq_resolution r,
       rq_warmup_from = w, rq_evaluation_from = f, rq_evaluation_through = t\<rparr>))))))))"

definition required_interval :: "requirement \<Rightarrow> time_interval" where
  "required_interval r = \<lparr>iv_starts_at = rq_warmup_from r, iv_ends_at = rq_evaluation_through r\<rparr>"

definition evaluation_interval :: "requirement \<Rightarrow> time_interval" where
  "evaluation_interval r = \<lparr>iv_starts_at = rq_evaluation_from r, iv_ends_at = rq_evaluation_through r\<rparr>"

definition warmup_interval :: "requirement \<Rightarrow> time_interval option" where
  "warmup_interval r =
     (if rq_warmup_from r = rq_evaluation_from r then None
      else Some \<lparr>iv_starts_at = rq_warmup_from r, iv_ends_at = rq_evaluation_from r\<rparr>)"

record 't data_observation =
  ob_requirement_id :: string
  ob_instrument_id :: string
  ob_data_kind :: string
  ob_resolution :: string
  ob_available_intervals :: "time_interval list"
  ob_verified :: bool
  ob_listed_at :: "'t option"

type_synonym observation = "instant data_observation"

definition data_observation_new :: "py_datetime data_observation \<Rightarrow> availability_error + observation" where
  "data_observation_new ob =
     ebind (av_text (ob_requirement_id ob) ''requirement_id'') (\<lambda>_.
     ebind (av_uuid (ob_instrument_id ob) ''instrument_id'') (\<lambda>iid.
     ebind (av_text (ob_data_kind ob) ''data_kind'') (\<lambda>_.
     ebind (av_text (ob_resolution ob) ''resolution'') (\<lambda>_.
     ebind (case ob_listed_at ob of
              None \<Rightarrow> Inr None
            | Some d \<Rightarrow> ebind (av_utc d ''listed_at'') (\<lambda>t. Inr (Some t))) (\<lambda>listed.
     Inr \<lparr>ob_requirement_id = ob_requirement_id ob, ob_instrument_id = iid,
       ob_data_kind = ob_data_kind ob, ob_resolution = ob_resolution ob,
       ob_available_intervals = ob_available_intervals ob, ob_verified = ob_verified ob,
       ob_listed_at = listed\<rparr>)))))"

record missing_requirement =
  mr_requirement_id :: string
  mr_reason_code :: string
  mr_interval :: "time_interval option"

definition contract_value :: "missing_requirement \<Rightarrow> string" where
  "contract_value m = mr_requirement_id m @ '':'' @ mr_reason_code m"

record skip_interval =
  sk_requirement_id :: string
  sk_interval :: time_interval
  sk_stages :: "skip_stage list"
  sk_expirations_continue :: bool
  sk_interpolation_allowed :: bool
  sk_retroactive_replay_allowed :: bool

definition skip_of :: "string \<Rightarrow> time_interval \<Rightarrow> skip_interval" where
  "skip_of rid gap = \<lparr>sk_requirement_id = rid, sk_interval = gap, sk_stages = ALL_SKIP_STAGES,
     sk_expirations_continue = True, sk_interpolation_allowed = False,
     sk_retroactive_replay_allowed = False\<rparr>"

record availability_assessment =
  as_status :: availability_status
  as_skip_intervals :: "skip_interval list"
  as_missing_requirements :: "missing_requirement list"

definition is_stage_allowed :: "availability_assessment \<Rightarrow> skip_stage \<Rightarrow> py_datetime \<Rightarrow> availability_error + bool" where
  "is_stage_allowed a stage d =
     ebind (av_utc d ''instant'') (\<lambda>t.
     Inr (if as_status a = UNAVAILABLE then False
          else \<not> (\<exists>s\<in>set (as_skip_intervals a). stage \<in> set (sk_stages s) \<and> iv_contains (sk_interval s) t)))"

definition unavailable_contract_fields ::
  "availability_assessment \<Rightarrow> availability_error + string \<times> string list" where
  "unavailable_contract_fields a =
     (if as_status a \<noteq> UNAVAILABLE
      then Inl (AvailabilityValidationError ''contract fields require an UNAVAILABLE assessment'')
      else Inr (''REQUIRED_DATA_UNAVAILABLE'', sort (map contract_value (as_missing_requirements a))))"

section \<open>The assessor\<close>

definition identity_matches :: "requirement \<Rightarrow> observation \<Rightarrow> bool" where
  "identity_matches r ob \<longleftrightarrow> rq_instrument_id r = ob_instrument_id ob \<and>
     rq_data_kind r = ob_data_kind ob \<and> rq_resolution r = ob_resolution ob"

text \<open>\<open>datetime.min\<close> in UTC, in microseconds.\<close>

definition MIN_INSTANT :: instant where
  "MIN_INSTANT = - 62135596800000000"

definition missing_key :: "missing_requirement \<Rightarrow> string \<times> string \<times> instant \<times> instant" where
  "missing_key m =
     (let s = (case mr_interval m of None \<Rightarrow> MIN_INSTANT | Some i \<Rightarrow> iv_starts_at i);
          e = (case mr_interval m of None \<Rightarrow> s | Some i \<Rightarrow> iv_ends_at i)
      in (mr_requirement_id m, mr_reason_code m, s, e))"

definition skip_key :: "skip_interval \<Rightarrow> instant \<times> instant \<times> string" where
  "skip_key s = (iv_starts_at (sk_interval s), iv_ends_at (sk_interval s), sk_requirement_id s)"

definition missing_of :: "requirement \<Rightarrow> string \<Rightarrow> time_interval option \<Rightarrow> missing_requirement" where
  "missing_of r code iv = \<lparr>mr_requirement_id = rq_requirement_id r, mr_reason_code = code, mr_interval = iv\<rparr>"

text \<open>
  One round of the loop of \<open>assess\<close>: either the requirement is missing, or its evaluation
  coverage and the gaps in it.
\<close>

definition assess_one ::
  "(string \<times> observation) list \<Rightarrow> requirement \<Rightarrow> missing_requirement + time_interval list \<times> skip_interval list" where
  "assess_one by_id r =
     (case map_of by_id (rq_requirement_id r) of
        None \<Rightarrow> Inl (missing_of r ''OBSERVATION_MISSING'' None)
      | Some ob \<Rightarrow>
          if \<not> identity_matches r ob then Inl (missing_of r ''SERIES_IDENTITY_MISMATCH'' None)
          else if \<not> ob_verified ob then Inl (missing_of r ''SERIES_UNVERIFIED'' None)
          else if (case ob_listed_at ob of None \<Rightarrow> False | Some t \<Rightarrow> rq_evaluation_from r < t)
          then Inl (missing_of r ''INSTRUMENT_LISTED_AFTER_EVALUATION_START''
            (Some \<lparr>iv_starts_at = rq_evaluation_from r,
                   iv_ends_at = min (the (ob_listed_at ob)) (rq_evaluation_through r)\<rparr>))
          else
            let normalized = normalize_intervals (ob_available_intervals ob) (required_interval r) in
            if normalized = [] then Inl (missing_of r ''REQUIRED_SERIES_ABSENT'' None)
            else
              let warmup_gaps = (case warmup_interval r of None \<Rightarrow> [] | Some w \<Rightarrow> gaps w normalized) in
              if warmup_gaps \<noteq> [] then Inl (missing_of r ''WARMUP_COVERAGE_MISSING'' (Some (hd warmup_gaps)))
              else
                let evaluation = normalize_intervals normalized (evaluation_interval r) in
                if evaluation = []
                then Inl (missing_of r ''EVALUATION_COVERAGE_ABSENT'' (Some (evaluation_interval r)))
                else Inr (evaluation,
                  map (skip_of (rq_requirement_id r)) (gaps (evaluation_interval r) evaluation)))"

fun assess_loop ::
  "(string \<times> observation) list \<Rightarrow> requirement list
     \<Rightarrow> missing_requirement list \<times> skip_interval list \<times> time_interval list list" where
  "assess_loop by_id [] = ([], [], [])"
| "assess_loop by_id (r # rs) =
     (let (missing, skipped, coverage) = assess_loop by_id rs in
      case assess_one by_id r of
        Inl m \<Rightarrow> (m # missing, skipped, coverage)
      | Inr (evaluation, skips) \<Rightarrow> (missing, skips @ skipped, evaluation # coverage))"

definition assess ::
  "requirement list \<Rightarrow> observation list \<Rightarrow> availability_error + availability_assessment" where
  "assess requirements observations =
     ebind (require (requirements \<noteq> []) (AvailabilityValidationError ''requirements must not be empty'')) (\<lambda>_.
     ebind (require (distinct (map rq_requirement_id requirements))
       (AvailabilityValidationError ''requirement_id values must be unique'')) (\<lambda>_.
     ebind (require (distinct (map ob_requirement_id observations))
       (AvailabilityValidationError ''observation requirement_id values must be unique'')) (\<lambda>_.
     let by_id = map (\<lambda>ob. (ob_requirement_id ob, ob)) observations;
         (missing, skipped, coverage) = assess_loop by_id (sort_key rq_requirement_id requirements)
     in Inr (if missing \<noteq> [] then
               \<lparr>as_status = UNAVAILABLE, as_skip_intervals = [],
                as_missing_requirements = sort_key missing_key missing\<rparr>
             else if common_intervals coverage = [] then
               \<lparr>as_status = UNAVAILABLE, as_skip_intervals = [],
                as_missing_requirements = [\<lparr>mr_requirement_id = ''$strategy'',
                  mr_reason_code = ''NO_COMMON_REPLAYABLE_INTERVAL'', mr_interval = None\<rparr>]\<rparr>
             else let ordered = sort_key skip_key skipped in
               \<lparr>as_status = (if ordered \<noteq> [] then DEGRADED else AVAILABLE),
                as_skip_intervals = ordered, as_missing_requirements = []\<rparr>))))"

section \<open>Interval lists as sets of instants\<close>

definition span :: "time_interval \<Rightarrow> instant set" where
  "span i = {iv_starts_at i ..< iv_ends_at i}"

definition points :: "time_interval list \<Rightarrow> instant set" where
  "points is = (\<Union>i\<in>set is. span i)"

definition proper :: "time_interval \<Rightarrow> bool" where
  "proper i \<longleftrightarrow> iv_starts_at i < iv_ends_at i"

text \<open>The canonical form: non-empty intervals in order, with a gap between neighbours.\<close>

definition canonical :: "time_interval list \<Rightarrow> bool" where
  "canonical is \<longleftrightarrow> (\<forall>i\<in>set is. proper i) \<and> sorted_wrt (\<lambda>i j. iv_ends_at i < iv_starts_at j) is"

lemma span_contains: "t \<in> span i \<longleftrightarrow> iv_contains i t"
  by (simp add: span_def iv_contains_def)

lemma points_simps [simp]:
  "points [] = {}" "points (i # is) = span i \<union> points is" "points (is @ js) = points is \<union> points js"
  by (auto simp: points_def)

lemma points_mem: "t \<in> points is \<longleftrightarrow> (\<exists>i\<in>set is. iv_contains i t)"
  by (simp add: points_def span_contains)

lemma intersection_span:
  "(case intersection i j of None \<Rightarrow> {} | Some k \<Rightarrow> span k) = span i \<inter> span j"
  by (auto simp: intersection_def span_def Let_def)

lemma intersection_proper: "intersection i j = Some k \<Longrightarrow> proper k"
  by (auto simp: intersection_def proper_def Let_def split: if_splits)

lemma points_intersections: "points (List.map_filter (\<lambda>i. intersection i clip) is) = points is \<inter> span clip"
proof (induction "is")
  case (Cons i "is")
  then show ?case
    using intersection_span [of i clip] by (cases "intersection i clip") (auto simp: map_filter_simps)
qed (simp add: map_filter_simps)

lemma proper_intersections:
  "i \<in> set (List.map_filter (\<lambda>i. intersection i clip) is) \<Longrightarrow> proper i"
  by (auto simp: map_filter_def intersection_proper)

lemma merge_from_correct:
  assumes "proper p" "\<forall>i\<in>set is. proper i \<and> iv_starts_at p \<le> iv_starts_at i"
    "sorted (map iv_starts_at is)"
  shows "points (merge_from p is) = span p \<union> points is \<and> canonical (merge_from p is) \<and>
    (\<forall>i\<in>set (merge_from p is). iv_starts_at p \<le> iv_starts_at i)"
  using assms
proof (induction p "is" rule: merge_from.induct)
  case (1 p)
  then show ?case by (simp add: canonical_def)
next
  case (2 p c rest)
  show ?case
  proof (cases "iv_starts_at c \<le> iv_ends_at p")
    case True
    let ?m = "\<lparr>iv_starts_at = iv_starts_at p, iv_ends_at = max (iv_ends_at p) (iv_ends_at c)\<rparr>"
    have "span ?m = span p \<union> span c" using True 2(3,4) by (auto simp: span_def proper_def)
    moreover have "proper ?m" using 2(3) by (auto simp: proper_def)
    ultimately show ?thesis using True 2(1) [OF True] 2(4,5) by (auto simp: proper_def)
  next
    case False
    have rest: "points (merge_from c rest) = span c \<union> points rest \<and> canonical (merge_from c rest) \<and>
        (\<forall>i\<in>set (merge_from c rest). iv_starts_at c \<le> iv_starts_at i)"
      using 2(2) [OF False] 2(4,5) by auto
    with False 2(3,4) show ?thesis by (fastforce simp: canonical_def)
  qed
qed

lemma sorted_starts: "sorted (map iv_starts_at (sort_key iv_key is))"
proof -
  have "sorted (map iv_key (sort_key iv_key is))" by (rule sorted_sort_key)
  then have "sorted (map fst (map iv_key (sort_key iv_key is)))"
    by (auto simp: sorted_map less_eq_prod_def elim!: sorted_wrt_mono_rel [rotated])
  then show ?thesis by (simp add: o_def iv_key_def)
qed

lemma points_perm: "set is = set js \<Longrightarrow> points is = points js"
  by (simp add: points_def)

lemma normalize_correct:
  "points (normalize_intervals is clip) = points is \<inter> span clip \<and> canonical (normalize_intervals is clip)"
proof -
  let ?c = "List.map_filter (\<lambda>i. intersection i clip) is"
  have p: "points (sort_key iv_key ?c) = points is \<inter> span clip"
    using points_intersections [of clip "is"] points_perm [of "sort_key iv_key ?c" ?c] by simp
  show ?thesis
  proof (cases "sort_key iv_key ?c")
    case Nil
    with p show ?thesis by (simp add: normalize_intervals_def canonical_def)
  next
    case (Cons f rest)
    have pr: "\<forall>i\<in>set (sort_key iv_key ?c). proper i" using proper_intersections by auto
    moreover have "sorted (map iv_starts_at (f # rest))" using sorted_starts [of ?c] by (simp add: Cons)
    ultimately have "points (merge_from f rest) = span f \<union> points rest \<and> canonical (merge_from f rest)"
      using merge_from_correct [of f rest] by (auto simp: Cons)
    with p show ?thesis by (simp add: normalize_intervals_def Cons)
  qed
qed

lemma gap_loop_correct:
  assumes "canonical is" "\<forall>i\<in>set is. cursor \<le> iv_starts_at i \<and> iv_ends_at i \<le> fin" "cursor \<le> fin"
  shows "points (gap_loop cursor fin is) = {cursor ..< fin} - points is \<and>
    (\<forall>g\<in>set (gap_loop cursor fin is). proper g \<and> cursor \<le> iv_starts_at g)"
  using assms
proof (induction cursor fin "is" rule: gap_loop.induct)
  case (1 cursor fin)
  then show ?case by (auto simp: span_def proper_def)
next
  case (2 cursor fin i "is")
  have i: "proper i" "cursor \<le> iv_starts_at i" "iv_ends_at i \<le> fin" "canonical is"
    and after: "\<forall>j\<in>set is. iv_ends_at i < iv_starts_at j"
    using 2(3,4) by (auto simp: canonical_def)
  have m: "max cursor (iv_ends_at i) = iv_ends_at i" using i by (simp add: proper_def)
  have IH: "points (gap_loop (iv_ends_at i) fin is) = {iv_ends_at i ..< fin} - points is \<and>
      (\<forall>g\<in>set (gap_loop (iv_ends_at i) fin is). proper g \<and> iv_ends_at i \<le> iv_starts_at g)"
    using 2 i after m by (cases "cursor < iv_starts_at i") (auto simp: less_imp_le)
  have disj: "x \<notin> points is" if "x < iv_ends_at i" for x
    using that after by (auto simp: points_def span_def)
  show ?case
    using IH i disj m by (auto simp: span_def proper_def)
qed

lemma gaps_correct:
  assumes "proper target"
  shows "points (gaps target is) = span target - points is" "\<forall>g\<in>set (gaps target is). proper g"
proof -
  let ?n = "normalize_intervals is target"
  have n: "points ?n = points is \<inter> span target" "canonical ?n" using normalize_correct by auto
  have inside: "iv_starts_at target \<le> iv_starts_at i \<and> iv_ends_at i \<le> iv_ends_at target" if "i \<in> set ?n" for i
  proof -
    have p: "proper i" using that n(2) by (simp add: canonical_def)
    then have "iv_starts_at i \<in> points ?n" "iv_ends_at i - 1 \<in> points ?n"
      using that by (auto simp: points_def span_def proper_def)
    then have "iv_starts_at i \<in> span target" "iv_ends_at i - 1 \<in> span target" using n(1) by auto
    then show ?thesis by (simp add: span_def)
  qed
  have "points (gap_loop (iv_starts_at target) (iv_ends_at target) ?n) =
      {iv_starts_at target ..< iv_ends_at target} - points ?n \<and>
      (\<forall>g\<in>set (gap_loop (iv_starts_at target) (iv_ends_at target) ?n). proper g \<and> iv_starts_at target \<le> iv_starts_at g)"
    by (rule gap_loop_correct [OF n(2)]) (use inside assms in \<open>auto simp: proper_def\<close>)
  with n show "points (gaps target is) = span target - points is" "\<forall>g\<in>set (gaps target is). proper g"
    by (auto simp: gaps_def span_def)
qed


section \<open>Intersections of coverage\<close>

lemma points_empty_iff: "\<forall>i\<in>set is. proper i \<Longrightarrow> points is = {} \<longleftrightarrow> is = []"
  by (cases "is") (auto simp: span_def proper_def)

lemma points_pairwise: "points (pairwise_intersections ls rs) = points ls \<inter> points rs"
proof (induction ls)
  case (Cons l ls)
  have "points (List.map_filter (intersection l) rs) = span l \<inter> points rs"
  proof (induction rs)
    case (Cons r rs)
    then show ?case
      using intersection_span [of l r] by (cases "intersection l r") (auto simp: map_filter_simps)
  qed (simp add: map_filter_simps)
  with Cons show ?case by (auto simp: pairwise_intersections_def)
qed (simp add: pairwise_intersections_def)

lemma pairwise_proper: "i \<in> set (pairwise_intersections ls rs) \<Longrightarrow> proper i"
  by (auto simp: pairwise_intersections_def map_filter_def intersection_proper)

lemma points_within_hull:
  assumes "is \<noteq> []"
  shows "points is \<subseteq> span \<lparr>iv_starts_at = Min (set (map iv_starts_at is)), iv_ends_at = Max (set (map iv_ends_at is))\<rparr>"
proof
  fix t assume "t \<in> points is"
  then obtain i where i: "i \<in> set is" "iv_starts_at i \<le> t" "t < iv_ends_at i"
    by (auto simp: points_def span_def)
  then have "Min (set (map iv_starts_at is)) \<le> t" "t < Max (set (map iv_ends_at is))"
    using order_trans [OF Min_le [of "set (map iv_starts_at is)" "iv_starts_at i"] i(2)]
      less_le_trans [OF i(3) Max_ge [of "set (map iv_ends_at is)" "iv_ends_at i"]] by simp_all
  then show "t \<in> span \<lparr>iv_starts_at = Min (set (map iv_starts_at is)), iv_ends_at = Max (set (map iv_ends_at is))\<rparr>"
    by (simp add: span_def)
qed

lemma common_from_correct:
  assumes "\<forall>i\<in>set common. proper i"
  shows "points (common_from common sets) = points common \<inter> (\<Inter>c\<in>set sets. points c) \<and>
    (\<forall>i\<in>set (common_from common sets). proper i)"
  using assms
proof (induction sets arbitrary: common)
  case (Cons c sets)
  let ?is = "pairwise_intersections common c"
  show ?case
  proof (cases "?is = []")
    case True
    then have "points common \<inter> points c = {}" using points_pairwise [of common c] by simp
    with True show ?thesis by auto
  next
    case False
    let ?hull = "\<lparr>iv_starts_at = Min (set (map iv_starts_at ?is)), iv_ends_at = Max (set (map iv_ends_at ?is))\<rparr>"
    have n: "points (normalize_intervals ?is ?hull) = points common \<inter> points c"
      "canonical (normalize_intervals ?is ?hull)"
      using normalize_correct [of ?is ?hull] points_within_hull [OF False] points_pairwise [of common c] by auto
    show ?thesis
      using Cons.IH [of "normalize_intervals ?is ?hull"] n False by (auto simp: canonical_def Let_def)
  qed
qed simp

lemma common_intervals_correct:
  assumes "sets \<noteq> []" "\<forall>c\<in>set sets. \<forall>i\<in>set c. proper i"
  shows "points (common_intervals sets) = (\<Inter>c\<in>set sets. points c)"
    "common_intervals sets = [] \<longleftrightarrow> (\<Inter>c\<in>set sets. points c) = {}"
proof -
  obtain f r where s: "sets = f # r" using assms(1) by (cases sets) auto
  have c: "points (common_intervals sets) = points f \<inter> (\<Inter>c\<in>set r. points c) \<and>
      (\<forall>i\<in>set (common_intervals sets). proper i)"
    using common_from_correct [of f r] assms(2) by (simp add: s common_intervals_def)
  then show p: "points (common_intervals sets) = (\<Inter>c\<in>set sets. points c)" by (simp add: s)
  show "common_intervals sets = [] \<longleftrightarrow> (\<Inter>c\<in>set sets. points c) = {}"
    using points_empty_iff [of "common_intervals sets"] c p by simp
qed

section \<open>Uniqueness of the canonical form\<close>

lemma canonical_Cons:
  "canonical (i # is) \<longleftrightarrow> proper i \<and> (\<forall>j\<in>set is. iv_ends_at i < iv_starts_at j) \<and> canonical is"
  by (auto simp: canonical_def)

lemma canonical_tail:
  assumes "canonical (i # is)" shows "points is = points (i # is) - span i"
proof -
  have "t \<notin> span i" if "t \<in> points is" for t
    using that assms by (auto simp: canonical_Cons points_def span_def)
  then show ?thesis by auto
qed

lemma canonical_first_start:
  assumes "canonical (i # is)" shows "Min (points (i # is)) = iv_starts_at i"
    "finite (points (i # is))" "iv_starts_at i \<in> points (i # is)"
proof -
  show f: "finite (points (i # is))" by (auto simp: points_def span_def)
  show m: "iv_starts_at i \<in> points (i # is)" using assms by (simp add: canonical_Cons span_def proper_def)
  show "Min (points (i # is)) = iv_starts_at i"
    by (rule Min_eqI [OF f _ m]) (use assms in \<open>force simp: canonical_Cons points_def span_def proper_def\<close>)
qed

lemma canonical_first_end:
  assumes "canonical (i # is)" "canonical (j # js)" "points (i # is) = points (j # js)"
    "iv_starts_at i = iv_starts_at j"
  shows "iv_ends_at i \<le> iv_ends_at j"
proof (rule ccontr)
  assume "\<not> iv_ends_at i \<le> iv_ends_at j"
  then have "iv_ends_at j \<in> points (i # is)"
    using assms(2,4) by (auto simp: span_def canonical_Cons proper_def)
  then have "iv_ends_at j \<in> points (j # js)" by (simp only: assms(3))
  then show False using assms(2) by (auto simp: canonical_Cons points_def span_def)
qed

lemma canonical_unique: "canonical is \<Longrightarrow> canonical js \<Longrightarrow> points is = points js \<Longrightarrow> is = js"
proof (induction "is" arbitrary: js)
  case Nil
  then show ?case using points_empty_iff [of js] by (simp add: canonical_def)
next
  case (Cons i "is")
  obtain j js' where js: "js = j # js'"
    using Cons.prems points_empty_iff [of "i # is"] by (cases js) (auto simp: canonical_def)
  have start: "iv_starts_at i = iv_starts_at j"
    using canonical_first_start(1) [of i "is"] canonical_first_start(1) [of j js'] Cons.prems js by simp
  have "iv_ends_at i = iv_ends_at j"
    using canonical_first_end [of i "is" j js'] canonical_first_end [of j js' i "is"] Cons.prems js start by simp
  with start have ij: "i = j" by simp
  have "points is = points (i # is) - span i" "points js' = points (j # js') - span j"
    using canonical_tail [of i "is"] canonical_tail [of j js'] Cons.prems js by simp_all
  then have "points is = points js'" using Cons.prems(3) js ij by simp
  then show ?case using Cons.IH [of js'] Cons.prems js ij by (simp add: canonical_Cons)
qed

section \<open>What the assessment means\<close>

text \<open>
  The contract of the assessor, in terms of instants: an observation serves a requirement
  when it is the series asked for, verified, listed in time and without a hole in the
  warm-up; the strategy can be replayed when every requirement is served and some instant of
  all the evaluation windows is covered by all series.
\<close>

definition valid_requirement :: "requirement \<Rightarrow> bool" where
  "valid_requirement r \<longleftrightarrow>
     rq_warmup_from r \<le> rq_evaluation_from r \<and> rq_evaluation_from r < rq_evaluation_through r"

definition serves :: "observation \<Rightarrow> requirement \<Rightarrow> bool" where
  "serves ob r \<longleftrightarrow> ob_requirement_id ob = rq_requirement_id r \<and> identity_matches r ob \<and> ob_verified ob \<and>
     (case ob_listed_at ob of None \<Rightarrow> True | Some t \<Rightarrow> t \<le> rq_evaluation_from r) \<and>
     {rq_warmup_from r ..< rq_evaluation_from r} \<subseteq> points (ob_available_intervals ob)"

definition replayable_at :: "observation list \<Rightarrow> requirement \<Rightarrow> instant \<Rightarrow> bool" where
  "replayable_at obs r t \<longleftrightarrow> iv_contains (evaluation_interval r) t \<and>
     (\<exists>ob\<in>set obs. ob_requirement_id ob = rq_requirement_id r \<and>
        (\<exists>i\<in>set (ob_available_intervals ob). iv_contains i t))"

lemma data_requirement_new_valid: "data_requirement_new r = Inr r' \<Longrightarrow> valid_requirement r'"
  by (auto simp: data_requirement_new_def err_simps valid_requirement_def)

lemma requirement_intervals:
  assumes "valid_requirement r"
  shows "proper (evaluation_interval r)" "span (evaluation_interval r) \<subseteq> span (required_interval r)"
    "\<And>w. warmup_interval r = Some w \<Longrightarrow>
      proper w \<and> span w = {rq_warmup_from r ..< rq_evaluation_from r} \<and> span w \<subseteq> span (required_interval r)"
    "warmup_interval r = None \<Longrightarrow> {rq_warmup_from r ..< rq_evaluation_from r} = {}"
  using assms
  by (auto simp: valid_requirement_def proper_def evaluation_interval_def required_interval_def span_def
      warmup_interval_def split: if_splits)

lemma gaps_empty_iff: "proper w \<Longrightarrow> gaps w is = [] \<longleftrightarrow> span w \<subseteq> points is"
  using gaps_correct [of w "is"] points_empty_iff [of "gaps w is"] by auto

definition coverage_of :: "requirement \<Rightarrow> observation \<Rightarrow> instant set" where
  "coverage_of r ob = points (ob_available_intervals ob) \<inter> span (evaluation_interval r)"

lemma assess_one_ok:
  assumes "valid_requirement r" "map_of by_id (rq_requirement_id r) = Some ob"
    "ob_requirement_id ob = rq_requirement_id r"
  shows "(\<exists>x. assess_one by_id r = Inr x) \<longleftrightarrow> serves ob r \<and> coverage_of r ob \<noteq> {}"
proof -
  let ?n = "normalize_intervals (ob_available_intervals ob) (required_interval r)"
  let ?ev = "normalize_intervals ?n (evaluation_interval r)"
  let ?wg = "case warmup_interval r of None \<Rightarrow> [] | Some w \<Rightarrow> gaps w ?n"
  note iv = requirement_intervals [OF assms(1)]
  have n: "points ?n = points (ob_available_intervals ob) \<inter> span (required_interval r)" "canonical ?n"
    and e: "points ?ev = coverage_of r ob" "canonical ?ev"
    using normalize_correct iv(2) by (auto simp: coverage_of_def)
  have "?ev = [] \<longleftrightarrow> coverage_of r ob = {}"
    using points_empty_iff [of ?ev] e by (simp add: canonical_def)
  moreover have "?ev \<noteq> [] \<Longrightarrow> ?n \<noteq> []" by (auto simp: normalize_intervals_def map_filter_simps)
  moreover have "?wg = [] \<longleftrightarrow> {rq_warmup_from r ..< rq_evaluation_from r} \<subseteq> points (ob_available_intervals ob)"
  proof (cases "warmup_interval r")
    case None
    with iv(4) show ?thesis by simp
  next
    case (Some w)
    with iv(3) [OF Some] gaps_empty_iff [of w ?n] n(1) show ?thesis by auto
  qed
  ultimately show ?thesis
    using assms(2,3) by (auto simp: assess_one_def serves_def Let_def split: option.splits)
qed

lemma assess_one_result:
  assumes "valid_requirement r" "map_of by_id (rq_requirement_id r) = Some ob"
    "assess_one by_id r = Inr (ev, skips)"
  shows "points ev = coverage_of r ob" "\<forall>i\<in>set ev. proper i"
    "skips = map (skip_of (rq_requirement_id r)) (gaps (evaluation_interval r) ev)"
    "points (gaps (evaluation_interval r) ev) = span (evaluation_interval r) - points (ob_available_intervals ob)"
proof -
  let ?n = "normalize_intervals (ob_available_intervals ob) (required_interval r)"
  note iv = requirement_intervals [OF assms(1)]
  have ev: "ev = normalize_intervals ?n (evaluation_interval r)"
    and sk: "skips = map (skip_of (rq_requirement_id r)) (gaps (evaluation_interval r) ev)"
    using assms(2,3) by (auto simp: assess_one_def Let_def split: option.splits if_splits)
  show p: "points ev = coverage_of r ob" "\<forall>i\<in>set ev. proper i"
    using normalize_correct [of "ob_available_intervals ob" "required_interval r"]
      normalize_correct [of ?n "evaluation_interval r"] iv(2)
    by (auto simp: coverage_of_def ev canonical_def)
  show "skips = map (skip_of (rq_requirement_id r)) (gaps (evaluation_interval r) ev)" by (rule sk)
  show "points (gaps (evaluation_interval r) ev) = span (evaluation_interval r) - points (ob_available_intervals ob)"
    using gaps_correct(1) [OF iv(1), of ev] p(1) by (auto simp: coverage_of_def)
qed

lemma assess_loop_facts:
  "assess_loop by_id rs = (missing, skipped, coverage) \<Longrightarrow>
     (missing = [] \<longleftrightarrow> (\<forall>r\<in>set rs. \<exists>x. assess_one by_id r = Inr x)) \<and>
     set skipped = (\<Union>r\<in>set rs. case assess_one by_id r of Inl _ \<Rightarrow> {} | Inr x \<Rightarrow> set (snd x)) \<and>
     set coverage = (\<Union>r\<in>set rs. case assess_one by_id r of Inl _ \<Rightarrow> {} | Inr x \<Rightarrow> {fst x}) \<and>
     (missing = [] \<longrightarrow> length coverage = length rs)"
proof (induction rs arbitrary: missing skipped coverage)
  case (Cons r rs)
  obtain m s c where l: "assess_loop by_id rs = (m, s, c)" by (cases "assess_loop by_id rs")
  show ?case
    using Cons.prems Cons.IH [OF l] by (cases "assess_one by_id r") (auto simp: l split: prod.splits)
qed simp

lemma by_id_lookup:
  assumes "distinct (map ob_requirement_id obs)"
  shows "map_of (map (\<lambda>ob. (ob_requirement_id ob, ob)) obs) k = Some ob \<longleftrightarrow>
    ob \<in> set obs \<and> ob_requirement_id ob = k"
  using assms by (induction obs) (auto simp: image_iff)

lemma sort_key_empty_iff: "sort_key f xs = [] \<longleftrightarrow> xs = []"
  using length_sort [of f xs] by (metis length_0_conv)

lemma assess_shape:
  assumes "assess rs obs = Inr a"
  obtains missing skipped coverage where
    "rs \<noteq> []" "distinct (map ob_requirement_id obs)"
    "assess_loop (map (\<lambda>ob. (ob_requirement_id ob, ob)) obs) (sort_key rq_requirement_id rs) =
       (missing, skipped, coverage)"
    "as_status a = UNAVAILABLE \<longleftrightarrow> missing \<noteq> [] \<or> common_intervals coverage = []"
    "as_status a \<noteq> UNAVAILABLE \<longrightarrow> set (as_skip_intervals a) = set skipped"
proof (cases "assess_loop (map (\<lambda>ob. (ob_requirement_id ob, ob)) obs) (sort_key rq_requirement_id rs)")
  case (fields missing skipped coverage)
  then show ?thesis
    using assms sort_key_empty_iff [of skip_key skipped] by (intro that [of missing skipped coverage])
      (auto simp: assess_def err_simps Let_def split: if_splits)
qed

lemma replayable_at_coverage:
  assumes "distinct (map ob_requirement_id obs)" "ob \<in> set obs" "ob_requirement_id ob = rq_requirement_id r"
  shows "replayable_at obs r t \<longleftrightarrow> t \<in> coverage_of r ob"
proof -
  have "ob' = ob" if "ob' \<in> set obs" "ob_requirement_id ob' = rq_requirement_id r" for ob'
    using that assms(2,3) by_id_lookup [OF assms(1), of "rq_requirement_id r" ob]
      by_id_lookup [OF assms(1), of "rq_requirement_id r" ob'] by simp
  then have "(\<exists>ob'\<in>set obs. ob_requirement_id ob' = rq_requirement_id r \<and> t \<in> points (ob_available_intervals ob'))
      \<longleftrightarrow> t \<in> points (ob_available_intervals ob)"
    using assms(2,3) by blast
  then show ?thesis
    by (auto simp only: replayable_at_def coverage_of_def points_mem Int_iff span_contains)
qed

text \<open>Every requirement is served exactly when no round of the loop reports it missing.\<close>

lemma assess_rounds:
  assumes "distinct (map ob_requirement_id obs)" "valid_requirement r"
  shows "(\<exists>x. assess_one (map (\<lambda>ob. (ob_requirement_id ob, ob)) obs) r = Inr x) \<longleftrightarrow>
    (\<exists>ob\<in>set obs. serves ob r \<and> coverage_of r ob \<noteq> {})"
proof (cases "map_of (map (\<lambda>ob. (ob_requirement_id ob, ob)) obs) (rq_requirement_id r)")
  case None
  then have "ob_requirement_id ob \<noteq> rq_requirement_id r" if "ob \<in> set obs" for ob
    using by_id_lookup [OF assms(1), of "rq_requirement_id r" ob] that by auto
  with None show ?thesis by (auto simp: assess_one_def serves_def)
next
  case (Some ob)
  then have ob: "ob \<in> set obs" "ob_requirement_id ob = rq_requirement_id r"
    using by_id_lookup [OF assms(1)] by auto
  have "ob' = ob" if "ob' \<in> set obs" "serves ob' r" for ob'
    using that Some by_id_lookup [OF assms(1), of "rq_requirement_id r" ob'] by (simp add: serves_def)
  then show ?thesis using assess_one_ok [OF assms(2) Some ob(2)] ob(1) by blast
qed

lemma assess_coverage:
  assumes "distinct (map ob_requirement_id obs)" "valid_requirement r"
    "assess_one (map (\<lambda>ob. (ob_requirement_id ob, ob)) obs) r = Inr (ev, skips)"
  shows "points ev = {t. replayable_at obs r t}" "\<forall>i\<in>set ev. proper i"
    "\<forall>s\<in>set skips. sk_stages s = ALL_SKIP_STAGES"
    "(\<exists>s\<in>set skips. iv_contains (sk_interval s) t) \<longleftrightarrow>
       iv_contains (evaluation_interval r) t \<and> \<not> replayable_at obs r t"
proof -
  obtain ob where m: "map_of (map (\<lambda>ob. (ob_requirement_id ob, ob)) obs) (rq_requirement_id r) = Some ob"
    using assms(3) by (auto simp: assess_one_def split: option.splits)
  then have ob: "ob \<in> set obs" "ob_requirement_id ob = rq_requirement_id r"
    using by_id_lookup [OF assms(1)] by auto
  note r = assess_one_result [OF assms(2) m assms(3)] and c = replayable_at_coverage [OF assms(1) ob]
  show "points ev = {t. replayable_at obs r t}" using r(1) c by auto
  show "\<forall>i\<in>set ev. proper i" by (rule r(2))
  show "\<forall>s\<in>set skips. sk_stages s = ALL_SKIP_STAGES" using r(3) by (auto simp: skip_of_def)
  have "(\<exists>s\<in>set skips. iv_contains (sk_interval s) t) \<longleftrightarrow> t \<in> points (gaps (evaluation_interval r) ev)"
    using r(3) by (auto simp: skip_of_def points_mem)
  then show "(\<exists>s\<in>set skips. iv_contains (sk_interval s) t) \<longleftrightarrow>
      iv_contains (evaluation_interval r) t \<and> \<not> replayable_at obs r t"
    using r(4) c by (auto simp: coverage_of_def span_contains)
qed

lemma common_coverage:
  assumes "distinct (map ob_requirement_id obs)" "\<forall>r\<in>set rs. valid_requirement r" "rs \<noteq> []"
    and loop: "assess_loop (map (\<lambda>ob. (ob_requirement_id ob, ob)) obs) rs = ([], skipped, coverage)"
  shows "common_intervals coverage = [] \<longleftrightarrow> \<not> (\<exists>t. \<forall>r\<in>set rs. replayable_at obs r t)"
proof -
  let ?d = "map (\<lambda>ob. (ob_requirement_id ob, ob)) obs"
  note facts = assess_loop_facts [OF loop]
  have cov: "\<exists>ev skips. assess_one ?d r = Inr (ev, skips)" if "r \<in> set rs" for r
    using facts that by auto
  have c1: "points ev = {t. replayable_at obs r t} \<and> (\<forall>i\<in>set ev. proper i)"
    if "r \<in> set rs" "assess_one ?d r = Inr (ev, skips)" for r ev skips
    using assess_coverage(1,2) [OF assms(1) _ that(2)] assms(2) that(1) by simp
  have set_c: "set coverage = (\<Union>r\<in>set rs. case assess_one ?d r of Inl _ \<Rightarrow> {} | Inr x \<Rightarrow> {fst x})"
    using facts by simp
  have mem: "ev \<in> set coverage \<longleftrightarrow> (\<exists>r\<in>set rs. \<exists>skips. assess_one ?d r = Inr (ev, skips))" for ev
  proof -
    have "ev \<in> (case m of Inl _ \<Rightarrow> {} | Inr x \<Rightarrow> {fst x}) \<longleftrightarrow> (\<exists>skips. m = Inr (ev, skips))"
      for m :: "missing_requirement + time_interval list \<times> skip_interval list"
      by (cases m) auto
    then show ?thesis unfolding set_c by simp
  qed
  have "coverage \<noteq> []" using facts assms(3) by auto
  moreover have "\<forall>c\<in>set coverage. \<forall>i\<in>set c. proper i"
    using c1 mem by blast
  ultimately have "common_intervals coverage = [] \<longleftrightarrow> (\<Inter>c\<in>set coverage. points c) = {}"
    by (rule common_intervals_correct(2))
  moreover have "(\<Inter>c\<in>set coverage. points c) = {t. \<forall>r\<in>set rs. replayable_at obs r t}"
  proof (intro set_eqI)
    fix t
    have "t \<in> (\<Inter>c\<in>set coverage. points c) \<longleftrightarrow> (\<forall>r\<in>set rs. \<forall>ev skips. assess_one ?d r = Inr (ev, skips) \<longrightarrow> t \<in> points ev)"
      using mem by blast
    also have "\<dots> \<longleftrightarrow> (\<forall>r\<in>set rs. replayable_at obs r t)" using c1 cov by blast
    finally show "t \<in> (\<Inter>c\<in>set coverage. points c) \<longleftrightarrow> t \<in> {t. \<forall>r\<in>set rs. replayable_at obs r t}" by simp
  qed
  ultimately show ?thesis by auto
qed

section \<open>Properties\<close>

text \<open>
  C25. Normalisation is a canonical form. The list returned denotes exactly the instants of
  the input inside the clip, its intervals are non-empty, ordered and separated by gaps, and
  it is the only such list: two coverages with the same instants inside the clip normalise to
  the same list, whatever the order and overlap they were supplied in.
\<close>

theorem normalize_is_canonical_form:
  "points (normalize_intervals is clip) = points is \<inter> span clip \<and>
   canonical (normalize_intervals is clip) \<and>
   (normalize_intervals is clip = normalize_intervals js clip \<longleftrightarrow>
      points is \<inter> span clip = points js \<inter> span clip)"
proof -
  have "normalize_intervals is clip = normalize_intervals js clip"
    if "points is \<inter> span clip = points js \<inter> span clip"
    using normalize_correct [of "is" clip] normalize_correct [of js clip] that
    by (intro canonical_unique) simp_all
  then show ?thesis using normalize_correct [of "is" clip] normalize_correct [of js clip] by metis
qed

text \<open>
  C23. The assessor refuses a strategy exactly when it must. With requirements that passed
  their constructor, the status is UNAVAILABLE unless every requirement is served by an
  observation of the right series, verified, listed in time, with a complete warm-up, and
  there is an instant at which all requirements are replayable.
\<close>

theorem assess_available_iff_replayable:
  assumes valid: "\<forall>r\<in>set rs. valid_requirement r" and a: "assess rs obs = Inr a"
  shows "as_status a \<noteq> UNAVAILABLE \<longleftrightarrow>
    (\<forall>r\<in>set rs. \<exists>ob\<in>set obs. serves ob r) \<and> (\<exists>t. \<forall>r\<in>set rs. replayable_at obs r t)"
proof -
  let ?d = "map (\<lambda>ob. (ob_requirement_id ob, ob)) obs"
  obtain missing skipped coverage where s: "rs \<noteq> []" "distinct (map ob_requirement_id obs)"
    "assess_loop ?d (sort_key rq_requirement_id rs) = (missing, skipped, coverage)"
    "as_status a = UNAVAILABLE \<longleftrightarrow> missing \<noteq> [] \<or> common_intervals coverage = []"
    by (rule assess_shape [OF a])
  note loop = assess_loop_facts [OF s(3), unfolded set_sort length_sort]
  have m: "missing = [] \<longleftrightarrow> (\<forall>r\<in>set rs. \<exists>ob\<in>set obs. serves ob r \<and> coverage_of r ob \<noteq> {})"
    using loop assess_rounds [OF s(2)] valid by simp
  have ne: "\<exists>ob\<in>set obs. serves ob r \<and> coverage_of r ob \<noteq> {}"
    if sv: "\<exists>ob\<in>set obs. serves ob r" and at: "replayable_at obs r t" for r t
  proof -
    obtain ob where ob: "ob \<in> set obs" "serves ob r" using sv by blast
    then have "t \<in> coverage_of r ob"
      using replayable_at_coverage [OF s(2), of ob r t] at by (simp add: serves_def)
    with ob show ?thesis by blast
  qed
  have c: "common_intervals coverage = [] \<longleftrightarrow> \<not> (\<exists>t. \<forall>r\<in>set rs. replayable_at obs r t)" if ok: "missing = []"
    using common_coverage [OF s(2) _ _ s(3) [unfolded ok]] valid s(1) sort_key_empty_iff [of rq_requirement_id rs] by simp
  show ?thesis
  proof (cases "missing = []")
    case True
    with m have "\<forall>r\<in>set rs. \<exists>ob\<in>set obs. serves ob r" by blast
    with True s(4) c show ?thesis by simp
  next
    case False
    then have "\<not> ((\<forall>r\<in>set rs. \<exists>ob\<in>set obs. serves ob r) \<and> (\<exists>t. \<forall>r\<in>set rs. replayable_at obs r t))"
      using m ne by blast
    with False s(4) show ?thesis by simp
  qed
qed

text \<open>
  C24. Degraded replay skips exactly the uncovered instants. When the strategy is not
  refused, each stage is allowed at an instant exactly if every requirement whose evaluation
  window contains the instant has data there: no stage runs on missing data, and none is
  skipped where the data is complete.
\<close>

theorem stage_allowed_iff_data_complete:
  assumes valid: "\<forall>r\<in>set rs. valid_requirement r" and a: "assess rs obs = Inr a"
    and ok: "as_status a \<noteq> UNAVAILABLE"
  shows "is_stage_allowed a stage (Aware t) =
    Inr (\<forall>r\<in>set rs. iv_contains (evaluation_interval r) t \<longrightarrow> replayable_at obs r t)"
proof -
  let ?d = "map (\<lambda>ob. (ob_requirement_id ob, ob)) obs"
  obtain missing skipped coverage where s: "rs \<noteq> []" "distinct (map ob_requirement_id obs)"
    "assess_loop ?d (sort_key rq_requirement_id rs) = (missing, skipped, coverage)"
    "as_status a = UNAVAILABLE \<longleftrightarrow> missing \<noteq> [] \<or> common_intervals coverage = []"
    "as_status a \<noteq> UNAVAILABLE \<longrightarrow> set (as_skip_intervals a) = set skipped"
    by (rule assess_shape [OF a])
  note loop = assess_loop_facts [OF s(3), unfolded set_sort length_sort]
  have rounds: "\<exists>ev skips. assess_one ?d r = Inr (ev, skips)" if "r \<in> set rs" for r
    using loop s(4) ok that by auto
  have skips: "set (as_skip_intervals a) = (\<Union>r\<in>set rs. case assess_one ?d r of Inl _ \<Rightarrow> {} | Inr x \<Rightarrow> set (snd x))"
    using s(5) ok loop by simp
  have all: "stage \<in> set ALL_SKIP_STAGES" by (cases stage) (simp_all add: ALL_SKIP_STAGES_def)
  have "(\<exists>sk\<in>set (as_skip_intervals a). stage \<in> set (sk_stages sk) \<and> iv_contains (sk_interval sk) t) \<longleftrightarrow>
      (\<exists>r\<in>set rs. iv_contains (evaluation_interval r) t \<and> \<not> replayable_at obs r t)"
  proof -
    have "(\<exists>sk\<in>(case assess_one ?d r of Inl _ \<Rightarrow> {} | Inr x \<Rightarrow> set (snd x)).
          stage \<in> set (sk_stages sk) \<and> iv_contains (sk_interval sk) t) \<longleftrightarrow>
        iv_contains (evaluation_interval r) t \<and> \<not> replayable_at obs r t" if r: "r \<in> set rs" for r
    proof -
      obtain ev sks where x: "assess_one ?d r = Inr (ev, sks)" using rounds [OF r] by blast
      show ?thesis
        using assess_coverage(3) [OF s(2) _ x] assess_coverage(4) [OF s(2) _ x, of t] valid r all by (auto simp: x)
    qed
    then show ?thesis unfolding skips by blast
  qed
  then show ?thesis using ok by (auto simp: is_stage_allowed_def av_utc_def)
qed

section \<open>An example\<close>

text \<open>
  Two series, one with a hole in its evaluation window: the strategy is degraded and the hole
  is skipped.
\<close>

definition demo_requirement :: "string \<Rightarrow> requirement" where
  "demo_requirement k = \<lparr>rq_requirement_id = k, rq_instrument_id = uuid_text 7, rq_data_kind = ''bars'',
     rq_resolution = ''1d'', rq_warmup_from = 0, rq_evaluation_from = 10, rq_evaluation_through = 30\<rparr>"

definition demo_observation :: "string \<Rightarrow> (instant \<times> instant) list \<Rightarrow> observation" where
  "demo_observation k ivs = \<lparr>ob_requirement_id = k, ob_instrument_id = uuid_text 7, ob_data_kind = ''bars'',
     ob_resolution = ''1d'', ob_available_intervals = map (\<lambda>(s, e). \<lparr>iv_starts_at = s, iv_ends_at = e\<rparr>) ivs,
     ob_verified = True, ob_listed_at = None\<rparr>"

definition demo_requirements :: "requirement list" where
  "demo_requirements = [demo_requirement ''b'', demo_requirement ''a'']"

definition demo_observations :: "observation list" where
  "demo_observations = [demo_observation ''a'' [(12, 40), (0, 12)], demo_observation ''b'' [(20, 35), (0, 15)]]"

definition demo_assessment :: availability_assessment where
  "demo_assessment = \<lparr>as_status = DEGRADED,
     as_skip_intervals = [skip_of ''b'' \<lparr>iv_starts_at = 15, iv_ends_at = 20\<rparr>], as_missing_requirements = []\<rparr>"

lemma demo_assess: "assess demo_requirements demo_observations = Inr demo_assessment"
  by (simp add: assess_def demo_requirements_def demo_observations_def demo_requirement_def
      demo_observation_def demo_assessment_def assess_one_def identity_matches_def
      normalize_intervals_def required_interval_def evaluation_interval_def warmup_interval_def
      map_filter_simps intersection_def iv_key_def gaps_def common_intervals_def
      pairwise_intersections_def skip_key_def)

theorem assess_available_iff_replayable_witness:
  "as_status demo_assessment \<noteq> UNAVAILABLE \<and>
   replayable_at demo_observations (demo_requirement ''b'') 12 \<and>
   serves (demo_observation ''a'' [(12, 40), (0, 12)]) (demo_requirement ''a'')"
proof -
  have v: "\<forall>r\<in>set demo_requirements. valid_requirement r"
    by (simp add: demo_requirements_def demo_requirement_def valid_requirement_def)
  have s: "as_status demo_assessment \<noteq> UNAVAILABLE" by (simp add: demo_assessment_def)
  have "(\<forall>r\<in>set demo_requirements. \<exists>ob\<in>set demo_observations. serves ob r)"
    using assess_available_iff_replayable [OF v demo_assess] s by blast
  then have "serves (demo_observation ''a'' [(12, 40), (0, 12)]) (demo_requirement ''a'')"
    by (auto simp: demo_requirements_def demo_observations_def serves_def demo_requirement_def demo_observation_def)
  with s show ?thesis
    by (simp add: replayable_at_def demo_observations_def demo_requirement_def demo_observation_def
        evaluation_interval_def iv_contains_def)
qed

theorem stage_allowed_iff_data_complete_witness:
  "is_stage_allowed demo_assessment FILL (Aware 17) = Inr False \<and>
   is_stage_allowed demo_assessment FILL (Aware 12) = Inr True"
proof -
  have v: "\<forall>r\<in>set demo_requirements. valid_requirement r"
    by (simp add: demo_requirements_def demo_requirement_def valid_requirement_def)
  have s: "as_status demo_assessment \<noteq> UNAVAILABLE" by (simp add: demo_assessment_def)
  show ?thesis
    using stage_allowed_iff_data_complete [OF v demo_assess s, of FILL 17]
      stage_allowed_iff_data_complete [OF v demo_assess s, of FILL 12]
    by (simp add: demo_requirements_def demo_observations_def replayable_at_def demo_requirement_def
        demo_observation_def evaluation_interval_def iv_contains_def)
qed

end
