(* ===== verification/Basic_Runtime.thy ===== *)
theory Basic_Runtime
  imports Order_Candidate Data_Availability Event_Clock
begin

text \<open>
  \<open>basic_runtime.py\<close>, first part: the loaded plan, \<open>BasicPlanRuntime.load\<close> from a document that
  passed the wire contract (\<open>contracts.validate_basic_compiled_plan\<close>, a JSON-schema validation, is
  what produces the document), the evaluation of a plan for every instrument of every flow, the
  emission of order candidates and the data requirements of a plan. The observer \<open>on_step\<close> is a
  parameter: it answers \<open>None\<close>, or the exception it raises.
\<close>

section \<open>Constants and failures\<close>

definition CONTRACT_VERSION :: string where
  "CONTRACT_VERSION = ''strategy-bot.v1''"

definition PLAN_SCHEMA_VERSION :: string where
  "PLAN_SCHEMA_VERSION = ''basic-compiled-plan.v1''"

definition MULTI_CONTAINER_PLAN_SCHEMA_VERSION :: string where
  "MULTI_CONTAINER_PLAN_SCHEMA_VERSION = ''basic-compiled-plan.v2''"

definition COMPILER_VERSION :: string where
  "COMPILER_VERSION = ''basic-compiler:1.0.0''"

definition RUNTIME_SCHEMA_VERSION :: string where
  "RUNTIME_SCHEMA_VERSION = ''strategy-bot-runtime.v1''"

definition INSTRUMENT_CATALOG_VERSIONS :: "string list" where
  "INSTRUMENT_CATALOG_VERSIONS = [''us-supported-universe:2026-07-31'']"

definition BAR_CLOSED_EVENT_TYPE :: string where
  "BAR_CLOSED_EVENT_TYPE = ''BAR_CLOSED''"

definition MISSING_INPUT_STEP_ID :: string where
  "MISSING_INPUT_STEP_ID = ''$input''"

definition DATASET_RESOLUTION :: string where
  "DATASET_RESOLUTION = ''$DATASET''"

definition LIVE_SERIES_BARS :: int where
  "LIVE_SERIES_BARS = 180"

datatype decision_status = CANDIDATE | CONDITION_NOT_MET | CONDITION_ERROR | INPUT_MISSING

datatype runtime_error =
    PlanRejected plan_load_failure string
  | RuntimeElementError element_error
  | RuntimeMoneyError money_error
  | RuntimeAvailabilityError availability_error
  | RuntimeClockError clock_error
  | RuntimeValueError string
  | ReplayUnavailableError string "string list"

abbreviation plan_invalid :: "string \<Rightarrow> runtime_error" where
  "plan_invalid \<equiv> PlanRejected PLAN_CONTRACT_INVALID"

abbreviation plan_structure :: "string \<Rightarrow> runtime_error" where
  "plan_structure \<equiv> PlanRejected PLAN_STRUCTURE_INVALID"

text \<open>\<open>except ElementCompatibilityError as failure: raise _reject(failure.failure, failure.detail)\<close>.\<close>

fun relabel :: "element_error \<Rightarrow> runtime_error" where
  "relabel (ElementCompatibility f d) = PlanRejected f d"
| "relabel e = RuntimeElementError e"

section \<open>The loaded plan\<close>

record required_feature =
  rf_requirement_id :: string
  rf_feature_id :: string
  rf_feature_version :: string
  rf_instruments :: "string list"
  rf_resolution :: string
  rf_required_observations :: int
  rf_feature_key :: string
  rf_definition_version :: string
  rf_bar_resolution :: string
  rf_data_kind :: string
  rf_definition_bars :: nat

definition warmup_bars :: "required_feature \<Rightarrow> int" where
  "warmup_bars f = max (rf_required_observations f) (int (rf_definition_bars f))"

definition warmup_span :: "required_feature \<Rightarrow> element_error + duration" where
  "warmup_span f = ebind (element_period (rf_bar_resolution f)) (\<lambda>p. Inr (p * warmup_bars f))"

definition series_key :: "required_feature \<Rightarrow> string \<times> string" where
  "series_key f = (rf_data_kind f, rf_bar_resolution f)"

record plan_flow =
  pfl_partition_key :: string
  pfl_flow_id :: string
  pfl_budget_cap_bps :: int
  pfl_side :: string
  pfl_instrument_ids :: "string list"
  pfl_condition_steps :: "plan_step list"
  pfl_terminal_step :: "plan_step option"
  pfl_allocation :: string
  pfl_reference_series :: "string \<times> string"

record compiled_plan =
  cp_contract_version :: string
  cp_schema_version :: string
  cp_compiler_version :: string
  cp_element_catalog_version :: string
  cp_instrument_catalog_version :: string
  cp_required_feature_set_hash :: string
  cp_plan_checksum :: string
  cp_snapshot_schema_version :: string
  cp_snapshot_hash :: string
  cp_semantic_hash :: string
  cp_mode :: string
  cp_currency :: string
  cp_initial_cash :: decimal
  cp_condition_steps :: "plan_step list"
  cp_terminal_step :: plan_step
  cp_side :: string
  cp_order_type :: string
  cp_allocation :: string
  cp_required_features :: "required_feature list"
  cp_reference_series :: "string \<times> string"
  cp_flows :: "plan_flow list"
  cp_catalog :: element_catalog

text \<open>\<open>sorted(ids, key=uuid.UUID)\<close>: canonical texts of equal length sort like their numbers.\<close>

definition uuid_key :: "string \<Rightarrow> runtime_error + string" where
  "uuid_key v =
     (case uuid_parse v of Some u \<Rightarrow> Inr u | None \<Rightarrow> Inl (RuntimeValueError ''badly formed hexadecimal UUID string''))"

definition sort_uuids :: "string list \<Rightarrow> runtime_error + string list" where
  "sort_uuids ids =
     ebind (emap (\<lambda>i. ebind (uuid_key i) (\<lambda>k. Inr (k, i))) ids) (\<lambda>keyed. Inr (map snd (sort_key fst keyed)))"

definition plan_instrument_ids :: "compiled_plan \<Rightarrow> runtime_error + string list" where
  "plan_instrument_ids p = sort_uuids (remdups (concat (map pfl_instrument_ids (cp_flows p))))"

definition plan_flow_of :: "compiled_plan \<Rightarrow> string \<Rightarrow> runtime_error + plan_flow" where
  "plan_flow_of p flow_id =
     (case find (\<lambda>f. pfl_flow_id f = flow_id) (cp_flows p) of
        Some f \<Rightarrow> Inr f
      | None \<Rightarrow> Inl (RuntimeElementError (PythonError ''KeyError'' flow_id)))"

text \<open>\<open>uuid5\<close> of the fixed namespace is a parameter.\<close>

definition plan_evaluation_id :: "(string \<Rightarrow> string) \<Rightarrow> compiled_plan \<Rightarrow> instant \<Rightarrow> string" where
  "plan_evaluation_id uuid5 p t = uuid5 (cp_plan_checksum p @ ''|'' @ instant_text t)"

record runtime_compatibility =
  rc_plan_schema_versions :: "string list"
  rc_runtime_schema_version :: string
  rc_supported_feature_versions :: "(string \<times> string) list"

definition implemented_compatibility :: runtime_compatibility where
  "implemented_compatibility =
     \<lparr>rc_plan_schema_versions = [PLAN_SCHEMA_VERSION, MULTI_CONTAINER_PLAN_SCHEMA_VERSION],
      rc_runtime_schema_version = RUNTIME_SCHEMA_VERSION,
      rc_supported_feature_versions = supported_feature_versions\<rparr>"

section \<open>Documents\<close>

record feature_entry =
  fe_requirement_id :: string
  fe_feature_id :: string
  fe_feature_version :: string
  fe_instruments :: "string list"
  fe_resolution :: string
  fe_required_observations :: int

record flow_entry =
  fle_key :: string
  fle_official_instrument_ids :: "string list"
  fle_steps :: "plan_step list"

record partition_entry =
  pe_key :: string
  pe_budget_cap_bps :: int
  pe_flows :: "flow_entry list"

record plan_document =
  pd_contract_version :: string
  pd_schema_version :: string
  pd_compiler_version :: string
  pd_element_catalog_version :: string
  pd_instrument_catalog_version :: string
  pd_required_feature_set_hash :: string
  pd_plan_checksum :: string
  pd_required_features :: "feature_entry list"
  pd_steps :: "plan_step list"
  pd_snapshot_schema_version :: string
  pd_snapshot_hash :: string
  pd_semantic_hash :: string
  pd_mode :: string
  pd_currency :: string
  pd_initial_cash_amount :: string
  pd_partitions :: "partition_entry list"

section \<open>Loading\<close>

fun unique_features_check ::
  "string list \<Rightarrow> (string \<times> string \<times> string \<times> string list) list \<Rightarrow> feature_entry list \<Rightarrow> runtime_error + unit" where
  "unique_features_check ids identities [] = Inr ()"
| "unique_features_check ids identities (f # fs) =
     (let identity = (fe_feature_id f, fe_feature_version f, fe_resolution f, sort (fe_instruments f)) in
      if fe_requirement_id f \<in> set ids
      then Inl (plan_invalid (''plan.requiredFeatures requirementId '' @ fe_requirement_id f @ '' is not unique''))
      else if identity \<in> set identities
      then Inl (plan_invalid ''plan.requiredFeatures duplicates an earlier required feature'')
      else unique_features_check (fe_requirement_id f # ids) (identity # identities) fs)"

definition verify_request_checksum :: "plan_document \<Rightarrow> string option \<Rightarrow> runtime_error + unit" where
  "verify_request_checksum d checksum =
     require (case checksum of None \<Rightarrow> True | Some c \<Rightarrow> c = pd_plan_checksum d)
       (PlanRejected PLAN_INTEGRITY_MISMATCH ''the request's compiledPlanChecksum does not identify this plan'')"

definition build_capability :: "plan_document \<Rightarrow> runtime_error + element_catalog" where
  "build_capability d =
     ebind (require (pd_compiler_version d = COMPILER_VERSION)
       (PlanRejected COMPILER_VERSION_MISMATCH (''the plan was compiled by '' @ pd_compiler_version d))) (\<lambda>_.
     ebind (map_err relabel (catalog_of_version (pd_element_catalog_version d))) (\<lambda>c.
     ebind (require (pd_instrument_catalog_version d \<in> set INSTRUMENT_CATALOG_VERSIONS)
       (PlanRejected INSTRUMENT_CATALOG_VERSION_UNSUPPORTED (pd_instrument_catalog_version d))) (\<lambda>_.
     Inr c)))"

text \<open>The operand rule: a step that consumes a value follows one that produces it.\<close>

fun operand_check :: "element_catalog \<Rightarrow> bool \<Rightarrow> plan_step list \<Rightarrow> runtime_error + unit" where
  "operand_check c produced [] = Inr ()"
| "operand_check c produced (s # ss) =
     ebind (map_err RuntimeElementError (spec_of c (ps_operation s))) (\<lambda>spec.
     if es_consumes_value spec \<and> \<not> produced
     then Inl (plan_structure (ps_operation s @ '' has no operand: no preceding step produced a value''))
     else operand_check c (produced \<or> es_produces_value spec) ss)"

definition require_structure ::
  "element_catalog \<Rightarrow> plan_step list \<Rightarrow> runtime_error + plan_step list \<times> plan_step" where
  "require_structure c steps =
     ebind (require (map ps_sequence steps = map int [1..<length steps + 1])
       (plan_structure ''plan steps must carry contiguous sequence numbers starting at 1'')) (\<lambda>_.
     ebind (map_err RuntimeElementError (emap (\<lambda>s. spec_of c (ps_operation s)) steps)) (\<lambda>specs.
     ebind (require (length (filter es_terminal specs) = 1 \<and> es_terminal (last specs))
       (plan_structure ''a compiled plan must end with EMIT_ORDER_CANDIDATE and contain exactly one'')) (\<lambda>_.
     ebind (require (butlast steps \<noteq> [])
       (plan_structure ''a compiled plan must contain at least one condition step before EMIT_ORDER_CANDIDATE'')) (\<lambda>_.
     ebind (operand_check c False (butlast steps)) (\<lambda>_.
     Inr (butlast steps, last steps))))))"

definition load_chain ::
  "element_catalog \<Rightarrow> plan_step list \<Rightarrow> runtime_error + plan_step list \<times> plan_step" where
  "load_chain c raw_steps =
     ebind (map_err RuntimeElementError (emap plan_step_new raw_steps)) (\<lambda>steps.
     ebind (map_err relabel (emap (validate_step c) steps)) (\<lambda>_.
     require_structure c steps))"

definition required_feature_of :: "element_catalog \<Rightarrow> feature_entry \<Rightarrow> runtime_error + required_feature" where
  "required_feature_of c f =
     ebind (map_err relabel (require_canonical_feature c (fe_feature_id f))) (\<lambda>key.
     case feature_definition key of
       None \<Rightarrow> Inl (PlanRejected UNSUPPORTED_FEATURE (''feature '' @ key @ '' is not implemented by this build''))
     | Some def \<Rightarrow>
         ebind (require (fe_feature_version f = semantic_version def)
           (PlanRejected FEATURE_VERSION_MISMATCH (''requiredFeature '' @ fe_requirement_id f @ '' pins another version''))) (\<lambda>_.
         ebind (map_err relabel (iso_bar_resolution (fe_resolution f))) (\<lambda>token.
         ebind (require (case require_canonical_feature_resolution c (fe_feature_id f) of
               None \<Rightarrow> True | Some pinned \<Rightarrow> token = pinned)
           (PlanRejected FEATURE_VERSION_MISMATCH (''requiredFeature '' @ fe_requirement_id f @ '' uses another resolution''))) (\<lambda>_.
         let r = \<lparr>rf_requirement_id = fe_requirement_id f, rf_feature_id = fe_feature_id f,
               rf_feature_version = fe_feature_version f, rf_instruments = fe_instruments f,
               rf_resolution = fe_resolution f, rf_required_observations = fe_required_observations f,
               rf_feature_key = key, rf_definition_version = fd_definition_version def,
               rf_bar_resolution = token, rf_data_kind = fd_data_kind def, rf_definition_bars = required_bars def\<rparr> in
         ebind (require (warmup_bars r \<le> LIVE_SERIES_BARS)
           (plan_invalid (''requiredFeature '' @ fe_requirement_id f @ '' needs more observations than the live series cache supports''))) (\<lambda>_.
         Inr r)))))"

definition declared_feature :: "required_feature list \<Rightarrow> string \<Rightarrow> string \<Rightarrow> required_feature option" where
  "declared_feature features key token =
     find (\<lambda>f. rf_feature_key f = key \<and> rf_bar_resolution f = token) features"

fun declared_arguments ::
  "plan_step \<Rightarrow> required_feature list \<Rightarrow> string list \<Rightarrow> (string \<times> string) option
     \<Rightarrow> runtime_error + (string \<times> string) option" where
  "declared_arguments s features [] reference = Inr reference"
| "declared_arguments s features (name # names) reference =
     (case map_of (ps_arguments s) name of
        None \<Rightarrow> Inl (RuntimeElementError (PythonError ''KeyError'' name))
      | Some key \<Rightarrow>
          ebind (map_err RuntimeElementError (step_argument s ''resolution'')) (\<lambda>token.
          case declared_feature features key token of
            None \<Rightarrow> Inl (plan_structure (ps_operation s @ '' reads '' @ key @ '' at '' @ token @
                '', which plan.requiredFeatures does not declare''))
          | Some f \<Rightarrow> declared_arguments s features names
              (case reference of None \<Rightarrow> Some (series_key f) | Some r \<Rightarrow> Some r)))"

fun declared_steps ::
  "element_catalog \<Rightarrow> required_feature list \<Rightarrow> plan_step list \<Rightarrow> (string \<times> string) option
     \<Rightarrow> runtime_error + (string \<times> string) option" where
  "declared_steps c features [] reference = Inr reference"
| "declared_steps c features (s # ss) reference =
     ebind (map_err RuntimeElementError (spec_of c (ps_operation s))) (\<lambda>spec.
     ebind (declared_arguments s features (es_feature_arguments spec) reference) (\<lambda>reference'.
     ebind (if ps_operation s = ''RSI_CROSS''
            then ebind (map_err RuntimeElementError (step_argument s ''resolution'')) (\<lambda>token.
                 require (declared_feature features ''RSI_14'' token \<noteq> None)
                   (plan_structure (''RSI_CROSS reads RSI_14 at '' @ token @ '', which plan.requiredFeatures does not declare'')))
            else Inr ()) (\<lambda>_.
     declared_steps c features ss reference')))"

definition require_declared_features ::
  "element_catalog \<Rightarrow> required_feature list \<Rightarrow> plan_step list \<Rightarrow> runtime_error + string \<times> string" where
  "require_declared_features c features steps =
     ebind (declared_steps c features steps None) (\<lambda>reference.
     case reference of
       Some r \<Rightarrow> Inr r
     | None \<Rightarrow>
         (case remdups (List.map_filter (\<lambda>s. map_of (ps_arguments s) ''resolution'') steps) of
            [] \<Rightarrow> Inr (''ADJUSTED_BAR'', DATASET_RESOLUTION)
          | [res] \<Rightarrow> Inr (''ADJUSTED_BAR'', res)
          | _ \<Rightarrow> Inl (plan_structure ''a raw-market Basic container must declare exactly one resolution'')))"

definition require_compatibility ::
  "runtime_compatibility \<Rightarrow> plan_document \<Rightarrow> required_feature list \<Rightarrow> string option \<Rightarrow> runtime_error + unit" where
  "require_compatibility rc d features runtime_version =
     ebind (require (pd_schema_version d \<in> set (rc_plan_schema_versions rc))
       (PlanRejected PLAN_SCHEMA_VERSION_MISMATCH (pd_schema_version d))) (\<lambda>_.
     ebind (efold (\<lambda>f _. require (map_of (rc_supported_feature_versions rc) (rf_feature_key f) = Some (rf_definition_version f))
       (PlanRejected FEATURE_VERSION_MISMATCH (rf_feature_key f @ ''@'' @ rf_definition_version f))) features ()) (\<lambda>_.
     require ((case runtime_version of None \<Rightarrow> RUNTIME_SCHEMA_VERSION | Some v \<Rightarrow> v) = rc_runtime_schema_version rc)
       (PlanRejected RUNTIME_SCHEMA_VERSION_MISMATCH (rc_runtime_schema_version rc))))"

type_synonym chain = "(plan_step list \<times> plan_step) \<times> (string \<times> string)"

definition load_flow ::
  "partition_entry \<Rightarrow> flow_entry \<Rightarrow> chain \<Rightarrow> runtime_error + plan_flow" where
  "load_flow p f ch =
     (let ((conditions, terminal), reference) = ch in
      ebind (emap uuid_key (fle_official_instrument_ids f)) (\<lambda>ids.
      ebind (require (distinct ids) (plan_structure (''flow '' @ fle_key f @ '' officialInstrumentIds must be unique''))) (\<lambda>_.
      ebind (map_err RuntimeElementError (step_argument terminal ''side'')) (\<lambda>side.
      ebind (map_err RuntimeElementError (step_argument terminal ''allocation'')) (\<lambda>allocation.
      Inr \<lparr>pfl_partition_key = pe_key p, pfl_flow_id = fle_key f, pfl_budget_cap_bps = pe_budget_cap_bps p,
        pfl_side = side, pfl_instrument_ids = ids, pfl_condition_steps = conditions,
        pfl_terminal_step = Some terminal, pfl_allocation = allocation, pfl_reference_series = reference\<rparr>)))))"

text \<open>
  The flows in document order; under version 2 the n-th flow has the n-th chain, under
  version 1 every flow has the first.
\<close>

fun load_flows ::
  "string list \<Rightarrow> (partition_entry \<times> flow_entry) list \<Rightarrow> chain list \<Rightarrow> bool \<Rightarrow> runtime_error + plan_flow list" where
  "load_flows seen [] pending per_container = Inr []"
| "load_flows seen ((p, f) # fs) pending per_container =
     (if fle_key f \<in> set seen
      then Inl (plan_structure (''flow key '' @ fle_key f @ '' appears more than once''))
      else case pending of
        [] \<Rightarrow> Inl (RuntimeElementError (PythonError ''IndexError'' ''list index out of range''))
      | ch # rest \<Rightarrow>
          ebind (load_flow p f ch) (\<lambda>fl.
          ebind (load_flows (fle_key f # seen) fs (if per_container then rest else pending) per_container) (\<lambda>fls.
          Inr (fl # fls))))"

definition document_flows :: "plan_document \<Rightarrow> (partition_entry \<times> flow_entry) list" where
  "document_flows d = concat (map (\<lambda>p. map (Pair p) (pe_flows p)) (pd_partitions d))"

definition initial_cash_of :: "string \<Rightarrow> runtime_error + decimal" where
  "initial_cash_of text =
     (case parse_decimal text of
        None \<Rightarrow> Inl (RuntimeElementError (decimal_exception InvalidOperation))
      | Some (SpecialDec _) \<Rightarrow> map_err RuntimeMoneyError (quantize_money PySpecial)
      | Some (FiniteDec d) \<Rightarrow> map_err RuntimeMoneyError (quantize_money (PyDec d)))"

definition load_plan ::
  "runtime_compatibility \<Rightarrow> plan_document \<Rightarrow> string option \<Rightarrow> string option \<Rightarrow> runtime_error + compiled_plan" where
  "load_plan rc d checksum runtime_version =
     ebind (unique_features_check [] [] (pd_required_features d)) (\<lambda>_.
     ebind (verify_request_checksum d checksum) (\<lambda>_.
     ebind (build_capability d) (\<lambda>c.
     let per_container = (pd_schema_version d = MULTI_CONTAINER_PLAN_SCHEMA_VERSION);
         containers = (if per_container then map (fle_steps \<circ> snd) (document_flows d) else [pd_steps d]) in
     ebind (emap (load_chain c) containers) (\<lambda>pending.
     case pending of
       [] \<Rightarrow> Inl (RuntimeElementError (PythonError ''IndexError'' ''list index out of range''))
     | (conditions, terminal) # _ \<Rightarrow>
         ebind (emap (required_feature_of c) (pd_required_features d)) (\<lambda>features.
         ebind (emap (\<lambda>(cs, _). require_declared_features c features cs) pending) (\<lambda>references.
         ebind (require_compatibility rc d features runtime_version) (\<lambda>_.
         ebind (map_err RuntimeElementError (step_argument terminal ''side'')) (\<lambda>side.
         ebind (initial_cash_of (pd_initial_cash_amount d)) (\<lambda>cash.
         ebind (map_err RuntimeElementError (step_argument terminal ''orderType'')) (\<lambda>order_type.
         ebind (map_err RuntimeElementError (step_argument terminal ''allocation'')) (\<lambda>allocation.
         ebind (load_flows [] (document_flows d) (zip pending references) per_container) (\<lambda>flows.
         Inr \<lparr>cp_contract_version = pd_contract_version d, cp_schema_version = pd_schema_version d,
           cp_compiler_version = pd_compiler_version d, cp_element_catalog_version = pd_element_catalog_version d,
           cp_instrument_catalog_version = pd_instrument_catalog_version d,
           cp_required_feature_set_hash = pd_required_feature_set_hash d, cp_plan_checksum = pd_plan_checksum d,
           cp_snapshot_schema_version = pd_snapshot_schema_version d, cp_snapshot_hash = pd_snapshot_hash d,
           cp_semantic_hash = pd_semantic_hash d, cp_mode = pd_mode d, cp_currency = pd_currency d,
           cp_initial_cash = cash, cp_condition_steps = conditions, cp_terminal_step = terminal,
           cp_side = side, cp_order_type = order_type, cp_allocation = allocation,
           cp_required_features = features, cp_reference_series = hd references, cp_flows = flows,
           cp_catalog = c\<rparr>))))))))))))"

section \<open>Evaluation\<close>

record step_trace =
  tr_step_id :: string
  tr_passed :: bool
  tr_reason_code :: string
  tr_evidence :: evidence

record instrument_decision =
  de_flow_id :: string
  de_instrument_id :: string
  de_side :: string
  de_status :: decision_status
  de_trace :: "step_trace list"
  de_first_failure_step_id :: "string option"
  de_first_failure_reason :: "string option"
  de_buy_allocation :: "rat option"
  de_reference_price :: "decimal option"

record execution_result =
  xr_decisions :: "instrument_decision list"
  xr_as_of :: instant
  xr_evaluations :: "(string \<times> element_evaluation) list"

definition failed_decision ::
  "plan_flow \<Rightarrow> string \<Rightarrow> decision_status \<Rightarrow> step_trace list \<Rightarrow> string \<Rightarrow> string \<Rightarrow> instrument_decision" where
  "failed_decision f iid status trace step_id reason =
     \<lparr>de_flow_id = pfl_flow_id f, de_instrument_id = iid, de_side = pfl_side f, de_status = status,
      de_trace = trace, de_first_failure_step_id = Some step_id, de_first_failure_reason = Some reason,
      de_buy_allocation = None, de_reference_price = None\<rparr>"

definition step_id_of :: "plan_step \<Rightarrow> string" where
  "step_id_of s = ''step-'' @ int_text (ps_sequence s) @ '':'' @ ps_operation s"

text \<open>
  The loop over the condition steps: the trace, the scratchpad it leaves behind, and the failed
  status with its step and reason, if any.
\<close>

fun run_steps ::
  "(string \<Rightarrow> plan_step \<Rightarrow> element_error option) \<Rightarrow> element_catalog \<Rightarrow> string \<Rightarrow> plan_step list
     \<Rightarrow> element_evaluation \<Rightarrow> step_trace list
     \<Rightarrow> step_trace list \<times> element_evaluation \<times> (decision_status \<times> string \<times> string) option" where
  "run_steps on_step c iid [] e trace = (trace, e, None)"
| "run_steps on_step c iid (s # ss) e trace =
     (case (case on_step iid s of Some x \<Rightarrow> Inl x | None \<Rightarrow> catalog_evaluate c s e) of
        Inl (ElementInputMissing m input_reason evidence) \<Rightarrow>
          (trace @ [\<lparr>tr_step_id = step_id_of s, tr_passed = False, tr_reason_code = INPUT_MISSING_REASON,
             tr_evidence = dict_put ''inputReason'' input_reason evidence\<rparr>], e,
           Some (INPUT_MISSING, step_id_of s, INPUT_MISSING_REASON))
      | Inl x \<Rightarrow>
          (trace @ [\<lparr>tr_step_id = step_id_of s, tr_passed = False, tr_reason_code = CONDITION_ERROR_REASON,
             tr_evidence = [(''errorType'', error_type x), (''errorDetail'', error_detail x)]\<rparr>], e,
           Some (CONDITION_ERROR, step_id_of s, CONDITION_ERROR_REASON))
      | Inr (o1, e') \<Rightarrow>
          let trace' = trace @ [\<lparr>tr_step_id = step_id_of s, tr_passed = so_passed o1,
                tr_reason_code = so_reason_code o1, tr_evidence = so_evidence o1\<rparr>] in
          if so_passed o1 then run_steps on_step c iid ss e' trace'
          else (trace', e', Some (CONDITION_NOT_MET, step_id_of s, so_reason_code o1)))"

definition candidate_reference_price ::
  "compiled_plan \<Rightarrow> plan_flow \<Rightarrow> element_evaluation \<Rightarrow> runtime_error + decimal" where
  "candidate_reference_price p f e =
     (let (data_kind, res) = (if snd (pfl_reference_series f) = DATASET_RESOLUTION then cp_reference_series p
            else pfl_reference_series f);
          completed = (case series_for (el_inputs e) data_kind res of
            None \<Rightarrow> [] | Some s \<Rightarrow> completed_through s (el_as_of e))
      in if completed = []
         then Inl (RuntimeElementError (ElementEvaluationError (''no completed '' @ data_kind @ ''/'' @ res @
                '' bar to price '' @ el_instrument_id e @ '' at '' @ instant_text (el_as_of e))))
         else map_err RuntimeMoneyError (quantize_money (PyDec (sb_close (last completed)))))"

definition evaluate_instrument ::
  "(string \<Rightarrow> plan_step \<Rightarrow> element_error option) \<Rightarrow> compiled_plan \<Rightarrow> plan_flow \<Rightarrow> string
     \<Rightarrow> instrument_input option \<Rightarrow> py_datetime \<Rightarrow> (string \<times> element_evaluation) list
     \<Rightarrow> runtime_error + instrument_decision \<times> (string \<times> element_evaluation) list" where
  "evaluate_instrument on_step p f iid supplied as_of evaluations =
     (case supplied of
        None \<Rightarrow> Inr (failed_decision f iid INPUT_MISSING [] MISSING_INPUT_STEP_ID INPUT_MISSING_REASON, evaluations)
      | Some inputs \<Rightarrow>
          ebind (map_err RuntimeElementError (element_evaluation_new iid as_of inputs)) (\<lambda>e0.
          let (trace, e, failure) = run_steps on_step (cp_catalog p) iid (pfl_condition_steps f) e0 [];
              evaluations' = dict_put iid e evaluations in
          case failure of
            Some (status, step_id, reason) \<Rightarrow>
              Inr (failed_decision f iid status trace step_id reason, evaluations')
          | None \<Rightarrow>
              ebind (candidate_reference_price p f e) (\<lambda>price.
              Inr (\<lparr>de_flow_id = pfl_flow_id f, de_instrument_id = iid, de_side = pfl_side f,
                 de_status = CANDIDATE, de_trace = trace, de_first_failure_step_id = None,
                 de_first_failure_reason = None, de_buy_allocation = None,
                 de_reference_price = Some price\<rparr>, evaluations'))))"

definition allocate_equally :: "instrument_decision list \<Rightarrow> string \<Rightarrow> instrument_decision list" where
  "allocate_equally decisions side =
     (let n = length (filter (\<lambda>d. de_status d = CANDIDATE) decisions) in
      if side \<noteq> ''BUY'' \<or> n = 0 then decisions
      else map (\<lambda>d. if de_status d = CANDIDATE then d\<lparr>de_buy_allocation := Some (1 / of_nat n)\<rparr> else d) decisions)"

fun evaluate_flow ::
  "(string \<Rightarrow> plan_step \<Rightarrow> element_error option) \<Rightarrow> compiled_plan \<Rightarrow> plan_flow \<Rightarrow> (string \<Rightarrow> instrument_input option)
     \<Rightarrow> py_datetime \<Rightarrow> string list \<Rightarrow> (string \<times> element_evaluation) list
     \<Rightarrow> runtime_error + instrument_decision list \<times> (string \<times> element_evaluation) list" where
  "evaluate_flow on_step p f inputs as_of [] evaluations = Inr ([], evaluations)"
| "evaluate_flow on_step p f inputs as_of (iid # ids) evaluations =
     ebind (require (case inputs iid of None \<Rightarrow> True | Some i \<Rightarrow> ii_instrument_id i = iid)
       (plan_structure ''instrument inputs must be keyed by instrument_id'')) (\<lambda>_.
     ebind (evaluate_instrument on_step p f iid (inputs iid) as_of evaluations) (\<lambda>(d, evaluations').
     ebind (evaluate_flow on_step p f inputs as_of ids evaluations') (\<lambda>(ds, evaluations'').
     Inr (d # ds, evaluations''))))"

fun execute_flows ::
  "(string \<Rightarrow> plan_step \<Rightarrow> element_error option) \<Rightarrow> compiled_plan \<Rightarrow> (string \<Rightarrow> instrument_input option)
     \<Rightarrow> py_datetime \<Rightarrow> plan_flow list \<Rightarrow> (string \<times> element_evaluation) list
     \<Rightarrow> runtime_error + instrument_decision list \<times> (string \<times> element_evaluation) list" where
  "execute_flows on_step p inputs as_of [] evaluations = Inr ([], evaluations)"
| "execute_flows on_step p inputs as_of (f # fs) evaluations =
     ebind (sort_uuids (pfl_instrument_ids f)) (\<lambda>ids.
     ebind (evaluate_flow on_step p f inputs as_of ids evaluations) (\<lambda>(ds, evaluations').
     ebind (execute_flows on_step p inputs as_of fs evaluations') (\<lambda>(rest, evaluations'').
     Inr (allocate_equally ds (pfl_side f) @ rest, evaluations''))))"

definition execute_plan ::
  "(string \<Rightarrow> plan_step \<Rightarrow> element_error option) \<Rightarrow> compiled_plan \<Rightarrow> (string \<Rightarrow> instrument_input option)
     \<Rightarrow> instant \<Rightarrow> runtime_error + execution_result" where
  "execute_plan on_step p inputs as_of =
     ebind (execute_flows on_step p inputs (Aware as_of) (cp_flows p) []) (\<lambda>(ds, evaluations).
     Inr \<lparr>xr_decisions = ds, xr_as_of = as_of, xr_evaluations = evaluations\<rparr>)"

definition candidate_of ::
  "compiled_plan \<Rightarrow> string \<Rightarrow> int \<Rightarrow> instant \<Rightarrow> instant option \<Rightarrow> instant \<Rightarrow> instrument_decision
     \<Rightarrow> runtime_error + instant order_candidate" where
  "candidate_of p evaluation_id session_date session_closes_at eligible_at decided_at d =
     ebind (plan_flow_of p (de_flow_id d)) (\<lambda>f.
     case de_reference_price d of
       None \<Rightarrow> Inl (RuntimeElementError (ElementEvaluationError
         (''candidate '' @ de_instrument_id d @ '' carries no reference price'')))
     | Some price \<Rightarrow>
         map_err RuntimeElementError (emit_order_candidate
           (case pfl_terminal_step f of Some s \<Rightarrow> s | None \<Rightarrow> cp_terminal_step p)
           \<lparr>em_evaluation_id = evaluation_id, em_instrument_id = de_instrument_id d,
            em_partition_key = pfl_partition_key f, em_flow_id = pfl_flow_id f,
            em_budget_cap_bps = pfl_budget_cap_bps f, em_allocation = de_buy_allocation d,
            em_reference_price = price, em_decided_at = Aware decided_at,
            em_eligible_at = Aware (case eligible_at of None \<Rightarrow> decided_at | Some t \<Rightarrow> t),
            em_session_date_et = session_date, em_session_closes_at = Aware session_closes_at\<rparr>))"

definition order_candidates ::
  "compiled_plan \<Rightarrow> execution_result \<Rightarrow> string \<Rightarrow> int \<Rightarrow> instant \<Rightarrow> instant option
     \<Rightarrow> runtime_error + instant order_candidate list" where
  "order_candidates p r evaluation_id session_date session_closes_at eligible_at =
     emap (candidate_of p evaluation_id session_date session_closes_at eligible_at (xr_as_of r))
       (filter (\<lambda>d. de_status d = CANDIDATE) (xr_decisions r))"

section \<open>Data requirements\<close>

text \<open>\<open>int(text.rsplit("_", 1)[1])\<close>.\<close>

definition after_last_underscore :: "string \<Rightarrow> string" where
  "after_last_underscore s = rev (takeWhile (\<lambda>c. c \<noteq> CHR ''_'') (rev s))"

definition starts_with :: "string \<Rightarrow> string \<Rightarrow> bool" where
  "starts_with s p \<longleftrightarrow> drop_prefix p s \<noteq> None"

definition raw_operation_lookback :: "plan_step \<Rightarrow> element_error + int" where
  "raw_operation_lookback s =
     (let op = ps_operation s in
      if op = ''PRICE_COMPARE'' \<or> op = ''PRICE_CHANGE_PERCENT'' then
        (let reference = argument_or s ''reference'' (argument_or s ''base'' []) in
         if reference = ''PREVIOUS_CLOSE'' then Inr 2
         else if starts_with reference ''SMA_'' \<or> starts_with reference ''HIGH_'' \<or> starts_with reference ''LOW_''
         then (case py_int (after_last_underscore reference) of
             None \<Rightarrow> Inl (PythonError ''ValueError'' (int_literal_message (after_last_underscore reference)))
           | Some n \<Rightarrow> Inr (n + (if starts_with reference ''HIGH_'' \<or> starts_with reference ''LOW_'' then 1 else 0)))
         else Inr 1)
      else if op = ''VOLUME_COMPARE'' then
        ebind (step_argument s ''reference'') (\<lambda>reference.
        if reference = ''PREVIOUS_VOLUME'' then Inr 2
        else ebind (int_argument s ''period'') (\<lambda>n. Inr (n + 1)))
      else if op = ''STREAK'' then ebind (int_argument s ''bars'') (\<lambda>n. Inr (n + 1))
      else if op = ''SMA_CROSS'' then ebind (int_argument s ''longPeriod'') (\<lambda>n. Inr (n + 1))
      else if op = ''RSI_CROSS'' then Inr 1
      else if op = ''MACD_CROSS'' then
        ebind (int_argument s ''slowPeriod'') (\<lambda>slow. ebind (int_argument s ''signalPeriod'') (\<lambda>signal. Inr (slow + signal + 2)))
      else if op = ''BOLLINGER_REVERSAL'' then ebind (int_argument s ''period'') (\<lambda>n. Inr (n + 1))
      else Inr 1)"

definition put_requirement ::
  "instant \<Rightarrow> instant \<Rightarrow> string \<Rightarrow> string \<Rightarrow> string \<Rightarrow> instant \<Rightarrow> (string \<times> requirement) list
     \<Rightarrow> runtime_error + (string \<times> requirement) list" where
  "put_requirement evaluation_from evaluation_through iid data_kind res warmup_from by_id =
     (let rid = iid @ ''|'' @ data_kind @ ''|'' @ res in
      if (case map_of by_id rid of None \<Rightarrow> False | Some r \<Rightarrow> rq_warmup_from r \<le> warmup_from) then Inr by_id
      else ebind (map_err RuntimeAvailabilityError (data_requirement_new
        \<lparr>rq_requirement_id = rid, rq_instrument_id = iid, rq_data_kind = data_kind, rq_resolution = res,
         rq_warmup_from = Aware warmup_from, rq_evaluation_from = Aware evaluation_from,
         rq_evaluation_through = Aware evaluation_through\<rparr>)) (\<lambda>r.
        Inr (dict_put rid r by_id)))"

definition feature_requirements ::
  "instant \<Rightarrow> instant \<Rightarrow> required_feature \<Rightarrow> (string \<times> requirement) list \<Rightarrow> runtime_error + (string \<times> requirement) list" where
  "feature_requirements evaluation_from evaluation_through f by_id =
     efold (\<lambda>iid acc. ebind (map_err RuntimeElementError (warmup_span f)) (\<lambda>span.
       put_requirement evaluation_from evaluation_through iid (rf_data_kind f) (rf_bar_resolution f)
         (evaluation_from - span) acc)) (rf_instruments f) by_id"

definition step_lookback ::
  "plan_step \<Rightarrow> ((string \<times> string) \<times> int) list \<Rightarrow> runtime_error + ((string \<times> string) \<times> int) list" where
  "step_lookback s acc =
     (case map_of (ps_arguments s) ''resolution'' of
        None \<Rightarrow> Inr acc
      | Some res \<Rightarrow>
          ebind (map_err RuntimeElementError (raw_operation_lookback s)) (\<lambda>n.
          let key = (''ADJUSTED_BAR'', res) in
          Inr (dict_put key (max (case map_of acc key of None \<Rightarrow> 1 | Some m \<Rightarrow> m) n) acc)))"

definition flow_lookbacks :: "plan_flow \<Rightarrow> runtime_error + ((string \<times> string) \<times> int) list" where
  "flow_lookbacks f =
     ebind (efold step_lookback (pfl_condition_steps f) []) (\<lambda>acc.
     Inr (if acc = [] \<and> snd (pfl_reference_series f) \<noteq> DATASET_RESOLUTION
          then [(pfl_reference_series f, 1)] else acc))"

definition flow_requirements ::
  "instant \<Rightarrow> instant \<Rightarrow> plan_flow \<Rightarrow> (string \<times> requirement) list \<Rightarrow> runtime_error + (string \<times> requirement) list" where
  "flow_requirements evaluation_from evaluation_through f by_id =
     ebind (flow_lookbacks f) (\<lambda>lookbacks.
     efold (\<lambda>iid acc. efold (\<lambda>((data_kind, res), bars) acc'.
       ebind (map_err RuntimeElementError (element_period res)) (\<lambda>period.
       put_requirement evaluation_from evaluation_through iid data_kind res (evaluation_from - period * bars) acc'))
       lookbacks acc) (pfl_instrument_ids f) by_id)"

definition derive_data_requirements ::
  "compiled_plan \<Rightarrow> instant \<Rightarrow> instant \<Rightarrow> runtime_error + requirement list" where
  "derive_data_requirements p evaluation_from evaluation_through =
     ebind (efold (feature_requirements evaluation_from evaluation_through) (cp_required_features p) []) (\<lambda>by_feature.
     ebind (efold (flow_requirements evaluation_from evaluation_through) (cp_flows p) by_feature) (\<lambda>by_id.
     Inr (map snd (sort_key fst by_id))))"

end
