(* ===== verification/Plan_Replay.thy ===== *)
theory Plan_Replay
  imports Basic_Runtime
begin

text \<open>
  \<open>basic_runtime.py\<close>, second part: completed bars as clock events, the grouping of the visible
  bars into one input per instrument with the published texts, the execution gate, the execution
  policy with its counters per flow and instrument, and the replay loop over a pinned event
  stream. What \<open>BasicPlanReplay.__init__\<close> fixes is the record \<open>replay\<close>; what evaluations change is
  the record \<open>replay_memory\<close>. The branch of \<open>_schedule_values\<close> for drivers that never ran the
  constructor is left out. \<open>uuid5\<close>, the Eastern date of an instant and the step observer are
  parameters.
\<close>

section \<open>Events\<close>

datatype payload = BarPayload string string "instant series_bar" | OtherPayload

definition bar_closed_event ::
  "string \<Rightarrow> string \<Rightarrow> string \<Rightarrow> string \<Rightarrow> py_datetime \<Rightarrow> decimal \<Rightarrow> decimal \<Rightarrow> int \<Rightarrow> instant option
     \<Rightarrow> runtime_error + payload event" where
  "bar_closed_event event_id iid data_kind res starts_at close volume source_sequence available_at =
     ebind (map_err RuntimeElementError (element_period res)) (\<lambda>period.
     ebind (map_err RuntimeElementError (series_bar_new
       \<lparr>sb_instrument_id = iid, sb_resolution = res, sb_starts_at = starts_at,
        sb_ends_at = (case starts_at of Naive t \<Rightarrow> Naive (t + period) | Aware t \<Rightarrow> Aware (t + period)),
        sb_close = close, sb_volume = volume, sb_session_truncated = False\<rparr>)) (\<lambda>bar.
     let published_at = (case available_at of None \<Rightarrow> sb_ends_at bar | Some t \<Rightarrow> t) in
     ebind (require (\<not> published_at < sb_ends_at bar)
       (RuntimeValueError ''a bar cannot be available before it closes'')) (\<lambda>_.
     map_err RuntimeClockError (market_data_event_new
       \<lparr>ev_event_id = event_id, ev_instrument_id = sb_instrument_id bar, ev_occurred_at = Aware (sb_ends_at bar),
        ev_available_at = Aware published_at, ev_source_sequence = source_sequence,
        ev_event_type = BAR_CLOSED_EVENT_TYPE, ev_payload = BarPayload data_kind res bar\<rparr>))))"

text \<open>The bars an evaluation at \<open>as_of\<close> may see, with their events.\<close>

definition bar_visible :: "instant \<Rightarrow> payload event \<Rightarrow> bool" where
  "bar_visible as_of e \<longleftrightarrow> ev_event_type e = BAR_CLOSED_EVENT_TYPE \<and> \<not> as_of < ev_available_at e"

definition bar_of :: "payload event \<Rightarrow> runtime_error + string \<times> string \<times> instant series_bar" where
  "bar_of e =
     (case ev_payload e of
        BarPayload data_kind res bar \<Rightarrow> Inr (data_kind, res, bar)
      | OtherPayload \<Rightarrow> Inl (RuntimeElementError (PythonError ''KeyError'' ''dataKind'')))"

text \<open>\<open>d.setdefault(key, []).append(x)\<close>.\<close>

definition group_put :: "'k \<Rightarrow> 'a \<Rightarrow> ('k \<times> 'a list) list \<Rightarrow> ('k \<times> 'a list) list" where
  "group_put k x d = dict_put k ((case map_of d k of None \<Rightarrow> [] | Some xs \<Rightarrow> xs) @ [x]) d"

record bar_groups =
  bg_grouped :: "((string \<times> string \<times> string) \<times> instant series_bar list) list"
  bg_payloads :: "((string \<times> string) \<times> (instant \<times> instant series_bar) list) list"

definition group_event :: "instant \<Rightarrow> payload event \<Rightarrow> bar_groups \<Rightarrow> runtime_error + bar_groups" where
  "group_event as_of e g =
     (if \<not> bar_visible as_of e then Inr g
      else ebind (bar_of e) (\<lambda>(data_kind, res, bar).
        Inr \<lparr>bg_grouped = group_put (ev_instrument_id e, data_kind, res) bar (bg_grouped g),
          bg_payloads = group_put (ev_instrument_id e, res) (ev_occurred_at e, bar) (bg_payloads g)\<rparr>))"

definition group_events :: "instant \<Rightarrow> payload event list \<Rightarrow> runtime_error + bar_groups" where
  "group_events as_of events = efold (group_event as_of) events \<lparr>bg_grouped = [], bg_payloads = []\<rparr>"

definition add_series ::
  "(string \<times> string \<times> string) \<times> instant series_bar list \<Rightarrow> (string \<times> instrument_series list) list
     \<Rightarrow> runtime_error + (string \<times> instrument_series list) list" where
  "add_series g acc =
     (let ((iid, data_kind, res), bars) = g in
      ebind (map_err RuntimeElementError (instrument_series_new
        \<lparr>is_instrument_id = iid, is_data_kind = data_kind, is_resolution = res,
         is_bars = sort_key sb_starts_at bars\<rparr>)) (\<lambda>s.
      Inr (group_put iid s acc)))"

definition features_by_instrument ::
  "pinned_feature_series list \<Rightarrow> (string \<times> pinned_feature_series list) list" where
  "features_by_instrument fs = fold (\<lambda>f. group_put (pf_instrument_id f) f) fs []"

section \<open>Published values\<close>

type_synonym texts = "(string \<times> string) list"

definition bool_text :: "bool \<Rightarrow> string" where
  "bool_text b = (if b then ''true'' else ''false'')"

text \<open>\<open>sorted(events, key=occurred_at)[-LIVE_SERIES_BARS:]\<close>.\<close>

definition live_window :: "(instant \<times> 'b) list \<Rightarrow> (instant \<times> 'b) list" where
  "live_window events = drop (length events - nat LIVE_SERIES_BARS) (sort_key fst events)"

definition publish_series ::
  "instant \<Rightarrow> string \<Rightarrow> (instant \<times> instant series_bar) list \<Rightarrow> texts \<Rightarrow> texts" where
  "publish_series as_of res events values =
     (let ordered = live_window events in
      dict_put (''bar.closed.'' @ res) (bool_text (fst (last ordered) = as_of))
     (dict_put (''volumes.'' @ res) (join_text '','' (map (\<lambda>(_, b). dec_str (sb_volume b)) ordered))
     (dict_put (''closes.'' @ res) (join_text '','' (map (\<lambda>(_, b). dec_str (sb_close b)) ordered)) values)))"

definition published_values ::
  "string \<Rightarrow> ((string \<times> string) \<times> (instant \<times> instant series_bar) list) list \<Rightarrow> instant \<Rightarrow> texts \<Rightarrow> texts \<Rightarrow> texts" where
  "published_values iid payloads as_of runtime_values shared_values =
     fold (\<lambda>((candidate, res), events) values.
         if candidate \<noteq> iid then values else publish_series as_of res events values) payloads
       (fold (\<lambda>(k, v). dict_put k v) runtime_values shared_values)"

text \<open>
  \<open>_instrument_inputs\<close>. The code iterates a set of instrument identifiers; the identifiers are
  taken here in one fixed order, which decides only which failure of several is raised.
\<close>

definition lookup_list :: "('k \<times> 'a list) list \<Rightarrow> 'k \<Rightarrow> 'a list" where
  "lookup_list d k = (case map_of d k of None \<Rightarrow> [] | Some xs \<Rightarrow> xs)"

definition instrument_input_of ::
  "bar_groups \<Rightarrow> (string \<times> instrument_series list) list \<Rightarrow> (string \<times> pinned_feature_series list) list \<Rightarrow> bool
     \<Rightarrow> (string \<times> texts) list \<Rightarrow> texts \<Rightarrow> instant \<Rightarrow> string \<Rightarrow> runtime_error + instrument_input" where
  "instrument_input_of g by_instrument features pinned runtime_values shared_values as_of iid =
     map_err RuntimeElementError (instrument_input_new
       \<lparr>ii_instrument_id = iid, ii_series = lookup_list by_instrument iid,
        ii_feature_series = lookup_list features iid, ii_require_pinned_features = pinned,
        ii_values = published_values iid (bg_payloads g) as_of (lookup_list runtime_values iid) shared_values\<rparr>)"

definition instrument_inputs ::
  "pinned_feature_series list \<Rightarrow> bool \<Rightarrow> (string \<times> texts) list \<Rightarrow> texts \<Rightarrow> instant \<Rightarrow> payload event list
     \<Rightarrow> runtime_error + (string \<times> instrument_input) list" where
  "instrument_inputs feature_series pinned runtime_values shared_values as_of events =
     ebind (group_events as_of events) (\<lambda>g.
     ebind (efold add_series (bg_grouped g) []) (\<lambda>by_instrument.
     let features = features_by_instrument feature_series;
         ids = remdups (map fst by_instrument @ map fst features @ map fst runtime_values) in
     emap (\<lambda>iid. ebind (instrument_input_of g by_instrument features pinned runtime_values shared_values as_of iid)
       (\<lambda>i. Inr (iid, i))) ids))"

section \<open>The plan's window and the gate\<close>

definition max_or_one :: "int list \<Rightarrow> int" where
  "max_or_one xs = (case xs of [] \<Rightarrow> 1 | x # ys \<Rightarrow> fold max ys x)"

definition plan_visible_event_limit :: "compiled_plan \<Rightarrow> runtime_error + int" where
  "plan_visible_event_limit p =
     (let steps = concat (map pfl_condition_steps (cp_flows p)) in
      if \<exists>s\<in>set steps. ps_operation s = ''MACD_CROSS'' then Inr LIVE_SERIES_BARS
      else ebind (map_err RuntimeElementError (emap raw_operation_lookback steps)) (\<lambda>lookbacks.
        Inr (min LIVE_SERIES_BARS
          (max (max_or_one (map warmup_bars (cp_required_features p))) (max_or_one lookbacks)))))"

record execution_gate =
  eg_schedule :: schedule
  eg_assessment :: availability_assessment

definition gate_session_status_at :: "(instant \<Rightarrow> date) \<Rightarrow> execution_gate \<Rightarrow> instant \<Rightarrow> market_session_status" where
  "gate_session_status_at et_date g t = snd (status_at et_date (eg_schedule g) t)"

definition gate_session_closes_at :: "(instant \<Rightarrow> date) \<Rightarrow> execution_gate \<Rightarrow> instant \<Rightarrow> instant option" where
  "gate_session_closes_at et_date g t = map_option ts_closes_at (fst (status_at et_date (eg_schedule g) t))"

definition gate_stage_allowed :: "execution_gate \<Rightarrow> skip_stage \<Rightarrow> instant \<Rightarrow> availability_error + bool" where
  "gate_stage_allowed g stage t = is_stage_allowed (eg_assessment g) stage (Aware t)"

definition is_evaluation_allowed :: "execution_gate \<Rightarrow> instant \<Rightarrow> availability_error + bool" where
  "is_evaluation_allowed g t = gate_stage_allowed g EVALUATION t"

definition is_order_trigger_allowed :: "execution_gate \<Rightarrow> instant \<Rightarrow> availability_error + bool" where
  "is_order_trigger_allowed g t = gate_stage_allowed g ORDER_TRIGGER t"

definition is_fill_allowed :: "(instant \<Rightarrow> date) \<Rightarrow> execution_gate \<Rightarrow> instant \<Rightarrow> availability_error + bool" where
  "is_fill_allowed et_date g t =
     (if gate_session_status_at et_date g t = REGULAR_OPEN then gate_stage_allowed g FILL t else Inr False)"

section \<open>The execution policy\<close>

datatype skip_reason = DATA_GAP_EVALUATION_SKIPPED

record plan_evaluation =
  pe_evaluation_id :: string
  pe_occurred_at :: instant
  pe_session_status :: market_session_status
  pe_decisions :: "instrument_decision list"
  pe_candidates :: "instant order_candidate list"
  pe_skip_reason :: "skip_reason option"

record compact_plan_evaluation =
  ce_evaluation_id :: string
  ce_occurred_at :: instant
  ce_trade_occurred :: bool
  ce_data_gap :: bool
  ce_condition_outcomes :: "(string \<times> bool) list"

record execution_state =
  xs_executions :: int
  xs_bars_since_execution :: int
  xs_last_session_date :: "int option"
  xs_last_session_index :: "nat option"
  xs_condition_rearmed :: bool

definition execution_state_new :: execution_state where
  "execution_state_new = \<lparr>xs_executions = 0, xs_bars_since_execution = 0, xs_last_session_date = None,
     xs_last_session_index = None, xs_condition_rearmed = True\<rparr>"

definition count_bar :: "execution_state \<Rightarrow> execution_state" where
  "count_bar x = (if xs_executions x \<noteq> 0 then x\<lparr>xs_bars_since_execution := xs_bars_since_execution x + 1\<rparr> else x)"

definition observe_non_candidate :: "decision_status \<Rightarrow> execution_state \<Rightarrow> execution_state" where
  "observe_non_candidate status x =
     (let x = count_bar x in if status = CONDITION_NOT_MET then x\<lparr>xs_condition_rearmed := True\<rparr> else x)"

definition execution_limit :: "'t order_candidate \<Rightarrow> int" where
  "execution_limit c = (if oc_execution_mode c = ONCE then 1 else oc_max_executions c)"

definition eligible_now :: "'t order_candidate \<Rightarrow> nat option \<Rightarrow> execution_state \<Rightarrow> bool" where
  "eligible_now c session_index x =
     (if xs_executions x = 0 \<or> oc_execution_mode c = EVERY_CYCLE then True
      else if oc_wait_mode c = CONDITION_REMET then xs_condition_rearmed x
      else if oc_wait_mode c = AFTER_N_BARS then oc_wait_interval c \<le> xs_bars_since_execution x
      else if oc_wait_mode c = AFTER_N_DAYS
      then (case (xs_last_session_index x, session_index) of
          (Some i, Some j) \<Rightarrow> oc_wait_interval c \<le> int j - int i | _ \<Rightarrow> False)
      else False)"

definition accepts :: "'t order_candidate \<Rightarrow> nat option \<Rightarrow> execution_state \<Rightarrow> bool \<times> execution_state" where
  "accepts c session_index x0 =
     (let x = count_bar x0 in
      if execution_limit c \<le> xs_executions x then (False, x)
      else if \<not> eligible_now c session_index x then (False, x)
      else (True, \<lparr>xs_executions = xs_executions x + 1, xs_bars_since_execution = 0,
        xs_last_session_date = Some (oc_session_date_et c), xs_last_session_index = session_index,
        xs_condition_rearmed = False\<rparr>))"

type_synonym gate_key = "string \<times> string"
type_synonym execution_states = "(gate_key \<times> execution_state) list"

definition candidate_key :: "'t order_candidate \<Rightarrow> gate_key" where
  "candidate_key c = (oc_flow_id c, oc_instrument_id c)"

definition decision_key :: "instrument_decision \<Rightarrow> gate_key" where
  "decision_key d = (de_flow_id d, de_instrument_id d)"

text \<open>\<open>setdefault(key, _ReplayExecutionState())\<close>.\<close>

definition state_of :: "execution_states \<Rightarrow> gate_key \<Rightarrow> execution_state" where
  "state_of states k = (case map_of states k of Some x \<Rightarrow> x | None \<Rightarrow> execution_state_new)"

fun observe_decisions ::
  "gate_key set \<Rightarrow> instrument_decision list \<Rightarrow> execution_states \<Rightarrow> execution_states" where
  "observe_decisions keys [] states = states"
| "observe_decisions keys (d # ds) states =
     observe_decisions keys ds
       (if decision_key d \<in> keys then states
        else dict_put (decision_key d) (observe_non_candidate (de_status d) (state_of states (decision_key d))) states)"

fun filter_accepted ::
  "(int \<Rightarrow> nat option) \<Rightarrow> 't order_candidate list \<Rightarrow> execution_states
     \<Rightarrow> 't order_candidate list \<times> execution_states" where
  "filter_accepted session_index [] states = ([], states)"
| "filter_accepted session_index (c # cs) states =
     (let (ok, x) = accepts c (session_index (oc_session_date_et c)) (state_of states (candidate_key c));
          (rest, states') = filter_accepted session_index cs (dict_put (candidate_key c) x states)
      in (if ok then c # rest else rest, states'))"

definition apply_execution_policy ::
  "element_catalog \<Rightarrow> (int \<Rightarrow> nat option) \<Rightarrow> instrument_decision list \<Rightarrow> 't order_candidate list \<Rightarrow> execution_states
     \<Rightarrow> 't order_candidate list \<times> execution_states" where
  "apply_execution_policy catalog session_index decisions candidates states =
     (if \<not> ec_execution_gate catalog then (candidates, states)
      else filter_accepted session_index candidates
        (observe_decisions (set (map candidate_key candidates)) decisions states))"

section \<open>The replay\<close>

record replay =
  rp_plan :: compiled_plan
  rp_schedule :: schedule
  rp_assessment :: availability_assessment
  rp_feature_series :: "pinned_feature_series list"
  rp_require_pinned_features :: bool
  rp_gate :: execution_gate
  rp_visible_event_limit :: int
  rp_session_index_by_date :: "(int \<times> nat) list"

record replay_memory =
  mem_last_schedule_session_date :: "int option"
  mem_execution_states :: execution_states
  mem_position_identities :: "(string \<times> string option) list"

definition replay_memory_new :: replay_memory where
  "replay_memory_new = \<lparr>mem_last_schedule_session_date = None, mem_execution_states = [], mem_position_identities = []\<rparr>"

text \<open>\<open>{session.trading_date_et: index for index, session in enumerate(sessions)}\<close>.\<close>

definition session_indices :: "session list \<Rightarrow> (int \<times> nat) list" where
  "session_indices sessions = fold (\<lambda>(i, s). dict_put (ts_date s) i) (enumerate 0 sessions) []"

definition unavailable_fields :: "availability_assessment \<Rightarrow> string \<times> string list" where
  "unavailable_fields a =
     (case remdups (map mr_reason_code (as_missing_requirements a)) of
        [reason] \<Rightarrow> reason | _ \<Rightarrow> ''REQUIRED_DATA_UNAVAILABLE'',
      sort (map contract_value (as_missing_requirements a)))"

definition replay_new ::
  "compiled_plan \<Rightarrow> schedule \<Rightarrow> availability_assessment \<Rightarrow> pinned_feature_series list \<Rightarrow> bool \<Rightarrow> runtime_error + replay" where
  "replay_new p c a feature_series pinned =
     (if as_status a = UNAVAILABLE
      then Inl (ReplayUnavailableError (fst (unavailable_fields a)) (snd (unavailable_fields a)))
      else ebind (plan_visible_event_limit p) (\<lambda>limit.
        Inr \<lparr>rp_plan = p, rp_schedule = c, rp_assessment = a, rp_feature_series = feature_series,
          rp_require_pinned_features = pinned, rp_gate = \<lparr>eg_schedule = c, eg_assessment = a\<rparr>,
          rp_visible_event_limit = limit, rp_session_index_by_date = session_indices (sch_sessions c)\<rparr>))"

definition session_index_of :: "replay \<Rightarrow> session \<Rightarrow> runtime_error + nat" where
  "session_index_of r s =
     (case map_of (rp_session_index_by_date r) (ts_date s) of
        Some i \<Rightarrow> Inr i
      | None \<Rightarrow> Inl (RuntimeElementError (PythonError ''KeyError'' (date_text (ts_date s)))))"

definition session_after :: "replay \<Rightarrow> nat \<Rightarrow> session option" where
  "session_after r i =
     (if i + 1 < length (sch_sessions (rp_schedule r)) then Some (sch_sessions (rp_schedule r) ! (i + 1)) else None)"

definition session_before :: "replay \<Rightarrow> nat \<Rightarrow> session option" where
  "session_before r i = (if i = 0 then None else Some (sch_sessions (rp_schedule r) ! (i - 1)))"

definition year_month :: "int \<Rightarrow> int \<times> int" where
  "year_month d = (year_of d, month_of d)"

definition schedule_values ::
  "(instant \<Rightarrow> date) \<Rightarrow> replay \<Rightarrow> instant \<Rightarrow> replay_memory \<Rightarrow> runtime_error + texts \<times> replay_memory" where
  "schedule_values et_date r t m =
     (case session_at et_date (rp_schedule r) t of
        None \<Rightarrow> Inr ([], m)
      | Some s \<Rightarrow>
          ebind (session_index_of r s) (\<lambda>i.
          let current = ts_date s;
              new_day = (mem_last_schedule_session_date m \<noteq> Some current);
              differs = (\<lambda>f neighbour. case neighbour of None \<Rightarrow> True | Some n \<Rightarrow> f (ts_date n) \<noteq> f current)
          in Inr ([(''session.close'', bool_text (ts_closes_at s \<le> t)),
              (''schedule.newTradingDay'', bool_text new_day),
              (''schedule.tradingDayIndex'', int_text (int i + 1)),
              (''schedule.weekFirstTradingDay'', bool_text (new_day \<and> differs iso_week (session_before r i))),
              (''schedule.monthFirstTradingDay'', bool_text (new_day \<and> differs year_month (session_before r i))),
              (''schedule.monthLastTradingDay'', bool_text (new_day \<and> differs year_month (session_after r i)))],
              m\<lparr>mem_last_schedule_session_date := Some current\<rparr>)))"

definition retire_one :: "(string \<times> string option) list \<Rightarrow> string \<Rightarrow> replay_memory \<Rightarrow> replay_memory" where
  "retire_one observed iid m =
     (let current = (case map_of observed iid of Some v \<Rightarrow> v | None \<Rightarrow> None);
          known = (case map_of (mem_position_identities m) iid of Some v \<Rightarrow> v | None \<Rightarrow> None)
      in if known = current then m
         else m\<lparr>mem_position_identities := dict_put iid current (mem_position_identities m),
                mem_execution_states := filter (\<lambda>(k, _). snd k \<noteq> iid) (mem_execution_states m)\<rparr>)"

definition retire_closed_position_gates :: "(string \<times> texts) list \<Rightarrow> replay_memory \<Rightarrow> replay_memory" where
  "retire_closed_position_gates runtime_values m =
     (let observed = map (\<lambda>(iid, values). (iid, map_of values ''position.openedAt'')) runtime_values
      in fold (retire_one observed) (remdups (map fst (mem_position_identities m) @ map fst observed)) m)"

text \<open>
  A signal of a bar that closes with its session is carried to the next official session.
\<close>

definition candidate_session_at ::
  "replay \<Rightarrow> session option \<Rightarrow> instant \<Rightarrow> runtime_error + session option \<times> instant option" where
  "candidate_session_at r session t =
     (case session of
        None \<Rightarrow> Inr (None, None)
      | Some s \<Rightarrow>
          if ts_closes_at s \<le> t
          then ebind (session_index_of r s) (\<lambda>i.
            Inr (session_after r i, map_option ts_opens_at (session_after r i)))
          else Inr (Some s, None))"

definition evaluate_at ::
  "(instant \<Rightarrow> date) \<Rightarrow> (string \<Rightarrow> string) \<Rightarrow> (string \<Rightarrow> plan_step \<Rightarrow> element_error option) \<Rightarrow> replay
     \<Rightarrow> (string \<times> texts) list \<Rightarrow> instant \<Rightarrow> payload event list \<Rightarrow> replay_memory
     \<Rightarrow> runtime_error + plan_evaluation \<times> replay_memory" where
  "evaluate_at et_date uuid5 on_step r runtime_values t visible m =
     (let evaluation_id = plan_evaluation_id uuid5 (rp_plan r) t;
          (session, status) = status_at et_date (rp_schedule r) t in
      ebind (map_err RuntimeAvailabilityError (is_evaluation_allowed (rp_gate r) t)) (\<lambda>allowed.
      if \<not> allowed
      then Inr (\<lparr>pe_evaluation_id = evaluation_id, pe_occurred_at = t, pe_session_status = status, pe_decisions = [],
        pe_candidates = [], pe_skip_reason = Some DATA_GAP_EVALUATION_SKIPPED\<rparr>, m)
      else
        ebind (schedule_values et_date r t m) (\<lambda>(shared, m1).
        ebind (instrument_inputs (rp_feature_series r) (rp_require_pinned_features r) runtime_values shared t visible) (\<lambda>inputs.
        ebind (execute_plan on_step (rp_plan r) (map_of inputs) t) (\<lambda>result.
        ebind (candidate_session_at r session t) (\<lambda>(candidate_session, eligible_at).
        ebind (case candidate_session of
            None \<Rightarrow> Inr ([], m1)
          | Some s \<Rightarrow>
              ebind (order_candidates (rp_plan r) result evaluation_id (ts_date s) (ts_closes_at s) eligible_at) (\<lambda>candidates.
              let m2 = retire_closed_position_gates runtime_values m1;
                  (accepted, states) = apply_execution_policy (cp_catalog (rp_plan r))
                    (map_of (rp_session_index_by_date r)) (xr_decisions result) candidates (mem_execution_states m2)
              in Inr (accepted, m2\<lparr>mem_execution_states := states\<rparr>))) (\<lambda>(accepted, m3).
        Inr (\<lparr>pe_evaluation_id = evaluation_id, pe_occurred_at = t, pe_session_status = status,
          pe_decisions = xr_decisions result, pe_candidates = accepted, pe_skip_reason = None\<rparr>, m3))))))))"

fun evaluate_instants ::
  "(instant \<Rightarrow> date) \<Rightarrow> (string \<Rightarrow> string) \<Rightarrow> (string \<Rightarrow> plan_step \<Rightarrow> element_error option) \<Rightarrow> replay
     \<Rightarrow> payload event list \<Rightarrow> instant list \<Rightarrow> replay_memory \<Rightarrow> runtime_error + plan_evaluation list \<times> replay_memory" where
  "evaluate_instants et_date uuid5 on_step r visible [] m = Inr ([], m)"
| "evaluate_instants et_date uuid5 on_step r visible (t # ts) m =
     ebind (evaluate_at et_date uuid5 on_step r [] t visible m) (\<lambda>(e, m').
     ebind (evaluate_instants et_date uuid5 on_step r visible ts m') (\<lambda>(es, m'').
     Inr (e # es, m'')))"

definition new_instants :: "payload event list \<Rightarrow> instant set \<Rightarrow> instant list" where
  "new_instants released evaluated = sorted_list_of_set (set (map ev_occurred_at released) - evaluated)"

text \<open>Every round of the loop moves the clock's cursor forward.\<close>

lemma advance_to_next_event_progress:
  assumes "advance_to_next_event et_date k = Inr (Some (k', snap))"
  shows "clk_events k' = clk_events k" "clk_schedule k' = clk_schedule k" "clk_cursor k < clk_cursor k'"
    "clk_cursor k < length (clk_events k)"
proof -
  let ?t = "ev_available_at (clk_events k ! clk_cursor k)"
  from assms have n: "clk_cursor k < length (clk_events k)"
    and adv: "advance_to et_date (Aware ?t) k = Inr (k', snap)"
    by (auto simp: advance_to_next_event_def err_simps not_le split: if_splits)
  from adv obtain t where "?t = t"
    "k' = k\<lparr>clk_cursor := clk_cursor k + length (takeWhile (\<lambda>e. ev_available_at e \<le> t) (drop (clk_cursor k) (clk_events k))),
       clk_visible := clk_visible k @ takeWhile (\<lambda>e. ev_available_at e \<le> t) (drop (clk_cursor k) (clk_events k)),
       clk_now := Some t\<rparr>"
    by (rule advance_to_Inr) simp
  moreover have "drop (clk_cursor k) (clk_events k) = clk_events k ! clk_cursor k # drop (Suc (clk_cursor k)) (clk_events k)"
    using n by (simp add: Cons_nth_drop_Suc)
  ultimately show "clk_events k' = clk_events k" "clk_schedule k' = clk_schedule k" "clk_cursor k < clk_cursor k'"
    "clk_cursor k < length (clk_events k)" using n by auto
qed

lemma advance_to_next_event_decreases:
  "advance_to_next_event et_date k = Inr (Some (k', snap)) \<Longrightarrow>
     length (clk_events k') - clk_cursor k' < length (clk_events k) - clk_cursor k"
  using advance_to_next_event_progress [of et_date k k' snap] by auto

function replay_loop ::
  "(instant \<Rightarrow> date) \<Rightarrow> (string \<Rightarrow> string) \<Rightarrow> (string \<Rightarrow> plan_step \<Rightarrow> element_error option) \<Rightarrow> replay
     \<Rightarrow> payload market_clock \<Rightarrow> instant set \<Rightarrow> plan_evaluation list \<Rightarrow> replay_memory
     \<Rightarrow> runtime_error + plan_evaluation list \<times> payload market_clock \<times> replay_memory" where
  "replay_loop et_date uuid5 on_step r k evaluated evaluations m =
     (case advance_to_next_event et_date k of
        Inl err \<Rightarrow> Inl (RuntimeClockError err)
      | Inr None \<Rightarrow> Inr (sort_key pe_occurred_at evaluations, k, m)
      | Inr (Some (k', snap)) \<Rightarrow>
          (let instants = new_instants (snap_released snap) evaluated in
           case evaluate_instants et_date uuid5 on_step r (snap_visible snap) instants m of
             Inl err \<Rightarrow> Inl err
           | Inr (es, m') \<Rightarrow>
               replay_loop et_date uuid5 on_step r k' (evaluated \<union> set instants) (evaluations @ es) m'))"
  by pat_completeness auto
termination
  by (relation "measure (\<lambda>(_, _, _, _, k, _). length (clk_events k) - clk_cursor k)")
    (auto dest!: advance_to_next_event_decreases)

declare replay_loop.simps [simp del]

record plan_replay =
  pr_replay :: replay
  pr_clock :: "payload market_clock"
  pr_memory :: replay_memory
  pr_evaluations :: "plan_evaluation list option"

definition plan_replay_new ::
  "compiled_plan \<Rightarrow> payload market_clock \<Rightarrow> availability_assessment \<Rightarrow> pinned_feature_series list \<Rightarrow> bool
     \<Rightarrow> runtime_error + plan_replay" where
  "plan_replay_new p k a feature_series pinned =
     ebind (replay_new p (clk_schedule k) a feature_series pinned) (\<lambda>r.
     Inr \<lparr>pr_replay = r, pr_clock = k, pr_memory = replay_memory_new, pr_evaluations = None\<rparr>)"

definition replay_run ::
  "(instant \<Rightarrow> date) \<Rightarrow> (string \<Rightarrow> string) \<Rightarrow> (string \<Rightarrow> plan_step \<Rightarrow> element_error option) \<Rightarrow> plan_replay
     \<Rightarrow> runtime_error + plan_evaluation list \<times> plan_replay" where
  "replay_run et_date uuid5 on_step pr =
     (case pr_evaluations pr of
        Some es \<Rightarrow> Inr (es, pr)
      | None \<Rightarrow>
          ebind (replay_loop et_date uuid5 on_step (pr_replay pr) (pr_clock pr) {} [] (pr_memory pr)) (\<lambda>(es, k, m).
          Inr (es, pr\<lparr>pr_clock := k, pr_memory := m, pr_evaluations := Some es\<rparr>)))"

definition decision_outcomes :: "instrument_decision \<Rightarrow> (string \<times> bool) list" where
  "decision_outcomes d =
     (let name = (\<lambda>step_id. de_flow_id d @ ''|'' @ de_instrument_id d @ ''|'' @ step_id) in
      map (\<lambda>tr. (name (tr_step_id tr), tr_passed tr)) (de_trace d) @
      (if de_status d = INPUT_MISSING \<and> de_trace d = []
       then [(name (case de_first_failure_step_id d of Some s \<Rightarrow> s | None \<Rightarrow> ''None''), False)] else []))"

definition compact_evaluation :: "plan_evaluation \<Rightarrow> compact_plan_evaluation" where
  "compact_evaluation e =
     (let data_gap = (pe_skip_reason e = Some DATA_GAP_EVALUATION_SKIPPED) in
      \<lparr>ce_evaluation_id = pe_evaluation_id e, ce_occurred_at = pe_occurred_at e,
       ce_trade_occurred = (pe_candidates e \<noteq> []), ce_data_gap = data_gap,
       ce_condition_outcomes = (if data_gap then [] else concat (map decision_outcomes (pe_decisions e)))\<rparr>)"

end
