(* ===== verification/Runtime_Rules.thy ===== *)
theory Runtime_Rules
  imports Basic_Runtime
begin

text \<open>
  What the evaluation of a plan promises: the trace of a decision, the shares of the buy
  candidates of a flow and the operand rule of a loaded chain.
\<close>

section \<open>The trace of a decision\<close>

definition trace_of_failure :: "step_trace list \<Rightarrow> (decision_status \<times> string \<times> string) option \<Rightarrow> bool" where
  "trace_of_failure ts failure \<longleftrightarrow>
     (case failure of
        None \<Rightarrow> list_all tr_passed ts
      | Some (status, step_id, reason) \<Rightarrow> status \<noteq> CANDIDATE \<and> ts \<noteq> [] \<and> list_all tr_passed (butlast ts) \<and>
          \<not> tr_passed (last ts) \<and> tr_step_id (last ts) = step_id \<and> tr_reason_code (last ts) = reason)"

lemma trace_of_failure_Cons:
  "tr_passed t \<Longrightarrow> trace_of_failure ts failure \<Longrightarrow> trace_of_failure (t # ts) failure"
  by (auto simp: trace_of_failure_def split: option.splits)

lemma run_steps_trace:
  assumes "run_steps on_step c iid steps e tr0 = (tr, e', failure)"
  shows "\<exists>ts. tr = tr0 @ ts \<and> trace_of_failure ts failure \<and> (failure = None \<longrightarrow> length ts = length steps) \<and>
    map tr_step_id ts = map step_id_of (take (length ts) steps)"
  using assms
proof (induction steps arbitrary: e tr0)
  case Nil
  then show ?case by (simp add: trace_of_failure_def)
next
  case (Cons s ss)
  define outcome where
    "outcome = (case on_step iid s of Some x \<Rightarrow> Inl x | None \<Rightarrow> catalog_evaluate c s e)"
  show ?case
  proof (cases outcome)
    case (Inl x)
    with Cons.prems show ?thesis
      by (cases x) (auto simp: outcome_def [symmetric] trace_of_failure_def)
  next
    case (Inr p)
    obtain o1 e1 where p: "p = (o1, e1)" by (cases p)
    show ?thesis
    proof (cases "so_passed o1")
      case False
      with Cons.prems Inr p show ?thesis by (auto simp: outcome_def [symmetric] trace_of_failure_def)
    next
      case True
      define t where "t = \<lparr>tr_step_id = step_id_of s, tr_passed = so_passed o1, tr_reason_code = so_reason_code o1,
        tr_evidence = so_evidence o1\<rparr>"
      from Cons.prems Inr p True have "run_steps on_step c iid ss e1 (tr0 @ [t]) = (tr, e', failure)"
        by (simp add: outcome_def [symmetric] t_def)
      from Cons.IH [OF this] obtain ts where ts: "tr = (tr0 @ [t]) @ ts" "trace_of_failure ts failure"
        "failure = None \<longrightarrow> length ts = length ss" "map tr_step_id ts = map step_id_of (take (length ts) ss)" by blast
      have "tr_passed t" by (simp add: t_def True)
      with ts show ?thesis by (intro exI [of _ "t # ts"]) (auto simp: trace_of_failure_Cons t_def)
    qed
  qed
qed

text \<open>A decision and the trace it carries.\<close>

definition sound_decision :: "plan_flow \<Rightarrow> instrument_decision \<Rightarrow> bool" where
  "sound_decision f d \<longleftrightarrow>
     (let tr = de_trace d in
      map tr_step_id tr = map step_id_of (take (length tr) (pfl_condition_steps f)) \<and>
      (if de_status d = CANDIDATE
       then length tr = length (pfl_condition_steps f) \<and> list_all tr_passed tr \<and>
         de_first_failure_step_id d = None \<and> de_reference_price d \<noteq> None
       else tr \<noteq> [] \<and> list_all tr_passed (butlast tr) \<and> \<not> tr_passed (last tr) \<and>
         de_first_failure_step_id d = Some (tr_step_id (last tr)) \<and>
         de_first_failure_reason d = Some (tr_reason_code (last tr)) \<and> de_reference_price d = None))"

lemma evaluate_instrument_cases:
  assumes "evaluate_instrument on_step p f iid (Some inputs) as_of evaluations = Inr (d, evaluations')"
  obtains (failed) e0 tr e status step_id reason where
    "run_steps on_step (cp_catalog p) iid (pfl_condition_steps f) e0 [] = (tr, e, Some (status, step_id, reason))"
    "d = failed_decision f iid status tr step_id reason"
  | (candidate) e0 tr e price where
    "run_steps on_step (cp_catalog p) iid (pfl_condition_steps f) e0 [] = (tr, e, None)"
    "d = \<lparr>de_flow_id = pfl_flow_id f, de_instrument_id = iid, de_side = pfl_side f,
       de_status = CANDIDATE, de_trace = tr, de_first_failure_step_id = None,
       de_first_failure_reason = None, de_buy_allocation = None, de_reference_price = Some price\<rparr>"
proof -
  from assms obtain e0 where
    e0: "map_err RuntimeElementError (element_evaluation_new iid as_of inputs) = Inr e0"
    unfolding evaluate_instrument_def option.case by (rule ebind_InrE)
  obtain tr e failure where r: "run_steps on_step (cp_catalog p) iid (pfl_condition_steps f) e0 [] = (tr, e, failure)"
    by (metis prod_cases3)
  show ?thesis
  proof (cases failure)
    case None
    with assms r e0 obtain price where
      "d = \<lparr>de_flow_id = pfl_flow_id f, de_instrument_id = iid, de_side = pfl_side f,
       de_status = CANDIDATE, de_trace = tr, de_first_failure_step_id = None,
       de_first_failure_reason = None, de_buy_allocation = None, de_reference_price = Some price\<rparr>"
      by (auto simp: evaluate_instrument_def ebind_eq_Inr)
    with None r show ?thesis by (intro candidate [of e0 tr e price]) simp_all
  next
    case (Some x)
    obtain status step_id reason where "x = (status, step_id, reason)" by (metis prod_cases3)
    moreover from this Some assms r e0 have "d = failed_decision f iid status tr step_id reason"
      by (simp add: evaluate_instrument_def)
    ultimately show ?thesis using Some r by (intro failed) simp_all
  qed
qed

lemma evaluate_instrument_sound:
  assumes "evaluate_instrument on_step p f iid (Some inputs) as_of evaluations = Inr (d, evaluations')"
  shows "sound_decision f d"
  using assms
proof (cases rule: evaluate_instrument_cases)
  case failed
  from run_steps_trace [OF failed(1)] failed(2) show ?thesis
    by (auto simp: trace_of_failure_def sound_decision_def failed_decision_def Let_def)
next
  case candidate
  from run_steps_trace [OF candidate(1)] candidate(2) show ?thesis
    by (auto simp: trace_of_failure_def sound_decision_def Let_def)
qed

section \<open>Buy shares\<close>

lemma evaluate_instrument_flow:
  assumes "evaluate_instrument on_step p f iid inputs as_of evaluations = Inr (d, evaluations')"
  shows "de_flow_id d = pfl_flow_id f"
proof (cases inputs)
  case None
  with assms show ?thesis by (auto simp: evaluate_instrument_def failed_decision_def)
next
  case (Some i)
  from assms [unfolded Some] show ?thesis
    by (cases rule: evaluate_instrument_cases) (simp_all add: failed_decision_def)
qed

lemma evaluate_flow_flow:
  assumes "evaluate_flow on_step p f inputs as_of ids evaluations = Inr (ds, evaluations')"
  shows "\<forall>d\<in>set ds. de_flow_id d = pfl_flow_id f"
  using assms
proof (induction ids arbitrary: evaluations ds)
  case (Cons iid ids)
  then obtain d ev ds' where "evaluate_instrument on_step p f iid (inputs iid) as_of evaluations = Inr (d, ev)"
    "evaluate_flow on_step p f inputs as_of ids ev = Inr (ds', evaluations')" "ds = d # ds'"
    by (auto simp: err_simps)
  with Cons.IH evaluate_instrument_flow show ?case by fastforce
qed simp

lemma allocate_equally_flow: "map de_flow_id (allocate_equally ds side) = map de_flow_id ds"
  by (simp add: allocate_equally_def Let_def)

lemma allocated_flow:
  assumes "evaluate_flow on_step p f inputs as_of ids evaluations = Inr (ds, evaluations')"
    and "d \<in> set (allocate_equally ds side)"
  shows "de_flow_id d = pfl_flow_id f"
proof -
  from assms(2) have "de_flow_id d \<in> set (map de_flow_id (allocate_equally ds side))" by simp
  with evaluate_flow_flow [OF assms(1)] show ?thesis unfolding allocate_equally_flow by auto
qed

lemma execute_flows_split:
  assumes "execute_flows on_step p inputs as_of fs evaluations = Inr (ds, evaluations')"
    and "f \<in> set fs" "distinct (map pfl_flow_id fs)"
  shows "\<exists>own ids ev ev'. evaluate_flow on_step p f inputs as_of ids ev = Inr (own, ev') \<and>
    filter (\<lambda>d. de_flow_id d = pfl_flow_id f) ds = allocate_equally own (pfl_side f)"
  using assms
proof (induction fs arbitrary: evaluations ds evaluations')
  case (Cons g fs)
  from Cons.prems(1) obtain ids own ev rest ev' where
    own: "evaluate_flow on_step p g inputs as_of ids evaluations = Inr (own, ev)"
    and rest: "execute_flows on_step p inputs as_of fs ev = Inr (rest, ev')"
    and ds: "ds = allocate_equally own (pfl_side g) @ rest"
    by (auto simp: err_simps)
  have g: "de_flow_id d = pfl_flow_id g" if "d \<in> set (allocate_equally own (pfl_side g))" for d
    using that by (rule allocated_flow [OF own])
  have others: "de_flow_id ` set rest \<subseteq> pfl_flow_id ` set fs"
    using rest
  proof (induction fs arbitrary: ev rest)
    case (Cons h hs)
    from Cons.prems obtain ids own ev1 rest1 where
      h: "evaluate_flow on_step p h inputs as_of ids ev = Inr (own, ev1)"
      and r1: "execute_flows on_step p inputs as_of hs ev1 = Inr (rest1, ev')"
      and "rest = allocate_equally own (pfl_side h) @ rest1"
      by (auto simp: err_simps)
    with Cons.IH [OF r1] show ?case by (auto dest: allocated_flow [OF h])
  qed simp
  show ?case
  proof (cases "f = g")
    case True
    with Cons.prems(3) others have "pfl_flow_id f \<notin> de_flow_id ` set rest" by auto
    then have "filter (\<lambda>d. de_flow_id d = pfl_flow_id f) rest = []"
      by (auto simp: filter_empty_conv image_iff)
    with True g own show ?thesis by (intro exI) (auto simp: ds filter_id_conv)
  next
    case False
    with Cons.prems(2,3) have f: "f \<in> set fs" "pfl_flow_id f \<noteq> pfl_flow_id g" by (auto simp: image_iff)
    with g have "filter (\<lambda>d. de_flow_id d = pfl_flow_id f) (allocate_equally own (pfl_side g)) = []"
      by (auto simp: filter_empty_conv)
    with Cons.IH [OF rest f(1)] Cons.prems(3) show ?thesis by (simp add: ds)
  qed
qed simp

lemma allocate_equally_shares:
  assumes "side = ''BUY''" "cands = filter (\<lambda>d. de_status d = CANDIDATE) (allocate_equally ds side)"
  shows "map de_buy_allocation cands = replicate (length cands) (Some (1 / of_nat (length cands)))"
proof -
  define n where "n = length (filter (\<lambda>d. de_status d = CANDIDATE) ds)"
  have st: "filter (\<lambda>d. de_status d = CANDIDATE)
      (map (\<lambda>d. if de_status d = CANDIDATE then d\<lparr>de_buy_allocation := x\<rparr> else d) ds)
    = map (\<lambda>d. d\<lparr>de_buy_allocation := x\<rparr>) (filter (\<lambda>d. de_status d = CANDIDATE) ds)" for x
    by (induction ds) auto
  show ?thesis
  proof (cases "n = 0")
    case True
    with assms show ?thesis by (auto simp: allocate_equally_def n_def Let_def filter_empty_conv)
  next
    case False
    with assms have c: "cands = map (\<lambda>d. d\<lparr>de_buy_allocation := Some (1 / of_nat n)\<rparr>)
        (filter (\<lambda>d. de_status d = CANDIDATE) ds)"
      by (simp add: allocate_equally_def n_def [symmetric] Let_def st)
    then have "length cands = n" by (simp add: n_def)
    then show ?thesis by (simp add: c map_replicate_const comp_def)
  qed
qed

section \<open>Operands\<close>

text \<open>Only \<open>LOAD_FEATURE\<close> produces a value, and it leaves one behind; no evaluator removes it.\<close>

definition evaluator_known :: "element_spec \<Rightarrow> bool" where
  "evaluator_known spec \<longleftrightarrow>
     es_evaluator spec \<in> {evaluate_load_feature, evaluate_compare, evaluate_catalog_operation, evaluate_terminal} \<and>
     (es_produces_value spec \<longrightarrow> es_evaluator spec = evaluate_load_feature)"

lemma respec_known:
  assumes "\<And>s. evaluator_known s \<Longrightarrow> evaluator_known (f s)" "\<forall>(k, s)\<in>set specs. evaluator_known s"
  shows "\<forall>(k, s)\<in>set (respec op f specs). evaluator_known s"
  using assms by (auto simp: respec_def split: if_splits)

lemma spec_new_known [simp]:
  "evaluator_known (spec_new op req en dec ev) \<longleftrightarrow>
     ev \<in> {evaluate_load_feature, evaluate_compare, evaluate_catalog_operation, evaluate_terminal}"
  by (simp add: evaluator_known_def spec_new_def)

lemma update_known [simp]:
  "evaluator_known (s\<lparr>es_terminal := b\<rparr>) = evaluator_known s"
  "evaluator_known (s\<lparr>es_consumes_value := b\<rparr>) = evaluator_known s"
  "evaluator_known (s\<lparr>es_feature_arguments := fs\<rparr>) = evaluator_known s"
  "evaluator_known (s\<lparr>es_minimum_arguments := m\<rparr>) = evaluator_known s"
  "evaluator_known (s\<lparr>es_exclusive_minimum_arguments := m\<rparr>) = evaluator_known s"
  "evaluator_known (s\<lparr>es_maximum_arguments := m\<rparr>) = evaluator_known s"
  "evaluator_known (s\<lparr>es_integer_arguments := ns\<rparr>) = evaluator_known s"
  by (simp_all add: evaluator_known_def)

lemma specs_known:
  "\<forall>(k, s)\<in>set (ec_specs BASIC_ELEMENTS_2026_07_31). evaluator_known s"
  "\<forall>(k, s)\<in>set SPECS_2026_08_07. evaluator_known s"
  "\<forall>(k, s)\<in>set v2_specs. evaluator_known s"
proof -
  show "\<forall>(k, s)\<in>set (ec_specs BASIC_ELEMENTS_2026_07_31). evaluator_known s"
    by (simp add: BASIC_ELEMENTS_2026_07_31_def) (simp add: evaluator_known_def spec_new_def)
  show *: "\<forall>(k, s)\<in>set SPECS_2026_08_07. evaluator_known s"
    by (simp add: SPECS_2026_08_07_def production_spec_def)
  show "\<forall>(k, s)\<in>set v2_specs. evaluator_known s"
    unfolding v2_specs_def Let_def BASIC_ELEMENTS_2026_08_08_def BASIC_ELEMENTS_2026_08_07_def element_catalog.simps
    by (intro respec_known *) (simp_all add: V2_EMIT_ORDER_CANDIDATE_def V2_HOLDING_PERIOD_def production_spec_def)
qed

lemma catalog_spec_known:
  assumes "catalog_of_version v = Inr c" "spec_of c op = Inr spec"
  shows "evaluator_known spec"
proof -
  from assms(1) have "c \<in> {BASIC_ELEMENTS_2026_07_31, BASIC_ELEMENTS_2026_08_07, BASIC_ELEMENTS_2026_08_08, BASIC_ELEMENTS_2026_08_25}"
    by (auto simp: catalog_of_version_def ELEMENT_CATALOGS_def split: option.splits if_splits)
  then have "\<forall>(k, s)\<in>set (ec_specs c). evaluator_known s"
    using specs_known
    by (auto simp: BASIC_ELEMENTS_2026_08_07_def BASIC_ELEMENTS_2026_08_08_def BASIC_ELEMENTS_2026_08_25_def)
  with assms(2) show ?thesis by (auto simp: spec_of_def split: option.splits dest: map_of_SomeD)
qed

lemma load_feature_value:
  "evaluate_load_feature s e = Inr (o1, e') \<Longrightarrow> el_last_value e' \<noteq> None"
  unfolding evaluate_load_feature_def
  by (elim ebind_InrE) (auto simp: err_simps record_value_def Let_def split: option.splits if_splits)

lemma other_evaluators_keep:
  "evaluate_compare s e = Inr (o1, e') \<Longrightarrow> e' = e"
  "evaluate_catalog_operation s e = Inr (o1, e') \<Longrightarrow> e' = e"
  "evaluate_terminal s e \<noteq> Inr (o1, e')"
  by (auto simp: evaluate_compare_def evaluate_catalog_operation_def evaluate_terminal_def Let_def err_simps
      split: option.splits)

lemma evaluate_value:
  assumes "catalog_of_version v = Inr c" "spec_of c (ps_operation s) = Inr spec"
    and "catalog_evaluate c s e = Inr (o1, e')"
  shows "(es_produces_value spec \<or> el_last_value e \<noteq> None) \<longrightarrow> el_last_value e' \<noteq> None"
proof -
  from assms(2,3) have ev: "es_evaluator spec s e = Inr (o1, e')" by (simp add: catalog_evaluate_def)
  note known = catalog_spec_known [OF assms(1,2), unfolded evaluator_known_def]
  show ?thesis
  proof (cases "es_evaluator spec = evaluate_load_feature")
    case True
    with ev load_feature_value show ?thesis by simp
  next
    case False
    with ev known other_evaluators_keep have "e' = e" by auto
    with False known show ?thesis by simp
  qed
qed

lemma operand_check_run:
  assumes cat: "catalog_of_version v = Inr c"
    and "operand_check c produced (pre @ s # rest) = Inr ()"
    and "run_steps on_step c iid pre e tr0 = (tr, e', None)" "produced \<Longrightarrow> el_last_value e \<noteq> None"
    and "spec_of c (ps_operation s) = Inr spec" "es_consumes_value spec"
  shows "el_last_value e' \<noteq> None"
  using assms(2-4)
proof (induction pre arbitrary: produced e tr0)
  case Nil
  with assms(5,6) show ?case by (auto simp: err_simps split: if_splits)
next
  case (Cons q pre)
  from Cons.prems(2) obtain o1 e1 tr1 where q: "catalog_evaluate c q e = Inr (o1, e1)"
    and run: "run_steps on_step c iid pre e1 tr1 = (tr, e', None)"
    by (auto simp: Let_def split: option.splits sum.splits element_error.splits if_splits prod.splits)
  from Cons.prems(1) obtain sq where sq: "spec_of c (ps_operation q) = Inr sq"
    and chk: "operand_check c (produced \<or> es_produces_value sq) (pre @ s # rest) = Inr ()"
    by (auto simp: err_simps split: if_splits)
  show ?case
    using evaluate_value [OF cat sq q] Cons.prems(3) by (intro Cons.IH [OF chk run]) blast
qed

lemma load_chain_operands: "load_chain c raw = Inr (conds, terminal) \<Longrightarrow> operand_check c False conds = Inr ()"
  unfolding load_chain_def require_structure_def by (elim ebind_InrE) auto

section \<open>An example plan\<close>

definition demo_step :: plan_step where
  "demo_step = \<lparr>ps_sequence = 1, ps_operation = ''SCHEDULE'',
     ps_arguments = [(''cycle'', ''EVERY_TRADING_DAY''), (''interval'', ''1''), (''resolution'', ''1d'')]\<rparr>"

definition demo_terminal :: plan_step where
  "demo_terminal = \<lparr>ps_sequence = 2, ps_operation = ''EMIT_ORDER_CANDIDATE'',
     ps_arguments = [(''allocation'', ''EQUAL''), (''orderType'', ''MARKET''), (''timeInForce'', ''DAY''), (''side'', ''BUY''),
       (''orderPercent'', ''100''), (''executionMode'', ONCE), (''waitMode'', CONDITION_REMET),
       (''waitInterval'', ''1''), (''maxExecutions'', ''1'')]\<rparr>"

definition demo_flow :: plan_flow where
  "demo_flow = \<lparr>pfl_partition_key = ''p'', pfl_flow_id = ''f'', pfl_budget_cap_bps = 5000, pfl_side = ''BUY'',
     pfl_instrument_ids = [uuid_text 1], pfl_condition_steps = [demo_step],
     pfl_terminal_step = Some demo_terminal, pfl_allocation = ''EQUAL'',
     pfl_reference_series = (''ADJUSTED_BAR'', ''1d'')\<rparr>"

definition demo_plan :: compiled_plan where
  "demo_plan = \<lparr>cp_contract_version = CONTRACT_VERSION, cp_schema_version = PLAN_SCHEMA_VERSION,
     cp_compiler_version = COMPILER_VERSION, cp_element_catalog_version = ''basic-elements:2026-08-07'',
     cp_instrument_catalog_version = hd INSTRUMENT_CATALOG_VERSIONS, cp_required_feature_set_hash = ''h'',
     cp_plan_checksum = ''c'', cp_snapshot_schema_version = ''s'', cp_snapshot_hash = ''h'', cp_semantic_hash = ''h'',
     cp_mode = ''BASIC'', cp_currency = ''USD'', cp_initial_cash = dec_of_int 1000, cp_condition_steps = [demo_step],
     cp_terminal_step = demo_terminal, cp_side = ''BUY'', cp_order_type = ''MARKET'', cp_allocation = ''EQUAL'',
     cp_required_features = [], cp_reference_series = (''ADJUSTED_BAR'', ''1d''), cp_flows = [demo_flow],
     cp_catalog = BASIC_ELEMENTS_2026_08_07\<rparr>"

definition demo_input :: instrument_input where
  "demo_input = \<lparr>ii_instrument_id = uuid_text 1,
     ii_series = [\<lparr>is_instrument_id = uuid_text 1, is_data_kind = ''ADJUSTED_BAR'', is_resolution = ''1d'',
       is_bars = [\<lparr>sb_instrument_id = uuid_text 1, sb_resolution = ''1d'', sb_starts_at = 0,
         sb_ends_at = 86400000000, sb_close = dec_of_int 10, sb_volume = dec_of_int 5, sb_session_truncated = False\<rparr>]\<rparr>],
     ii_feature_series = [], ii_require_pinned_features = False, ii_values = [(''schedule.newTradingDay'', ''true'')]\<rparr>"

lemma demo_step_passes:
  assumes "el_inputs e = demo_input"
  shows "catalog_evaluate BASIC_ELEMENTS_2026_08_07 demo_step e =
    Inr (\<lparr>so_passed = True, so_reason_code = ''SCHEDULE_TRUE'',
      so_evidence = [(''cycle'', ''EVERY_TRADING_DAY''), (''interval'', ''1'')]\<rparr>, e)"
proof -
  have i: "py_int ''1'' = Some 1" "py_int ''0'' = Some 0" by code_simp+
  have l: "py_lower ''true'' = ''true''" "py_lower ''false'' = ''false''" "int_text 1 = ''1''" by code_simp+
  show ?thesis
    by (simp add: catalog_evaluate_def spec_of_def BASIC_ELEMENTS_2026_08_07_def SPECS_2026_08_07_def demo_step_def
        production_spec_def spec_new_def evaluate_catalog_operation_def catalog_operation_def op_schedule_def
        step_argument_def int_argument_def i l assms demo_input_def schedule_flags_def input_flag_def outcome_of_def
        step_outcome_new_def)
qed

lemma demo_id: "uuid_parse (uuid_text 1) = Some (uuid_text 1)"
  by (rule uuid_parse_uuid_text) simp

definition demo_evaluation :: element_evaluation where
  "demo_evaluation = \<lparr>el_instrument_id = uuid_text 1, el_as_of = 86400000000, el_inputs = demo_input, el_values = [],
     el_last_value = None, el_last_value_source = None\<rparr>"

lemma demo_evaluation_new:
  "element_evaluation_new (uuid_text 1) (Aware 86400000000) demo_input = Inr demo_evaluation"
  using demo_id
  by (simp add: element_evaluation_new_def el_uuid_def el_utc_def demo_evaluation_def demo_input_def)

lemma demo_steps_run:
  "\<exists>tr. run_steps (\<lambda>_ _. None) BASIC_ELEMENTS_2026_08_07 (uuid_text 1) [demo_step] demo_evaluation [] =
     (tr, demo_evaluation, None)"
  by (simp add: demo_step_passes demo_evaluation_def)

lemma demo_reference_price: "\<exists>d. candidate_reference_price demo_plan demo_flow demo_evaluation = Inr d"
  by (simp add: candidate_reference_price_def demo_plan_def demo_flow_def demo_evaluation_def demo_input_def
      series_for_def series_identity_def completed_through_def DATASET_RESOLUTION_def quantize_money_def dec_of_int_def
      quantize_to_def MONEY_QUANTUM_def NUMERIC_24_8_MAX_def NUMERIC_24_8_MIN_def working_precision_def dec_eval)

lemma demo_instrument:
  "\<exists>d e. evaluate_instrument (\<lambda>_ _. None) demo_plan demo_flow (uuid_text 1) (Some demo_input)
     (Aware 86400000000) evs = Inr (d, e) \<and> de_status d = CANDIDATE \<and> de_flow_id d = ''f''"
proof -
  from demo_steps_run obtain tr where r: "run_steps (\<lambda>_ _. None) BASIC_ELEMENTS_2026_08_07 (uuid_text 1) [demo_step] demo_evaluation [] =
     (tr, demo_evaluation, None)" ..
  from demo_reference_price obtain d where d: "candidate_reference_price demo_plan demo_flow demo_evaluation = Inr d" ..
  have p: "cp_catalog demo_plan = BASIC_ELEMENTS_2026_08_07" "pfl_condition_steps demo_flow = [demo_step]"
    "pfl_flow_id demo_flow = ''f''"
    by (simp_all add: demo_plan_def demo_flow_def)
  show ?thesis unfolding evaluate_instrument_def option.case demo_evaluation_new p r map_err_simps ebind_simps
    by (simp add: Let_def d)
qed

lemma demo_execute:
  "\<exists>r. execute_plan (\<lambda>_ _. None) demo_plan [uuid_text 1 \<mapsto> demo_input] 86400000000 = Inr r \<and>
     length (filter (\<lambda>d. de_flow_id d = ''f'' \<and> de_status d = CANDIDATE) (xr_decisions r)) = 1"
proof -
  from demo_instrument [of "[]"] obtain d e where
    d: "evaluate_instrument (\<lambda>_ _. None) demo_plan demo_flow (uuid_text 1) (Some demo_input)
     (Aware 86400000000) [] = Inr (d, e)" "de_status d = CANDIDATE" "de_flow_id d = ''f''" by blast
  have f: "cp_flows demo_plan = [demo_flow]" "pfl_instrument_ids demo_flow = [uuid_text 1]" "pfl_side demo_flow = ''BUY''"
    by (simp_all add: demo_plan_def demo_flow_def)
  have s: "sort_uuids [uuid_text 1] = Inr [uuid_text 1]"
    by (simp add: sort_uuids_def uuid_key_def demo_id [simplified])
  have i: "ii_instrument_id demo_input = uuid_text 1" by (simp add: demo_input_def)
  have flow: "evaluate_flow (\<lambda>_ _. None) demo_plan demo_flow [uuid_text 1 \<mapsto> demo_input] (Aware 86400000000) [uuid_text 1] []
      = Inr ([d], e)"
    by (simp add: i [simplified] d(1) [simplified])
  show ?thesis
    unfolding execute_plan_def f execute_flows.simps s ebind_simps flow
    by (simp add: allocate_equally_def f d)
qed

text \<open>
  C12. A decision explains itself. When an instrument has inputs, the trace of its decision lists
  the flow's condition steps in order as far as they were evaluated. A candidate's trace covers
  every step and every entry passed; otherwise exactly the last entry failed, and it is the step
  and the reason that the decision names as its first failure.
\<close>

theorem decision_trace_is_sound:
  assumes "evaluate_instrument on_step p f iid (Some inputs) as_of evaluations = Inr (d, evaluations')"
  shows "let tr = de_trace d in
    map tr_step_id tr = map step_id_of (take (length tr) (pfl_condition_steps f)) \<and>
    (if de_status d = CANDIDATE
     then length tr = length (pfl_condition_steps f) \<and> list_all tr_passed tr \<and>
       de_first_failure_step_id d = None \<and> de_reference_price d \<noteq> None
     else tr \<noteq> [] \<and> list_all tr_passed (butlast tr) \<and> \<not> tr_passed (last tr) \<and>
       de_first_failure_step_id d = Some (tr_step_id (last tr)) \<and>
       de_first_failure_reason d = Some (tr_reason_code (last tr)) \<and> de_reference_price d = None)"
  using evaluate_instrument_sound [OF assms] unfolding sound_decision_def .

theorem decision_trace_is_sound_witness:
  "\<exists>d e. evaluate_instrument (\<lambda>_ _. None) demo_plan demo_flow (uuid_text 1) (Some demo_input)
     (Aware 86400000000) [] = Inr (d, e) \<and> length (de_trace d) = 1 \<and> list_all tr_passed (de_trace d) \<and>
     de_reference_price d \<noteq> None"
proof -
  from demo_instrument [of "[]"] obtain d e where
    d: "evaluate_instrument (\<lambda>_ _. None) demo_plan demo_flow (uuid_text 1) (Some demo_input)
     (Aware 86400000000) [] = Inr (d, e)" "de_status d = CANDIDATE" by blast
  have "length (pfl_condition_steps demo_flow) = 1" by (simp add: demo_flow_def)
  with decision_trace_is_sound [OF d(1)] d show ?thesis by (auto simp: Let_def)
qed

text \<open>
  C11. The budget of a buy flow is shared out exactly. In the result of \<open>execute\<close> on a plan
  whose flows have different keys, the candidates of a \<open>BUY\<close> flow carry equal shares, and the
  shares of a flow with a candidate sum to exactly one, with no rounding.
\<close>

theorem buy_shares_sum_to_one:
  assumes "execute_plan on_step p inputs t = Inr r" "distinct (map pfl_flow_id (cp_flows p))"
    "f \<in> set (cp_flows p)" "pfl_side f = ''BUY''"
    "cands = filter (\<lambda>d. de_flow_id d = pfl_flow_id f \<and> de_status d = CANDIDATE) (xr_decisions r)" "cands \<noteq> []"
  shows "\<exists>share. map de_buy_allocation cands = replicate (length cands) (Some share) \<and> share * of_nat (length cands) = 1"
proof -
  from assms(1) obtain ev where ex: "execute_flows on_step p inputs (Aware t) (cp_flows p) [] = Inr (xr_decisions r, ev)"
    by (auto simp: execute_plan_def err_simps)
  from execute_flows_split [OF ex assms(3,2)] obtain own where
    own: "filter (\<lambda>d. de_flow_id d = pfl_flow_id f) (xr_decisions r) = allocate_equally own (pfl_side f)" by blast
  have "cands = filter (\<lambda>d. de_status d = CANDIDATE) (filter (\<lambda>d. de_flow_id d = pfl_flow_id f) (xr_decisions r))"
    unfolding assms(5) filter_filter by (rule filter_cong) auto
  then have "map de_buy_allocation cands = replicate (length cands) (Some (1 / of_nat (length cands)))"
    unfolding own by (rule allocate_equally_shares [OF assms(4)])
  with assms(6) show ?thesis by (intro exI [of _ "1 / of_nat (length cands)"]) simp
qed

theorem buy_shares_sum_to_one_witness:
  "\<exists>r. execute_plan (\<lambda>_ _. None) demo_plan [uuid_text 1 \<mapsto> demo_input] 86400000000 = Inr r \<and>
     map de_buy_allocation (filter (\<lambda>d. de_flow_id d = ''f'' \<and> de_status d = CANDIDATE) (xr_decisions r)) = [Some 1]"
proof -
  from demo_execute obtain r where
    r: "execute_plan (\<lambda>_ _. None) demo_plan [uuid_text 1 \<mapsto> demo_input] 86400000000 = Inr r"
    and n: "length (filter (\<lambda>d. de_flow_id d = ''f'' \<and> de_status d = CANDIDATE) (xr_decisions r)) = 1" by blast
  have f: "cp_flows demo_plan = [demo_flow]" "pfl_side demo_flow = ''BUY''" "pfl_flow_id demo_flow = ''f''"
    by (simp_all add: demo_plan_def demo_flow_def)
  have dist: "distinct (map pfl_flow_id (cp_flows demo_plan))" "demo_flow \<in> set (cp_flows demo_plan)" by (simp_all add: f)
  have ne: "filter (\<lambda>d. de_flow_id d = pfl_flow_id demo_flow \<and> de_status d = CANDIDATE) (xr_decisions r) \<noteq> []"
    using n unfolding f by (metis list.size(3) zero_neq_one)
  from buy_shares_sum_to_one [OF r dist f(2) refl ne] obtain share where
    s: "map de_buy_allocation (filter (\<lambda>d. de_flow_id d = ''f'' \<and> de_status d = CANDIDATE) (xr_decisions r)) = [Some share]"
    "share = 1"
    unfolding f n by auto
  with r show ?thesis by simp
qed

definition demo_load :: plan_step where
  "demo_load = \<lparr>ps_sequence = 1, ps_operation = ''LOAD_FEATURE'',
     ps_arguments = [(''feature'', ''RSI_14''), (''resolution'', ''1m'')]\<rparr>"

definition demo_compare :: plan_step where
  "demo_compare = \<lparr>ps_sequence = 2, ps_operation = ''COMPARE'',
     ps_arguments = [(''operator'', ''LT''), (''threshold'', ''30'')]\<rparr>"

definition demo_emit :: plan_step where
  "demo_emit = \<lparr>ps_sequence = 3, ps_operation = ''EMIT_ORDER_CANDIDATE'',
     ps_arguments = [(''allocation'', ''EQUAL''), (''orderType'', ''MARKET''), (''side'', ''BUY'')]\<rparr>"

definition demo_rsi_input :: instrument_input where
  "demo_rsi_input = \<lparr>ii_instrument_id = uuid_text 1, ii_series = [],
     ii_feature_series = [\<lparr>pf_feature_id = ''RSI_14'', pf_instrument_id = uuid_text 1, pf_resolution = ''1m'',
       pf_values = [\<lparr>pv_bar_start_at = 0, pv_value = Dec False 2500000000 (- 8)\<rparr>]\<rparr>],
     ii_require_pinned_features = True, ii_values = []\<rparr>"

definition demo_rsi_evaluation :: element_evaluation where
  "demo_rsi_evaluation = \<lparr>el_instrument_id = uuid_text 1, el_as_of = 60000000, el_inputs = demo_rsi_input,
     el_values = [], el_last_value = None, el_last_value_source = None\<rparr>"

lemma demo_load_runs:
  "\<exists>tr e. run_steps (\<lambda>_ _. None) BASIC_ELEMENTS_2026_07_31 (uuid_text 1) [demo_load] demo_rsi_evaluation [] = (tr, e, None)"
  by (simp add: catalog_evaluate_def spec_of_def BASIC_ELEMENTS_2026_07_31_def spec_new_def demo_load_def
      evaluate_load_feature_def step_argument_def feature_definition_def FEATURE_REGISTRY_def RSI_14_DEFINITION_def
      demo_rsi_evaluation_def demo_rsi_input_def feature_series_for_def feature_identity_def pinned_value_at_def
      element_period_def RESOLUTION_PERIODS_def step_outcome_new_def)

lemma demo_chain_loads:
  "load_chain BASIC_ELEMENTS_2026_07_31 [demo_load, demo_compare, demo_emit] = Inr ([demo_load, demo_compare], demo_emit)"
proof -
  have "parse_decimal ''30'' = Some (FiniteDec (Dec False 30 0))" by code_simp
  then show ?thesis
    by (simp add: load_chain_def plan_step_new_def demo_load_def demo_compare_def demo_emit_def validate_step_def
        spec_of_def BASIC_ELEMENTS_2026_07_31_def spec_new_def SUPPORTED_RESOLUTIONS_def RESOLUTION_PERIODS_def
        operator_names_def COMPARISON_OPERATORS_def parse_decimal_argument_def step_argument_def check_bounds_def
        check_integers_def require_feature_def TERMINAL_ALLOCATIONS_def TERMINAL_ORDER_TYPES_def TERMINAL_SIDES_def
        require_structure_def)
qed

text \<open>
  C29. A chain the loader accepts never evaluates an element without its operand: when the steps
  that precede a value-consuming step (\<open>COMPARE\<close>) have all passed, the scratchpad holds a value for
  it, in every catalog version.
\<close>

theorem loaded_chain_has_operands:
  assumes "catalog_of_version v = Inr c" "load_chain c raw = Inr (pre @ s # rest, terminal)"
    "run_steps on_step c iid pre e tr0 = (tr, e', None)"
    "spec_of c (ps_operation s) = Inr spec" "es_consumes_value spec"
  shows "\<exists>x. require_operand e' (ps_operation s) = Inr x"
proof -
  have "el_last_value e' \<noteq> None"
    by (rule operand_check_run [OF assms(1) load_chain_operands [OF assms(2)] assms(3) _ assms(4,5)]) simp
  then show ?thesis by (auto simp: require_operand_def)
qed

theorem loaded_chain_has_operands_witness:
  "\<exists>tr e x. run_steps (\<lambda>_ _. None) BASIC_ELEMENTS_2026_07_31 (uuid_text 1) [demo_load] demo_rsi_evaluation [] =
       (tr, e, None) \<and> require_operand e ''COMPARE'' = Inr x"
proof -
  from demo_load_runs obtain tr e where r: "run_steps (\<lambda>_ _. None) BASIC_ELEMENTS_2026_07_31 (uuid_text 1)
    [demo_load] demo_rsi_evaluation [] = (tr, e, None)" by blast
  have c: "catalog_of_version ''basic-elements:2026-07-31'' = Inr BASIC_ELEMENTS_2026_07_31"
    by (simp add: catalog_of_version_def ELEMENT_CATALOGS_def) (simp add: BASIC_ELEMENTS_2026_07_31_def)
  have l: "load_chain BASIC_ELEMENTS_2026_07_31 [demo_load, demo_compare, demo_emit] =
    Inr ([demo_load] @ demo_compare # [], demo_emit)" by (simp add: demo_chain_loads)
  obtain spec where s: "spec_of BASIC_ELEMENTS_2026_07_31 (ps_operation demo_compare) = Inr spec" "es_consumes_value spec"
    by (simp add: spec_of_def BASIC_ELEMENTS_2026_07_31_def spec_new_def demo_compare_def)
  have "ps_operation demo_compare = ''COMPARE''" by (simp add: demo_compare_def)
  with loaded_chain_has_operands [OF c l r s] r show ?thesis by metis
qed

end
