(* ===== verification/Replay_Gate.thy ===== *)
theory Replay_Gate
  imports Plan_Replay Runtime_Rules
begin

text \<open>
  The execution gate of the replay over whole runs: what one evaluation does to the counters, how a
  published position identity decides which counters survive, and how often a flow can trade an
  instrument while that identity stays the same.
\<close>

section \<open>Counting gates\<close>

text \<open>
  A gate that counts what it lets through: the contract the policy needs of one counter, and what
  it gives for any sequence of requests.
\<close>

locale counting_gate =
  fixes ask :: "'c \<Rightarrow> 's \<Rightarrow> bool \<times> 's" and count :: "'s \<Rightarrow> int" and limit :: "'c \<Rightarrow> int"
  assumes granted: "ask c s = (True, s') \<Longrightarrow> count s < limit c \<and> count s' = count s + 1"
    and refused: "ask c s = (False, s') \<Longrightarrow> count s' = count s"
begin

lemma count_ask: "ask c s = (ok, s') \<Longrightarrow> count s' = count s + (if ok then 1 else 0)"
  by (cases ok) (auto dest: granted refused)

lemma count_bounded: "ask c s = (ok, s') \<Longrightarrow> count s \<le> n \<Longrightarrow> limit c \<le> n \<Longrightarrow> count s' \<le> n"
  by (cases ok) (auto dest: granted refused)

end

interpretation policy_gate: counting_gate "\<lambda>(c, i). accepts c i" xs_executions "\<lambda>(c, i). execution_limit c"
  by unfold_locales
    (auto simp: accepts_def count_bar_def Let_def split: if_splits)

lemma executions_observe [simp]: "xs_executions (observe_non_candidate status x) = xs_executions x"
  by (simp add: observe_non_candidate_def count_bar_def Let_def)

lemma state_of_put: "state_of (dict_put k x states) j = (if j = k then x else state_of states j)"
  by (simp add: state_of_def)

lemma observe_decisions_executions:
  "xs_executions (state_of (observe_decisions keys ds states) k) = xs_executions (state_of states k)"
  by (induction keys ds states rule: observe_decisions.induct) (simp_all add: state_of_put)

definition accepted_for :: "gate_key \<Rightarrow> 't order_candidate list \<Rightarrow> int" where
  "accepted_for k cs = int (length (filter (\<lambda>c. candidate_key c = k) cs))"

lemma filter_accepted_counts:
  assumes "filter_accepted index cs states = (acc, states')"
  shows "xs_executions (state_of states' k) = xs_executions (state_of states k) + accepted_for k acc"
  using assms
proof (induction cs arbitrary: states acc)
  case (Cons c cs)
  obtain ok x where x: "accepts c (index (oc_session_date_et c)) (state_of states (candidate_key c)) = (ok, x)"
    by (cases "accepts c (index (oc_session_date_et c)) (state_of states (candidate_key c))")
  from Cons.prems x obtain rest where
    rest: "filter_accepted index cs (dict_put (candidate_key c) x states) = (rest, states')"
    and acc: "acc = (if ok then c # rest else rest)"
    by (auto simp: Let_def split: prod.splits)
  from policy_gate.count_ask [of "(c, index (oc_session_date_et c))"] x
  have "xs_executions x = xs_executions (state_of states (candidate_key c)) + (if ok then 1 else 0)" by simp
  with Cons.IH [OF rest] show ?case by (auto simp: acc accepted_for_def state_of_put)
qed (simp add: accepted_for_def)

lemma filter_accepted_bounded:
  assumes "filter_accepted index cs states = (acc, states')"
    and "\<forall>c\<in>set acc. candidate_key c = k \<longrightarrow> execution_limit c \<le> n"
  shows "accepted_for k acc = 0 \<or> xs_executions (state_of states' k) \<le> n"
  using assms
proof (induction cs arbitrary: states acc)
  case (Cons c cs)
  obtain ok x where x: "accepts c (index (oc_session_date_et c)) (state_of states (candidate_key c)) = (ok, x)"
    by (cases "accepts c (index (oc_session_date_et c)) (state_of states (candidate_key c))")
  from Cons.prems(1) x obtain rest where
    rest: "filter_accepted index cs (dict_put (candidate_key c) x states) = (rest, states')"
    and acc: "acc = (if ok then c # rest else rest)"
    by (auto simp: Let_def split: prod.splits)
  have ih: "accepted_for k rest = 0 \<or> xs_executions (state_of states' k) \<le> n"
    using Cons.IH [OF rest] Cons.prems(2) by (auto simp: acc split: if_splits)
  show ?case
  proof (cases "ok \<and> candidate_key c = k \<and> accepted_for k rest = 0")
    case True
    with policy_gate.granted [of "(c, index (oc_session_date_et c))" "state_of states k" x] x
    have "xs_executions x \<le> execution_limit c" by simp
    moreover have "xs_executions (state_of states' k) = xs_executions x"
      using filter_accepted_counts [OF rest, of k] True by (simp add: state_of_put)
    ultimately show ?thesis using True Cons.prems(2) by (simp add: acc)
  next
    case False
    with ih show ?thesis by (auto simp: acc accepted_for_def)
  qed
qed (simp add: accepted_for_def)

section \<open>Position identities\<close>

text \<open>The identity a step publishes for an instrument, and the one the replay remembers.\<close>

definition position_identity :: "(string \<times> texts) list \<Rightarrow> string \<Rightarrow> string option" where
  "position_identity rv iid = (case map_of rv iid of Some values \<Rightarrow> map_of values ''position.openedAt'' | None \<Rightarrow> None)"

definition known_identity :: "replay_memory \<Rightarrow> string \<Rightarrow> string option" where
  "known_identity m iid = (case map_of (mem_position_identities m) iid of Some v \<Rightarrow> v | None \<Rightarrow> None)"

definition gate_state :: "replay_memory \<Rightarrow> gate_key \<Rightarrow> execution_state" where
  "gate_state m k = state_of (mem_execution_states m) k"

lemma map_of_filter_key: "map_of (filter (\<lambda>(k, _). P k) xs) k = (if P k then map_of xs k else None)"
  by (induction xs) auto

lemma retire_one_identity:
  "known_identity (retire_one observed j m) iid =
     (if iid = j then (case map_of observed j of Some v \<Rightarrow> v | None \<Rightarrow> None) else known_identity m iid)"
  by (auto simp: retire_one_def known_identity_def Let_def)

lemma retire_one_state:
  "gate_state (retire_one observed j m) k =
     (if snd k = j \<and> known_identity m j \<noteq> (case map_of observed j of Some v \<Rightarrow> v | None \<Rightarrow> None)
      then execution_state_new else gate_state m k)"
  using map_of_filter_key [of "\<lambda>k. snd k \<noteq> j" "mem_execution_states m" k]
  by (auto simp: retire_one_def known_identity_def gate_state_def state_of_def Let_def)

lemma retire_all:
  fixes observed m
  defines "current \<equiv> (\<lambda>iid. case map_of observed iid of Some v \<Rightarrow> v | None \<Rightarrow> None)"
  shows "known_identity (fold (retire_one observed) ids m) iid = (if iid \<in> set ids then current iid else known_identity m iid)"
    "gate_state (fold (retire_one observed) ids m) k =
      (if snd k \<in> set ids \<and> known_identity m (snd k) \<noteq> current (snd k) then execution_state_new else gate_state m k)"
  unfolding current_def
  by (induction ids arbitrary: m) (auto simp: retire_one_identity retire_one_state)

lemma observed_identity:
  "(case map_of (map (\<lambda>(iid, values). (iid, map_of values ''position.openedAt'')) rv) iid of Some v \<Rightarrow> v | None \<Rightarrow> None) =
     position_identity rv iid"
  by (induction rv) (auto simp: position_identity_def)

lemma unseen_identities:
  assumes "iid \<notin> set (map fst (mem_position_identities m) @ map fst rv)"
  shows "known_identity m iid = None" "position_identity rv iid = None"
proof -
  have "map_of (mem_position_identities m) iid = None" "map_of rv iid = None"
    using assms by (simp_all add: map_of_eq_None_iff)
  then show "known_identity m iid = None" "position_identity rv iid = None"
    by (simp_all add: known_identity_def position_identity_def)
qed

lemma retire_identity: "known_identity (retire_closed_position_gates rv m) iid = position_identity rv iid"
  using unseen_identities [of iid m rv]
  by (auto simp: retire_closed_position_gates_def retire_all(1) observed_identity case_prod_beta comp_def)

lemma retire_state:
  "gate_state (retire_closed_position_gates rv m) k =
     (if known_identity m (snd k) = position_identity rv (snd k) then gate_state m k else execution_state_new)"
  using unseen_identities [of "snd k" m rv]
  by (auto simp: retire_closed_position_gates_def retire_all(2) observed_identity case_prod_beta comp_def)

lemma retire_session_date:
  "retire_closed_position_gates rv (m\<lparr>mem_last_schedule_session_date := d\<rparr>) =
     (retire_closed_position_gates rv m)\<lparr>mem_last_schedule_session_date := d\<rparr>"
proof -
  have one: "retire_one ob j (m\<lparr>mem_last_schedule_session_date := d\<rparr>) =
      (retire_one ob j m)\<lparr>mem_last_schedule_session_date := d\<rparr>" for ob j and m :: replay_memory
    by (simp add: retire_one_def Let_def)
  have "fold (retire_one ob) ids (m\<lparr>mem_last_schedule_session_date := d\<rparr>) =
      (fold (retire_one ob) ids m)\<lparr>mem_last_schedule_session_date := d\<rparr>" for ob ids
    by (induction ids arbitrary: m) (simp_all add: one)
  then show ?thesis by (simp add: retire_closed_position_gates_def Let_def)
qed

lemma gate_session_date [simp]:
  "gate_state (m\<lparr>mem_last_schedule_session_date := d\<rparr>) = gate_state m"
  "known_identity (m\<lparr>mem_last_schedule_session_date := d\<rparr>) = known_identity m"
  by (simp_all add: gate_state_def known_identity_def fun_eq_iff)

section \<open>One evaluation\<close>

lemma schedule_values_memory:
  assumes "schedule_values et_date r t m = Inr (shared, m1)"
  obtains "m1 = m" | d where "m1 = m\<lparr>mem_last_schedule_session_date := d\<rparr>"
  using assms by (auto simp: schedule_values_def err_simps Let_def split: option.splits)

text \<open>The part of \<open>evaluate\<close> that turns decisions into accepted candidates.\<close>

definition policy_step ::
  "replay \<Rightarrow> (string \<times> texts) list \<Rightarrow> execution_result \<Rightarrow> string \<Rightarrow> session option \<Rightarrow> instant option \<Rightarrow> replay_memory
     \<Rightarrow> runtime_error + instant order_candidate list \<times> replay_memory" where
  "policy_step r rv result evaluation_id candidate_session eligible_at m =
     (case candidate_session of
        None \<Rightarrow> Inr ([], m)
      | Some s \<Rightarrow>
          ebind (order_candidates (rp_plan r) result evaluation_id (ts_date s) (ts_closes_at s) eligible_at) (\<lambda>candidates.
          let m2 = retire_closed_position_gates rv m;
              (accepted, states) = apply_execution_policy (cp_catalog (rp_plan r))
                (map_of (rp_session_index_by_date r)) (xr_decisions result) candidates (mem_execution_states m2)
          in Inr (accepted, m2\<lparr>mem_execution_states := states\<rparr>)))"

text \<open>Either an evaluation leaves the gate alone and trades nothing, or it applies the policy after retiring.\<close>

lemma evaluate_at_gate:
  assumes "evaluate_at et_date uuid5 on_step r rv t visible m = Inr (e, m')"
  obtains "pe_candidates e = []" "gate_state m' = gate_state m" "known_identity m' = known_identity m"
    | ds cs where "apply_execution_policy (cp_catalog (rp_plan r)) (map_of (rp_session_index_by_date r)) ds cs
        (mem_execution_states (retire_closed_position_gates rv m)) = (pe_candidates e, mem_execution_states m')"
      "known_identity m' = position_identity rv"
proof -
  obtain session status where st: "status_at et_date (rp_schedule r) t = (session, status)"
    by (cases "status_at et_date (rp_schedule r) t")
  from assms obtain allowed where al: "map_err RuntimeAvailabilityError (is_evaluation_allowed (rp_gate r) t) = Inr allowed"
    by (auto simp: evaluate_at_def st Let_def ebind_eq_Inr)
  show thesis
  proof (cases allowed)
    case False
    with assms al show thesis by (intro that(1)) (auto simp: evaluate_at_def st Let_def)
  next
    case True
    have "\<exists>shared m1 result candidate_session eligible_at. schedule_values et_date r t m = Inr (shared, m1) \<and>
        policy_step r rv result (plan_evaluation_id uuid5 (rp_plan r) t) candidate_session eligible_at m1 = Inr (pe_candidates e, m')"
      using assms al True
      by (clarsimp simp: evaluate_at_def st Let_def ebind_eq_Inr policy_step_def [symmetric]) blast
    then obtain shared m1 result candidate_session eligible_at where
      sv: "schedule_values et_date r t m = Inr (shared, m1)"
      and body: "policy_step r rv result (plan_evaluation_id uuid5 (rp_plan r) t) candidate_session eligible_at m1 = Inr (pe_candidates e, m')"
      by blast
    have m1: "gate_state m1 = gate_state m" "known_identity m1 = known_identity m"
      "mem_execution_states (retire_closed_position_gates rv m1) = mem_execution_states (retire_closed_position_gates rv m)"
      using sv by (rule schedule_values_memory, simp_all add: retire_session_date)+
    let ?policy = "\<lambda>cs. apply_execution_policy (cp_catalog (rp_plan r)) (map_of (rp_session_index_by_date r))
      (xr_decisions result) cs (mem_execution_states (retire_closed_position_gates rv m1))"
    show thesis
    proof (cases candidate_session)
      case None
      with body m1 show thesis by (intro that(1)) (simp_all add: policy_step_def)
    next
      case (Some s)
      with body obtain cs where "fst (?policy cs) = pe_candidates e"
        "m' = (retire_closed_position_gates rv m1)\<lparr>mem_execution_states := snd (?policy cs)\<rparr>"
        by (auto simp: policy_step_def ebind_eq_Inr Let_def case_prod_beta)
      then have "?policy cs = (pe_candidates e, mem_execution_states m')"
        "mem_position_identities m' = mem_position_identities (retire_closed_position_gates rv m1)"
        by (simp_all add: prod_eq_iff)
      with m1 retire_identity [of rv m1] show thesis
        by (intro that(2)) (auto simp: known_identity_def fun_eq_iff)
    qed
  qed
qed

lemma policy_counts:
  assumes "ec_execution_gate catalog" "apply_execution_policy catalog index ds cs states = (acc, states')"
  shows "xs_executions (state_of states' k) = xs_executions (state_of states k) + accepted_for k acc"
    "\<forall>c\<in>set acc. candidate_key c = k \<longrightarrow> execution_limit c \<le> n \<Longrightarrow>
      accepted_for k acc = 0 \<or> xs_executions (state_of states' k) \<le> n"
proof -
  from assms have f: "filter_accepted index cs (observe_decisions (set (map candidate_key cs)) ds states) = (acc, states')"
    by (simp add: apply_execution_policy_def)
  show "xs_executions (state_of states' k) = xs_executions (state_of states k) + accepted_for k acc"
    using filter_accepted_counts [OF f] by (simp add: observe_decisions_executions)
  show "accepted_for k acc = 0 \<or> xs_executions (state_of states' k) \<le> n"
    if "\<forall>c\<in>set acc. candidate_key c = k \<longrightarrow> execution_limit c \<le> n"
    using filter_accepted_bounded [OF f that] .
qed

text \<open>What the gate of a key has granted under an identity; nothing once the identity changed.\<close>

definition granted_in :: "string option \<Rightarrow> gate_key \<Rightarrow> replay_memory \<Rightarrow> int" where
  "granted_in v k m = (if known_identity m (snd k) = v then xs_executions (gate_state m k) else 0)"

lemma evaluate_at_grants:
  assumes "evaluate_at et_date uuid5 on_step r rv t visible m = Inr (e, m')" "ec_execution_gate (cp_catalog (rp_plan r))"
  shows "granted_in (position_identity rv (snd k)) k m' =
      granted_in (position_identity rv (snd k)) k m + accepted_for k (pe_candidates e)"
    "\<forall>c\<in>set (pe_candidates e). candidate_key c = k \<longrightarrow> execution_limit c \<le> n \<Longrightarrow>
      accepted_for k (pe_candidates e) = 0 \<or> granted_in (position_identity rv (snd k)) k m' \<le> n"
    "(\<And>k. 0 \<le> xs_executions (gate_state m k)) \<Longrightarrow> 0 \<le> xs_executions (gate_state m' k)"
proof -
  have fresh: "xs_executions execution_state_new = 0" by (simp add: execution_state_new_def)
  have nn: "0 \<le> accepted_for k acc" for k and acc :: "instant order_candidate list" by (simp add: accepted_for_def)
  let ?v = "position_identity rv (snd k)"
  have cases: "pe_candidates e = [] \<and> gate_state m' = gate_state m \<and> known_identity m' = known_identity m \<or>
      known_identity m' = position_identity rv \<and>
      xs_executions (gate_state m' k) = granted_in ?v k m + accepted_for k (pe_candidates e) \<and>
      ((\<forall>c\<in>set (pe_candidates e). candidate_key c = k \<longrightarrow> execution_limit c \<le> n) \<longrightarrow>
        accepted_for k (pe_candidates e) = 0 \<or> xs_executions (gate_state m' k) \<le> n)"
  proof (rule evaluate_at_gate [OF assms(1)])
    fix ds cs
    assume p: "apply_execution_policy (cp_catalog (rp_plan r)) (map_of (rp_session_index_by_date r)) ds cs
        (mem_execution_states (retire_closed_position_gates rv m)) = (pe_candidates e, mem_execution_states m')"
      and v: "known_identity m' = position_identity rv"
    have "xs_executions (gate_state (retire_closed_position_gates rv m) k) = granted_in ?v k m"
      by (simp add: retire_state granted_in_def fresh)
    with policy_counts [OF assms(2) p, of k] v show ?thesis by (auto simp: gate_state_def)
  qed simp
  from cases show "granted_in ?v k m' = granted_in ?v k m + accepted_for k (pe_candidates e)"
    by (auto simp: granted_in_def accepted_for_def)
  from cases show "accepted_for k (pe_candidates e) = 0 \<or> granted_in ?v k m' \<le> n"
    if "\<forall>c\<in>set (pe_candidates e). candidate_key c = k \<longrightarrow> execution_limit c \<le> n"
    using that by (auto simp: granted_in_def accepted_for_def)
  from cases show "0 \<le> xs_executions (gate_state m' k)" if "\<And>k. 0 \<le> xs_executions (gate_state m k)"
    using that [of k] by (auto simp: granted_in_def accepted_for_def)
qed

section \<open>Runs of evaluations\<close>

text \<open>The calls of the streaming driver: each supplies the published values, an instant and the visible events.\<close>

fun run_evaluations ::
  "(instant \<Rightarrow> date) \<Rightarrow> (string \<Rightarrow> string) \<Rightarrow> (string \<Rightarrow> plan_step \<Rightarrow> element_error option) \<Rightarrow> replay
     \<Rightarrow> ((string \<times> texts) list \<times> instant \<times> payload event list) list \<Rightarrow> replay_memory
     \<Rightarrow> runtime_error + plan_evaluation list \<times> replay_memory" where
  "run_evaluations et_date uuid5 on_step r [] m = Inr ([], m)"
| "run_evaluations et_date uuid5 on_step r ((rv, t, visible) # steps) m =
     ebind (evaluate_at et_date uuid5 on_step r rv t visible m) (\<lambda>(e, m').
     ebind (run_evaluations et_date uuid5 on_step r steps m') (\<lambda>(es, m'').
     Inr (e # es, m'')))"

lemma run_evaluations_Cons_Inr:
  assumes "run_evaluations et_date uuid5 on_step r ((rv, t, visible) # steps) m = Inr (es, m')"
  obtains e rest m1 where "evaluate_at et_date uuid5 on_step r rv t visible m = Inr (e, m1)"
    "run_evaluations et_date uuid5 on_step r steps m1 = Inr (rest, m')" "es = e # rest"
  using assms by (auto simp: ebind_eq_Inr)

lemma run_evaluations_nonneg:
  assumes "run_evaluations et_date uuid5 on_step r steps m = Inr (es, m')" "ec_execution_gate (cp_catalog (rp_plan r))"
    and "\<And>k. 0 \<le> xs_executions (gate_state m k)"
  shows "0 \<le> xs_executions (gate_state m' k)"
  using assms(1,3)
proof (induction steps arbitrary: m es)
  case (Cons s steps)
  obtain rv t visible where s: "s = (rv, t, visible)" by (cases s)
  from Cons.prems(1) obtain e rest m1 where e: "evaluate_at et_date uuid5 on_step r rv t visible m = Inr (e, m1)"
    and rest: "run_evaluations et_date uuid5 on_step r steps m1 = Inr (rest, m')"
    unfolding s by (rule run_evaluations_Cons_Inr)
  show ?case using Cons.IH [OF rest] evaluate_at_grants(3) [OF e assms(2)] Cons.prems(2) by blast
qed simp

lemma cycle_bounded:
  assumes "run_evaluations et_date uuid5 on_step r steps m = Inr (es, m')" "ec_execution_gate (cp_catalog (rp_plan r))"
    and "\<forall>(rv, _)\<in>set steps. position_identity rv (snd k) = v"
    and "\<forall>c\<in>set (concat (map pe_candidates es)). candidate_key c = k \<longrightarrow> execution_limit c \<le> n"
  shows "accepted_for k (concat (map pe_candidates es)) = 0 \<or>
    granted_in v k m + accepted_for k (concat (map pe_candidates es)) \<le> n"
  using assms(1,3,4)
proof (induction steps arbitrary: m es)
  case (Cons s steps)
  obtain rv t visible where s: "s = (rv, t, visible)" by (cases s)
  from Cons.prems(1) obtain e rest m1 where e: "evaluate_at et_date uuid5 on_step r rv t visible m = Inr (e, m1)"
    and rest: "run_evaluations et_date uuid5 on_step r steps m1 = Inr (rest, m')" and es: "es = e # rest"
    unfolding s by (rule run_evaluations_Cons_Inr)
  have v: "position_identity rv (snd k) = v" using Cons.prems(2) by (simp add: s)
  have "accepted_for k (concat (map pe_candidates rest)) = 0 \<or>
      granted_in v k m1 + accepted_for k (concat (map pe_candidates rest)) \<le> n"
    using Cons.IH [OF rest] Cons.prems(2,3) by (simp add: s es)
  moreover have "accepted_for k (pe_candidates e) = 0 \<or> granted_in v k m1 \<le> n"
    using evaluate_at_grants(2) [OF e assms(2), of k n] Cons.prems(3) by (simp add: es v)
  ultimately show ?case
    using evaluate_at_grants(1) [OF e assms(2), of k] by (auto simp: es v accepted_for_def)
qed (simp add: accepted_for_def)

end
