(* ===== verification/Replay_Loop.thy ===== *)
theory Replay_Loop
  imports Replay_Gate
begin

text \<open>
  The replay loop as a plain run of evaluations: one for every bar close of the stream, in the order in
  which the closes become known, each on the events that were available at its close.
\<close>

section \<open>Visibility\<close>

lemma efold_filter:
  assumes "\<And>x s. \<not> P x \<Longrightarrow> f x s = Inr s"
  shows "efold f (filter P xs) = efold f xs"
proof (induction xs)
  case (Cons x xs)
  show ?case by (rule ext) (simp add: Cons.IH assms)
qed simp

lemma group_events_available:
  "group_events t (filter (\<lambda>e. ev_available_at e \<le> t) visible) = group_events t visible"
  unfolding group_events_def by (subst efold_filter) (simp_all add: group_event_def bar_visible_def)

lemma evaluate_at_available:
  "evaluate_at et_date uuid5 on_step r rv t (filter (\<lambda>e. ev_available_at e \<le> t) visible) m =
   evaluate_at et_date uuid5 on_step r rv t visible m"
  unfolding evaluate_at_def instrument_inputs_def group_events_available ..

section \<open>The order of the closes\<close>

text \<open>The first instant at which an event that occurred at \<open>t\<close> is available.\<close>

definition first_available :: "'p event list \<Rightarrow> instant \<Rightarrow> instant" where
  "first_available es t = Min (ev_available_at ` {e \<in> set es. ev_occurred_at e = t})"

text \<open>The instants in the order of their first publication, ascending where that is the same.\<close>

definition in_publication_order :: "'p event list \<Rightarrow> instant set \<Rightarrow> instant list" where
  "in_publication_order es R = sort_key (first_available es) (sorted_list_of_set R)"

lemma filter_sorted_list_of_set:
  "finite A \<Longrightarrow> filter P (sorted_list_of_set A) = sorted_list_of_set {x \<in> A. P x}"
  by (rule sorted_distinct_set_unique) (auto simp: sorted_wrt_filter)

lemma first_batch:
  fixes f :: "'a::linorder \<Rightarrow> 'k::linorder"
  assumes "finite A" "finite B" "A \<inter> B = {}" "\<And>x. x \<in> A \<Longrightarrow> f x = c" "\<And>x. x \<in> B \<Longrightarrow> c < f x"
  shows "sort_key f (sorted_list_of_set (A \<union> B)) = sorted_list_of_set A @ sort_key f (sorted_list_of_set B)"
proof (rule properties_for_sort_key)
  let ?rest = "sort_key f (sorted_list_of_set B)"
  show "mset (sorted_list_of_set A @ ?rest) = mset (sorted_list_of_set (A \<union> B))"
    using assms(1-3) by (intro set_eq_iff_mset_eq_distinct [THEN iffD1]) auto
  show "sorted (map f (sorted_list_of_set A @ ?rest))"
  proof -
    have "sorted (map f (sorted_list_of_set A))"
      unfolding sorted_map
      by (rule sorted_wrt_mono_rel [OF _ strict_sorted_list_of_set]) (use assms(1,4) in auto)
    then show ?thesis using assms by (auto simp: sorted_append less_imp_le)
  qed
  fix x
  have "filter (\<lambda>y. f x = f y) (sorted_list_of_set A @ ?rest) =
      sorted_list_of_set {y \<in> A. f x = f y} @ sorted_list_of_set {y \<in> B. f x = f y}"
    using assms(1,2) sort_key_stable [of f "f x" "sorted_list_of_set B"]
    by (simp add: filter_sorted_list_of_set eq_commute)
  also have "\<dots> = sorted_list_of_set {y \<in> A \<union> B. f x = f y}"
  proof (cases "f x = c")
    case True
    then have "{y \<in> B. f x = f y} = {}" "{y \<in> A \<union> B. f x = f y} = {y \<in> A. f x = f y}" using assms(5) by fastforce+
    then show ?thesis by (simp only: sorted_list_of_set.sorted_key_list_of_set_empty append_Nil2)
  next
    case False
    then have "{y \<in> A. f x = f y} = {}" "{y \<in> A \<union> B. f x = f y} = {y \<in> B. f x = f y}" using assms(4) by auto
    then show ?thesis by (simp only: sorted_list_of_set.sorted_key_list_of_set_empty append_Nil)
  qed
  finally show "filter (\<lambda>y. f x = f y) (sorted_list_of_set A @ ?rest) = filter (\<lambda>y. f x = f y) (sorted_list_of_set (A \<union> B))"
    using assms(1,2) by (simp add: filter_sorted_list_of_set)
qed

section \<open>The clock\<close>

lemma clock_next_not_behind:
  assumes "clock_ok k" "clk_cursor k < length (clk_events k)" "clk_now k = Some n"
  shows "n \<le> ev_available_at (clk_events k ! clk_cursor k)"
proof (rule ccontr)
  let ?xs = "clk_events k" and ?P = "\<lambda>e. ev_available_at e \<le> n"
  assume "\<not> n \<le> ev_available_at (?xs ! clk_cursor k)"
  moreover have "sorted (map ev_available_at ?xs)" using assms(1) by (simp add: clock_ok_def)
  ultimately have "\<forall>e\<in>set (take (Suc (clk_cursor k)) ?xs). ?P e"
    using assms(2)
    by (auto simp: in_set_conv_nth sorted_iff_nth_mono less_Suc_eq_le) (metis le_less_trans less_le_not_le linorder_not_le order.trans)
  then have "filter ?P (take (Suc (clk_cursor k)) ?xs) = take (Suc (clk_cursor k)) ?xs" by (simp add: filter_id_conv)
  then have "Suc (clk_cursor k) \<le> length (filter ?P (take (Suc (clk_cursor k)) ?xs @ drop (Suc (clk_cursor k)) ?xs))"
    using assms(2) by (simp only: filter_append length_append) simp
  also have "\<dots> = clk_cursor k"
    using clock_ok_visible [OF assms(1,3)] assms(1,2) by (simp add: clock_ok_def)
  finally show False by simp
qed

lemma sorted_dropWhile_above:
  fixes f :: "'a \<Rightarrow> 'k::linorder"
  assumes "sorted (map f xs)" "x \<in> set (dropWhile (\<lambda>y. f y \<le> t) xs)"
  shows "t < f x"
  using assms by (induction xs) (auto simp: not_le split: if_splits intro: less_le_trans)

lemma clock_next:
  assumes "clock_ok k" "clk_cursor k < length (clk_events k)"
  defines "t \<equiv> ev_available_at (clk_events k ! clk_cursor k)"
  obtains k' snap where "advance_to_next_event et_date k = Inr (Some (k', snap))" "clock_ok k'"
    "clk_events k' = clk_events k"
    "take (clk_cursor k') (clk_events k) = take (clk_cursor k) (clk_events k) @ snap_released snap"
    "drop (clk_cursor k) (clk_events k) = snap_released snap @ drop (clk_cursor k') (clk_events k)"
    "snap_visible snap = filter (\<lambda>e. ev_available_at e \<le> t) (clk_events k)"
    "\<forall>e\<in>set (snap_released snap). ev_available_at e = t" "\<forall>e\<in>set (drop (clk_cursor k') (clk_events k)). t < ev_available_at e"
proof -
  let ?xs = "drop (clk_cursor k) (clk_events k)" and ?P = "\<lambda>e. ev_available_at e \<le> t"
  have sorted: "sorted (map ev_available_at ?xs)"
    using assms(1) by (simp add: clock_ok_def flip: drop_map)
  have hd: "?xs = clk_events k ! clk_cursor k # drop (Suc (clk_cursor k)) (clk_events k)"
    using assms(2) by (simp add: Cons_nth_drop_Suc)
  have least: "\<forall>e\<in>set ?xs. t \<le> ev_available_at e"
    using sorted unfolding hd by (auto simp: t_def)
  have "case clk_now k of None \<Rightarrow> True | Some n \<Rightarrow> \<not> t < n"
    using clock_next_not_behind [OF assms(1,2)] by (auto simp: t_def not_less split: option.splits)
  then obtain k' snap where adv: "advance_to et_date (Aware t) k = Inr (k', snap)"
    by (simp add: advance_to_def clock_utc_def Let_def case_prod_beta)
  note ok = advance_to_ok(1,2) [OF assms(1) adv]
  from adv have c: "clk_cursor k' = clk_cursor k + length (takeWhile ?P ?xs)" and rel: "snap_released snap = takeWhile ?P ?xs"
    and vis: "snap_visible snap = clk_visible k'" and now: "clk_now k' = Some t"
    by (rule advance_to_Inr, simp)+
  have rest: "drop (clk_cursor k') (clk_events k) = dropWhile ?P ?xs"
    unfolding c by (metis add.commute drop_drop dropWhile_eq_drop)
  show thesis
  proof
    show "advance_to_next_event et_date k = Inr (Some (k', snap))"
      using assms(2) adv by (simp add: advance_to_next_event_def t_def)
    show "take (clk_cursor k') (clk_events k) = take (clk_cursor k) (clk_events k) @ snap_released snap"
      unfolding c rel by (rule take_cursor)
    show "drop (clk_cursor k) (clk_events k) = snap_released snap @ drop (clk_cursor k') (clk_events k)"
      unfolding rest rel by simp
    show "snap_visible snap = filter ?P (clk_events k)"
      using clock_ok_visible [OF ok(1) now] ok(2) vis by simp
    show "\<forall>e\<in>set (snap_released snap). ev_available_at e = t"
      unfolding rel using least by (auto dest: set_takeWhileD intro: antisym)
    show "\<forall>e\<in>set (drop (clk_cursor k') (clk_events k)). t < ev_available_at e"
      unfolding rest using sorted_dropWhile_above [OF sorted] by blast
  qed (fact ok)+
qed

section \<open>The loop\<close>

lemma evaluate_at_occurred:
  assumes "evaluate_at et_date uuid5 on_step r rv t visible m = Inr (e, m')"
  shows "pe_occurred_at e = t"
proof -
  obtain session status where "status_at et_date (rp_schedule r) t = (session, status)"
    by (cases "status_at et_date (rp_schedule r) t")
  with assms show ?thesis
    by (auto simp: evaluate_at_def Let_def ebind_eq_Inr case_prod_beta split: if_splits)
qed

text \<open>The evaluation of a close, on the events that were available then.\<close>

definition at_close :: "payload event list \<Rightarrow> instant \<Rightarrow> (string \<times> texts) list \<times> instant \<times> payload event list" where
  "at_close es t = ([], t, filter (\<lambda>e. ev_available_at e \<le> t) es)"

lemma ebind_assoc: "ebind (ebind x f) g = ebind x (\<lambda>y. ebind (f y) g)"
  by (cases x) simp_all

lemma ebind_Inr_id: "ebind x Inr = x"
  by (cases x) simp_all

lemma run_evaluations_append:
  "run_evaluations et_date uuid5 on_step r (xs @ ys) m =
     ebind (run_evaluations et_date uuid5 on_step r xs m) (\<lambda>(es, m1).
     ebind (run_evaluations et_date uuid5 on_step r ys m1) (\<lambda>(fs, m2). Inr (es @ fs, m2)))"
proof (induction xs arbitrary: m)
  case (Cons x xs)
  obtain rv t visible where x: "x = (rv, t, visible)" by (cases x)
  show ?case
    by (cases "evaluate_at et_date uuid5 on_step r rv t visible m")
      (auto simp: x Cons.IH ebind_assoc case_prod_beta)
qed (simp add: case_prod_beta ebind_Inr_id)

lemma evaluate_instants_run:
  assumes "\<forall>t\<in>set ts. t \<le> now" "visible = filter (\<lambda>e. ev_available_at e \<le> now) es"
  shows "evaluate_instants et_date uuid5 on_step r visible ts m = run_evaluations et_date uuid5 on_step r (map (at_close es) ts) m"
  using assms(1)
proof (induction ts arbitrary: m)
  case (Cons t ts)
  have "filter (\<lambda>e. ev_available_at e \<le> t) visible = filter (\<lambda>e. ev_available_at e \<le> t) es"
    using Cons.prems assms(2) by (auto simp: filter_filter intro!: filter_cong)
  then have "evaluate_at et_date uuid5 on_step r [] t visible m =
      evaluate_at et_date uuid5 on_step r [] t (filter (\<lambda>e. ev_available_at e \<le> t) es) m" for m
    using evaluate_at_available [of et_date uuid5 on_step r "[]" t visible m] by simp
  with Cons show ?case by (simp add: at_close_def [of es t])
qed simp

lemma first_available_released:
  assumes "e \<in> set ds" "ev_occurred_at e = t" "t \<notin> ev_occurred_at ` set cs" "\<forall>e\<in>set ds. n \<le> ev_available_at e"
  shows "n \<le> first_available (cs @ ds) t" "ev_available_at e = n \<Longrightarrow> first_available (cs @ ds) t = n"
proof -
  let ?E = "{e \<in> set (cs @ ds). ev_occurred_at e = t}"
  have E: "?E = {e \<in> set ds. ev_occurred_at e = t}" using assms(3) by auto
  have "finite (ev_available_at ` ?E)" "ev_available_at ` ?E \<noteq> {}" using assms(1,2) by auto
  moreover have "\<forall>a\<in>ev_available_at ` ?E. n \<le> a" using assms(4) unfolding E by auto
  ultimately show "n \<le> first_available (cs @ ds) t"
    unfolding first_available_def by simp
  show "first_available (cs @ ds) t = n" if "ev_available_at e = n"
    unfolding first_available_def
    by (rule Min_eqI) (use that assms E in auto)
qed

lemma replay_loop_run:
  assumes "clock_ok k" "\<forall>e\<in>set (clk_events k). ev_occurred_at e \<le> ev_available_at e"
    and "evaluated = ev_occurred_at ` set (take (clk_cursor k) (clk_events k))"
  shows "\<exists>kf. replay_loop et_date uuid5 on_step r k evaluated evaluations m =
    ebind (run_evaluations et_date uuid5 on_step r (map (at_close (clk_events k))
        (in_publication_order (clk_events k) (ev_occurred_at ` set (clk_events k) - evaluated))) m)
      (\<lambda>(es, m'). Inr (sort_key pe_occurred_at (evaluations @ es), kf, m'))"
  using assms
proof (induction et_date uuid5 on_step r k evaluated evaluations m rule: replay_loop.induct)
  case (1 et_date uuid5 on_step r k evaluated evaluations m)
  let ?xs = "clk_events k" and ?run = "run_evaluations et_date uuid5 on_step r"
  show ?case
  proof (cases "clk_cursor k < length ?xs")
    case False
    then have "ev_occurred_at ` set ?xs - evaluated = {}" using "1.prems"(3) by simp
    moreover from False have "advance_to_next_event et_date k = Inr None" by (simp add: advance_to_next_event_def)
    moreover have "in_publication_order ?xs {} = []" by (simp add: in_publication_order_def)
    ultimately show ?thesis by (subst replay_loop.simps) (simp only: list.map run_evaluations.simps, simp)
  next
    case True
    let ?t = "ev_available_at (?xs ! clk_cursor k)"
    from clock_next [OF "1.prems"(1) True, of et_date] obtain k' snap where
      k': "advance_to_next_event et_date k = Inr (Some (k', snap))" "clock_ok k'" "clk_events k' = ?xs"
      and rel: "take (clk_cursor k') ?xs = take (clk_cursor k) ?xs @ snap_released snap"
      and drop: "drop (clk_cursor k) ?xs = snap_released snap @ drop (clk_cursor k') ?xs"
      and vis: "snap_visible snap = filter (\<lambda>e. ev_available_at e \<le> ?t) ?xs"
      and now: "\<forall>e\<in>set (snap_released snap). ev_available_at e = ?t"
      and later: "\<forall>e\<in>set (drop (clk_cursor k') ?xs). ?t < ev_available_at e" .
    let ?ts = "new_instants (snap_released snap) evaluated" and ?ev = "evaluated \<union> set (new_instants (snap_released snap) evaluated)"
    let ?A = "ev_occurred_at ` set (snap_released snap) - evaluated" and ?B = "ev_occurred_at ` set ?xs - ?ev"
    have ts: "?ts = sorted_list_of_set ?A" "set ?ts = ?A" by (simp_all add: new_instants_def)
    have ev: "?ev = ev_occurred_at ` set (take (clk_cursor k') ?xs)"
      unfolding ts(2) rel by (auto simp: "1.prems"(3))
    have xs: "?xs = take (clk_cursor k) ?xs @ drop (clk_cursor k) ?xs" "?xs = take (clk_cursor k') ?xs @ drop (clk_cursor k') ?xs"
      by simp_all
    have inxs: "set (snap_released snap) \<subseteq> set ?xs"
      using drop by (metis Un_upper1 order_trans set_append set_drop_subset)
    have order: "in_publication_order ?xs (ev_occurred_at ` set ?xs - evaluated) = ?ts @ in_publication_order ?xs ?B"
    proof -
      have "ev_occurred_at ` set ?xs - evaluated = ?A \<union> ?B" unfolding ts(2) using inxs by auto
      moreover have "sort_key (first_available ?xs) (sorted_list_of_set (?A \<union> ?B)) =
          sorted_list_of_set ?A @ sort_key (first_available ?xs) (sorted_list_of_set ?B)"
      proof (rule first_batch)
        fix t assume "t \<in> ?A"
        then obtain e where "e \<in> set (drop (clk_cursor k) ?xs)" "ev_occurred_at e = t" "ev_available_at e = ?t"
          "t \<notin> ev_occurred_at ` set (take (clk_cursor k) ?xs)"
          using now "1.prems"(3) unfolding drop by auto
        moreover have "\<forall>e\<in>set (drop (clk_cursor k) ?xs). ?t \<le> ev_available_at e"
          using now later unfolding drop by auto
        ultimately show "first_available ?xs t = ?t"
          using first_available_released(2) [of e "drop (clk_cursor k) ?xs" t "take (clk_cursor k) ?xs" ?t] by simp
      next
        fix t assume "t \<in> ?B"
        then obtain e where e: "e \<in> set ?xs" "ev_occurred_at e = t" and new: "t \<notin> ev_occurred_at ` set (take (clk_cursor k') ?xs)"
          unfolding ev by auto
        then have "e \<in> set (drop (clk_cursor k') ?xs)" using xs(2) by (metis Un_iff image_eqI set_append)
        moreover have "\<forall>e\<in>set (drop (clk_cursor k') ?xs). ?t + 1 \<le> ev_available_at e" using later by auto
        ultimately have "?t + 1 \<le> first_available ?xs t"
          using first_available_released(1) [of e "drop (clk_cursor k') ?xs" t "take (clk_cursor k') ?xs" "?t + 1"] e(2) new by simp
        then show "?t < first_available ?xs t" by simp
      qed (auto simp: ts(2))
      ultimately show ?thesis by (simp only: in_publication_order_def ts(1))
    qed
    have "\<forall>t\<in>set ?ts. t \<le> ?t" unfolding ts(2) using now "1.prems"(2) inxs by fastforce
    from evaluate_instants_run [OF this vis]
    have inst: "evaluate_instants et_date uuid5 on_step r (snap_visible snap) ?ts m = ?run (map (at_close ?xs) ?ts) m" .
    show ?thesis
    proof (cases "?run (map (at_close ?xs) ?ts) m")
      case (Inl err)
      then have "replay_loop et_date uuid5 on_step r k evaluated evaluations m = Inl err"
        by (subst replay_loop.simps) (simp add: k'(1) Let_def inst)
      with Inl show ?thesis by (simp add: order run_evaluations_append)
    next
      case (Inr p)
      obtain es m' where p: "p = (es, m')" by (cases p)
      have step: "replay_loop et_date uuid5 on_step r k evaluated evaluations m =
          replay_loop et_date uuid5 on_step r k' ?ev (evaluations @ es) m'"
        by (subst replay_loop.simps) (simp add: k'(1) Let_def inst Inr p)
      have "\<exists>kf. replay_loop et_date uuid5 on_step r k' ?ev (evaluations @ es) m' =
          ebind (?run (map (at_close ?xs) (in_publication_order ?xs ?B)) m')
            (\<lambda>(fs, m''). Inr (sort_key pe_occurred_at ((evaluations @ es) @ fs), kf, m''))"
        using "1.IH" [OF k'(1) refl refl refl inst [unfolded Inr p] refl k'(2)] "1.prems"(2) ev by (simp add: k'(3))
      then show ?thesis by (simp add: step order run_evaluations_append Inr p ebind_assoc case_prod_unfold)
    qed
  qed
qed

end
