(* ===== verification/Replay_Examples.thy ===== *)
theory Replay_Examples
  imports Replay_Gate
begin

text \<open>
  One daily bar through the whole replay: the clock's event, the instrument's inputs, a flow that
  is a candidate at every evaluation, and the accepted order candidate.
\<close>

definition daily_bar :: "instant series_bar" where
  "daily_bar = \<lparr>sb_instrument_id = uuid_text 1, sb_resolution = ''1d'', sb_starts_at = 0, sb_ends_at = 86400000000,
     sb_close = dec_of_int 10, sb_volume = dec_of_int 5, sb_session_truncated = False\<rparr>"

definition bar_event :: "payload event" where
  "bar_event = \<lparr>ev_event_id = ''a'', ev_instrument_id = uuid_text 1, ev_occurred_at = 86400000000,
     ev_available_at = 86400000000, ev_source_sequence = 1, ev_event_type = BAR_CLOSED_EVENT_TYPE,
     ev_payload = BarPayload ''ADJUSTED_BAR'' ''1d'' daily_bar\<rparr>"

definition daily_series :: instrument_series where
  "daily_series = \<lparr>is_instrument_id = uuid_text 1, is_data_kind = ''ADJUSTED_BAR'', is_resolution = ''1d'',
     is_bars = [daily_bar]\<rparr>"

definition held :: "(string \<times> texts) list" where
  "held = [(uuid_text 1, [(''position.openedAt'', ''1970-01-02T00:00:00+00:00'')])]"

lemma bar_inputs:
  assumes "rv \<in> {[], held}"
  shows "\<exists>inp. instrument_inputs [] False rv sv 86400000000 [bar_event] = Inr [(uuid_text 1, inp)] \<and>
    ii_instrument_id inp = uuid_text 1 \<and> ii_series inp = [daily_series]"
proof -
  have u: "uuid_parse (uuid_text 1) = Some (uuid_text 1)" by (rule demo_id)
  have g: "group_events 86400000000 [bar_event] = Inr \<lparr>bg_grouped = [((uuid_text 1, ''ADJUSTED_BAR'', ''1d''), [daily_bar])],
      bg_payloads = [((uuid_text 1, ''1d''), [(86400000000, daily_bar)])]\<rparr>"
    by (simp add: group_events_def group_event_def bar_visible_def bar_event_def bar_of_def group_put_def)
  have s: "instrument_series_new \<lparr>is_instrument_id = uuid_text 1, is_data_kind = ''ADJUSTED_BAR'', is_resolution = ''1d'',
      is_bars = [daily_bar]\<rparr> = Inr daily_series"
    by (simp add: instrument_series_new_def el_uuid_def u [simplified] element_period_def RESOLUTION_PERIODS_def daily_bar_def
        daily_series_def)
  have b: "efold add_series [((uuid_text 1, ''ADJUSTED_BAR'', ''1d''), [daily_bar])] [] = Inr [(uuid_text 1, [daily_series])]"
    by (simp add: add_series_def s [simplified] group_put_def)
  have feats: "features_by_instrument [] = []" by (simp add: features_by_instrument_def)
  have ids: "remdups (map fst [(uuid_text 1, [daily_series])] @
      map fst ([] :: (string \<times> pinned_feature_series list) list) @ map fst rv) = [uuid_text 1]"
    using assms by (auto simp: held_def)
  have i: "is_instrument_id daily_series = uuid_text 1" by (simp add: daily_series_def)
  have "\<exists>inp. instrument_input_of g' [(uuid_text 1, [daily_series])] [] False rv sv t (uuid_text 1) = Inr inp \<and>
      ii_instrument_id inp = uuid_text 1 \<and> ii_series inp = [daily_series]" for g' t
    by (simp add: instrument_input_of_def instrument_input_new_def el_uuid_def u [simplified] i [simplified] lookup_list_def)
  then obtain inp where "instrument_input_of \<lparr>bg_grouped = [((uuid_text 1, ''ADJUSTED_BAR'', ''1d''), [daily_bar])],
      bg_payloads = [((uuid_text 1, ''1d''), [(86400000000, daily_bar)])]\<rparr> [(uuid_text 1, [daily_series])] [] False rv sv 86400000000
      (uuid_text 1) = Inr inp" "ii_instrument_id inp = uuid_text 1" "ii_series inp = [daily_series]" by blast
  then show ?thesis
    unfolding instrument_inputs_def g ebind_simps bar_groups.simps b Let_def feats ids by simp
qed

section \<open>A flow without conditions\<close>

definition bar_flow :: plan_flow where
  "bar_flow = demo_flow\<lparr>pfl_condition_steps := []\<rparr>"

definition bar_plan :: compiled_plan where
  "bar_plan = demo_plan\<lparr>cp_flows := [bar_flow]\<rparr>"

definition bar_session :: session where
  "bar_session = \<lparr>ts_date = 1, ts_opens_at = 43200000000, ts_closes_at = 90000000000\<rparr>"

definition bar_schedule :: schedule where
  "bar_schedule = \<lparr>sch_from = 1, sch_through = 1, sch_sessions = [bar_session], sch_by_date = [(1, bar_session)]\<rparr>"

definition clear_assessment :: availability_assessment where
  "clear_assessment = \<lparr>as_status = AVAILABLE, as_skip_intervals = [], as_missing_requirements = []\<rparr>"

definition bar_replay :: replay where
  "bar_replay = \<lparr>rp_plan = bar_plan, rp_schedule = bar_schedule, rp_assessment = clear_assessment, rp_feature_series = [],
     rp_require_pinned_features = False, rp_gate = \<lparr>eg_schedule = bar_schedule, eg_assessment = clear_assessment\<rparr>,
     rp_visible_event_limit = 1, rp_session_index_by_date = [(1, 0)]\<rparr>"

lemma bar_replay_new: "replay_new bar_plan bar_schedule clear_assessment [] False = Inr bar_replay"
proof -
  have "session_indices (sch_sessions bar_schedule) = [(1, 0)]"
    by (simp add: session_indices_def bar_schedule_def bar_session_def)
  moreover have "plan_visible_event_limit bar_plan = Inr 1"
    by (simp add: plan_visible_event_limit_def bar_plan_def bar_flow_def demo_plan_def max_or_one_def LIVE_SERIES_BARS_def)
  ultimately show ?thesis by (simp add: replay_new_def clear_assessment_def bar_replay_def)
qed

definition bar_decision :: instrument_decision where
  "bar_decision = \<lparr>de_flow_id = ''f'', de_instrument_id = uuid_text 1, de_side = ''BUY'', de_status = CANDIDATE, de_trace = [],
     de_first_failure_step_id = None, de_first_failure_reason = None, de_buy_allocation = Some 1,
     de_reference_price = Some (Dec False 1000000000 (- 8))\<rparr>"

lemma bar_execute:
  assumes "ii_instrument_id inp = uuid_text 1" "ii_series inp = [daily_series]"
  shows "\<exists>evs. execute_plan (\<lambda>_ _. None) bar_plan (map_of [(uuid_text 1, inp)]) 86400000000 =
    Inr \<lparr>xr_decisions = [bar_decision], xr_as_of = 86400000000, xr_evaluations = evs\<rparr>"
proof -
  define ev where "ev = \<lparr>el_instrument_id = uuid_text 1, el_as_of = 86400000000, el_inputs = inp, el_values = [],
     el_last_value = None, el_last_value_source = None\<rparr>"
  have e: "element_evaluation_new (uuid_text 1) (Aware 86400000000) inp = Inr ev"
    using demo_id assms(1) by (simp add: element_evaluation_new_def el_uuid_def el_utc_def ev_def)
  have p: "candidate_reference_price bar_plan bar_flow ev = Inr (Dec False 1000000000 (- 8))"
    by (simp add: candidate_reference_price_def bar_plan_def demo_plan_def bar_flow_def demo_flow_def ev_def assms(2) daily_series_def
        daily_bar_def series_for_def series_identity_def completed_through_def DATASET_RESOLUTION_def quantize_money_def dec_of_int_def
        quantize_to_def MONEY_QUANTUM_def NUMERIC_24_8_MAX_def NUMERIC_24_8_MIN_def working_precision_def dec_eval)
  have f: "cp_flows bar_plan = [bar_flow]" "pfl_instrument_ids bar_flow = [uuid_text 1]" "pfl_side bar_flow = ''BUY''"
    "pfl_condition_steps bar_flow = []" "pfl_flow_id bar_flow = ''f''"
    by (simp_all add: bar_plan_def demo_plan_def bar_flow_def demo_flow_def)
  have s: "sort_uuids [uuid_text 1] = Inr [uuid_text 1]"
    by (simp add: sort_uuids_def uuid_key_def demo_id [simplified])
  have d: "evaluate_instrument (\<lambda>_ _. None) bar_plan bar_flow (uuid_text 1) (Some inp) (Aware 86400000000) [] =
      Inr (bar_decision\<lparr>de_buy_allocation := None\<rparr>, [(uuid_text 1, ev)])"
    unfolding evaluate_instrument_def option.case e f run_steps.simps map_err_simps ebind_simps
    by (simp add: Let_def p bar_decision_def f)
  have flow: "evaluate_flow (\<lambda>_ _. None) bar_plan bar_flow (map_of [(uuid_text 1, inp)]) (Aware 86400000000) [uuid_text 1] []
      = Inr ([bar_decision\<lparr>de_buy_allocation := None\<rparr>], [(uuid_text 1, ev)])"
    by (simp add: assms(1) [simplified] d [simplified])
  show ?thesis
    unfolding execute_plan_def f execute_flows.simps s ebind_simps flow
    by (simp add: allocate_equally_def f bar_decision_def)
qed

definition bar_candidate :: "instant order_candidate" where
  "bar_candidate = \<lparr>oc_evaluation_id = ''e'', oc_instrument_id = uuid_text 1, oc_partition_key = ''p'', oc_flow_id = ''f'',
     oc_side = ''BUY'', oc_order_type = ''MARKET'', oc_allocation = Some 1, oc_reference_price = Dec False 1000000000 (- 8),
     oc_decided_at = 86400000000, oc_eligible_at = 86400000000, oc_session_date_et = 1, oc_session_closes_at = 90000000000,
     oc_budget_cap_bps = 5000, oc_max_position_percent = FiniteDec (Dec False 100 0),
     oc_order_percent = FiniteDec (Dec False 100 0), oc_execution_mode = ONCE, oc_wait_mode = CONDITION_REMET,
     oc_wait_interval = 1, oc_max_executions = 1\<rparr>"

lemma bar_order_candidates:
  "order_candidates bar_plan \<lparr>xr_decisions = [bar_decision], xr_as_of = 86400000000, xr_evaluations = evs\<rparr> ''e'' 1 90000000000 None
     = Inr [bar_candidate]"
proof -
  have i: "py_int ''1'' = Some 1" "parse_decimal ''100'' = Some (FiniteDec (Dec False 100 0))" by code_simp+
  have q: "is_quantized_money (PyDec (Dec False 1000000000 (- 8)))" "\<not> dle (Dec False 1000000000 (- 8)) dzero"
    "dless dzero (Dec False 100 0)" "dle (Dec False 100 0) (dec_of_int 100)"
    by (simp_all add: MONEY_SCALE_def dle_iff dless_iff dval_def dsigned_def power_int_minus dec_of_int_def)
  have u: "uuid_text 1 \<noteq> []" by (simp add: uuid_text_def Let_def)
  have c: "candidate_of bar_plan ''e'' 1 90000000000 None 86400000000 bar_decision = Inr bar_candidate"
    using demo_id u
    by (simp add: candidate_of_def plan_flow_of_def bar_plan_def bar_flow_def demo_plan_def demo_flow_def bar_decision_def
        emit_order_candidate_def demo_terminal_def step_argument_def literal_argument_def int_argument_or_one_def argument_or_def
        i q MONEY_SCALE_def TERMINAL_OPERATION_def SUPPORTED_ALLOCATION_MODES_def SUPPORTED_ORDER_TYPES_def SUPPORTED_SIDES_def
        order_candidate_new_def candidate_identity_check_def oc_text_def el_uuid_def
        candidate_order_check_def candidate_gate_check_def percent_check_def el_utc_def BUDGET_CAP_BPS_MIN_def
        BUDGET_CAP_BPS_MAX_def bar_candidate_def)
  show ?thesis by (simp add: order_candidates_def c) (simp add: bar_decision_def)
qed

section \<open>Evaluating the bar\<close>

lemma bar_evaluate:
  assumes "rv \<in> {[], held}"
  shows "\<exists>e m'. evaluate_at (\<lambda>_. 1) (\<lambda>_. ''e'') (\<lambda>_ _. None) bar_replay rv 86400000000 [bar_event] m = Inr (e, m') \<and>
    pe_occurred_at e = 86400000000 \<and>
    apply_execution_policy BASIC_ELEMENTS_2026_08_07 [1 \<mapsto> 0] [bar_decision] [bar_candidate]
      (mem_execution_states (retire_closed_position_gates rv m)) = (pe_candidates e, mem_execution_states m') \<and>
    known_identity m' = position_identity rv"
proof -
  let ?T = 86400000000
  have r: "rp_plan bar_replay = bar_plan" "rp_schedule bar_replay = bar_schedule" "rp_feature_series bar_replay = []"
    "rp_require_pinned_features bar_replay = False" "rp_session_index_by_date bar_replay = [(1, 0)]"
    "rp_gate bar_replay = \<lparr>eg_schedule = bar_schedule, eg_assessment = clear_assessment\<rparr>"
    "cp_catalog bar_plan = BASIC_ELEMENTS_2026_08_07"
    by (simp_all add: bar_replay_def bar_plan_def demo_plan_def)
  have id: "plan_evaluation_id (\<lambda>_. ''e'') bar_plan ?T = ''e''" by (simp add: plan_evaluation_id_def)
  have at: "session_at (\<lambda>_. 1) bar_schedule ?T = Some bar_session" by (simp add: session_at_def bar_schedule_def)
  moreover have "covers (\<lambda>_. 1) bar_schedule ?T" by (simp add: covers_def bar_schedule_def)
  ultimately have st: "status_at (\<lambda>_. 1) bar_schedule ?T = (Some bar_session, REGULAR_OPEN)"
    by (simp add: status_at_def) (simp add: bar_session_def)
  have gate: "is_evaluation_allowed (rp_gate bar_replay) ?T = Inr True"
    by (simp add: is_evaluation_allowed_def gate_stage_allowed_def is_stage_allowed_def av_utc_def r clear_assessment_def)
  have ix: "session_index_of bar_replay bar_session = Inr 0" by (simp add: session_index_of_def r bar_session_def)
  obtain shared d where sv: "schedule_values (\<lambda>_. 1) bar_replay ?T m = Inr (shared, m\<lparr>mem_last_schedule_session_date := d\<rparr>)"
    by (simp add: schedule_values_def r at ix Let_def)
  have cs: "candidate_session_at bar_replay (Some bar_session) ?T = Inr (Some bar_session, None)"
    by (simp add: candidate_session_at_def bar_session_def)
  from bar_inputs [OF assms, of shared] obtain inp where
    inp: "instrument_inputs [] False rv shared ?T [bar_event] = Inr [(uuid_text 1, inp)]"
    "ii_instrument_id inp = uuid_text 1" "ii_series inp = [daily_series]" by blast
  from bar_execute [OF inp(2,3)] obtain evs where x: "execute_plan (\<lambda>_ _. None) bar_plan (map_of [(uuid_text 1, inp)]) ?T =
    Inr \<lparr>xr_decisions = [bar_decision], xr_as_of = ?T, xr_evaluations = evs\<rparr>" ..
  have sd: "ts_date bar_session = 1" "ts_closes_at bar_session = 90000000000" by (simp_all add: bar_session_def)
  let ?m = "retire_closed_position_gates rv m"
  obtain acc states where a: "apply_execution_policy BASIC_ELEMENTS_2026_08_07 [1 \<mapsto> 0] [bar_decision] [bar_candidate]
      (mem_execution_states ?m) = (acc, states)" by (cases "apply_execution_policy BASIC_ELEMENTS_2026_08_07 [1 \<mapsto> 0]
      [bar_decision] [bar_candidate] (mem_execution_states ?m)")
  have "evaluate_at (\<lambda>_. 1) (\<lambda>_. ''e'') (\<lambda>_ _. None) bar_replay rv ?T [bar_event] m =
      Inr (\<lparr>pe_evaluation_id = ''e'', pe_occurred_at = ?T, pe_session_status = REGULAR_OPEN, pe_decisions = [bar_decision],
        pe_candidates = acc, pe_skip_reason = None\<rparr>,
        ?m\<lparr>mem_last_schedule_session_date := d, mem_execution_states := states\<rparr>)"
    unfolding evaluate_at_def r st Let_def prod.case id
    by (simp add: gate [unfolded r] sv inp(1) [simplified] x [simplified] cs retire_session_date
        bar_order_candidates [of evs, simplified] sd a)
  moreover have "known_identity (?m\<lparr>mem_last_schedule_session_date := d, mem_execution_states := states\<rparr>) = position_identity rv"
    using retire_identity [of rv m] by (simp add: known_identity_def fun_eq_iff)
  ultimately show ?thesis using a by simp
qed

lemma bar_accepted: "fst (apply_execution_policy catalog index ds [bar_candidate] states) \<in> {[], [bar_candidate]}"
  by (simp add: apply_execution_policy_def case_prod_beta Let_def)

lemma bar_candidate_facts:
  "oc_flow_id bar_candidate = ''f''" "oc_instrument_id bar_candidate = uuid_text 1" "oc_execution_mode bar_candidate = ONCE"
  by (simp_all add: bar_candidate_def)

lemma bar_gates: "ec_execution_gate (cp_catalog (rp_plan bar_replay))" "ec_execution_gate BASIC_ELEMENTS_2026_08_07"
  by (simp_all add: bar_replay_def bar_plan_def demo_plan_def BASIC_ELEMENTS_2026_08_07_def)

lemma bar_first_accepted:
  assumes "apply_execution_policy BASIC_ELEMENTS_2026_08_07 [1 \<mapsto> 0] [bar_decision] [bar_candidate]
    (mem_execution_states (retire_closed_position_gates [] replay_memory_new)) = (accepted, states)"
  shows "accepted = [bar_candidate]"
proof -
  have "mem_execution_states (retire_closed_position_gates [] replay_memory_new) = []"
    by (simp add: retire_closed_position_gates_def replay_memory_new_def)
  with assms bar_gates(2) have "accepted = fst (filter_accepted [1 \<mapsto> 0] [bar_candidate]
      (observe_decisions {candidate_key bar_candidate} [bar_decision] []))"
    by (simp add: apply_execution_policy_def)
  moreover have "decision_key bar_decision = candidate_key bar_candidate"
    by (simp add: decision_key_def candidate_key_def bar_decision_def bar_candidate_def)
  ultimately show ?thesis
    by (simp add: accepts_def count_bar_def state_of_def execution_state_new_def execution_limit_def eligible_now_def
        bar_candidate_facts Let_def)
qed

end
