(* ===== verification/Replay_Rules.thy ===== *)
theory Replay_Rules
  imports Replay_Loop Replay_Examples
begin

text \<open>
  What the replay promises: the execution policy never lets a flow trade an instrument more often
  than the plan allows while its position identity stays the same, an evaluation sees exactly the
  bars that were published by its instant, the texts it publishes read back as the bars' own values,
  and the loop evaluates every bar close exactly once.
\<close>

section \<open>Snapshots\<close>

lemma clock_run_ok:
  assumes "market_clock_new et_date c es = Inr k"
    and "efold (\<lambda>t k. ebind (advance_to et_date (Aware t) k) (\<lambda>(k', _). Inr k')) ts k = Inr k1"
  shows "clock_ok k1 \<and> clk_events k1 = sort_key event_key es"
proof (rule efold_invariant [OF assms(2), where P = "\<lambda>k. clock_ok k \<and> clk_events k = sort_key event_key es"])
  show "clock_ok k \<and> clk_events k = sort_key event_key es"
    using market_clock_new_ok [OF assms(1)] assms(1) by (auto simp: market_clock_new_def err_simps)
  show "clock_ok s' \<and> clk_events s' = sort_key event_key es"
    if "clock_ok s \<and> clk_events s = sort_key event_key es"
      "ebind (advance_to et_date (Aware x) s) (\<lambda>(k', _). Inr k') = Inr s'" for x s s'
  proof -
    from that(2) obtain sn where "advance_to et_date (Aware x) s = Inr (s', sn)"
      by (auto simp: err_simps)
    from advance_to_ok(1,2) [OF _ this] that(1) show ?thesis by simp
  qed
qed

lemma snapshot_at:
  assumes "market_clock_new et_date c es = Inr k"
    and "efold (\<lambda>t k. ebind (advance_to et_date (Aware t) k) (\<lambda>(k', _). Inr k')) ts k = Inr k1"
    and "advance_to et_date (Aware now) k1 = Inr (k2, snap)" "t \<le> now"
  shows "filter (\<lambda>e. ev_available_at e \<le> t) (snap_visible snap) =
    filter (\<lambda>e. ev_available_at e \<le> t) (sort_key event_key es)"
proof -
  note ok = clock_run_ok [OF assms(1,2)]
  note ok2 = advance_to_ok(1,2) [OF conjunct1 [OF ok] assms(3)]
  from assms(3) have "snap_visible snap = clk_visible k2 \<and> clk_now k2 = Some now"
    by (rule advance_to_Inr) auto
  then have "snap_visible snap = filter (\<lambda>e. ev_available_at e \<le> now) (sort_key event_key es)"
    using clock_ok_visible [OF ok2(1)] ok2(2) ok by simp
  with assms(4) show ?thesis by (auto simp: filter_filter intro!: filter_cong)
qed

section \<open>Published series\<close>

text \<open>
  The completed bars of one instrument and resolution that are published by an instant, in the order of
  the events.
\<close>

definition visible_bar ::
  "string \<Rightarrow> string \<Rightarrow> instant \<Rightarrow> payload event \<Rightarrow> (instant \<times> instant series_bar) option" where
  "visible_bar iid res t e =
     (case ev_payload e of
        OtherPayload \<Rightarrow> None
      | BarPayload _ r b \<Rightarrow>
          if ev_event_type e = ''BAR_CLOSED'' \<and> ev_available_at e \<le> t \<and> ev_instrument_id e = iid \<and> r = res
          then Some (ev_occurred_at e, b) else None)"

definition visible_bars ::
  "string \<Rightarrow> string \<Rightarrow> instant \<Rightarrow> payload event list \<Rightarrow> (instant \<times> instant series_bar) list" where
  "visible_bars iid res t events = List.map_filter (visible_bar iid res t) events"

lemma lookup_group_put:
  "lookup_list (group_put k x d) j = lookup_list d j @ (if j = k then [x] else [])"
  by (simp add: lookup_list_def group_put_def)

lemma group_put_keys: "distinct (map fst d) \<Longrightarrow> distinct (map fst (group_put k x d))"
  by (simp add: group_put_def)

lemma group_events_from:
  assumes "efold (group_event t) events g0 = Inr g" "distinct (map fst (bg_payloads g0))"
  shows "distinct (map fst (bg_payloads g)) \<and>
    lookup_list (bg_payloads g) (iid, res) = lookup_list (bg_payloads g0) (iid, res) @ visible_bars iid res t events"
  using assms
proof (induction events arbitrary: g0)
  case (Cons e events)
  from Cons.prems(1) obtain g1 where g1: "group_event t e g0 = Inr g1" "efold (group_event t) events g1 = Inr g"
    by (auto simp: err_simps)
  have "distinct (map fst (bg_payloads g1)) \<and>
    lookup_list (bg_payloads g1) (iid, res) = lookup_list (bg_payloads g0) (iid, res) @ visible_bars iid res t [e]"
    using g1(1) Cons.prems(2)
    by (cases "ev_payload e") (auto simp: group_event_def bar_visible_def BAR_CLOSED_EVENT_TYPE_def bar_of_def visible_bars_def visible_bar_def
        map_filter_simps
        lookup_group_put group_put_keys split: if_splits)
  with Cons.IH [OF g1(2)] show ?case by (auto simp: visible_bars_def map_filter_simps split: option.splits)
qed (simp add: visible_bars_def map_filter_simps)

lemma publish_series_other:
  "r \<noteq> res \<Longrightarrow> map_of (publish_series t r bars values) (''closes.'' @ res) = map_of values (''closes.'' @ res)"
  "r \<noteq> res \<Longrightarrow> map_of (publish_series t r bars values) (''volumes.'' @ res) = map_of values (''volumes.'' @ res)"
  by (simp_all add: publish_series_def Let_def)

lemma publish_series_own:
  "map_of (publish_series t res bars values) (''closes.'' @ res) =
     Some (join_text '','' (map (\<lambda>(_, b). dec_str (sb_close b)) (live_window bars)))"
  "map_of (publish_series t res bars values) (''volumes.'' @ res) =
     Some (join_text '','' (map (\<lambda>(_, b). dec_str (sb_volume b)) (live_window bars)))"
  by (simp_all add: publish_series_def Let_def)

definition publish_one ::
  "string \<Rightarrow> instant \<Rightarrow> (string \<times> string) \<times> (instant \<times> instant series_bar) list \<Rightarrow> texts \<Rightarrow> texts" where
  "publish_one iid t = (\<lambda>((candidate, res), events) values.
     if candidate \<noteq> iid then values else publish_series t res events values)"

lemma fold_keeps:
  "(\<And>p vs. p \<in> set ps \<Longrightarrow> map_of (f p vs) k = map_of vs k) \<Longrightarrow> map_of (fold f ps vs) k = map_of vs k"
  by (induction ps arbitrary: vs) auto

lemma publish_one_other:
  assumes "fst p \<noteq> (iid, res)"
  shows "map_of (publish_one iid t p vs) (''closes.'' @ res) = map_of vs (''closes.'' @ res)"
    "map_of (publish_one iid t p vs) (''volumes.'' @ res) = map_of vs (''volumes.'' @ res)"
proof -
  obtain c r bars where p: "p = ((c, r), bars)" by (metis surj_pair)
  have "publish_one iid t p vs = vs \<or> r \<noteq> res \<and> publish_one iid t p vs = publish_series t r bars vs"
    using assms by (auto simp: p publish_one_def)
  then show "map_of (publish_one iid t p vs) (''closes.'' @ res) = map_of vs (''closes.'' @ res)"
    "map_of (publish_one iid t p vs) (''volumes.'' @ res) = map_of vs (''volumes.'' @ res)"
    by (metis publish_series_other)+
qed

lemma publish_others:
  assumes "(iid, res) \<notin> fst ` set payloads"
  shows "map_of (fold (publish_one iid t) payloads vs) (''closes.'' @ res) = map_of vs (''closes.'' @ res)"
    "map_of (fold (publish_one iid t) payloads vs) (''volumes.'' @ res) = map_of vs (''volumes.'' @ res)"
  by (rule fold_keeps, rule publish_one_other, use assms in force)+

lemma publish_one_own: "publish_one iid t ((iid, res), bars) vs = publish_series t res bars vs"
  by (simp add: publish_one_def)

lemma published_values_own:
  assumes "distinct (map fst payloads)" "map_of payloads (iid, res) = Some bars"
  shows "map_of (published_values iid payloads t rv sv) (''closes.'' @ res) =
      Some (join_text '','' (map (\<lambda>(_, b). dec_str (sb_close b)) (live_window bars)))"
    "map_of (published_values iid payloads t rv sv) (''volumes.'' @ res) =
      Some (join_text '','' (map (\<lambda>(_, b). dec_str (sb_volume b)) (live_window bars)))"
proof -
  from assms(2) obtain xs ys where p: "payloads = xs @ ((iid, res), bars) # ys"
    by (meson map_of_SomeD split_list)
  with assms(1) have "(iid, res) \<notin> fst ` set ys" by auto
  note others = publish_others [OF this]
  have eq: "published_values iid payloads t rv sv = fold (publish_one iid t) ys
      (publish_one iid t ((iid, res), bars) (fold (publish_one iid t) xs (fold (\<lambda>(k, v). dict_put k v) rv sv)))"
    by (simp add: published_values_def publish_one_def p)
  show "map_of (published_values iid payloads t rv sv) (''closes.'' @ res) =
      Some (join_text '','' (map (\<lambda>(_, b). dec_str (sb_close b)) (live_window bars)))"
    "map_of (published_values iid payloads t rv sv) (''volumes.'' @ res) =
      Some (join_text '','' (map (\<lambda>(_, b). dec_str (sb_volume b)) (live_window bars)))"
    unfolding eq others publish_one_own publish_series_own by (rule refl)+
qed

lemma series_items_texts: "series_items key op (map dec_str ds) = Inr ds"
  by (induction ds) (simp_all add: parse_decimal_dec_str dec_str_chars)

lemma series_values_texts:
  assumes "map_of (ii_values (el_inputs e)) key = Some (join_text '','' (map dec_str ds))" "ds \<noteq> []"
    and "required \<le> int (length ds)"
  shows "series_values e key required op = Inr ds"
proof -
  have nocomma: "\<forall>x\<in>set (map dec_str ds). CHR '','' \<notin> set x"
    using dec_str_chars(1) number_char_facts(3) by fastforce
  have sp: "split_char CHR '','' (join_text '','' (map dec_str ds)) = map dec_str ds"
    by (rule split_char_join) (use assms(2) nocomma in auto)
  obtain d ds' where ds: "ds = d # ds'" using assms(2) by (cases ds) auto
  have "hd (join_text '','' (map dec_str ds)) = hd (dec_str d)" "join_text '','' (map dec_str ds) \<noteq> []"
    using dec_str_chars(2) [of d] by (cases ds'; simp add: ds)+
  moreover have "hd (dec_str d) \<notin> set py_whitespace"
    using dec_str_chars [of d] number_char_facts(1) by auto
  ultimately have "\<not> blank (join_text '','' (map dec_str ds))"
    unfolding blank_def by (metis hd_in_set)
  then have "input_value e key op = Inr (join_text '','' (map dec_str ds))"
    by (simp add: input_value_def assms(1))
  with assms(3) show ?thesis by (simp add: series_values_def sp series_items_texts)
qed

lemma emap_keyed:
  "emap (\<lambda>x. ebind (f x) (\<lambda>y. Inr (x, y))) xs = Inr ys \<Longrightarrow> map_of ys x = Some y \<Longrightarrow> f x = Inr y"
  by (induction xs arbitrary: ys) (auto simp: err_simps split: if_splits)

lemma instrument_input_values:
  assumes "instrument_input_of g by_instrument features pinned rv sv t iid = Inr inp"
  shows "ii_values inp = published_values iid (bg_payloads g) t (lookup_list rv iid) sv"
  using assms by (auto simp: instrument_input_of_def instrument_input_new_def err_simps map_err_def split: sum.splits)

lemma inputs_values:
  assumes "instrument_inputs fs pinned rv sv t events = Inr inputs" "map_of inputs iid = Some inp"
  obtains g where "group_events t events = Inr g"
    "ii_values inp = published_values iid (bg_payloads g) t (lookup_list rv iid) sv"
proof -
  from assms(1) obtain g by_instrument ids where g: "group_events t events = Inr g"
    and e: "emap (\<lambda>iid. ebind (instrument_input_of g by_instrument (features_by_instrument fs) pinned rv sv t iid)
       (\<lambda>i. Inr (iid, i))) ids = Inr inputs"
    by (auto simp: instrument_inputs_def err_simps Let_def)
  from instrument_input_values [OF emap_keyed [OF e assms(2)]] g that show ?thesis by blast
qed

lemma group_events_lookup:
  assumes "group_events t events = Inr g" "visible_bars iid res t events \<noteq> []"
  shows "distinct (map fst (bg_payloads g))" "map_of (bg_payloads g) (iid, res) = Some (visible_bars iid res t events)"
  using group_events_from [OF assms(1) [unfolded group_events_def], of iid res] assms(2)
  by (auto simp: lookup_list_def split: option.splits)

lemma live_window_length: "length (live_window bars) = min 180 (length bars)"
  by (simp add: live_window_def LIVE_SERIES_BARS_def)

lemma live_window_is_suffix: "\<exists>older. older @ live_window bars = sort_key fst bars"
  unfolding live_window_def by (metis append_take_drop_id)

lemma run_evaluations_occurred:
  "run_evaluations et_date uuid5 on_step r steps m = Inr (es, m') \<Longrightarrow> map pe_occurred_at es = map (fst \<circ> snd) steps"
proof (induction steps arbitrary: m es)
  case (Cons s steps)
  obtain rv t visible where s: "s = (rv, t, visible)" by (cases s)
  from Cons.prems obtain e rest m1 where "evaluate_at et_date uuid5 on_step r rv t visible m = Inr (e, m1)"
    "run_evaluations et_date uuid5 on_step r steps m1 = Inr (rest, m')" "es = e # rest"
    unfolding s by (rule run_evaluations_Cons_Inr)
  with Cons.IH show ?case by (simp add: s evaluate_at_occurred)
qed simp

section \<open>Properties\<close>

text \<open>
  C9. The execution gate of a gating catalog holds over the whole life of a replay. After any earlier
  evaluations, take any further run of evaluations during which the published position identity
  (\<open>position.openedAt\<close>) of an instrument does not change: one position, or one flat stretch. In it
  a flow's accepted candidates for that instrument never outnumber what the plan allows, one in
  mode \<open>ONCE\<close> and \<open>maxExecutions\<close> otherwise, whatever bars, decisions and data gaps it meets.
\<close>

theorem execution_policy_respects_limits:
  assumes "ec_execution_gate (cp_catalog (rp_plan r))"
    "run_evaluations et_date uuid5 on_step r earlier replay_memory_new = Inr (es0, m)"
    "run_evaluations et_date uuid5 on_step r cycle m = Inr (es, m')"
    "\<forall>(rv, t, visible)\<in>set cycle. position_identity rv iid = opened_at"
    "\<forall>e\<in>set es. \<forall>c\<in>set (pe_candidates e). oc_flow_id c = flow_id \<and> oc_instrument_id c = iid \<longrightarrow>
      (if oc_execution_mode c = ONCE then 1 else oc_max_executions c) \<le> int n"
  shows "length (filter (\<lambda>c. oc_flow_id c = flow_id \<and> oc_instrument_id c = iid) (concat (map pe_candidates es))) \<le> n"
proof -
  let ?k = "(flow_id, iid)"
  have key: "candidate_key c = ?k \<longleftrightarrow> oc_flow_id c = flow_id \<and> oc_instrument_id c = iid" for c :: "instant order_candidate"
    by (simp add: candidate_key_def)
  have "0 \<le> xs_executions (gate_state m ?k)"
    by (rule run_evaluations_nonneg [OF assms(2,1)])
      (simp add: gate_state_def state_of_def replay_memory_new_def execution_state_new_def)
  then have "0 \<le> granted_in opened_at ?k m" by (simp add: granted_in_def)
  moreover have "\<forall>c\<in>set (concat (map pe_candidates es)). candidate_key c = ?k \<longrightarrow> execution_limit c \<le> int n"
    using assms(5) by (auto simp: key execution_limit_def)
  then have "accepted_for ?k (concat (map pe_candidates es)) = 0 \<or>
      granted_in opened_at ?k m + accepted_for ?k (concat (map pe_candidates es)) \<le> int n"
    by (rule cycle_bounded [OF assms(3,1), rotated]) (use assms(4) in auto)
  ultimately have "accepted_for ?k (concat (map pe_candidates es)) \<le> int n" by auto
  then show ?thesis by (simp add: accepted_for_def key)
qed

text \<open>
  C30. The gate is counted per published identity, not per position. Whenever the identity the replay
  remembers for an instrument differs from the one now published, its counters are dropped before
  the policy is applied, so the flow's next candidate is accepted however often it has traded: in
  particular a flow in mode \<open>ONCE\<close> that bought while flat may buy again as soon as the position it
  opened is published.
\<close>

theorem changed_identity_reopens_the_gate:
  assumes "ec_execution_gate catalog" "known_identity m (oc_instrument_id c) \<noteq> position_identity rv (oc_instrument_id c)"
    "oc_execution_mode c = ONCE \<or> 1 \<le> oc_max_executions c"
  shows "fst (apply_execution_policy catalog index ds [c] (mem_execution_states (retire_closed_position_gates rv m))) = [c]"
proof -
  let ?k = "candidate_key c" and ?s = "mem_execution_states (retire_closed_position_gates rv m)"
  have "state_of ?s ?k = execution_state_new"
    using retire_state [of rv m ?k] assms(2) by (simp add: gate_state_def candidate_key_def)
  then have "xs_executions (state_of (observe_decisions {?k} ds ?s) ?k) = 0"
    by (simp add: observe_decisions_executions execution_state_new_def)
  then have "fst (accepts c (index (oc_session_date_et c)) (state_of (observe_decisions {?k} ds ?s) ?k)) = True"
    using assms(3) by (auto simp: accepts_def count_bar_def eligible_now_def execution_limit_def Let_def)
  with assms(1) show ?thesis by (simp add: apply_execution_policy_def case_prod_beta Let_def)
qed

text \<open>
  C8. An evaluation never looks ahead. At whatever later instant the replay discovers a bar close,
  the evaluation at that close is the one on exactly the bars of the pinned stream that were
  available at the close: later publications in the snapshot change neither the decisions nor the
  candidates nor the replay's memory.
\<close>

theorem evaluation_sees_only_published_bars:
  assumes "market_clock_new et_date c es = Inr k"
    "efold (\<lambda>t k. ebind (advance_to et_date (Aware t) k) (\<lambda>(k', _). Inr k')) ts k = Inr k1"
    "advance_to et_date (Aware now) k1 = Inr (k2, snap)" "t \<le> now"
  shows "evaluate_at et_date uuid5 on_step r rv t (snap_visible snap) m =
    evaluate_at et_date uuid5 on_step r rv t (filter (\<lambda>e. ev_available_at e \<le> t) (sort_key event_key es)) m"
  using evaluate_at_available [of et_date uuid5 on_step r rv t "snap_visible snap" m]
  unfolding snapshot_at [OF assms] by (rule sym)

text \<open>
  C28. The series a strategy reads are the bars themselves. What an element parses back from the
  published text of closes (or volumes) of a resolution is exactly the closes (volumes) of the
  instrument's bars of that resolution published by the instant, in the order of their closes: all
  of them, or the newest 180 where there are more, as long as the element asks for no more than that.
\<close>

theorem published_series_round_trip:
  assumes "instrument_inputs fs pinned rv sv t events = Inr inputs" "map_of inputs iid = Some (el_inputs e)"
    "bars = visible_bars iid res t events" "bars \<noteq> []" "required \<le> int (min 180 (length bars))"
  shows "\<exists>older newest. older @ newest = sort_key fst bars \<and> length newest = min 180 (length bars) \<and>
    series_values e (''closes.'' @ res) required op = Inr (map (sb_close \<circ> snd) newest) \<and>
    series_values e (''volumes.'' @ res) required op = Inr (map (sb_volume \<circ> snd) newest)"
proof -
  from assms(1,2) obtain g where g: "group_events t events = Inr g"
    and v: "ii_values (el_inputs e) = published_values iid (bg_payloads g) t (lookup_list rv iid) sv"
    by (rule inputs_values)
  note lk = group_events_lookup [OF g assms(4) [unfolded assms(3)], folded assms(3)]
  have len: "length (live_window bars) = min 180 (length bars)" by (rule live_window_length)
  then have ne: "live_window bars \<noteq> []" using assms(4) by (auto simp: min_def split: if_splits)
  note own = published_values_own [OF lk, of t "lookup_list rv iid" sv, folded v]
  have "series_values e (''closes.'' @ res) required op = Inr (map (sb_close \<circ> snd) (live_window bars))"
    by (rule series_values_texts) (use own(1) ne len assms(5) in \<open>simp_all add: comp_def case_prod_unfold\<close>)
  moreover have "series_values e (''volumes.'' @ res) required op = Inr (map (sb_volume \<circ> snd) (live_window bars))"
    by (rule series_values_texts) (use own(2) ne len assms(5) in \<open>simp_all add: comp_def case_prod_unfold\<close>)
  ultimately show ?thesis using live_window_is_suffix [of bars] len by blast
qed

text \<open>
  C10. The replay ends, and evaluates every bar close exactly once. \<open>run\<close> is the plain sequence of
  evaluations with one evaluation for every distinct \<open>occurred_at\<close> instant of the stream, in the order
  in which the closes are first published (ascending where they are published together), each on
  exactly the events available at its close and with the memory its predecessor left. It returns their
  results in the order of the instants, or raises what the first failing evaluation raises; the clock
  itself never stops it, however late the events were published and however many share an instant.
\<close>

theorem replay_evaluates_each_close_once:
  assumes "market_clock_new et_date c es = Inr k" "plan_replay_new p k a fs pinned = Inr pr"
  shows "case run_evaluations et_date uuid5 on_step (pr_replay pr)
      (map (\<lambda>t. ([], t, filter (\<lambda>e. ev_available_at e \<le> t) (sort_key event_key es)))
        (sort_key (first_available es) (sorted_list_of_set (ev_occurred_at ` set es)))) replay_memory_new of
    Inl err \<Rightarrow> replay_run et_date uuid5 on_step pr = Inl err
  | Inr (evaluations, m) \<Rightarrow> \<exists>pr'. replay_run et_date uuid5 on_step pr = Inr (sort_key pe_occurred_at evaluations, pr') \<and>
      map pe_occurred_at (sort_key pe_occurred_at evaluations) = sorted_list_of_set (ev_occurred_at ` set es)"
proof -
  have k: "clk_cursor k = 0" "clk_events k = sort_key event_key es" and ok: "clock_ok k"
    and valid: "validate_events et_date c es [] [] = Inr ()"
    using assms(1) market_clock_new_ok [OF assms(1)] by (auto simp: market_clock_new_def err_simps)
  have pr: "pr_clock pr = k" "pr_evaluations pr = None" "pr_memory pr = replay_memory_new"
    using assms(2) by (auto simp: plan_replay_new_def err_simps)
  have "\<forall>e\<in>set (clk_events k). ev_occurred_at e \<le> ev_available_at e"
    using valid by (simp add: k validate_events_iff)
  note loop = replay_loop_run [OF ok this refl]
  have first: "first_available (sort_key event_key es) = first_available es"
    by (simp add: first_available_def fun_eq_iff)
  let ?ts = "sort_key (first_available es) (sorted_list_of_set (ev_occurred_at ` set es))"
  let ?run = "run_evaluations et_date uuid5 on_step (pr_replay pr)
      (map (\<lambda>t. ([], t, filter (\<lambda>e. ev_available_at e \<le> t) (sort_key event_key es))) ?ts) replay_memory_new"
  obtain kf where run: "replay_loop et_date uuid5 on_step (pr_replay pr) k {} [] replay_memory_new =
      ebind ?run (\<lambda>(es, m'). Inr (sort_key pe_occurred_at es, kf, m'))"
    using loop [of et_date uuid5 on_step "pr_replay pr" "[]" replay_memory_new]
    by (auto simp: k first in_publication_order_def at_close_def [abs_def])
  show ?thesis
  proof (cases ?run)
    case (Inl err)
    then show ?thesis by (simp add: replay_run_def pr run)
  next
    case (Inr q)
    obtain evs m where q: "q = (evs, m)" by (cases q)
    have occ: "map pe_occurred_at evs = ?ts"
      using run_evaluations_occurred [OF Inr [unfolded q]] by (simp add: comp_def)
    have "map pe_occurred_at (sort_key pe_occurred_at evs) = sorted_list_of_set (ev_occurred_at ` set es)"
    proof (rule sorted_distinct_set_unique)
      have m: "mset (map pe_occurred_at (sort_key pe_occurred_at evs)) = mset ?ts" by (simp add: occ [symmetric])
      from mset_eq_imp_distinct_iff [OF m] show "distinct (map pe_occurred_at (sort_key pe_occurred_at evs))" by simp
      from mset_eq_setD [OF m]
      show "set (map pe_occurred_at (sort_key pe_occurred_at evs)) = set (sorted_list_of_set (ev_occurred_at ` set es))" by simp
    qed simp_all
    then show ?thesis by (simp add: Inr q replay_run_def pr run)
  qed
qed

section \<open>Witnesses\<close>

theorem execution_policy_respects_limits_witness:
  "\<exists>e1 e2 m'. run_evaluations (\<lambda>_. 1) (\<lambda>_. ''e'') (\<lambda>_ _. None) bar_replay
       [([], 86400000000, [bar_event]), ([], 86400000000, [bar_event])] replay_memory_new = Inr ([e1, e2], m') \<and>
     pe_candidates e1 @ pe_candidates e2 = [bar_candidate]"
proof -
  let ?at = "evaluate_at (\<lambda>_. 1) (\<lambda>_. ''e'') (\<lambda>_ _. None) bar_replay [] 86400000000 [bar_event]"
  from bar_evaluate [of "[]" replay_memory_new] obtain e1 m1 where e1: "?at replay_memory_new = Inr (e1, m1)"
    "apply_execution_policy BASIC_ELEMENTS_2026_08_07 [1 \<mapsto> 0] [bar_decision] [bar_candidate]
      (mem_execution_states (retire_closed_position_gates [] replay_memory_new)) = (pe_candidates e1, mem_execution_states m1)" by auto
  from bar_evaluate [of "[]" m1] obtain e2 m2 where e2: "?at m1 = Inr (e2, m2)"
    "apply_execution_policy BASIC_ELEMENTS_2026_08_07 [1 \<mapsto> 0] [bar_decision] [bar_candidate]
      (mem_execution_states (retire_closed_position_gates [] m1)) = (pe_candidates e2, mem_execution_states m2)" by auto
  have some: "pe_candidates e1 \<in> {[], [bar_candidate]}" "pe_candidates e2 \<in> {[], [bar_candidate]}"
    using bar_accepted e1(2) e2(2) by (metis fst_conv)+
  have once: "pe_candidates e1 = [bar_candidate]" using e1(2) by (rule bar_first_accepted)
  have run: "run_evaluations (\<lambda>_. 1) (\<lambda>_. ''e'') (\<lambda>_ _. None) bar_replay
      [([], 86400000000, [bar_event]), ([], 86400000000, [bar_event])] replay_memory_new = Inr ([e1, e2], m2)"
    using e1(1) e2(1) by simp
  have "length (filter (\<lambda>c. oc_flow_id c = ''f'' \<and> oc_instrument_id c = uuid_text 1) (concat (map pe_candidates [e1, e2]))) \<le> 1"
    by (rule execution_policy_respects_limits [OF bar_gates(1) run_evaluations.simps(1) run, of "uuid_text 1" None "''f''"])
      (use some in \<open>auto simp: position_identity_def bar_candidate_facts\<close>)
  with some(2) have "pe_candidates e2 = []" by (auto simp: once bar_candidate_facts)
  with run once show ?thesis by auto
qed

theorem changed_identity_reopens_the_gate_witness:
  "\<exists>e1 e2 m'. run_evaluations (\<lambda>_. 1) (\<lambda>_. ''e'') (\<lambda>_ _. None) bar_replay
       [([], 86400000000, [bar_event]), (held, 86400000000, [bar_event])] replay_memory_new = Inr ([e1, e2], m') \<and>
     pe_candidates e2 = [bar_candidate]"
proof -
  let ?at = "\<lambda>rv. evaluate_at (\<lambda>_. 1) (\<lambda>_. ''e'') (\<lambda>_ _. None) bar_replay rv 86400000000 [bar_event]"
  from bar_evaluate [of "[]" replay_memory_new] obtain e1 m1 where e1: "?at [] replay_memory_new = Inr (e1, m1)"
    "known_identity m1 = position_identity []" by auto
  from bar_evaluate [of held m1] obtain e2 m2 where e2: "?at held m1 = Inr (e2, m2)"
    "apply_execution_policy BASIC_ELEMENTS_2026_08_07 [1 \<mapsto> 0] [bar_decision] [bar_candidate]
      (mem_execution_states (retire_closed_position_gates held m1)) = (pe_candidates e2, mem_execution_states m2)" by auto
  have "known_identity m1 (oc_instrument_id bar_candidate) \<noteq> position_identity held (oc_instrument_id bar_candidate)"
    by (simp add: e1(2) position_identity_def held_def bar_candidate_facts)
  from changed_identity_reopens_the_gate [OF bar_gates(2) this, of "[1 \<mapsto> 0]" "[bar_decision]"] e2(2)
  have "pe_candidates e2 = [bar_candidate]" by (simp add: bar_candidate_facts)
  with e1(1) e2(1) show ?thesis by simp
qed

definition trade_event :: "string \<Rightarrow> instant \<Rightarrow> instant \<Rightarrow> payload event" where
  "trade_event i occurred available = \<lparr>ev_event_id = i, ev_instrument_id = uuid_text 1, ev_occurred_at = occurred,
     ev_available_at = available, ev_source_sequence = 1, ev_event_type = ''TRADE'', ev_payload = OtherPayload\<rparr>"

definition trade_events :: "payload event list" where
  "trade_events = [trade_event ''b'' 130 130, trade_event ''a'' 120 135]"

lemma trade_clock_new: "\<exists>k. market_clock_new demo_date demo_schedule trade_events = Inr k"
  by (simp add: market_clock_new_def trade_events_def trade_event_def in_official_session_def session_at_def
      demo_schedule_def demo_date_def session_contains_def demo_session_def)

theorem evaluation_sees_only_published_bars_witness:
  "\<exists>k k1 snap. market_clock_new demo_date demo_schedule trade_events = Inr k \<and>
     advance_to demo_date (Aware 135) k = Inr (k1, snap) \<and>
     (\<forall>r m. evaluate_at demo_date (\<lambda>s. s) (\<lambda>_ _. None) r [] 130 (snap_visible snap) m =
       evaluate_at demo_date (\<lambda>s. s) (\<lambda>_ _. None) r [] 130 [trade_event ''b'' 130 130] m)"
proof -
  from trade_clock_new obtain k where k: "market_clock_new demo_date demo_schedule trade_events = Inr k" ..
  then have "clk_now k = None" by (auto simp: market_clock_new_def err_simps)
  then obtain k1 snap where a: "advance_to demo_date (Aware 135) k = Inr (k1, snap)"
    by (simp add: advance_to_def clock_utc_def Let_def case_prod_beta)
  have "filter (\<lambda>e. ev_available_at e \<le> 130) (sort_key event_key trade_events) = [trade_event ''b'' 130 130]"
    by (simp add: trade_events_def trade_event_def event_key_def insort_key.simps)
  with evaluation_sees_only_published_bars [OF k, of "[]", OF _ a, of 130 "\<lambda>s. s" "\<lambda>_ _. None" _ "[]"] k a
  show ?thesis by auto
qed

definition late_bar :: "payload event" where
  "late_bar = bar_event\<lparr>ev_event_id := ''b'', ev_instrument_id := uuid_text 2, ev_available_at := 86400000100,
     ev_payload := BarPayload ''ADJUSTED_BAR'' ''1d'' (daily_bar\<lparr>sb_instrument_id := uuid_text 2\<rparr>)\<rparr>"

text \<open>Two bars of one close, the second published late: one evaluation, on the first alone.\<close>

theorem replay_evaluates_each_close_once_witness:
  "\<exists>k pr e pr'. market_clock_new (\<lambda>_. 1) bar_schedule [late_bar, bar_event] = Inr k \<and>
     plan_replay_new bar_plan k clear_assessment [] False = Inr pr \<and>
     replay_run (\<lambda>_. 1) (\<lambda>_. ''e'') (\<lambda>_ _. None) pr = Inr ([e], pr') \<and> pe_occurred_at e = 86400000000 \<and>
     pe_candidates e = [bar_candidate]"
proof -
  let ?es = "[late_bar, bar_event]"
  obtain k where k: "market_clock_new (\<lambda>_. 1) bar_schedule ?es = Inr k"
    by (simp add: market_clock_new_def late_bar_def bar_event_def in_official_session_def session_at_def
      bar_schedule_def session_contains_def bar_session_def)
  then have c: "clk_schedule k = bar_schedule" by (auto simp: market_clock_new_def err_simps)
  let ?pr = "\<lparr>pr_replay = bar_replay, pr_clock = k, pr_memory = replay_memory_new, pr_evaluations = None\<rparr>"
  have pr: "plan_replay_new bar_plan k clear_assessment [] False = Inr ?pr"
    by (simp add: plan_replay_new_def c bar_replay_new)
  have "ev_occurred_at ` set ?es = {86400000000}" by (simp add: late_bar_def bar_event_def)
  then have ts: "sort_key (first_available ?es) (sorted_list_of_set (ev_occurred_at ` set ?es)) = [86400000000]" by simp
  have available: "filter (\<lambda>e. ev_available_at e \<le> 86400000000) (sort_key event_key ?es) = [bar_event]"
    by (simp add: late_bar_def bar_event_def event_key_def insort_key.simps)
  from bar_evaluate [of "[]" replay_memory_new] obtain e m' where
    e: "evaluate_at (\<lambda>_. 1) (\<lambda>_. ''e'') (\<lambda>_ _. None) bar_replay [] 86400000000 [bar_event] replay_memory_new = Inr (e, m')"
    "pe_occurred_at e = 86400000000"
    "apply_execution_policy BASIC_ELEMENTS_2026_08_07 [1 \<mapsto> 0] [bar_decision] [bar_candidate]
      (mem_execution_states (retire_closed_position_gates [] replay_memory_new)) = (pe_candidates e, mem_execution_states m')" by auto
  from replay_evaluates_each_close_once [OF k pr, of "\<lambda>_. ''e''" "\<lambda>_ _. None"]
  have "\<exists>pr'. replay_run (\<lambda>_. 1) (\<lambda>_. ''e'') (\<lambda>_ _. None) ?pr = Inr ([e], pr')"
    by (simp only: ts list.map available plan_replay.simps run_evaluations.simps e) simp
  with k pr e(2) bar_first_accepted [OF e(3)] show ?thesis by blast
qed

theorem published_series_round_trip_witness:
  "\<exists>inp. instrument_inputs [] False [] [] 86400000000 [bar_event] = Inr [(uuid_text 1, inp)] \<and>
     series_values (demo_evaluation\<lparr>el_inputs := inp\<rparr>) (''closes.'' @ ''1d'') 1 ''PRICE_COMPARE'' = Inr [dec_of_int 10]"
proof -
  from bar_inputs [of "[]" "[]"] obtain inp where
    i: "instrument_inputs [] False [] [] 86400000000 [bar_event] = Inr [(uuid_text 1, inp)]" by blast
  let ?e = "demo_evaluation\<lparr>el_inputs := inp\<rparr>"
  have m: "map_of [(uuid_text 1, inp)] (uuid_text 1) = Some (el_inputs ?e)" by simp
  have v: "visible_bars (uuid_text 1) ''1d'' 86400000000 [bar_event] = [(86400000000, daily_bar)]"
    by (simp add: visible_bars_def visible_bar_def bar_event_def BAR_CLOSED_EVENT_TYPE_def map_filter_simps)
  have c: "sb_close daily_bar = dec_of_int 10" by (simp add: daily_bar_def)
  from published_series_round_trip [OF i m v [symmetric], of 1 "''PRICE_COMPARE''"] obtain older newest where
    "older @ newest = [(86400000000 :: instant, daily_bar)]" "length newest = 1"
    "series_values ?e (''closes.'' @ ''1d'') 1 ''PRICE_COMPARE'' = Inr (map (sb_close \<circ> snd) newest)" by auto
  moreover from this(1,2) have "newest = [(86400000000, daily_bar)]" by (cases older) auto
  ultimately show ?thesis using i c by simp
qed

end
