(* ===== verification/Spec2Isabelle.thy ===== *)
theory Spec2Isabelle
  imports Exec_Quantities Attempt_Coordinator Worker_Safety Worker_Environment Metric_Rules
    Session_Calendar Catalog_Rules Replay_Rules
begin

text \<open>
  Verification of the Idea2Strategy backtest engine (\<open>src/src/backtest_engine\<close>), a Python service
  that replays a trading strategy over pinned market data and publishes its result.

  \<^bold>\<open>The program.\<close> A queue message names a run. The worker (\<open>worker.py\<close>) claims its execution key,
  starts the handler and keeps the message invisible with a heartbeat thread; the attempt
  coordinator (\<open>attempt_coordinator.py\<close>) owns the attempts and leases of the run. The handler loads
  the compiled strategy plan (\<open>basic_runtime.py\<close>, \<open>elements/\<close>), checks the pinned data
  (\<open>data_availability.py\<close>), moves a simulation clock over the market events (\<open>event_clock.py\<close>) of the
  official sessions (\<open>calendar/\<close>) and evaluates the plan at every bar close. The order candidates
  it emits go to the execution model (\<open>execution_model.py\<close>), which fills them from bars under an
  execution policy (\<open>execution_policy.py\<close>) in quantized money (\<open>money.py\<close>).
  The fills become an equity curve and metrics (\<open>performance/\<close>). A controller scales idle workers
  down (\<open>scale_down.py\<close>).

  \<^bold>\<open>Modelling conventions\<close> (theory Prelude). A call that may raise returns \<open>'e + 'a\<close>, \<open>Inl\<close> the
  exception; \<open>ebind\<close> sequences such calls. An operation that may change an object and then raise is
  an \<open>action\<close>, which returns the state it leaves in either case. An instant is its number of
  microseconds; a naive \<open>datetime\<close> is a separate constructor that the \<open>_utc\<close> helpers reject. A dict
  is an association list in insertion order. \<open>Decimal\<close> values (theory Py_Decimal) are sign,
  coefficient and exponent with the arithmetic of the standard library at a given precision; text
  conversions are in Py_Text. Classes are records; a constructor that validates is \<open><class>_new\<close>.

  \<^bold>\<open>Theories.\<close>

  \<^item> Money: \<open>money.py\<close>. Quantization is half-even rounding to eight decimals, inside
    \<open>numeric(24,8)\<close>.
  \<^item> Execution_Policy: \<open>execution_policy.py\<close>. The policy catalog is an interpretation of the locale
    \<open>unique_index\<close> of Prelude, by quarter and by version.
  \<^item> Exec_Types, Exec_Engine: \<open>execution_model.py\<close>, every public operation of
    \<open>BacktestExecutionModel\<close> on an explicit state. Exec_Arith and Exec_Sizing give the arithmetic
    of sizing; Exec_Orders the order book as a state machine (\<open>engine_step\<close>, \<open>reachable\<close>);
    Exec_Safety no look-ahead, price protection, expiry and frozen terminal orders; Exec_Lots and
    Exec_Ledger the lots and the double-entry ledger; Exec_Accounting the refinement of exact
    bookkeeping on rationals; Exec_Quantities conservation of quantities and the share of a bar's
    volume. Exec_Examples holds the account of the witnesses.
  \<^item> Event_Clock: \<open>event_clock.py\<close>. The schedule is a \<open>unique_index\<close> by date, the clock a
    \<open>monotone_clock\<close>; events are revealed exactly when they are available.
  \<^item> Session_Calendar: \<open>calendar/sessions.py\<close> and \<open>xnys.py\<close>, with dates as ordinals (Py_Date). The
    schedule of a calendar has exactly the pinned sessions; the XNYS data passes its own checks.
  \<^item> Element_Core, Features, Element_Catalog, Order_Candidate: \<open>elements/core.py\<close>, \<open>features.py\<close>,
    \<open>catalog.py\<close> and \<open>orders.py\<close>, over the half-up decimal context and decimal text of Dec_Context.
    RSI_14 follows its rule: exact sums, every later operation the correctly rounded rational result
    (Dec_Rounding gives rounding to a number of digits as a relation on rationals and relates the
    arithmetic to it), one quantization at the end. Catalog_Rules: a validated step never raises a
    compatibility error when it is evaluated, and what validation does not catch.
  \<^item> Basic_Runtime, Plan_Replay: \<open>basic_runtime.py\<close>. Loading, evaluation, candidates and data
    requirements; then bar events, published inputs, the execution gate and policy and the replay
    loop. Runtime_Rules: traces, buy shares, operands. Replay_Gate: the execution gate over runs of
    evaluations (\<open>run_evaluations\<close>); while the published identity of a position stays the same the
    policy keeps its limits (an interpretation of the locale \<open>counting_gate\<close>), and a changed identity
    drops the counters. Replay_Loop: the replay loop is such a run, one evaluation per bar close in
    the order of publication. Replay_Examples: one bar through the whole replay. Replay_Rules: the
    properties, with no look-ahead and the published series that reads back as the newest bars.
  \<^item> Data_Availability: \<open>data_availability.py\<close>. Interval normalisation is canonical; an assessment is
    available exactly when every requirement can be replayed at every instant.
  \<^item> Attempt_Coordinator: \<open>attempt_coordinator.py\<close>. The steps \<open>attempt_step\<close> and the public
    operations \<open>co_op\<close> with reachability; exclusive and
    fenced leases, bounded attempts, terminal runs.
  \<^item> Worker, Worker_Safety, Lane_Scheduler, Worker_Environment: \<open>worker.py\<close>. The contract of the
    execution-key store is the locale \<open>execution_store\<close>, from whose laws the safety of interleaved
    workers (\<open>worker_step\<close>) follows; the in-memory store interprets it. The lane scheduler serves
    eligible lanes in turn within its limits.
  \<^item> Scale_Down: \<open>scale_down.py\<close>. Capacity zero is asked for after, and only after, enough
    consecutive idle rounds.
  \<^item> Equity_Curve, Metrics, Metric_Rules: \<open>performance/equity_curve.py\<close>, \<open>catalog.py\<close> and
    \<open>metrics.py\<close>: the curve never looks ahead and is re-derived from its own series, the metrics
    follow the written rules of the catalogue.

  \<^bold>\<open>Parameters.\<close> Code outside \<open>src/\<close> is an argument of the definitions that use it: \<open>uuid5\<close>, the time
  zone database (\<open>et_date\<close>, \<open>zone\<close>), the answers of SQS, SQL and Auto Scaling, the digest of a long
  key, conversions from and to binary floats. A property that relies on one names what it needs
  as a hypothesis, and its witness instantiates it.

  \<^bold>\<open>Bounds and fuel.\<close> No definition uses fuel. Loops that are not structural are \<open>function\<close>s with a
  termination proof: the release loop of the clock, the replay loop, FIFO consumption, the admission loop of the
  scheduler, the integer square root, text replacement. The exponent limits of \<open>decimal\<close> are not
  modelled: the values that enter are within \<open>numeric(24,8)\<close>.

  \<^bold>\<open>Modelling notes.\<close> The execution model iterates over a Python set of open order identifiers; every
  loop that depends on the order sorts first, so the model iterates in insertion order. A set
  that is only tested for membership is a list. Messages of exceptions are kept where the code's
  text is constant and shortened where it is formatted, except those of \<open>int\<close>.

  \<^bold>\<open>Not modelled.\<close> The resource monitor of \<open>attempt_coordinator.py\<close> (psutil), process start-up and signal
  handling, the SQL repositories, object stores and HTTP interface (input and output through
  libraries), parquet reading, the JSON-schema validation of a plan document, and the composition
  code of \<open>wiring.py\<close> and \<open>production.py\<close>. The result documents and the lifecycle tables over the
  database are left out: their state is the database's.
\<close>

end
